(* ===== verification/F64.thy ===== *)
theory F64
  imports Prelude
begin

text \<open>
  IEEE 754 binary64 numbers, the Rust type \<^verbatim>\<open>f64\<close>: not-a-number, the two infinities, the two
  zeros, and the non-zero finite numbers as rationals. Arithmetic is exact arithmetic on
  rationals followed by \<open>round_f64\<close>, rounding to the nearest representable number with ties to
  even, with gradual underflow and overflow to infinity. \<open>wf_f64\<close> is the type invariant (the
  rational is one of the representable ones); every operation keeps it, and rounding is the
  identity on representable numbers, so integers up to \<open>2^53\<close> are computed exactly.
\<close>

section \<open>Powers of two and the exponent of a rational\<close>

definition pow2 :: "int \<Rightarrow> rat" where
  "pow2 e = (if 0 \<le> e then 2 ^ nat e else 1 / 2 ^ nat (- e))"

lemma pow2_powi: "pow2 e = 2 powi e"
  by (auto simp: pow2_def power_int_def inverse_eq_divide power_one_over)

lemma pow2_pos [simp]: "0 < pow2 e" "pow2 e \<noteq> 0" "0 \<le> pow2 e"
  by (auto simp: pow2_powi)

lemma pow2_add: "pow2 (a + b) = pow2 a * pow2 b"
  by (simp add: pow2_powi power_int_add)

lemma pow2_0 [simp]: "pow2 0 = 1"
  by (simp add: pow2_powi)

lemma pow2_1 [simp]: "pow2 1 = 2"
  by (simp add: pow2_powi)

lemma pow2_diff: "pow2 (a - b) = pow2 a / pow2 b"
  by (simp add: pow2_powi power_int_diff)

lemma pow2_strict_mono: "a < b \<Longrightarrow> pow2 a < pow2 b"
  by (simp add: pow2_powi power_int_strict_increasing)

lemma pow2_le_iff [simp]: "pow2 a \<le> pow2 b \<longleftrightarrow> a \<le> b"
  using pow2_strict_mono [of a b] pow2_strict_mono [of b a] by (cases a b rule: linorder_cases) auto

lemma pow2_less_iff [simp]: "pow2 a < pow2 b \<longleftrightarrow> a < b"
  by (metis pow2_le_iff not_le)

lemma pow2_nat: "pow2 (int n) = 2 ^ n"
  by (simp add: pow2_def)

lemma pow2_int: "0 \<le> e \<Longrightarrow> pow2 e = of_int (2 ^ nat e)"
  by (simp add: pow2_def)

lemma pow2_code [code]:
  "pow2 e = (if 0 \<le> e then of_int (push_bit (nat e) 1) else 1 / of_int (push_bit (nat (- e)) 1))"
  by (simp add: pow2_def push_bit_eq_mult)

text \<open>\<open>ilog2 q\<close> is the exponent of the largest power of two not above a positive \<open>q\<close>.\<close>

definition ilog2 :: "rat \<Rightarrow> int" where
  "ilog2 q = (let (n, d) = quotient_of q; k = bitlen n - bitlen d
              in if pow2 k * of_int d \<le> of_int n then k else k - 1)"

lemma ilog2_bounds:
  assumes "0 < q"
  shows "pow2 (ilog2 q) \<le> q \<and> q < pow2 (ilog2 q + 1)"
proof -
  obtain n d where nd: "quotient_of q = (n, d)" by (cases "quotient_of q")
  have d: "0 < d" using nd by (rule quotient_of_denom_pos)
  have q: "q = of_int n / of_int d" using nd by (rule quotient_of_div)
  have n: "0 < n" using assms d q by (simp add: zero_less_divide_iff)
  have bounds: "pow2 (bitlen x - 1) \<le> of_int x \<and> of_int x < pow2 (bitlen x)" if "0 < x" for x
  proof -
    have b: "0 < bitlen x" using bitlen_bounds [OF that] that by (cases "bitlen x \<le> 0") auto
    have "2 ^ nat (bitlen x - 1) \<le> x" "x < 2 ^ nat (bitlen x)"
      using bitlen_bounds [OF that] by auto
    then have "(of_int (2 ^ nat (bitlen x - 1)) :: rat) \<le> of_int x"
      "(of_int x :: rat) < of_int (2 ^ nat (bitlen x))"
      by (simp_all only: of_int_le_iff of_int_less_iff)
    with b show ?thesis by (simp add: pow2_int)
  qed
  define k where "k = bitlen n - bitlen d"
  have n1: "pow2 (bitlen n - 1) \<le> of_int n" "of_int n < pow2 (bitlen n)" using bounds [OF n] by auto
  have d1: "pow2 (bitlen d - 1) \<le> of_int d" "of_int d < pow2 (bitlen d)" using bounds [OF d] by auto
  have lower: "pow2 (k - 1) * of_int d \<le> of_int n"
  proof -
    have "pow2 (k - 1) * of_int d \<le> pow2 (k - 1) * pow2 (bitlen d)"
      using d1 by (intro mult_left_mono) auto
    also have "\<dots> = pow2 (bitlen n - 1)"
      unfolding pow2_add [symmetric] by (simp add: k_def)
    finally show ?thesis using n1 by linarith
  qed
  have upper: "of_int n < pow2 (k + 1) * of_int d"
  proof -
    have "pow2 (bitlen n) = pow2 (k + 1) * pow2 (bitlen d - 1)"
      unfolding pow2_add [symmetric] by (simp add: k_def)
    also have "\<dots> \<le> pow2 (k + 1) * of_int d"
      using d1 by (intro mult_left_mono) auto
    finally show ?thesis using n1 by linarith
  qed
  have "ilog2 q = (if pow2 k * of_int d \<le> of_int n then k else k - 1)"
    by (simp add: ilog2_def nd k_def Let_def)
  then show ?thesis
    using lower upper d by (auto simp: q field_simps)
qed

lemma ilog2_unique:
  assumes "pow2 e \<le> q" and "q < pow2 (e + 1)"
  shows "ilog2 q = e"
proof -
  have "0 < q" using assms(1) pow2_pos(1) [of e] by linarith
  then have b: "pow2 (ilog2 q) \<le> q" "q < pow2 (ilog2 q + 1)" using ilog2_bounds by auto
  have "pow2 e < pow2 (ilog2 q + 1)" "pow2 (ilog2 q) < pow2 (e + 1)"
    using assms b by linarith+
  then show ?thesis by simp
qed

section \<open>Rounding\<close>

definition rne :: "rat \<Rightarrow> int" where
  "rne q = (let f = \<lfloor>q\<rfloor>; r = q - of_int f
            in if r < 1 / 2 then f else if 1 / 2 < r then f + 1 else if even f then f else f + 1)"

lemma rne_of_int [simp]: "rne (of_int z) = z"
  by (simp add: rne_def)

lemma rne_mono_int_le: "of_int z \<le> q \<Longrightarrow> z \<le> rne q"
proof -
  assume "of_int z \<le> q"
  then have "z \<le> \<lfloor>q\<rfloor>" by (simp add: le_floor_iff)
  then show ?thesis by (auto simp: rne_def Let_def)
qed

lemma rne_mono_int_ge: "q \<le> of_int z \<Longrightarrow> rne q \<le> z"
proof -
  assume q: "q \<le> of_int z"
  show ?thesis
  proof (cases "q = of_int z")
    case True
    then show ?thesis by simp
  next
    case False
    with q have "\<lfloor>q\<rfloor> < z" by (simp add: floor_less_iff)
    then show ?thesis by (auto simp: rne_def Let_def)
  qed
qed

lemma rne_near: "\<bar>of_int (rne q) - q\<bar> \<le> 1 / 2"
proof -
  have "of_int \<lfloor>q\<rfloor> \<le> q" "q < of_int \<lfloor>q\<rfloor> + 1" by linarith+
  then show ?thesis unfolding rne_def Let_def by (simp split: if_splits)
qed

text \<open>The unit in the last place of a non-zero number: 53 significant bits, exponent at least \<open>-1074\<close>.\<close>

definition ulp_exp :: "rat \<Rightarrow> int" where
  "ulp_exp q = max (ilog2 \<bar>q\<bar> - 52) (- 1074)"

datatype f64 = F64_NaN | F64_Inf bool | F64_Zero bool | F64_Num rat

definition round_f64 :: "bool \<Rightarrow> rat \<Rightarrow> f64" where
  "round_f64 neg q =
     (if q = 0 then F64_Zero neg
      else let u = pow2 (ulp_exp q); r = of_int (rne (q / u)) * u
           in if r = 0 then F64_Zero (q < 0)
              else if pow2 1024 \<le> \<bar>r\<bar> then F64_Inf (q < 0)
              else F64_Num r)"

fun wf_f64 :: "f64 \<Rightarrow> bool" where
  "wf_f64 (F64_Num q) =
     (q \<noteq> 0 \<and> \<bar>q\<bar> < pow2 1024 \<and> of_int \<lfloor>q / pow2 (ulp_exp q)\<rfloor> * pow2 (ulp_exp q) = q)"
| "wf_f64 _ = True"

lemma ulp_exp_dyadic:
  assumes m: "m \<noteq> 0" "\<bar>m\<bar> < 2 ^ 53" and k: "- 1074 \<le> k"
  shows "ulp_exp (of_int m * pow2 k) \<le> k"
proof -
  let ?q = "of_int m * pow2 k :: rat"
  have pos: "0 < \<bar>?q\<bar>" using m by simp
  have "(of_int \<bar>m\<bar> :: rat) < of_int (2 ^ 53)" using m(2) by (simp only: of_int_less_iff)
  then have "\<bar>of_int m :: rat\<bar> < pow2 53" by (simp add: pow2_def)
  then have "\<bar>?q\<bar> < pow2 53 * pow2 k" by (simp add: abs_mult)
  then have "\<bar>?q\<bar> < pow2 (53 + k)" by (simp add: pow2_add)
  moreover have "pow2 (ilog2 \<bar>?q\<bar>) \<le> \<bar>?q\<bar>" using ilog2_bounds [OF pos] by simp
  ultimately have "pow2 (ilog2 \<bar>?q\<bar>) < pow2 (53 + k)" by linarith
  then have "ilog2 \<bar>?q\<bar> < 53 + k" by simp
  with k show ?thesis by (simp add: ulp_exp_def)
qed

lemma wf_dyadic:
  assumes m: "m \<noteq> 0" "\<bar>m\<bar> < 2 ^ 53" and k: "- 1074 \<le> k"
    and b: "\<bar>of_int m * pow2 k\<bar> < pow2 1024"
  shows "wf_f64 (F64_Num (of_int m * pow2 k))"
proof -
  let ?q = "of_int m * pow2 k :: rat"
  let ?e = "ulp_exp ?q"
  have le: "?e \<le> k" using m k by (rule ulp_exp_dyadic)
  have "?q / pow2 ?e = of_int m * pow2 (k - ?e)" by (simp add: pow2_diff)
  also have "\<dots> = of_int (m * 2 ^ nat (k - ?e))" using le by (simp add: pow2_int)
  finally have "?q / pow2 ?e = of_int (m * 2 ^ nat (k - ?e))" .
  then have "of_int \<lfloor>?q / pow2 ?e\<rfloor> = ?q / pow2 ?e" by (simp only: floor_of_int)
  then have "of_int \<lfloor>?q / pow2 ?e\<rfloor> * pow2 ?e = ?q / pow2 ?e * pow2 ?e" by (simp only:)
  then have "of_int \<lfloor>?q / pow2 ?e\<rfloor> * pow2 ?e = ?q" using pow2_pos(2) [of ?e] by simp
  then show ?thesis using m b by simp
qed

lemma wf_dyadic_le:
  assumes m: "m \<noteq> 0" "\<bar>m\<bar> \<le> 2 ^ 53" and k: "- 1074 \<le> k"
    and b: "\<bar>of_int m * pow2 k\<bar> < pow2 1024"
  shows "wf_f64 (F64_Num (of_int m * pow2 k))"
proof (cases "\<bar>m\<bar> < 2 ^ 53")
  case True
  then show ?thesis using assms by (intro wf_dyadic) auto
next
  case False
  define m' where "m' = sgn m * 2 ^ 52"
  have "\<bar>m\<bar> = 2 ^ 53" using False m(2) by linarith
  then have eq: "m = m' * 2" using mult_sgn_abs [of m] by (simp add: m'_def)
  have "of_int m * pow2 k = of_int m' * pow2 (k + 1)"
    by (subst eq) (simp add: pow2_add)
  moreover have "m' \<noteq> 0" "\<bar>m'\<bar> < 2 ^ 53" using m by (auto simp: m'_def abs_mult abs_sgn_eq sgn_eq_0_iff)
  ultimately show ?thesis using wf_dyadic [of m' "k + 1"] k b by simp
qed

lemma rne_ulp_bound:
  assumes "q \<noteq> 0"
  shows "\<bar>rne (q / pow2 (ulp_exp q))\<bar> \<le> 2 ^ 53"
proof -
  have "0 < \<bar>q\<bar>" using assms by simp
  then have "\<bar>q\<bar> < pow2 (ilog2 \<bar>q\<bar> + 1)" using ilog2_bounds by simp
  also have "\<dots> \<le> pow2 (53 + ulp_exp q)" by (simp add: ulp_exp_def)
  finally have "\<bar>q\<bar> < pow2 53 * pow2 (ulp_exp q)" by (simp add: pow2_add)
  then have "\<bar>q / pow2 (ulp_exp q)\<bar> < pow2 53" by (simp add: field_simps abs_mult)
  then have "\<bar>q / pow2 (ulp_exp q)\<bar> < of_int (2 ^ 53)" by (simp add: pow2_def)
  then have "- of_int (2 ^ 53) \<le> q / pow2 (ulp_exp q)" "q / pow2 (ulp_exp q) \<le> of_int (2 ^ 53)"
    by linarith+
  then have "- (2 ^ 53) \<le> rne (q / pow2 (ulp_exp q))" "rne (q / pow2 (ulp_exp q)) \<le> 2 ^ 53"
    using rne_mono_int_le [of "- (2 ^ 53)"] rne_mono_int_ge [of _ "2 ^ 53"] by auto
  then show ?thesis by linarith
qed

theorem wf_round_f64 [simp]: "wf_f64 (round_f64 neg q)"
proof (cases "q = 0")
  case True
  then show ?thesis by (simp add: round_f64_def)
next
  case False
  define m where "m = rne (q / pow2 (ulp_exp q))"
  define r where "r = of_int m * pow2 (ulp_exp q)"
  have eq: "round_f64 neg q =
      (if r = 0 then F64_Zero (q < 0)
       else if pow2 1024 \<le> \<bar>r\<bar> then F64_Inf (q < 0) else F64_Num r)"
    using False by (simp add: round_f64_def Let_def r_def m_def)
  have "wf_f64 (F64_Num r)" if "r \<noteq> 0" "\<not> pow2 1024 \<le> \<bar>r\<bar>"
    unfolding r_def
  proof (rule wf_dyadic_le)
    show "m \<noteq> 0" using that by (auto simp: r_def)
    show "\<bar>m\<bar> \<le> 2 ^ 53" unfolding m_def using False by (rule rne_ulp_bound)
    show "- 1074 \<le> ulp_exp q" by (simp add: ulp_exp_def)
    show "\<bar>of_int m * pow2 (ulp_exp q)\<bar> < pow2 1024" using that by (simp add: r_def)
  qed
  then show ?thesis unfolding eq by (simp del: wf_f64.simps(1))
qed

theorem round_f64_wf:
  assumes "wf_f64 (F64_Num q)"
  shows "round_f64 neg q = F64_Num q"
proof -
  let ?u = "pow2 (ulp_exp q)"
  have q: "q \<noteq> 0" "\<bar>q\<bar> < pow2 1024" "of_int \<lfloor>q / ?u\<rfloor> * ?u = q" using assms by auto
  have "q / ?u = of_int \<lfloor>q / ?u\<rfloor>" using q(3) by (simp add: field_simps)
  then have "rne (q / ?u) = \<lfloor>q / ?u\<rfloor>" by (metis rne_of_int)
  then have r: "of_int (rne (q / ?u)) * ?u = q" using q(3) by simp
  show ?thesis unfolding round_f64_def Let_def r using q by simp
qed

lemma wf_int:
  assumes "z \<noteq> 0" "\<bar>z\<bar> \<le> 2 ^ 53"
  shows "wf_f64 (F64_Num (of_int z))"
proof -
  have "(of_int \<bar>z\<bar> :: rat) \<le> of_int (2 ^ 53)" using assms(2) by (simp only: of_int_le_iff)
  then have "\<bar>of_int z :: rat\<bar> \<le> pow2 53" by (simp add: pow2_def)
  also have "\<dots> < pow2 1024" by simp
  finally show ?thesis using wf_dyadic_le [of z 0] assms by simp
qed

lemma round_f64_int:
  assumes "\<bar>z\<bar> \<le> 2 ^ 53"
  shows "round_f64 neg (of_int z) = (if z = 0 then F64_Zero neg else F64_Num (of_int z))"
proof (cases "z = 0")
  case True
  then show ?thesis by (simp add: round_f64_def)
next
  case False
  then show ?thesis using round_f64_wf [OF wf_int [OF False assms]] by simp
qed

lemma rne_minus: "rne (- q) = - rne q"
proof (cases "q = of_int \<lfloor>q\<rfloor>")
  case True
  then show ?thesis by (metis of_int_minus rne_of_int)
next
  case False
  have "of_int \<lfloor>q\<rfloor> < q" using False of_int_floor_le [of q] by linarith
  then have f: "\<lfloor>- q\<rfloor> = - \<lfloor>q\<rfloor> - 1" by (simp add: floor_eq_iff) linarith
  define r where "r = q - of_int \<lfloor>q\<rfloor>"
  have r: "- q - of_int \<lfloor>- q\<rfloor> = 1 - r" by (simp add: f r_def)
  have "rne q = (if r < 1 / 2 then \<lfloor>q\<rfloor> else if 1 / 2 < r then \<lfloor>q\<rfloor> + 1
      else if even \<lfloor>q\<rfloor> then \<lfloor>q\<rfloor> else \<lfloor>q\<rfloor> + 1)"
    by (simp add: rne_def r_def)
  moreover have "rne (- q) = (if 1 - r < 1 / 2 then - \<lfloor>q\<rfloor> - 1 else if 1 / 2 < 1 - r then - \<lfloor>q\<rfloor>
      else if even \<lfloor>q\<rfloor> then - \<lfloor>q\<rfloor> else - \<lfloor>q\<rfloor> - 1)"
    unfolding rne_def Let_def r by (simp add: f)
  ultimately show ?thesis by simp
qed

lemma round_f64_minus: "q \<noteq> 0 \<Longrightarrow>
  round_f64 s (- q) =
    (case round_f64 t q of F64_Num r \<Rightarrow> F64_Num (- r) | F64_Zero n \<Rightarrow> F64_Zero (\<not> n)
     | F64_Inf n \<Rightarrow> F64_Inf (\<not> n) | F64_NaN \<Rightarrow> F64_NaN)"
  by (auto simp: round_f64_def Let_def ulp_exp_def rne_minus)

section \<open>Arithmetic, comparison and conversion\<close>

fun f64_val :: "f64 \<Rightarrow> rat" where
  "f64_val (F64_Num q) = q"
| "f64_val _ = 0"

fun f64_is_finite :: "f64 \<Rightarrow> bool" where
  "f64_is_finite F64_NaN = False"
| "f64_is_finite (F64_Inf _) = False"
| "f64_is_finite _ = True"

fun f64_sign :: "f64 \<Rightarrow> bool" where
  "f64_sign F64_NaN = False"
| "f64_sign (F64_Inf s) = s"
| "f64_sign (F64_Zero s) = s"
| "f64_sign (F64_Num q) = (q < 0)"

fun f64_neg :: "f64 \<Rightarrow> f64" where
  "f64_neg F64_NaN = F64_NaN"
| "f64_neg (F64_Inf s) = F64_Inf (\<not> s)"
| "f64_neg (F64_Zero s) = F64_Zero (\<not> s)"
| "f64_neg (F64_Num q) = F64_Num (- q)"

fun f64_abs :: "f64 \<Rightarrow> f64" where
  "f64_abs F64_NaN = F64_NaN"
| "f64_abs (F64_Inf s) = F64_Inf False"
| "f64_abs (F64_Zero s) = F64_Zero False"
| "f64_abs (F64_Num q) = F64_Num \<bar>q\<bar>"

fun f64_add :: "f64 \<Rightarrow> f64 \<Rightarrow> f64" where
  "f64_add F64_NaN _ = F64_NaN"
| "f64_add _ F64_NaN = F64_NaN"
| "f64_add (F64_Inf s) (F64_Inf t) = (if s = t then F64_Inf s else F64_NaN)"
| "f64_add (F64_Inf s) _ = F64_Inf s"
| "f64_add _ (F64_Inf t) = F64_Inf t"
| "f64_add (F64_Zero s) (F64_Zero t) = F64_Zero (s \<and> t)"
| "f64_add (F64_Zero s) (F64_Num b) = F64_Num b"
| "f64_add (F64_Num a) (F64_Zero t) = F64_Num a"
| "f64_add (F64_Num a) (F64_Num b) = round_f64 False (a + b)"

definition f64_sub :: "f64 \<Rightarrow> f64 \<Rightarrow> f64" where
  "f64_sub a b = f64_add a (f64_neg b)"

fun f64_mul :: "f64 \<Rightarrow> f64 \<Rightarrow> f64" where
  "f64_mul F64_NaN _ = F64_NaN"
| "f64_mul _ F64_NaN = F64_NaN"
| "f64_mul (F64_Inf s) (F64_Zero t) = F64_NaN"
| "f64_mul (F64_Zero s) (F64_Inf t) = F64_NaN"
| "f64_mul (F64_Inf s) b = F64_Inf (s \<noteq> f64_sign b)"
| "f64_mul a (F64_Inf t) = F64_Inf (f64_sign a \<noteq> t)"
| "f64_mul (F64_Zero s) b = F64_Zero (s \<noteq> f64_sign b)"
| "f64_mul a (F64_Zero t) = F64_Zero (f64_sign a \<noteq> t)"
| "f64_mul (F64_Num a) (F64_Num b) = round_f64 False (a * b)"

fun f64_div :: "f64 \<Rightarrow> f64 \<Rightarrow> f64" where
  "f64_div F64_NaN _ = F64_NaN"
| "f64_div _ F64_NaN = F64_NaN"
| "f64_div (F64_Inf s) (F64_Inf t) = F64_NaN"
| "f64_div (F64_Zero s) (F64_Zero t) = F64_NaN"
| "f64_div (F64_Inf s) b = F64_Inf (s \<noteq> f64_sign b)"
| "f64_div a (F64_Inf t) = F64_Zero (f64_sign a \<noteq> t)"
| "f64_div (F64_Zero s) b = F64_Zero (s \<noteq> f64_sign b)"
| "f64_div a (F64_Zero t) = F64_Inf (f64_sign a \<noteq> t)"
| "f64_div (F64_Num a) (F64_Num b) = round_f64 False (a / b)"

text \<open>The remainder \<^verbatim>\<open>a % b\<close> has the sign of the dividend and is exact.\<close>

definition rat_trunc :: "rat \<Rightarrow> int" where
  "rat_trunc q = (if 0 \<le> q then \<lfloor>q\<rfloor> else \<lceil>q\<rceil>)"

fun f64_rem :: "f64 \<Rightarrow> f64 \<Rightarrow> f64" where
  "f64_rem F64_NaN _ = F64_NaN"
| "f64_rem _ F64_NaN = F64_NaN"
| "f64_rem (F64_Inf s) _ = F64_NaN"
| "f64_rem _ (F64_Zero t) = F64_NaN"
| "f64_rem a (F64_Inf t) = a"
| "f64_rem (F64_Zero s) (F64_Num b) = F64_Zero s"
| "f64_rem (F64_Num a) (F64_Num b) = round_f64 (a < 0) (a - of_int (rat_trunc (a / b)) * b)"

fun f64_lt :: "f64 \<Rightarrow> f64 \<Rightarrow> bool" where
  "f64_lt F64_NaN _ = False"
| "f64_lt _ F64_NaN = False"
| "f64_lt (F64_Inf s) (F64_Inf t) = (s \<and> \<not> t)"
| "f64_lt (F64_Inf s) _ = s"
| "f64_lt _ (F64_Inf t) = (\<not> t)"
| "f64_lt a b = (f64_val a < f64_val b)"

fun f64_eq :: "f64 \<Rightarrow> f64 \<Rightarrow> bool" where
  "f64_eq F64_NaN _ = False"
| "f64_eq _ F64_NaN = False"
| "f64_eq (F64_Inf s) (F64_Inf t) = (s = t)"
| "f64_eq (F64_Inf s) _ = False"
| "f64_eq _ (F64_Inf t) = False"
| "f64_eq a b = (f64_val a = f64_val b)"

definition f64_le :: "f64 \<Rightarrow> f64 \<Rightarrow> bool" where
  "f64_le a b = (f64_lt a b \<or> f64_eq a b)"

definition f64_zero :: f64 where "f64_zero = F64_Zero False"
definition f64_one :: f64 where "f64_one = F64_Num 1"
definition f64_epsilon :: f64 where "f64_epsilon = F64_Num (pow2 (- 52))"

definition f64_of_int :: "int \<Rightarrow> f64" where
  "f64_of_int z = round_f64 False (of_int z)"

definition f64_of_nat :: "nat \<Rightarrow> f64" where
  "f64_of_nat n = f64_of_int (int n)"

text \<open>\<^verbatim>\<open>f64::round\<close> rounds half away from zero and keeps the sign of zero.\<close>

fun f64_round :: "f64 \<Rightarrow> f64" where
  "f64_round (F64_Num q) =
     round_f64 (q < 0) (of_int (if 0 \<le> q then \<lfloor>q + 1 / 2\<rfloor> else \<lceil>q - 1 / 2\<rceil>))"
| "f64_round x = x"

text \<open>The saturating cast \<^verbatim>\<open>x as u64\<close>: truncation towards zero, clamped, and 0 for not-a-number.\<close>

fun f64_as_nat :: "nat \<Rightarrow> f64 \<Rightarrow> nat" where
  "f64_as_nat w F64_NaN = 0"
| "f64_as_nat w (F64_Inf s) = (if s then 0 else 2 ^ w - 1)"
| "f64_as_nat w (F64_Zero s) = 0"
| "f64_as_nat w (F64_Num q) = (if q \<le> 0 then 0 else min (nat \<lfloor>q\<rfloor>) (2 ^ w - 1))"

definition f64_as_u64 :: "f64 \<Rightarrow> u64" where
  "f64_as_u64 x = of_nat (f64_as_nat 64 x)"

lemma round_f64_neg: "q \<noteq> 0 \<Longrightarrow> round_f64 s q = round_f64 t q"
  by (simp add: round_f64_def)

lemma wf_neg_num: "wf_f64 (F64_Num q) \<Longrightarrow> wf_f64 (F64_Num (- q))"
proof -
  assume a: "wf_f64 (F64_Num q)"
  let ?u = "pow2 (ulp_exp q)"
  have e: "ulp_exp (- q) = ulp_exp q" by (simp add: ulp_exp_def)
  have "q / ?u = of_int \<lfloor>q / ?u\<rfloor>" using a by (simp add: field_simps)
  then have "- q / ?u = of_int (- \<lfloor>q / ?u\<rfloor>)" by simp
  then have "\<lfloor>- q / ?u\<rfloor> = - \<lfloor>q / ?u\<rfloor>" by (metis floor_of_int)
  with a e show ?thesis by simp
qed

lemma wf_f64_neg [simp]: "wf_f64 a \<Longrightarrow> wf_f64 (f64_neg a)"
  using wf_neg_num by (cases a) (auto simp del: wf_f64.simps(1))

lemma wf_f64_add [simp]: "wf_f64 a \<Longrightarrow> wf_f64 b \<Longrightarrow> wf_f64 (f64_add a b)"
  by (cases a; cases b) (auto simp del: wf_f64.simps(1))

lemma wf_f64_mul [simp]: "wf_f64 (f64_mul a b)"
  by (cases a; cases b) auto

lemma wf_f64_div [simp]: "wf_f64 (f64_div a b)"
  by (cases a; cases b) auto

lemma wf_f64_rem [simp]: "wf_f64 a \<Longrightarrow> wf_f64 (f64_rem a b)"
  by (cases a; cases b) (auto simp del: wf_f64.simps(1))

lemma wf_f64_round [simp]: "wf_f64 a \<Longrightarrow> wf_f64 (f64_round a)"
  by (cases a) (auto simp del: wf_f64.simps(1))

lemma wf_f64_of_int [simp]: "wf_f64 (f64_of_int z)"
  by (simp add: f64_of_int_def)

lemma f64_of_int_small:
  "\<bar>z\<bar> \<le> 2 ^ 53 \<Longrightarrow> f64_of_int z = (if z = 0 then F64_Zero False else F64_Num (of_int z))"
  by (simp add: f64_of_int_def round_f64_int)

text \<open>Sums, differences and products of integers are exact while the result stays within \<open>2^53\<close>.\<close>

lemma f64_add_int:
  assumes "\<bar>a\<bar> \<le> 2 ^ 53" "\<bar>b\<bar> \<le> 2 ^ 53" "\<bar>a + b\<bar> \<le> 2 ^ 53"
  shows "f64_add (f64_of_int a) (f64_of_int b) = f64_of_int (a + b)"
  using assms round_f64_int [OF assms(3), of False]
  by (auto simp: f64_of_int_small simp flip: of_int_add)

lemma f64_sub_int:
  assumes "\<bar>a\<bar> \<le> 2 ^ 53" "\<bar>b\<bar> \<le> 2 ^ 53" "\<bar>a - b\<bar> \<le> 2 ^ 53"
  shows "f64_sub (f64_of_int a) (f64_of_int b) = f64_of_int (a - b)"
  using assms round_f64_int [OF assms(3), of False]
  by (auto simp: f64_sub_def f64_of_int_small simp flip: of_int_diff)

lemma f64_lt_int:
  assumes "\<bar>a\<bar> \<le> 2 ^ 53" "\<bar>b\<bar> \<le> 2 ^ 53"
  shows "f64_lt (f64_of_int a) (f64_of_int b) \<longleftrightarrow> a < b"
  using assms by (auto simp: f64_of_int_small)

lemma f64_sub_swap: "f64_abs (f64_sub a b) = f64_abs (f64_sub b a)"
proof (cases "\<exists>p q. a = F64_Num p \<and> b = F64_Num q")
  case True
  then obtain p q where ab: "a = F64_Num p" "b = F64_Num q" by blast
  show ?thesis
  proof (cases "p - q = 0")
    case False
    have "q - p = - (p - q)" by simp
    then show ?thesis
      using round_f64_minus [OF False, of False False]
      by (auto simp: ab f64_sub_def split: f64.splits)
  qed (simp add: ab)
next
  case False
  then show ?thesis by (cases a; cases b) (auto simp: f64_sub_def)
qed

lemma f64_sub_self: "f64_is_finite a \<Longrightarrow> f64_sub a a = F64_Zero False"
  by (cases a) (auto simp: f64_sub_def round_f64_def)

lemma f64_eq_refl [simp]: "f64_eq a a \<longleftrightarrow> a \<noteq> F64_NaN"
  by (cases a) auto

lemma f64_lt_irrefl [simp]: "\<not> f64_lt a a"
  by (cases a) auto

lemma f64_lt_trans: "f64_lt a b \<Longrightarrow> f64_lt b c \<Longrightarrow> f64_lt a c"
  by (cases a; cases b; cases c) auto

lemma f64_as_nat_less: "f64_as_nat w x < 2 ^ w"
  by (cases x) (simp_all add: min_less_iff_disj)

lemma unat_f64_as_u64: "unat (f64_as_u64 x) = f64_as_nat 64 x"
  using f64_as_nat_less [of 64 x] by (simp add: f64_as_u64_def unat_of_nat)

lemma f64_as_nat_of_nat: "n \<le> 2 ^ 53 \<Longrightarrow> f64_as_nat 64 (f64_of_nat n) = n"
  by (auto simp: f64_of_nat_def f64_of_int_small min_def)

end
