(* ===== verification/F64_Text.thy ===== *)
theory F64_Text
  imports F64
begin

text \<open>
  The text of numbers: what \<^verbatim>\<open>f64::to_string\<close> prints (the shortest decimal that reads back as
  the same number, in positional notation) and what \<^verbatim>\<open>str::parse::<f64>\<close> accepts. The main
  fact is that reading back a printed number gives the number, for every representable number,
  both zeros, both infinities and not-a-number.
\<close>

section \<open>Positional decimals\<close>

definition pow10 :: "int \<Rightarrow> rat" where
  "pow10 e = (if 0 \<le> e then 10 ^ nat e else 1 / 10 ^ nat (- e))"

lemma pow10_powi: "pow10 e = 10 powi e"
  by (auto simp: pow10_def power_int_def inverse_eq_divide power_one_over)

lemma pow10_pos [simp]: "0 < pow10 e" "pow10 e \<noteq> 0" "0 \<le> pow10 e"
  by (auto simp: pow10_powi)

lemma pow10_add: "pow10 (a + b) = pow10 a * pow10 b"
  by (simp add: pow10_powi power_int_add)

lemma pow10_nat: "pow10 (int n) = 10 ^ n"
  by (simp add: pow10_def)

lemma pow10_0 [simp]: "pow10 0 = 1"
  by (simp add: pow10_def)

lemma pow10_Suc: "pow10 (e + 1) = 10 * pow10 e"
  by (simp add: pow10_add) (simp add: pow10_def)

definition is_digit :: "char \<Rightarrow> bool" where
  "is_digit c = (char_digit c \<noteq> None)"

lemma is_digit_digit_char [simp]: "d < 10 \<Longrightarrow> is_digit (digit_char d)"
  by (simp add: is_digit_def)

lemma digits_show_nat: "\<forall>c \<in> set (show_nat n). is_digit c"
  using set_show_nat by fastforce

definition dec_str :: "nat \<Rightarrow> int \<Rightarrow> string" where
  "dec_str c e =
     (if 0 \<le> e then show_nat c @ replicate (nat e) (CHR ''0'')
      else let ds = show_nat c; k = nat (- e)
           in if length ds \<le> k
              then ''0.'' @ replicate (k - length ds) (CHR ''0'') @ ds
              else take (length ds - k) ds @ ''.'' @ drop (length ds - k) ds)"

fun parse_exp :: "string \<Rightarrow> int option" where
  "parse_exp [] = Some 0"
| "parse_exp (c # cs) =
     (if c = CHR ''e'' \<or> c = CHR ''E'' then
        let neg = (case cs of d # _ \<Rightarrow> d = CHR ''-'' | [] \<Rightarrow> False);
            ds = (case cs of d # rest \<Rightarrow> if d = CHR ''-'' \<or> d = CHR ''+'' then rest else cs | [] \<Rightarrow> cs)
        in if ds = [] then None
           else map_option (\<lambda>n. if neg then - int n else int n) (digits_val 0 ds)
      else None)"

definition parse_dec :: "string \<Rightarrow> rat option" where
  "parse_dec s =
     (let ip = takeWhile is_digit s; r = dropWhile is_digit s;
          fp = (case r of c # cs \<Rightarrow> if c = CHR ''.'' then takeWhile is_digit cs else [] | [] \<Rightarrow> []);
          r2 = (case r of c # cs \<Rightarrow> if c = CHR ''.'' then dropWhile is_digit cs else r | [] \<Rightarrow> [])
      in if ip = [] \<and> fp = [] then None
         else case parse_exp r2 of
                None \<Rightarrow> None
              | Some e \<Rightarrow> map_option (\<lambda>n. of_nat n * pow10 (e - int (length fp)))
                             (digits_val 0 (ip @ fp)))"

lemma char_digit_zero [simp]: "char_digit (CHR ''0'') = Some 0"
  by code_simp

lemma is_digit_zero [simp]: "is_digit (CHR ''0'')"
  by (simp add: is_digit_def)

lemma not_digit_dot [simp]: "\<not> is_digit (CHR ''.'')"
  by code_simp

lemma digits_val_zeros: "digits_val 0 (replicate k (CHR ''0'') @ ds) = digits_val 0 ds"
  by (induction k) auto

lemma digits_val_trailing:
  "digits_val a (replicate k (CHR ''0'')) = Some (a * 10 ^ k)"
  by (induction k arbitrary: a) auto

lemma parse_dec_int:
  assumes "\<forall>c \<in> set ds. is_digit c" "ds \<noteq> []" "digits_val 0 ds = Some n"
  shows "parse_dec ds = Some (of_nat n)"
proof -
  have tw: "takeWhile is_digit ds = ds" "dropWhile is_digit ds = []"
    using assms(1) by (auto simp: takeWhile_eq_all_conv dropWhile_eq_Nil_conv)
  show ?thesis using assms(2,3) by (simp add: parse_dec_def tw)
qed

lemma parse_dec_frac:
  assumes "\<forall>c \<in> set ip. is_digit c" "\<forall>c \<in> set fp. is_digit c" "ip \<noteq> []"
    and "digits_val 0 (ip @ fp) = Some n"
  shows "parse_dec (ip @ CHR ''.'' # fp) = Some (of_nat n * pow10 (- int (length fp)))"
proof -
  have tw: "takeWhile is_digit (ip @ CHR ''.'' # fp) = ip"
    "dropWhile is_digit (ip @ CHR ''.'' # fp) = CHR ''.'' # fp"
    using assms(1) by (auto simp: takeWhile_append dropWhile_append)
  have tf: "takeWhile is_digit fp = fp" "dropWhile is_digit fp = []"
    using assms(2) by (auto simp: takeWhile_eq_all_conv dropWhile_eq_Nil_conv)
  show ?thesis using assms(3,4) by (simp add: parse_dec_def tw tf)
qed

lemma parse_dec_str: "parse_dec (dec_str c e) = Some (of_nat c * pow10 e)"
proof (cases "0 \<le> e")
  case True
  have "digits_val 0 (show_nat c @ replicate (nat e) (CHR ''0'')) = Some (c * 10 ^ nat e)"
    by (simp add: digits_val_append digits_val_show_nat digits_val_trailing)
  moreover have "\<forall>x \<in> set (show_nat c @ replicate (nat e) (CHR ''0'')). is_digit x"
    using digits_show_nat by auto
  ultimately have "parse_dec (show_nat c @ replicate (nat e) (CHR ''0'')) = Some (of_nat (c * 10 ^ nat e))"
    by (intro parse_dec_int) auto
  with True show ?thesis by (simp add: dec_str_def pow10_def)
next
  case neg: False
  define ds k where "ds = show_nat c" and "k = nat (- e)"
  have dig: "\<forall>x \<in> set ds. is_digit x" "digits_val 0 ds = Some c"
    using digits_show_nat digits_val_show_nat by (auto simp: ds_def)
  have e: "- int k = e" using neg by (simp add: k_def)
  show ?thesis
  proof (cases "length ds \<le> k")
    case True
    have "digits_val 0 (''0'' @ replicate (k - length ds) (CHR ''0'') @ ds) = Some c"
      using dig digits_val_zeros by simp
    then have "parse_dec (''0'' @ CHR ''.'' # (replicate (k - length ds) (CHR ''0'') @ ds))
        = Some (of_nat c * pow10 (- int (length (replicate (k - length ds) (CHR ''0'') @ ds))))"
      using dig by (intro parse_dec_frac) auto
    with True neg e show ?thesis by (simp add: dec_str_def ds_def k_def Let_def)
  next
    case False
    let ?ip = "take (length ds - k) ds" and ?fp = "drop (length ds - k) ds"
    have "parse_dec (?ip @ CHR ''.'' # ?fp) = Some (of_nat c * pow10 (- int (length ?fp)))"
    proof (rule parse_dec_frac)
      show "\<forall>x \<in> set ?ip. is_digit x" "\<forall>x \<in> set ?fp. is_digit x"
        using dig by (auto dest: in_set_takeD in_set_dropD)
      show "?ip \<noteq> []" using False by auto
      show "digits_val 0 (?ip @ ?fp) = Some c" using dig by simp
    qed
    with False neg e show ?thesis by (simp add: dec_str_def ds_def k_def Let_def)
  qed
qed

section \<open>Printing\<close>

text \<open>
  \<open>dec_exp q\<close> is the exponent \<open>E\<close> with \<open>10^(E-1) \<le> q < 10^E\<close>, found by search from the number of
  decimal digits of the integer part or of the reciprocal; it only selects the candidates, and
  the candidates are checked by reading them back.
\<close>

definition dec_exp :: "rat \<Rightarrow> int" where
  "dec_exp q =
     (if 1 \<le> q then int (length (show_nat (nat \<lfloor>q\<rfloor>)))
      else let k = int (length (show_nat (nat \<lfloor>1 / q\<rfloor>)))
           in if pow10 (- k + 1) \<le> q then - k + 2 else - k + 1)"

definition shortest_at :: "rat \<Rightarrow> nat \<Rightarrow> (nat \<times> int) option" where
  "shortest_at q n =
     (let e = dec_exp q - int n; s = q * pow10 (- e); lo = nat \<lfloor>s\<rfloor>; hi = nat \<lceil>s\<rceil>;
          ok = (\<lambda>c. round_f64 False (of_nat c * pow10 e) = F64_Num q);
          up = (1 / 2 \<le> s - of_nat lo)
      in if ok lo \<and> ok hi then Some (if up then hi else lo, e)
         else if ok lo then Some (lo, e)
         else if ok hi then Some (hi, e)
         else None)"

fun shortest_from :: "rat \<Rightarrow> nat \<Rightarrow> nat \<Rightarrow> nat \<times> int" where
  "shortest_from q n 0 =
     (let k = max 0 (- ulp_exp q) in (nat \<lfloor>q * pow10 k\<rfloor>, - k))"
| "shortest_from q n (Suc fuel) =
     (case shortest_at q n of Some r \<Rightarrow> r | None \<Rightarrow> shortest_from q (Suc n) fuel)"

fun strip_zeros :: "nat \<Rightarrow> int \<Rightarrow> nat \<times> int" where
  "strip_zeros c e = (if c = 0 \<or> c mod 10 \<noteq> 0 then (c, e) else strip_zeros (c div 10) (e + 1))"

declare strip_zeros.simps [simp del]

definition shortest_dec :: "rat \<Rightarrow> nat \<times> int" where
  "shortest_dec q = (case shortest_from q 1 17 of (c, e) \<Rightarrow> strip_zeros c e)"

fun show_f64 :: "f64 \<Rightarrow> string" where
  "show_f64 F64_NaN = ''NaN''"
| "show_f64 (F64_Inf s) = (if s then ''-inf'' else ''inf'')"
| "show_f64 (F64_Zero s) = (if s then ''-0'' else ''0'')"
| "show_f64 (F64_Num q) =
     (case shortest_dec \<bar>q\<bar> of (c, e) \<Rightarrow> (if q < 0 then ''-'' else '''') @ dec_str c e)"

section \<open>Reading\<close>

definition ascii_lower :: "char \<Rightarrow> char" where
  "ascii_lower c = (let k = of_char c in if 65 \<le> k \<and> k \<le> 90 then char_of (k + (32::nat)) else c)"

definition parse_f64 :: "string \<Rightarrow> f64 option" where
  "parse_f64 s =
     (let neg = (case s of c # _ \<Rightarrow> c = CHR ''-'' | [] \<Rightarrow> False);
          body = (case s of c # cs \<Rightarrow> if c = CHR ''-'' \<or> c = CHR ''+'' then cs else s | [] \<Rightarrow> s);
          low = map ascii_lower body
      in if low = ''inf'' \<or> low = ''infinity'' then Some (F64_Inf neg)
         else if low = ''nan'' then Some F64_NaN
         else map_option (\<lambda>v. if neg then f64_neg (round_f64 False v) else round_f64 False v)
                (parse_dec body))"

lemma wf_exact_dec:
  assumes "wf_f64 (F64_Num q)" "0 < q"
  shows "of_nat (nat \<lfloor>q * pow10 (max 0 (- ulp_exp q))\<rfloor>) * pow10 (- max 0 (- ulp_exp q)) = q"
proof -
  define e k where "e = ulp_exp q" and "k = max 0 (- e)"
  define m where "m = \<lfloor>q / pow2 e\<rfloor>"
  have q: "q = of_int m * pow2 e" using assms(1) by (simp add: m_def e_def)
  have k: "0 \<le> k" "0 \<le> e + k" by (auto simp: k_def)
  have "pow2 e * pow10 k = pow2 (e + k) * 5 ^ nat k"
  proof -
    have "(10::rat) ^ nat k = 2 ^ nat k * 5 ^ nat k" by (simp add: power_mult_distrib [symmetric])
    then have "pow10 k = pow2 k * 5 ^ nat k" using k by (simp add: pow10_def pow2_def)
    then show ?thesis by (simp add: pow2_add)
  qed
  then have "q * pow10 k = of_int (m * 2 ^ nat (e + k) * 5 ^ nat k)"
    using k by (simp add: q pow2_int mult.assoc)
  then have "of_int \<lfloor>q * pow10 k\<rfloor> = q * pow10 k" by (metis floor_of_int)
  moreover have "0 \<le> \<lfloor>q * pow10 k\<rfloor>" using assms(2) by simp
  ultimately have "of_nat (nat \<lfloor>q * pow10 k\<rfloor>) = q * pow10 k" by (simp add: of_nat_nat)
  moreover have "pow10 k * pow10 (- k) = 1" by (simp flip: pow10_add)
  ultimately show ?thesis by (simp add: k_def e_def mult.assoc)
qed

lemma shortest_at_reads_back:
  "shortest_at q n = Some (c, e) \<Longrightarrow> round_f64 False (of_nat c * pow10 e) = F64_Num q"
  by (auto simp: shortest_at_def Let_def split: if_splits)

lemma shortest_from_reads_back:
  assumes "wf_f64 (F64_Num q)" "0 < q" "shortest_from q n fuel = (c, e)"
  shows "round_f64 False (of_nat c * pow10 e) = F64_Num q"
  using assms(3)
proof (induction fuel arbitrary: n)
  case 0
  then have "of_nat c * pow10 e = q" using wf_exact_dec [OF assms(1,2)] by (auto simp: Let_def)
  then show ?case using round_f64_wf [OF assms(1)] by simp
next
  case (Suc fuel)
  then show ?case using shortest_at_reads_back by (auto split: option.splits)
qed

lemma strip_zeros_val: "strip_zeros c e = (c', e') \<Longrightarrow> of_nat c' * pow10 e' = of_nat c * pow10 e"
proof (induction c e arbitrary: c' e' rule: strip_zeros.induct)
  case (1 c e)
  show ?case
  proof (cases "c = 0 \<or> c mod 10 \<noteq> 0")
    case True
    with "1.prems" show ?thesis by (subst (asm) strip_zeros.simps) simp
  next
    case False
    with "1.prems" have "strip_zeros (c div 10) (e + 1) = (c', e')"
      by (subst (asm) strip_zeros.simps) simp
    with "1.IH" False have "of_nat c' * pow10 e' = of_nat (c div 10) * pow10 (e + 1)" by simp
    also have "\<dots> = of_nat (c div 10 * 10) * pow10 e" by (simp add: pow10_Suc)
    also have "c div 10 * 10 = c" using False by (simp add: dvd_eq_mod_eq_0)
    finally show ?thesis .
  qed
qed

lemma shortest_dec_reads_back:
  assumes "wf_f64 (F64_Num q)" "0 < q" "shortest_dec q = (c, e)"
  shows "round_f64 False (of_nat c * pow10 e) = F64_Num q"
  using assms shortest_from_reads_back [OF assms(1,2)]
  by (auto simp: shortest_dec_def split: prod.splits dest!: strip_zeros_val)

lemma dec_str_first: "\<exists>d cs. d < 10 \<and> dec_str c e = digit_char d # cs"
proof (cases "0 \<le> e")
  case True
  then show ?thesis using hd_show_nat [of c] by (auto simp: dec_str_def)
next
  case False
  have z: "CHR ''0'' = digit_char 0" by code_simp
  show ?thesis
  proof (cases "length (show_nat c) \<le> nat (- e)")
    case True
    with False show ?thesis by (auto simp: dec_str_def Let_def z intro!: exI [of _ 0])
  next
    case nle: False
    then obtain m where "length (show_nat c) - nat (- e) = Suc m"
      by (metis Suc_diff_Suc not_le)
    then show ?thesis using hd_show_nat [of c] False nle by (auto simp: dec_str_def Let_def)
  qed
qed

lemma digit_lower: "d < 10 \<Longrightarrow> ascii_lower (digit_char d) \<noteq> c" if "57 < (of_char c :: nat)"
  using that by (auto simp: ascii_lower_def digit_char_def Let_def)

lemma parse_f64_dec_str:
  "parse_f64 (dec_str c e) = Some (round_f64 False (of_nat c * pow10 e))"
  "parse_f64 (CHR ''-'' # dec_str c e) = Some (f64_neg (round_f64 False (of_nat c * pow10 e)))"
proof -
  obtain d cs where d: "d < 10" and s: "dec_str c e = digit_char d # cs" using dec_str_first by blast
  have ne: "digit_char d \<noteq> CHR ''-''" "digit_char d \<noteq> CHR ''+''"
    using digit_char_neq [OF d, of "CHR ''-''"] digit_char_neq [OF d, of "CHR ''+''"] by simp_all
  have low: "ascii_lower (digit_char d) \<noteq> CHR ''i''" "ascii_lower (digit_char d) \<noteq> CHR ''n''"
    using digit_lower [OF _ d, of "CHR ''i''"] digit_lower [OF _ d, of "CHR ''n''"] by simp_all
  have p: "parse_dec (digit_char d # cs) = Some (of_nat c * pow10 e)"
    using parse_dec_str [of c e] s by simp
  show "parse_f64 (dec_str c e) = Some (round_f64 False (of_nat c * pow10 e))"
    "parse_f64 (CHR ''-'' # dec_str c e) = Some (f64_neg (round_f64 False (of_nat c * pow10 e)))"
    using ne low p by (simp_all add: parse_f64_def s Let_def)
qed

theorem parse_show_f64:
  assumes "wf_f64 x"
  shows "parse_f64 (show_f64 x) = Some x"
proof (cases x)
  case F64_NaN
  have "parse_f64 ''NaN'' = Some F64_NaN" by code_simp
  with F64_NaN show ?thesis by simp
next
  case (F64_Inf s)
  have "parse_f64 ''inf'' = Some (F64_Inf False)" "parse_f64 ''-inf'' = Some (F64_Inf True)"
    by code_simp+
  with F64_Inf show ?thesis by simp
next
  case (F64_Zero s)
  have "parse_f64 ''0'' = Some (F64_Zero False)" "parse_f64 ''-0'' = Some (F64_Zero True)"
    by code_simp+
  with F64_Zero show ?thesis by simp
next
  case (F64_Num q)
  obtain c e where ce: "shortest_dec \<bar>q\<bar> = (c, e)" by (cases "shortest_dec \<bar>q\<bar>")
  have wf: "wf_f64 (F64_Num \<bar>q\<bar>)"
    using assms F64_Num wf_neg_num [of q] by (cases "q < 0") (simp_all add: abs_if del: wf_f64.simps(1))
  have q: "q \<noteq> 0" using assms F64_Num by simp
  then have r: "round_f64 False (of_nat c * pow10 e) = F64_Num \<bar>q\<bar>"
    using shortest_dec_reads_back [OF wf _ ce] by simp
  have sh: "show_f64 x = (if q < 0 then ''-'' else '''') @ dec_str c e"
    by (simp only: F64_Num show_f64.simps ce prod.case)
  show ?thesis
    unfolding sh using q r by (cases "q < 0") (simp_all add: F64_Num parse_f64_dec_str)
qed

end
