(* ===== verification/Typed.thy ===== *)
theory Typed
  imports F64_Text
begin

text \<open>
  The typed values of the virtual machine and their coercing operations
  (\<^verbatim>\<open>src/crates/icn-covm/src/typed.rs\<close>): the enum \<^verbatim>\<open>TypedValue\<close>, the error enum
  \<^verbatim>\<open>TypedValueError\<close>, one definition per method. The lemmas show which operations are total,
  which operands make the others fail, that every operation keeps numbers representable, and
  the symmetries of the comparisons.
\<close>

datatype TypedValueError =
    TypeMismatch_tv string string                 \<comment> \<open>expected, found\<close>
  | InvalidOperationForType string string         \<comment> \<open>op, types\<close>
  | CoercionError string string                   \<comment> \<open>from, to\<close>
  | ValueOutOfBounds

datatype TypedValue = Number f64 | Boolean bool | Str string | Null

fun type_name :: "TypedValue \<Rightarrow> string" where
  "type_name (Number _) = ''Number''"
| "type_name (Boolean _) = ''Boolean''"
| "type_name (Str _) = ''String''"
| "type_name Null = ''Null''"

fun is_falsey :: "TypedValue \<Rightarrow> bool" where
  "is_falsey (Number n) = f64_eq n f64_zero"
| "is_falsey (Boolean b) = (\<not> b)"
| "is_falsey (Str s) = (s = [])"
| "is_falsey Null = True"

fun as_number :: "TypedValue \<Rightarrow> TypedValueError + f64" where
  "as_number (Number n) = Inr n"
| "as_number (Boolean b) = Inr (if b then f64_one else f64_zero)"
| "as_number (Str s) =
     (case parse_f64 s of Some n \<Rightarrow> Inr n | None \<Rightarrow> Inl (CoercionError ''String'' ''Number''))"
| "as_number Null = Inr f64_zero"

fun as_boolean :: "TypedValue \<Rightarrow> TypedValueError + bool" where
  "as_boolean (Number n) = Inr (\<not> f64_eq n f64_zero)"
| "as_boolean (Boolean b) = Inr b"
| "as_boolean (Str s) = Inr (s \<noteq> [])"
| "as_boolean Null = Inr False"

definition show_bool :: "bool \<Rightarrow> string" where
  "show_bool b = (if b then ''true'' else ''false'')"

fun as_string :: "TypedValue \<Rightarrow> TypedValueError + string" where
  "as_string (Number n) = Inr (show_f64 n)"
| "as_string (Boolean b) = Inr (show_bool b)"
| "as_string (Str s) = Inr s"
| "as_string Null = Inr ''null''"

definition num_op :: "(f64 \<Rightarrow> f64 \<Rightarrow> f64) \<Rightarrow> TypedValue \<Rightarrow> TypedValue \<Rightarrow> TypedValueError + TypedValue" where
  "num_op f a b = bindR (as_number a) (\<lambda>x. bindR (as_number b) (\<lambda>y. Inr (Number (f x y))))"

fun tv_add :: "TypedValue \<Rightarrow> TypedValue \<Rightarrow> TypedValueError + TypedValue" where
  "tv_add (Number a) (Number b) = Inr (Number (f64_add a b))"
| "tv_add (Str a) (Str b) = Inr (Str (a @ b))"
| "tv_add (Str a) b = bindR (as_string b) (\<lambda>t. Inr (Str (a @ t)))"
| "tv_add a (Str b) = bindR (as_string a) (\<lambda>t. Inr (Str (t @ b)))"
| "tv_add a b = num_op f64_add a b"

definition tv_sub :: "TypedValue \<Rightarrow> TypedValue \<Rightarrow> TypedValueError + TypedValue" where
  "tv_sub a b = num_op f64_sub a b"

definition str_repeat :: "string \<Rightarrow> f64 \<Rightarrow> TypedValueError + TypedValue" where
  "str_repeat s n = (let k = f64_as_nat 64 n
     in if 1000 < k then Inl ValueOutOfBounds else Inr (Str (concat (replicate k s))))"

fun tv_mul :: "TypedValue \<Rightarrow> TypedValue \<Rightarrow> TypedValueError + TypedValue" where
  "tv_mul (Number a) (Number b) = Inr (Number (f64_mul a b))"
| "tv_mul (Str s) (Number n) = str_repeat s n"
| "tv_mul (Number n) (Str s) = str_repeat s n"
| "tv_mul a b = num_op f64_mul a b"

definition tv_div :: "TypedValue \<Rightarrow> TypedValue \<Rightarrow> TypedValueError + TypedValue" where
  "tv_div a b = bindR (as_number a) (\<lambda>x. bindR (as_number b) (\<lambda>y.
     if f64_eq y f64_zero then Inl (InvalidOperationForType ''division'' ''by zero'')
     else Inr (Number (f64_div x y))))"

definition tv_modulo :: "TypedValue \<Rightarrow> TypedValue \<Rightarrow> TypedValueError + TypedValue" where
  "tv_modulo a b = bindR (as_number a) (\<lambda>x. bindR (as_number b) (\<lambda>y.
     if f64_eq y f64_zero then Inl (InvalidOperationForType ''modulo'' ''by zero'')
     else Inr (Number (f64_rem x y))))"

fun tv_equals :: "TypedValue \<Rightarrow> TypedValue \<Rightarrow> TypedValueError + TypedValue" where
  "tv_equals (Number a) (Number b) = Inr (Boolean (f64_lt (f64_abs (f64_sub a b)) f64_epsilon))"
| "tv_equals (Boolean a) (Boolean b) = Inr (Boolean (a = b))"
| "tv_equals (Str a) (Str b) = Inr (Boolean (a = b))"
| "tv_equals Null Null = Inr (Boolean True)"
| "tv_equals Null _ = Inr (Boolean False)"
| "tv_equals _ Null = Inr (Boolean False)"
| "tv_equals a b = bindR (as_string a) (\<lambda>s. bindR (as_string b) (\<lambda>t. Inr (Boolean (s = t))))"

definition num_cmp :: "(f64 \<Rightarrow> f64 \<Rightarrow> bool) \<Rightarrow> TypedValue \<Rightarrow> TypedValue \<Rightarrow> TypedValueError + TypedValue" where
  "num_cmp f a b = bindR (as_number a) (\<lambda>x. bindR (as_number b) (\<lambda>y. Inr (Boolean (f x y))))"

fun tv_greater_than :: "TypedValue \<Rightarrow> TypedValue \<Rightarrow> TypedValueError + TypedValue" where
  "tv_greater_than (Number a) (Number b) = Inr (Boolean (f64_lt b a))"
| "tv_greater_than (Str a) (Str b) = Inr (Boolean (a > b))"
| "tv_greater_than a b = num_cmp (\<lambda>x y. f64_lt y x) a b"

fun tv_less_than :: "TypedValue \<Rightarrow> TypedValue \<Rightarrow> TypedValueError + TypedValue" where
  "tv_less_than (Number a) (Number b) = Inr (Boolean (f64_lt a b))"
| "tv_less_than (Str a) (Str b) = Inr (Boolean (a < b))"
| "tv_less_than a b = num_cmp f64_lt a b"

definition tv_logical_not :: "TypedValue \<Rightarrow> TypedValueError + TypedValue" where
  "tv_logical_not a = bindR (as_boolean a) (\<lambda>b. Inr (Boolean (\<not> b)))"

definition tv_logical_and :: "TypedValue \<Rightarrow> TypedValue \<Rightarrow> TypedValueError + TypedValue" where
  "tv_logical_and a b = bindR (as_boolean a) (\<lambda>x. bindR (as_boolean b) (\<lambda>y. Inr (Boolean (x \<and> y))))"

definition tv_logical_or :: "TypedValue \<Rightarrow> TypedValue \<Rightarrow> TypedValueError + TypedValue" where
  "tv_logical_or a b = bindR (as_boolean a) (\<lambda>x. bindR (as_boolean b) (\<lambda>y. Inr (Boolean (x \<or> y))))"

definition as_u64_safe :: "TypedValue \<Rightarrow> TypedValueError + u64" where
  "as_u64_safe v = bindR (as_number v) (\<lambda>n.
     if f64_sign n \<or> n = F64_NaN \<or> \<not> f64_is_finite n \<or> f64_lt (f64_of_int (2 ^ 64 - 1)) n
     then Inl ValueOutOfBounds
     else Inr (f64_as_u64 (f64_round n)))"

text \<open>The \<^verbatim>\<open>Display\<close> text of a value; strings are quoted. It is what \<^verbatim>\<open>StoreP\<close> writes.\<close>

fun tv_display :: "TypedValue \<Rightarrow> string" where
  "tv_display (Number n) = show_f64 n"
| "tv_display (Boolean b) = show_bool b"
| "tv_display (Str s) = ''\"'' @ s @ ''\"''"
| "tv_display Null = ''null''"

text \<open>The derived \<^verbatim>\<open>PartialEq\<close>: numbers compare by \<^verbatim>\<open>==\<close>, so not-a-number differs from itself.\<close>

fun tv_eq :: "TypedValue \<Rightarrow> TypedValue \<Rightarrow> bool" where
  "tv_eq (Number a) (Number b) = f64_eq a b"
| "tv_eq (Boolean a) (Boolean b) = (a = b)"
| "tv_eq (Str a) (Str b) = (a = b)"
| "tv_eq Null Null = True"
| "tv_eq _ _ = False"

section \<open>Well-formed values\<close>

fun tv_wf :: "TypedValue \<Rightarrow> bool" where
  "tv_wf (Number n) = wf_f64 n"
| "tv_wf _ = True"

lemma wf_f64_one [simp]: "wf_f64 f64_one"
  unfolding f64_one_def using wf_int [of 1] by (simp del: wf_f64.simps)

lemma wf_f64_zero [simp]: "wf_f64 f64_zero"
  by (simp add: f64_zero_def)

lemma wf_parse_f64: "parse_f64 s = Some x \<Longrightarrow> wf_f64 x"
  by (auto simp: parse_f64_def Let_def split: if_splits simp del: wf_f64.simps(1))

lemma wf_as_number: "tv_wf v \<Longrightarrow> as_number v = Inr n \<Longrightarrow> wf_f64 n"
  by (cases v) (auto split: option.splits dest: wf_parse_f64)

lemma num_op_wf:
  assumes "tv_wf a" "tv_wf b" "num_op f a b = Inr v"
    and "\<And>x y. wf_f64 x \<Longrightarrow> wf_f64 y \<Longrightarrow> wf_f64 (f x y)"
  shows "tv_wf v"
  using assms wf_as_number by (auto simp: num_op_def bindR_Inr_iff)

lemma tv_add_wf: "tv_wf a \<Longrightarrow> tv_wf b \<Longrightarrow> tv_add a b = Inr v \<Longrightarrow> tv_wf v"
  by (cases a; cases b) (auto simp: num_op_def)

lemma tv_sub_wf: "tv_wf a \<Longrightarrow> tv_wf b \<Longrightarrow> tv_sub a b = Inr v \<Longrightarrow> tv_wf v"
  unfolding tv_sub_def by (erule (2) num_op_wf) (simp add: f64_sub_def)

lemma tv_mul_wf: "tv_wf a \<Longrightarrow> tv_wf b \<Longrightarrow> tv_mul a b = Inr v \<Longrightarrow> tv_wf v"
  by (cases a; cases b)
    (auto simp: str_repeat_def num_op_def Let_def bindR_Inr_iff split: if_splits)

lemma tv_div_wf: "tv_div a b = Inr v \<Longrightarrow> tv_wf v"
  by (auto simp: tv_div_def bindR_Inr_iff split: if_splits)

lemma tv_modulo_wf: "tv_wf a \<Longrightarrow> tv_modulo a b = Inr v \<Longrightarrow> tv_wf v"
  by (auto simp: tv_modulo_def bindR_Inr_iff split: if_splits dest: wf_as_number)

lemma num_cmp_wf: "num_cmp f a b = Inr v \<Longrightarrow> tv_wf v"
  by (auto simp: num_cmp_def bindR_Inr_iff)

lemma tv_compare_wf:
  "tv_equals a b = Inr v \<Longrightarrow> tv_wf v"
  "tv_less_than a b = Inr v \<Longrightarrow> tv_wf v"
  "tv_greater_than a b = Inr v \<Longrightarrow> tv_wf v"
  by (cases a; cases b; auto dest: num_cmp_wf)+

lemma tv_logical_wf:
  "tv_logical_not a = Inr v \<Longrightarrow> tv_wf v"
  "tv_logical_and a b = Inr v \<Longrightarrow> tv_wf v"
  "tv_logical_or a b = Inr v \<Longrightarrow> tv_wf v"
  by (auto simp: tv_logical_not_def tv_logical_and_def tv_logical_or_def bindR_Inr_iff)

section \<open>Truth values and conversions\<close>

lemma as_boolean_falsey: "as_boolean v = Inr (\<not> is_falsey v)"
  by (cases v) auto

lemma as_string_total: "\<exists>s. as_string v = Inr s"
  by (cases v) auto

lemma as_number_error: "as_number v = Inl e \<Longrightarrow> e = CoercionError ''String'' ''Number'' \<and> (\<exists>s. v = Str s \<and> parse_f64 s = None)"
  by (cases v) (auto split: option.splits)

lemma as_number_cases:
  "(\<exists>n. as_number v = Inr n) \<or> as_number v = Inl (CoercionError ''String'' ''Number'')"
  by (cases v) (auto split: option.splits)

lemma tv_logical_simps:
  "tv_logical_not a = Inr (Boolean (is_falsey a))"
  "tv_logical_and a b = Inr (Boolean (\<not> is_falsey a \<and> \<not> is_falsey b))"
  "tv_logical_or a b = Inr (Boolean (\<not> is_falsey a \<or> \<not> is_falsey b))"
  by (simp_all add: tv_logical_not_def tv_logical_and_def tv_logical_or_def as_boolean_falsey)

lemma tv_equals_total: "\<exists>b. tv_equals x y = Inr (Boolean b)"
  by (cases x; cases y) auto

lemma tv_add_total: "\<exists>v. tv_add x y = Inr v"
  by (cases x; cases y) (auto simp: num_op_def)

lemma tv_equals_sym: "tv_equals x y = tv_equals y x"
  by (cases x; cases y) (auto simp: f64_sub_swap)

lemma num_cmp_swap: "num_cmp (\<lambda>x y. f y x) a b = num_cmp f b a"
  using as_number_cases [of a] as_number_cases [of b] by (auto simp: num_cmp_def)

lemma tv_greater_less: "tv_greater_than x y = tv_less_than y x"
  by (cases x; cases y) (auto simp: num_cmp_swap [of f64_lt])

text \<open>What the display text reads back as: the number, the truth value and \<^verbatim>\<open>null\<close> literally.\<close>

lemma parse_f64_words [simp]:
  "parse_f64 ''true'' = None" "parse_f64 ''false'' = None" "parse_f64 ''null'' = None"
  by code_simp+


section \<open>Properties\<close>

text \<open>
  numbers and their text. The text \<^verbatim>\<open>Display\<close> writes for a number, read back by the coercion of a string to
  a number, gives exactly the number.
\<close>

theorem number_text_roundtrip:
  assumes "tv_wf (Number x)"
  shows "as_number (Str (tv_display (Number x))) = Inr x"
  using assms parse_show_f64 [of x] by simp

theorem number_text_roundtrip_witness:
  "as_number (Str (tv_display (Number (f64_of_int 42)))) = Inr (f64_of_int 42)"
  by (rule number_text_roundtrip) simp



end
