(* ===== verification/VM_Types.thy ===== *)
theory VM_Types
  imports Typed
begin

text \<open>
  The data of the virtual machine: the error enums of \<^verbatim>\<open>storage/errors.rs\<close> and
  \<^verbatim>\<open>vm/errors.rs\<close>, the operations and events of \<^verbatim>\<open>vm/types.rs\<close>, and the record of what the
  model takes as a parameter: the clock, the text that derived \<^verbatim>\<open>Debug\<close> implementations print,
  and the JSON text of a delegation map, which third-party or compiler-generated code produces.
\<close>

section \<open>Errors\<close>

datatype (plugins only: code) StorageError =
    SE_AuthenticationError string
  | SE_PermissionDenied string string string        \<comment> \<open>user\_id, action, key\<close>
  | SE_NotFound string
  | SE_TransactionError string
  | SE_ConflictError string string
  | SE_ConnectionError string string
  | SE_SerializationError string string
  | SE_InvalidDataFormat string string string
  | SE_QuotaExceeded string u64 u64                 \<comment> \<open>limit\_type, current, maximum\<close>
  | SE_TimeoutError string u64
  | SE_ResourceLocked string string
  | SE_ValidationError string string
  | SE_TimeError string
  | SE_IoError string string
  | SE_IOError string string
  | SE_SchemaVersionError string string string
  | SE_Other string
  | SE_ResourceNotFound string
  | SE_InsufficientBalance string
  | SE_VersionConflict u64 u64 string               \<comment> \<open>current, expected, resource\<close>

datatype (plugins only: code) VMError =
    VE_StorageUnavailable
  | VE_InvalidSignature string string
  | VE_UndefinedOperation string
  | VE_DivisionByZero
  | VE_StackUnderflow
  | VE_RegisterError string
  | VE_InvalidBytecode string
  | VE_Deserialization string
  | VE_TransactionError string
  | VE_SyntaxError string
  | VE_ValidationError string
  | VE_ArithmeticError string
  | VE_AccountNotFound string
  | VE_UndefinedState string
  | VE_StepLimitExceeded nat
  | VE_StackOverflow nat
  | VE_NamespaceError string
  | VE_AuthorizationError string
  | VE_GovernanceError string
  | VE_ParseError string
  | VE_ContextMismatch string
  | VE_MemoryLimitExceeded nat nat
  | VE_LoopLimitExceeded nat nat
  | VE_TimeoutError string
  | VE_TimeError string
  | VE_IoError string
  | VE_PolicyViolation string
  | VE_StorageError string
  | VE_Other string
  | VE_NotImplemented string
  | VE_AssertionFailed string
  | VE_StorageNotAvailable
  | VE_VariableNotFound string
  | VE_FunctionNotFound string
  | VE_ParameterNotFound string
  | VE_IdentityContextUnavailable
  | VE_PermissionDenied string string string
  | VE_TypeMismatch string string string            \<comment> \<open>expected, found, operation\<close>
  | VE_InvalidOperation string
  | VE_ResourceNotFound string string
  | VE_ResourceAlreadyExists string string
  | VE_InsufficientBalance string string f64 f64
  | VE_InvalidAmount f64
  | VE_IdentityNotFound string
  | VE_InvalidIdentity string
  | VE_VersionNotFound string nat
  | VE_ConfigurationError string
  | VE_InvalidFormat string
  | VE_NoStorageBackend
  | VE_SerializationError string
  | VE_TypedValueError string
  | VE_TypeError string string string
  | VE_UndefinedVariable string
  | VE_UndefinedFunction string
  | VE_UndefinedParameter string

section \<open>Operations, events and parameters\<close>

text \<open>A duration is the number of its nanoseconds.\<close>

type_synonym duration = int

datatype (plugins only: code size) Op =
    OpPush TypedValue
  | OpAdd | OpSub | OpMul | OpDiv | OpMod
  | OpStore string
  | OpLoad string
  | OpIf "Op list" "Op list" "Op list option"
  | OpLoop nat "Op list"
  | OpWhile "Op list" "Op list"
  | OpEmit string
  | OpNegate
  | OpAssertTop TypedValue
  | OpDumpStack
  | OpDumpMemory
  | OpAssertMemory string TypedValue
  | OpPop
  | OpEq | OpGt | OpLt | OpNot | OpAnd | OpOr
  | OpDup | OpSwap | OpOver
  | OpDef string "string list" "Op list"
  | OpCall string
  | OpReturn
  | OpNop
  | OpMatch "Op list" "(TypedValue \<times> Op list) list" "Op list option"
  | OpBreak
  | OpContinue
  | OpEmitEvent string string
  | OpAssertEqualStack nat
  | OpDumpState
  | OpRankedVote nat nat
  | OpLiquidDelegate string string
  | OpVoteThreshold f64
  | OpQuorumThreshold f64
  | OpMinDeliberation duration
  | OpExpiresIn duration
  | OpRequireRole string
  | OpStoreP string
  | OpLoadP string
  | OpLoadVersionP string u64
  | OpListVersionsP string
  | OpDiffVersionsP string u64 u64
  | OpVerifyIdentity string string string
  | OpCheckMembership string string
  | OpCheckDelegation string string
  | OpVerifySignature
  | OpCreateResource string
  | OpMint string string f64 "string option"
  | OpTransfer string string string f64 "string option"
  | OpBurn string string f64 "string option"
  | OpBalance string string
  | OpGetIdentity string
  | OpRequireValidSignature string string string
  | OpIfPassed "Op list"
  | OpElse "Op list"
  | OpIncrementReputation string "f64 option" "string option"
  | OpMacro string

datatype LoopControl = LC_None | LC_Break | LC_Continue

datatype MissingKeyBehavior = MK_Default | MK_Error

text \<open>A failing call returns an error value or panics (an \<^verbatim>\<open>unwrap\<close> or an index out of range).\<close>

datatype 'e fault = Err 'e | Panic

record VMEvent =
  ev_category :: string
  ev_message :: string
  ev_timestamp :: u64

text \<open>
  The parameters: \<open>now n i\<close> is the \<open>i\<close>-th reading of the clock by the operation that runs when \<open>n\<close>
  events are in the log; the \<open>dbg\<close> functions are the texts of derived \<^verbatim>\<open>Debug\<close> implementations;
  \<open>json_enc\<close> and \<open>json_dec\<close> are \<^verbatim>\<open>serde_json\<close> on a map of strings; \<open>num_of\<close> is the number the governance
  handlers read from a stack value: they are written for a stack of \<^verbatim>\<open>f64\<close> and use the popped value
  as one, so for \<open>Number n\<close> it is \<open>n\<close> and for other values the code does not say.
\<close>

record venv =
  now :: "nat \<Rightarrow> nat \<Rightarrow> u64"
  dbg_op :: "Op \<Rightarrow> string"
  dbg_value :: "TypedValue \<Rightarrow> string"
  dbg_storage_error :: "StorageError \<Rightarrow> string"
  dbg_duration :: "duration \<Rightarrow> string"
  dbg_amount :: "f64 option \<Rightarrow> string"
  json_enc :: "(string, string) fmap \<Rightarrow> string"
  json_dec :: "string \<Rightarrow> (string, string) fmap option"
  num_of :: "TypedValue \<Rightarrow> f64"


text \<open>Parameters at which the witnesses evaluate the model.\<close>

definition demo_env :: venv where
  "demo_env = \<lparr>now = (\<lambda>_ _. 0), dbg_op = (\<lambda>_. ''''), dbg_value = (\<lambda>_. ''''), dbg_storage_error = (\<lambda>_. ''''),
     dbg_duration = (\<lambda>_. ''''), dbg_amount = (\<lambda>_. ''''),
     json_enc = (\<lambda>m. join '','' (map (\<lambda>k. quoted k @ '':'' @ quoted (the (fmlookup m k))) (hkeys m))),
     json_dec = (\<lambda>s. if s = quoted ''ann'' @ '':'' @ quoted ''bob'' then Some (fmupd ''ann'' ''bob'' fmempty) else None),
     num_of = (\<lambda>v. case v of Number n \<Rightarrow> n | _ \<Rightarrow> f64_zero)\<rparr>"

end
