(* ===== verification/Auth.thy ===== *)
theory Auth
  imports VM_Types
begin

text \<open>
  The authorisation context (\<^verbatim>\<open>src/crates/icn-covm/src/storage/auth.rs\<close>) and the data of an
  identity (\<^verbatim>\<open>identity.rs\<close>): roles per namespace, memberships, delegations and the registry of
  identities. JSON values of a profile are kept as their text. The lemmas say what each query
  answers after each update.
\<close>

record Profile =
  pr_public_username :: string
  pr_full_name :: "string option"
  pr_other_fields :: "(string, string) fmap"

record Identity =
  id_did :: string
  id_public_key_bytes :: bytes
  id_private_key_bytes :: "bytes option"
  id_public_key_multibase :: string
  id_profile :: Profile
  id_identity_type :: string

record Membership =
  mb_identity_did :: string
  mb_namespace :: string
  mb_metadata :: "(string, string) fmap"

record Delegation =
  dg_delegator_did :: string
  dg_delegate_did :: string
  dg_delegation_type :: string
  dg_metadata :: "(string, string) fmap"

record AuthContext =
  ac_current_identity_did :: string
  ac_identity_registry :: "(string, Identity) fmap"
  ac_roles :: "(string, (string, string fset) fmap) fmap"
  ac_memberships :: "Membership list"
  ac_delegations :: "Delegation list"

definition auth_new :: "string \<Rightarrow> AuthContext" where
  "auth_new did = \<lparr>ac_current_identity_did = did, ac_identity_registry = fmempty,
     ac_roles = fmempty, ac_memberships = [], ac_delegations = []\<rparr>"

text \<open>
  \<^verbatim>\<open>str::starts_with\<close> and \<^verbatim>\<open>str::trim_start_matches\<close>, which removes the pattern as often as it
  occurs at the front.
\<close>

definition starts_with :: "string \<Rightarrow> string \<Rightarrow> bool" where
  "starts_with p s = (take (length p) s = p)"

function trim_start_matches :: "string \<Rightarrow> string \<Rightarrow> string" where
  "trim_start_matches p s =
     (if p \<noteq> [] \<and> s \<noteq> [] \<and> starts_with p s then trim_start_matches p (drop (length p) s) else s)"
  by pat_completeness auto
termination by (relation "measure (\<lambda>(p, s). length s)") auto

declare trim_start_matches.simps [simp del]

definition membership_display :: "Membership \<Rightarrow> string" where
  "membership_display m = ''Member '' @ mb_identity_did m @ '' of '' @ mb_namespace m"

definition get_coop_id :: "string \<Rightarrow> AuthContext \<Rightarrow> string option" where
  "get_coop_id did a =
     map_option (\<lambda>m. trim_start_matches ''coops/'' (mb_namespace m))
       (List.find (\<lambda>m. mb_identity_did m = did \<and> starts_with ''coops/'' (mb_namespace m))
          (ac_memberships a))"

definition register_identity :: "Identity \<Rightarrow> AuthContext \<Rightarrow> AuthContext" where
  "register_identity i a = a\<lparr>ac_identity_registry := fmupd (id_did i) i (ac_identity_registry a)\<rparr>"

definition add_role_to_identity :: "string \<Rightarrow> string \<Rightarrow> string \<Rightarrow> AuthContext \<Rightarrow> AuthContext" where
  "add_role_to_identity did ns role a =
     (let namespace_roles = (case fmlookup (ac_roles a) ns of Some r \<Rightarrow> r | None \<Rightarrow> fmempty);
          role_identities = (case fmlookup namespace_roles role of Some d \<Rightarrow> d | None \<Rightarrow> {||})
      in a\<lparr>ac_roles :=
            fmupd ns (fmupd role (finsert did role_identities) namespace_roles) (ac_roles a)\<rparr>)"

definition add_role :: "string \<Rightarrow> string \<Rightarrow> AuthContext \<Rightarrow> AuthContext" where
  "add_role ns role a = add_role_to_identity (ac_current_identity_did a) ns role a"

definition add_membership :: "string \<Rightarrow> string \<Rightarrow> AuthContext \<Rightarrow> AuthContext" where
  "add_membership did ns a =
     a\<lparr>ac_memberships := ac_memberships a @
         [\<lparr>mb_identity_did = did, mb_namespace = ns, mb_metadata = fmempty\<rparr>]\<rparr>"

definition add_delegation :: "string \<Rightarrow> string \<Rightarrow> string \<Rightarrow> AuthContext \<Rightarrow> AuthContext" where
  "add_delegation delegator delegate ty a =
     a\<lparr>ac_delegations := ac_delegations a @
         [\<lparr>dg_delegator_did = delegator, dg_delegate_did = delegate,
           dg_delegation_type = ty, dg_metadata = fmempty\<rparr>]\<rparr>"

definition has_role_for_identity :: "string \<Rightarrow> string \<Rightarrow> string \<Rightarrow> AuthContext \<Rightarrow> bool" where
  "has_role_for_identity did ns role a =
     (case fmlookup (ac_roles a) ns of
        None \<Rightarrow> False
      | Some nr \<Rightarrow> (case fmlookup nr role of None \<Rightarrow> False | Some ds \<Rightarrow> did |\<in>| ds))"

definition has_role :: "string \<Rightarrow> string \<Rightarrow> AuthContext \<Rightarrow> bool" where
  "has_role ns role a = has_role_for_identity (ac_current_identity_did a) ns role a"

definition is_member :: "string \<Rightarrow> string \<Rightarrow> AuthContext \<Rightarrow> bool" where
  "is_member did ns a =
     (\<exists>m \<in> set (ac_memberships a). mb_identity_did m = did \<and> mb_namespace m = ns)"

definition has_delegation :: "string \<Rightarrow> string \<Rightarrow> AuthContext \<Rightarrow> bool" where
  "has_delegation delegator delegate a =
     (\<exists>d \<in> set (ac_delegations a). dg_delegator_did d = delegator \<and> dg_delegate_did d = delegate)"

definition get_identity :: "string \<Rightarrow> AuthContext \<Rightarrow> Identity option" where
  "get_identity did a = fmlookup (ac_identity_registry a) did"

text \<open>The signature itself is not looked at: a registered identity is enough.\<close>

definition verify_signature :: "string \<Rightarrow> bytes \<Rightarrow> string \<Rightarrow> AuthContext \<Rightarrow> bool" where
  "verify_signature did message signature a = (get_identity did a \<noteq> None)"

definition user_id :: "AuthContext \<Rightarrow> string" where
  "user_id a = ac_current_identity_did a"

section \<open>Queries after updates\<close>

lemma starts_with_append [simp]: "starts_with p (p @ s)"
  by (simp add: starts_with_def)

lemma starts_with_iff: "starts_with p s \<longleftrightarrow> (\<exists>t. s = p @ t)"
  by (metis append_take_drop_id starts_with_def starts_with_append)

lemma trim_start_matches_no_prefix: "p \<noteq> [] \<Longrightarrow> \<not> starts_with p (trim_start_matches p s)"
proof (induction p s rule: trim_start_matches.induct)
  case (1 p s)
  then show ?case
    by (subst trim_start_matches.simps) (auto simp: starts_with_def)
qed

lemma trim_start_matches_once:
  "\<not> starts_with p s \<Longrightarrow> p \<noteq> [] \<Longrightarrow> trim_start_matches p (p @ s) = s"
  by (subst trim_start_matches.simps, simp) (subst trim_start_matches.simps, simp)

lemma has_role_add_iff:
  "has_role_for_identity d ns r (add_role_to_identity d' ns' r' a) \<longleftrightarrow>
     (d = d' \<and> ns = ns' \<and> r = r') \<or> has_role_for_identity d ns r a"
  by (auto simp: has_role_for_identity_def add_role_to_identity_def Let_def split: option.splits)

lemma auth_updates_user [simp]:
  "ac_current_identity_did (add_role_to_identity d ns r a) = ac_current_identity_did a"
  "ac_current_identity_did (add_membership d ns a) = ac_current_identity_did a"
  "ac_current_identity_did (add_delegation d e ty a) = ac_current_identity_did a"
  "ac_current_identity_did (register_identity i a) = ac_current_identity_did a"
  by (simp_all add: add_role_to_identity_def add_membership_def add_delegation_def
      register_identity_def Let_def)

lemma has_role_other_updates [simp]:
  "has_role_for_identity d ns r (add_membership d' ns' a) = has_role_for_identity d ns r a"
  "has_role_for_identity d ns r (add_delegation d' e ty a) = has_role_for_identity d ns r a"
  "has_role_for_identity d ns r (register_identity i a) = has_role_for_identity d ns r a"
  by (simp_all add: has_role_for_identity_def add_membership_def add_delegation_def
      register_identity_def)

lemma has_role_new [simp]: "\<not> has_role_for_identity d ns r (auth_new did)"
  by (simp add: has_role_for_identity_def auth_new_def)

lemma is_member_add_iff:
  "is_member d ns (add_membership d' ns' a) \<longleftrightarrow> (d = d' \<and> ns = ns') \<or> is_member d ns a"
  by (auto simp: is_member_def add_membership_def)

lemma has_delegation_add_iff:
  "has_delegation d e (add_delegation d' e' ty a) \<longleftrightarrow> (d = d' \<and> e = e') \<or> has_delegation d e a"
  by (auto simp: has_delegation_def add_delegation_def)

lemma find_append_first: "List.find P (xs @ ys) = (case List.find P xs of Some x \<Rightarrow> Some x | None \<Rightarrow> List.find P ys)"
  by (induction xs) auto

lemma get_coop_id_add:
  assumes "get_coop_id d a = None" "\<not> starts_with ''coops/'' c"
  shows "get_coop_id d (add_membership d (''coops/'' @ c) a) = Some c"
  using assms trim_start_matches_once [of "''coops/''" c] starts_with_append [of "''coops/''" c]
  by (auto simp: get_coop_id_def add_membership_def find_append_first simp del: starts_with_append
      split: option.splits)

lemma verify_signature_register:
  "verify_signature d msg s (register_identity i a) \<longleftrightarrow> d = id_did i \<or> verify_signature d msg s a"
  by (auto simp: verify_signature_def get_identity_def register_identity_def)


text \<open>An administrator, for the witnesses.\<close>

definition demo_auth :: AuthContext where
  "demo_auth = add_role ''global'' ''admin'' (auth_new ''alice'')"


section \<open>Properties\<close>

text \<open>
  grants. Granting a role, a membership or a delegation makes exactly the granted one hold in addition to
  those that held before.
\<close>

theorem grants_exact:
  "(has_role_for_identity d ns r (add_role_to_identity d' ns' r' a) \<longleftrightarrow>
      d = d' \<and> ns = ns' \<and> r = r' \<or> has_role_for_identity d ns r a) \<and>
   (is_member d ns (add_membership d' ns' a) \<longleftrightarrow> d = d' \<and> ns = ns' \<or> is_member d ns a) \<and>
   (has_delegation d e (add_delegation d' e' ty a) \<longleftrightarrow> d = d' \<and> e = e' \<or> has_delegation d e a)"
  by (simp add: has_role_add_iff is_member_add_iff has_delegation_add_iff)

end
