(* ===== verification/Versioning.thy ===== *)
theory Versioning
  imports VM_Types
begin

text \<open>
  Version records (\<^verbatim>\<open>src/crates/icn-covm/src/storage/versioning.rs\<close>): \<^verbatim>\<open>VersionInfo\<close>, a chain of
  records linked to their predecessors, and \<^verbatim>\<open>VersionStore\<close>, a bounded queue of versions. The
  invariant \<open>version_chain\<close> is what \<^verbatim>\<open>new\<close> establishes and \<^verbatim>\<open>next_version\<close> keeps.
\<close>

datatype VersionInfo = VersionInfo
  (vi_version: u64) (vi_created_by: string) (vi_timestamp: u64) (vi_prev_version: "VersionInfo option")

definition version_new :: "u64 \<Rightarrow> string \<Rightarrow> VersionInfo" where
  "version_new t created_by = VersionInfo 1 created_by t None"

definition next_version :: "u64 \<Rightarrow> VersionInfo \<Rightarrow> string \<Rightarrow> VersionInfo" where
  "next_version t v created_by = VersionInfo (sat_add (vi_version v) 1) created_by t (Some v)"

text \<open>The loop of \<^verbatim>\<open>get_version_history\<close> pushes newest first; the result is the reverse.\<close>

fun history_newest_first :: "VersionInfo \<Rightarrow> VersionInfo list" where
  "history_newest_first (VersionInfo n c t None) = [VersionInfo n c t None]"
| "history_newest_first (VersionInfo n c t (Some p)) =
     VersionInfo n c t (Some p) # history_newest_first p"

definition get_version_history :: "VersionInfo \<Rightarrow> VersionInfo list" where
  "get_version_history v = rev (history_newest_first v)"

fun search_previous :: "u64 \<Rightarrow> VersionInfo \<Rightarrow> VersionInfo option" where
  "search_previous k (VersionInfo n c t None) = None"
| "search_previous k (VersionInfo n c t (Some p)) =
     (if vi_version p = k then Some p else search_previous k p)"

definition vi_get_version :: "u64 \<Rightarrow> VersionInfo \<Rightarrow> VersionInfo option" where
  "vi_get_version k v =
     (if k = vi_version v then Some v
      else if k > vi_version v then None
      else search_previous k v)"

record 'a VersionStore =
  vs_versions :: "(VersionInfo \<times> 'a) list"
  vs_max_versions :: nat

definition vstore_new :: "nat \<Rightarrow> 'a VersionStore" where
  "vstore_new n = \<lparr>vs_versions = [], vs_max_versions = n\<rparr>"

function pop_front_while :: "nat \<Rightarrow> 'b list \<Rightarrow> 'b list" where
  "pop_front_while n vs = (if length vs > n then pop_front_while n (tl vs) else vs)"
  by pat_completeness auto
termination by (relation "measure (\<lambda>(n, vs). length vs)") auto

declare pop_front_while.simps [simp del]

definition vstore_add_version :: "VersionInfo \<Rightarrow> 'a \<Rightarrow> 'a VersionStore \<Rightarrow> 'a VersionStore" where
  "vstore_add_version v d s =
     s\<lparr>vs_versions := pop_front_while (vs_max_versions s) (vs_versions s @ [(v, d)])\<rparr>"

definition vstore_get_current :: "'a VersionStore \<Rightarrow> (VersionInfo \<times> 'a) option" where
  "vstore_get_current s = (if vs_versions s = [] then None else Some (last (vs_versions s)))"

definition vstore_get_version :: "u64 \<Rightarrow> 'a VersionStore \<Rightarrow> (VersionInfo \<times> 'a) option" where
  "vstore_get_version k s = List.find (\<lambda>(v, _). vi_version v = k) (vs_versions s)"

definition vstore_list_versions :: "'a VersionStore \<Rightarrow> VersionInfo list" where
  "vstore_list_versions s = map fst (vs_versions s)"

section \<open>Chains of versions\<close>

fun version_chain :: "VersionInfo \<Rightarrow> bool" where
  "version_chain (VersionInfo n c t None) = (n = 1)"
| "version_chain (VersionInfo n c t (Some p)) = (version_chain p \<and> n = sat_add (vi_version p) 1)"

lemma version_new_chain [simp, covm_inv]: "version_chain (version_new t c)"
  by (simp add: version_new_def)

lemma next_version_chain [covm_inv]: "version_chain v \<Longrightarrow> version_chain (next_version t v c)"
  by (simp add: next_version_def)

lemma version_chain_pos: "version_chain v \<Longrightarrow> 1 \<le> unat (vi_version v)"
proof (induction v rule: version_chain.induct)
  case (2 n c t p)
  then show ?case by (simp add: unat_sat_add)
qed simp

text \<open>Below the maximum of \<^verbatim>\<open>u64\<close> the number of a chain is its length.\<close>

lemma version_chain_numbers:
  assumes "version_chain v" "length (history_newest_first v) < 2 ^ 64"
  shows "map (unat \<circ> vi_version) (history_newest_first v) = rev [1..<Suc (unat (vi_version v))] \<and>
         unat (vi_version v) = length (history_newest_first v)"
  using assms
proof (induction v rule: version_chain.induct)
  case (2 n c t p)
  then have IH: "map (unat \<circ> vi_version) (history_newest_first p) = rev [1..<Suc (unat (vi_version p))]"
    "unat (vi_version p) = length (history_newest_first p)" by (simp_all del: upt_Suc add: comp_def)
  have n: "unat n = Suc (unat (vi_version p))"
    using 2 IH(2) by (simp add: unat_sat_add)
  have "map (unat \<circ> vi_version) (history_newest_first (VersionInfo n c t (Some p))) =
      unat n # rev [1..<Suc (unat (vi_version p))]"
    using IH(1) by simp
  moreover have "[1..<Suc (unat n)] = [1..<Suc (unat (vi_version p))] @ [unat n]" using n by simp
  ultimately show ?case using n IH(2) by (simp del: upt_Suc add: comp_def)
qed simp

lemma history_head: "history_newest_first v = v # tl (history_newest_first v)"
  by (cases v rule: history_newest_first.cases) simp_all

lemma search_previous_in: "search_previous k v = Some w \<Longrightarrow>
    w \<in> set (history_newest_first v) \<and> vi_version w = k"
  using history_head by (induction k v rule: search_previous.induct)
    (auto split: if_splits, metis list.set_intros(1))

lemma search_previous_find:
  "search_previous k v = List.find (\<lambda>w. vi_version w = k) (tl (history_newest_first v))"
proof (induction k v rule: search_previous.induct)
  case (2 k n c t p)
  have "List.find (\<lambda>w. vi_version w = k) (history_newest_first p) =
      (if vi_version p = k then Some p
       else List.find (\<lambda>w. vi_version w = k) (tl (history_newest_first p)))"
    by (subst history_head) simp
  with 2 show ?case by simp
qed simp

lemma vi_get_version_correct:
  assumes "version_chain v" "length (history_newest_first v) < 2 ^ 64"
  shows "(1 \<le> k \<and> k \<le> vi_version v \<longrightarrow>
            (\<exists>w. vi_get_version k v = Some w \<and> vi_version w = k \<and> w \<in> set (get_version_history v)))
       \<and> (\<not> (1 \<le> k \<and> k \<le> vi_version v) \<longrightarrow> vi_get_version k v = None)"
proof -
  note nums = version_chain_numbers [OF assms]
  let ?h = "history_newest_first v"
  have vers: "unat ` vi_version ` set ?h = {1..unat (vi_version v)}"
    using arg_cong [OF conjunct1 [OF nums], of set] by (auto simp: image_image)
  have hd: "set ?h = insert v (set (tl ?h))" by (subst history_head) simp
  show ?thesis
  proof (intro conjI impI)
    assume k: "1 \<le> k \<and> k \<le> vi_version v"
    then have "unat k \<in> {1..unat (vi_version v)}"
      by (simp add: word_le_nat_alt)
    then have "unat k \<in> unat ` vi_version ` set ?h" by (simp only: vers)
    then have "\<exists>w \<in> set ?h. unat (vi_version w) = unat k" by (auto simp: image_iff)
    then have "\<exists>w \<in> set ?h. vi_version w = k" by (simp add: word_unat_eq_iff)
    then consider "k = vi_version v" | "k \<noteq> vi_version v" "\<exists>w \<in> set (tl ?h). vi_version w = k"
      using hd by auto
    then show "\<exists>w. vi_get_version k v = Some w \<and> vi_version w = k \<and> w \<in> set (get_version_history v)"
    proof cases
      case 1
      then show ?thesis using hd by (simp add: vi_get_version_def get_version_history_def)
    next
      case 2
      then have "search_previous k v \<noteq> None"
        by (auto simp: search_previous_find find_None_iff)
      then obtain w where "search_previous k v = Some w" by blast
      then show ?thesis using search_previous_in 2 k
        by (auto simp: vi_get_version_def get_version_history_def)
    qed
  next
    assume "\<not> (1 \<le> k \<and> k \<le> vi_version v)"
    then consider "k > vi_version v" | "k = 0" "k \<le> vi_version v"
      by (auto simp: word_le_nat_alt word_less_nat_alt Suc_le_eq unat_gt_0)
    then show "vi_get_version k v = None"
    proof cases
      case 2
      have "vi_version w \<noteq> 0" if "w \<in> set (tl ?h)" for w
      proof -
        from that hd vers have "unat (vi_version w) \<in> {1..unat (vi_version v)}" by blast
        then show ?thesis by auto
      qed
      then have "search_previous k v = None"
        using 2 by (auto simp: search_previous_find find_None_iff)
      then show ?thesis using 2 version_chain_pos [OF assms(1)] by (auto simp: vi_get_version_def)
    qed (auto simp: vi_get_version_def)
  qed
qed

section \<open>The bounded store\<close>

lemma pop_front_while_drop: "pop_front_while n vs = drop (length vs - n) vs"
proof (induction n vs rule: pop_front_while.induct)
  case (1 n vs)
  show ?case
  proof (cases "length vs > n")
    case True
    then have "length vs - n = Suc (length (tl vs) - n)" by simp
    then have "drop (length vs - n) vs = drop (length (tl vs) - n) (tl vs)"
      by (simp add: drop_Suc)
    then show ?thesis using True 1 by (subst pop_front_while.simps) simp
  next
    case False
    then show ?thesis by (subst pop_front_while.simps) simp
  qed
qed

definition vstore_inv :: "'a VersionStore \<Rightarrow> bool" where
  "vstore_inv s = (length (vs_versions s) \<le> vs_max_versions s)"

lemma vstore_add_inv [covm_inv]: "vstore_inv (vstore_add_version v d s)"
  by (simp add: vstore_inv_def vstore_add_version_def pop_front_while_drop)

lemma vstore_current_add:
  "vstore_get_current (vstore_add_version v d s) =
     (if vs_max_versions s = 0 then None else Some (v, d))"
  by (auto simp: vstore_get_current_def vstore_add_version_def pop_front_while_drop last_drop)

lemma drop_to_last_append:
  "drop (length (drop (length zs - m) zs @ ys) - m) (drop (length zs - m) zs @ ys) =
     drop (length (zs @ ys) - m) (zs @ ys)"
proof -
  let ?a = "length zs - m"
  have app: "drop ?a zs @ ys = drop ?a (zs @ ys)" by simp
  have "length (zs @ ys) - ?a - m + ?a = length (zs @ ys) - m" by simp
  then show ?thesis unfolding app drop_drop length_drop by (simp only:)
qed

text \<open>Adding a sequence of versions keeps its last \<^verbatim>\<open>max_versions\<close> entries, in order.\<close>

lemma vstore_fold_add:
  assumes "vstore_inv s"
  shows "vs_versions (fold (\<lambda>(v, d). vstore_add_version v d) xs s) =
     drop (length (vs_versions s @ xs) - vs_max_versions s) (vs_versions s @ xs)"
  using assms
proof (induction xs arbitrary: s)
  case Nil
  then show ?case by (simp add: vstore_inv_def)
next
  case (Cons x xs)
  obtain v d where x: "x = (v, d)" by fastforce
  let ?s = "vstore_add_version v d s"
  have m: "vs_max_versions ?s = vs_max_versions s" by (simp add: vstore_add_version_def)
  have "vs_versions ?s =
      drop (length (vs_versions s @ [x]) - vs_max_versions s) (vs_versions s @ [x])"
    by (simp add: vstore_add_version_def pop_front_while_drop x)
  then show ?case
    using Cons.IH [OF vstore_add_inv, of v d s] drop_to_last_append [of "vs_versions s @ [x]" "vs_max_versions s" xs]
    by (simp add: m x)
qed


section \<open>Properties\<close>

text \<open>
  looking up a version. On a chain of versions made by \<^verbatim>\<open>new\<close> and \<^verbatim>\<open>next_version\<close>, whose numbers have not
  wrapped, every number from one to the current one is found, as an element of the history, and no other.
\<close>

theorem version_lookup_exact:
  assumes "version_chain v" "length (history_newest_first v) < 2 ^ 64"
  shows "case vi_get_version k v of
      Some w \<Rightarrow> 1 \<le> k \<and> k \<le> vi_version v \<and> vi_version w = k \<and> w \<in> set (get_version_history v)
    | None \<Rightarrow> \<not> (1 \<le> k \<and> k \<le> vi_version v)"
  using vi_get_version_correct [OF assms, of k] by (fastforce split: option.split)

theorem version_lookup_exact_witness:
  "\<exists>w. vi_get_version 1 (next_version 5 (version_new 4 ''ann'') ''bob'') = Some w"
proof -
  let ?v = "next_version 5 (version_new 4 ''ann'') ''bob''"
  have "version_chain ?v" by (simp add: next_version_chain)
  moreover have "length (history_newest_first ?v) < 2 ^ 64" by (simp add: next_version_def version_new_def)
  moreover have "1 \<le> vi_version ?v" by code_simp
  ultimately show ?thesis using version_lookup_exact [of ?v 1] by (simp split: option.splits)
qed

text \<open>
  the version store. After adding any sequence of versions to a store within its bound, it holds the
  newest ones of the whole history, as many as its bound allows, in order.
\<close>

theorem version_store_keeps_newest:
  assumes "vstore_inv s"
  shows "vs_versions (fold (\<lambda>(v, d). vstore_add_version v d) xs s) =
    drop (length (vs_versions s @ xs) - vs_max_versions s) (vs_versions s @ xs)"
  using assms by (rule vstore_fold_add)

theorem version_store_keeps_newest_witness:
  "vs_versions (fold (\<lambda>(v, d). vstore_add_version v d)
     [(version_new 1 ''a'', ''x''), (version_new 2 ''b'', ''y''), (version_new 3 ''c'', ''z'')] (vstore_new 2)) =
     [(version_new 2 ''b'', ''y''), (version_new 3 ''c'', ''z'')]"
proof -
  have "vstore_inv (vstore_new 2 :: string VersionStore)" by (simp add: vstore_inv_def vstore_new_def)
  from version_store_keeps_newest [OF this, of "[(version_new 1 ''a'', ''x''), (version_new 2 ''b'', ''y''), (version_new 3 ''c'', ''z'')]"]
  show ?thesis by (simp add: vstore_new_def)
qed

end
