(* ===== verification/Accounts.thy ===== *)
theory Accounts
  imports VM_Types
begin

text \<open>
  Resource accounts (\<^verbatim>\<open>src/crates/icn-covm/src/storage/resource.rs\<close>): the byte quota of a user.
  The counters are machine words and the code's saturating operations are kept. The locale
  \<open>quota_counter\<close> is the contract the storage relies on: what a charge and a release do to the usage.
\<close>

record ResourceAccount =
  ra_owner_id :: string
  ra_storage_quota_bytes :: u64
  ra_storage_used_bytes :: u64
  ra_last_updated :: u64

definition account_new :: "u64 \<Rightarrow> string \<Rightarrow> u64 \<Rightarrow> ResourceAccount" where
  "account_new t owner quota = \<lparr>ra_owner_id = owner, ra_storage_quota_bytes = quota,
     ra_storage_used_bytes = 0, ra_last_updated = t\<rparr>"

definition can_store :: "u64 \<Rightarrow> ResourceAccount \<Rightarrow> bool" where
  "can_store bs a = (sat_add (ra_storage_used_bytes a) bs \<le> ra_storage_quota_bytes a)"

definition add_usage :: "u64 \<Rightarrow> u64 \<Rightarrow> ResourceAccount \<Rightarrow> (StorageError, unit, ResourceAccount) outcome" where
  "add_usage t bs a =
     (if \<not> can_store bs a
      then (Inl (SE_QuotaExceeded (''Storage for account '' @ quoted (ra_owner_id a))
                   (ra_storage_used_bytes a) (ra_storage_quota_bytes a)), a)
      else (Inr (), a\<lparr>ra_storage_used_bytes := sat_add (ra_storage_used_bytes a) bs,
                      ra_last_updated := t\<rparr>))"

definition reduce_usage :: "u64 \<Rightarrow> u64 \<Rightarrow> ResourceAccount \<Rightarrow> ResourceAccount" where
  "reduce_usage t bs a =
     a\<lparr>ra_storage_used_bytes := sat_sub (ra_storage_used_bytes a) bs, ra_last_updated := t\<rparr>"

section \<open>The contract of a quota counter\<close>

locale quota_counter =
  fixes used :: "'a \<Rightarrow> u64" and quota :: "'a \<Rightarrow> u64"
    and add :: "u64 \<Rightarrow> 'a \<Rightarrow> ('e, unit, 'a) outcome" and reduce :: "u64 \<Rightarrow> 'a \<Rightarrow> 'a"
  assumes add_ok: "sat_add (used a) b \<le> quota a \<Longrightarrow>
      \<exists>a'. add b a = (Inr (), a') \<and> used a' = sat_add (used a) b \<and> quota a' = quota a"
    and add_err: "\<not> sat_add (used a) b \<le> quota a \<Longrightarrow> \<exists>e. add b a = (Inl e, a)"
    and reduce_used: "used (reduce b a) = sat_sub (used a) b"
    and reduce_quota: "quota (reduce b a) = quota a"
begin

lemma add_keeps_bound: "used a \<le> quota a \<Longrightarrow> add b a = (r, a') \<Longrightarrow> used a' \<le> quota a'"
  using add_ok [of a b] add_err [of a b] by (cases "sat_add (used a) b \<le> quota a") auto

lemma add_quota: "add b a = (r, a') \<Longrightarrow> quota a' = quota a"
  using add_ok [of a b] add_err [of a b] by (cases "sat_add (used a) b \<le> quota a") auto

lemma reduce_keeps_bound: "used a \<le> quota a \<Longrightarrow> used (reduce b a) \<le> quota (reduce b a)"
  by (simp add: reduce_used reduce_quota word_le_nat_alt unat_sat_sub)

lemma add_err_state: "add b a = (Inl e, a') \<Longrightarrow> a' = a"
  using add_ok [of a b] add_err [of a b] by (cases "sat_add (used a) b \<le> quota a") auto

text \<open>Releasing what was taken gives the old usage back, as long as the counter did not saturate.\<close>

lemma reduce_add:
  assumes "add b a = (Inr (), a')" "unat (used a) + unat b < 2 ^ 64"
  shows "used (reduce b a') = used a"
proof -
  have "used a' = sat_add (used a) b"
    using assms(1) add_ok [of a b] add_err [of a b]
    by (cases "sat_add (used a) b \<le> quota a") auto
  then show ?thesis using assms(2)
    by (simp add: reduce_used word_unat_eq_iff unat_sat_sub unat_sat_add)
qed

text \<open>A request that exceeds the quota as numbers is refused, unless the quota is \<^verbatim>\<open>u64::MAX\<close>.\<close>

lemma add_refused_iff:
  assumes "unat (quota a) < 2 ^ 64 - 1"
  shows "is_ok (fst (add b a)) \<longleftrightarrow> unat (used a) + unat b \<le> unat (quota a)"
  using add_ok [of a b] add_err [of a b] assms
  by (cases "sat_add (used a) b \<le> quota a") (auto simp: word_le_nat_alt unat_sat_add is_ok_def)

end

interpretation account_quota: quota_counter ra_storage_used_bytes ra_storage_quota_bytes
  "add_usage t" "reduce_usage t" for t
  by unfold_locales (auto simp: add_usage_def reduce_usage_def can_store_def)

lemmas account_bound [covm_inv] =
  account_quota.add_keeps_bound account_quota.reduce_keeps_bound

end
