(* ===== verification/Namespaces.thy ===== *)
theory Namespaces
  imports Accounts
begin

text \<open>
  The registry of hierarchical namespaces (\<^verbatim>\<open>src/crates/icn-covm/src/storage/namespaces.rs\<close>).
  Paths are texts with \<^verbatim>\<open>/\<close>; a query for a path that is not registered is answered by the nearest
  registered prefix. The registry is a finite map; the order in which \<^verbatim>\<open>list_children\<close> returns the
  values of the hash map is not specified by the code, and the model takes the order of the keys.
\<close>

record NamespaceMetadata =
  nm_path :: string
  nm_owner :: string
  nm_quota_bytes :: u64
  nm_used_bytes :: u64
  nm_parent :: "string option"
  nm_attributes :: "(string, string) fmap"

record NamespaceRegistry =
  nr_namespaces :: "(string, NamespaceMetadata) fmap"

definition registry_new :: NamespaceRegistry where
  "registry_new = \<lparr>nr_namespaces = fmempty\<rparr>"

definition namespace_exists :: "string \<Rightarrow> NamespaceRegistry \<Rightarrow> bool" where
  "namespace_exists p r = (fmlookup (nr_namespaces r) p \<noteq> None)"

definition register_namespace ::
  "string \<Rightarrow> string \<Rightarrow> u64 \<Rightarrow> string option \<Rightarrow> NamespaceRegistry \<Rightarrow>
     (string, unit, NamespaceRegistry) outcome" where
  "register_namespace path owner quota parent r =
     (if namespace_exists path r
      then (Inl (''Namespace '' @ path @ '' already exists''), r)
      else
        let add = (Inr (), r\<lparr>nr_namespaces := fmupd path
              \<lparr>nm_path = path, nm_owner = owner, nm_quota_bytes = quota, nm_used_bytes = 0,
               nm_parent = parent, nm_attributes = fmempty\<rparr> (nr_namespaces r)\<rparr>)
        in (case parent of
              None \<Rightarrow> add
            | Some q \<Rightarrow>
                if \<not> namespace_exists q r
                then (Inl (''Parent namespace '' @ q @ '' does not exist''), r)
                else add))"

definition get_namespace :: "string \<Rightarrow> NamespaceRegistry \<Rightarrow> NamespaceMetadata option" where
  "get_namespace p r = fmlookup (nr_namespaces r) p"

text \<open>\<^verbatim>\<open>str::rfind\<close> of a character: the last position.\<close>

fun rfind :: "char \<Rightarrow> string \<Rightarrow> nat option" where
  "rfind c [] = None"
| "rfind c (x # xs) =
     (case rfind c xs of
        Some i \<Rightarrow> Some (Suc i)
      | None \<Rightarrow> if x = c then Some 0 else None)"

definition parent_namespace :: "string \<Rightarrow> string" where
  "parent_namespace path =
     (case rfind (CHR ''/'') path of
        Some idx \<Rightarrow> if idx > 0 then take idx path else ''''
      | None \<Rightarrow> '''')"

lemma rfind_less: "rfind c s = Some i \<Longrightarrow> i < length s"
  by (induction s arbitrary: i) (auto split: option.splits if_splits)

lemma parent_namespace_shorter: "parent_namespace p \<noteq> p \<Longrightarrow> length (parent_namespace p) < length p"
  by (cases p) (auto simp: parent_namespace_def dest!: rfind_less split: option.splits if_splits)

function find_namespace_or_parent :: "NamespaceRegistry \<Rightarrow> string \<Rightarrow> NamespaceMetadata option" where
  "find_namespace_or_parent r current =
     (case get_namespace current r of
        Some md \<Rightarrow> Some md
      | None \<Rightarrow>
          if parent_namespace current = current then None
          else find_namespace_or_parent r (parent_namespace current))"
  by pat_completeness auto
termination
  by (relation "measure (\<lambda>(r, p). length p)") (auto intro: parent_namespace_shorter)

declare find_namespace_or_parent.simps [simp del]

definition has_permission :: "string \<Rightarrow> string \<Rightarrow> string \<Rightarrow> NamespaceRegistry \<Rightarrow> bool" where
  "has_permission user action path r =
     (case find_namespace_or_parent r path of
        Some md \<Rightarrow>
          if nm_owner md = user then True
          else if action = ''read'' then True
          else if action = ''write'' then nm_owner md = user
          else False
      | None \<Rightarrow> False)"

text \<open>\<^verbatim>\<open>bytes_delta\<close> is an \<^verbatim>\<open>i64\<close>: the same bits read as a signed number.\<close>

definition update_metadata_usage ::
  "string \<Rightarrow> u64 \<Rightarrow> NamespaceMetadata \<Rightarrow> (string, unit, NamespaceMetadata) outcome" where
  "update_metadata_usage path delta md =
     (if sint delta \<ge> 0
      then let new_usage = sat_add (nm_used_bytes md) delta
           in if new_usage > nm_quota_bytes md
              then (Inl (''Quota exceeded for namespace '' @ path @ '': '' @ show_u64 new_usage @
                      '' of '' @ show_u64 (nm_quota_bytes md) @ '' bytes''), md)
              else (Inr (), md\<lparr>nm_used_bytes := new_usage\<rparr>)
      else (Inr (), md\<lparr>nm_used_bytes := sat_sub (nm_used_bytes md) (- delta)\<rparr>))"

definition update_resource_usage ::
  "string \<Rightarrow> u64 \<Rightarrow> NamespaceRegistry \<Rightarrow> (string, unit, NamespaceRegistry) outcome" where
  "update_resource_usage path delta r =
     (case fmlookup (nr_namespaces r) path of
        Some md \<Rightarrow>
          (case update_metadata_usage path delta md of
             (res, md') \<Rightarrow> (res, r\<lparr>nr_namespaces := fmupd path md' (nr_namespaces r)\<rparr>))
      | None \<Rightarrow> (Inl (''Namespace '' @ path @ '' does not exist''), r))"

definition list_children :: "string \<Rightarrow> NamespaceRegistry \<Rightarrow> NamespaceMetadata list" where
  "list_children parent_path r =
     filter (\<lambda>md. nm_parent md = Some parent_path)
       (map (\<lambda>k. the (fmlookup (nr_namespaces r) k)) (hkeys (nr_namespaces r)))"

section \<open>Invariant\<close>

definition registry_inv :: "NamespaceRegistry \<Rightarrow> bool" where
  "registry_inv r =
     (\<forall>p md. fmlookup (nr_namespaces r) p = Some md \<longrightarrow>
        nm_path md = p \<and> nm_used_bytes md \<le> nm_quota_bytes md \<and>
        (\<forall>q. nm_parent md = Some q \<longrightarrow> namespace_exists q r))"

lemma registry_inv_new [simp]: "registry_inv registry_new"
  by (simp add: registry_inv_def registry_new_def)

lemma namespace_exists_upd:
  "namespace_exists q r \<Longrightarrow> namespace_exists q (r\<lparr>nr_namespaces := fmupd p md (nr_namespaces r)\<rparr>)"
  by (simp add: namespace_exists_def)

lemma registry_inv_upd:
  assumes "registry_inv r" "nm_path md = p" "nm_used_bytes md \<le> nm_quota_bytes md"
    "\<And>q. nm_parent md = Some q \<Longrightarrow> namespace_exists q r"
  shows "registry_inv (r\<lparr>nr_namespaces := fmupd p md (nr_namespaces r)\<rparr>)"
  using assms by (auto simp: registry_inv_def namespace_exists_upd)

lemma register_namespace_inv [covm_inv]:
  assumes "registry_inv r" "register_namespace p own q par r = (res, r')"
  shows "registry_inv r'"
  using assms
  by (auto simp: register_namespace_def Let_def intro!: registry_inv_upd
      split: if_splits option.splits)

lemma update_metadata_bound:
  assumes "nm_used_bytes md \<le> nm_quota_bytes md" "update_metadata_usage p d md = (res, md')"
  shows "nm_used_bytes md' \<le> nm_quota_bytes md' \<and> nm_path md' = nm_path md \<and> nm_parent md' = nm_parent md"
  using assms
  by (auto simp: update_metadata_usage_def Let_def not_less word_le_nat_alt unat_sat_sub split: if_splits)

lemma update_resource_usage_inv [covm_inv]:
  assumes "registry_inv r" "update_resource_usage p d r = (res, r')"
  shows "registry_inv r'"
proof (cases "fmlookup (nr_namespaces r) p")
  case (Some md)
  obtain md' where md': "update_metadata_usage p d md = (res, md')"
    "r' = r\<lparr>nr_namespaces := fmupd p md' (nr_namespaces r)\<rparr>"
    using assms(2) Some by (auto simp: update_resource_usage_def split: prod.splits)
  have "nm_path md = p" "nm_used_bytes md \<le> nm_quota_bytes md"
    "\<And>q. nm_parent md = Some q \<Longrightarrow> namespace_exists q r"
    using assms(1) Some by (auto simp: registry_inv_def)
  then show ?thesis using update_metadata_bound [OF _ md'(1)] assms(1) md'(2)
    by (auto intro!: registry_inv_upd)
qed (use assms in \<open>auto simp: update_resource_usage_def\<close>)

section \<open>Inheritance of permissions\<close>

lemma rfind_append: "c \<notin> set seg \<Longrightarrow> rfind c (p @ c # seg) = Some (length p)"
proof (induction p)
  case Nil
  have "rfind c xs = None" if "c \<notin> set xs" for xs using that by (induction xs) auto
  then show ?case using Nil by simp
qed simp

lemma parent_namespace_child:
  "CHR ''/'' \<notin> set seg \<Longrightarrow> parent_namespace (p @ ''/'' @ seg) = p"
  using rfind_append [of "CHR ''/''" seg p] by (auto simp: parent_namespace_def)

lemma find_namespace_child:
  assumes "CHR ''/'' \<notin> set seg" "\<not> namespace_exists (p @ ''/'' @ seg) r"
  shows "find_namespace_or_parent r (p @ ''/'' @ seg) = find_namespace_or_parent r p"
  using assms parent_namespace_child [OF assms(1), of p]
  by (subst find_namespace_or_parent.simps)
     (simp add: namespace_exists_def get_namespace_def)

lemma find_namespace_registered:
  "get_namespace p r = Some md \<Longrightarrow> find_namespace_or_parent r p = Some md"
  by (subst find_namespace_or_parent.simps) simp

text \<open>The answer is the metadata of a registered prefix of the path.\<close>

lemma parent_namespace_prefix: "\<exists>t. p = parent_namespace p @ t"
  by (auto simp: parent_namespace_def split: option.splits) (metis append_take_drop_id)

lemma find_namespace_prefix:
  "find_namespace_or_parent r p = Some md \<Longrightarrow>
     \<exists>q t. p = q @ t \<and> get_namespace q r = Some md"
proof (induction r p rule: find_namespace_or_parent.induct)
  case (1 r p)
  show ?case
  proof (cases "get_namespace p r")
    case None
    with 1 have "parent_namespace p \<noteq> p" "find_namespace_or_parent r (parent_namespace p) = Some md"
      using find_namespace_or_parent.simps [of r p] by (auto split: if_splits)
    with 1 None obtain q t where "parent_namespace p = q @ t" "get_namespace q r = Some md" by blast
    then show ?thesis using parent_namespace_prefix [of p] by (metis append_assoc)
  next
    case (Some md')
    with 1 show ?thesis using find_namespace_or_parent.simps [of r p] by auto
  qed
qed

lemma has_permission_inherited:
  assumes "CHR ''/'' \<notin> set seg" "\<not> namespace_exists (p @ ''/'' @ seg) r"
  shows "has_permission u act (p @ ''/'' @ seg) r = has_permission u act p r"
  by (simp only: has_permission_def find_namespace_child [OF assms])

lemma has_permission_write_owner:
  "has_permission u ''write'' p r \<longleftrightarrow>
     (\<exists>md. find_namespace_or_parent r p = Some md \<and> nm_owner md = u)"
  by (auto simp: has_permission_def split: option.splits)


section \<open>Properties\<close>

text \<open>
  the namespace registry. Registering a namespace and changing its usage keep the registry consistent:
  every entry is filed under its path, uses at most its quota, and has its parent in the registry.
\<close>

theorem registry_consistent:
  assumes "registry_inv r"
  shows "registry_inv (snd (register_namespace p own q par r)) \<and> registry_inv (snd (update_resource_usage p d r))"
  using register_namespace_inv [OF assms, of p own q par] update_resource_usage_inv [OF assms, of p d]
  by (metis prod.collapse)

theorem registry_consistent_witness:
  "registry_inv (snd (register_namespace ''a'' ''ann'' 10 None registry_new))"
  using registry_consistent [OF registry_inv_new] by blast

text \<open>
  permissions of an unregistered path are those of its parent, and writing is for the owner of the nearest
  registered namespace on the path.
\<close>

theorem permissions_inherited:
  assumes "CHR ''/'' \<notin> set seg" "\<not> namespace_exists (p @ ''/'' @ seg) r"
  shows "has_permission u act (p @ ''/'' @ seg) r = has_permission u act p r \<and>
    (has_permission u ''write'' (p @ ''/'' @ seg) r \<longleftrightarrow>
       (\<exists>md. find_namespace_or_parent r p = Some md \<and> nm_owner md = u))"
  using has_permission_inherited [OF assms] has_permission_write_owner by simp

theorem permissions_inherited_witness:
  "has_permission ''ann'' ''write'' ''a/b'' (snd (register_namespace ''a'' ''ann'' 10 None registry_new))"
proof -
  let ?r = "snd (register_namespace ''a'' ''ann'' 10 None registry_new)"
  have "\<not> namespace_exists (''a'' @ ''/'' @ ''b'') ?r" by code_simp
  moreover have "\<exists>md. find_namespace_or_parent ?r ''a'' = Some md \<and> nm_owner md = ''ann''"
  proof -
    have "map_option nm_owner (find_namespace_or_parent ?r ''a'') = Some ''ann''" by code_simp
    then show ?thesis by auto
  qed
  moreover have "CHR ''/'' \<notin> set ''b''" by simp
  ultimately have "has_permission ''ann'' ''write'' (''a'' @ ''/'' @ ''b'') ?r" using permissions_inherited by metis
  then show ?thesis by simp
qed

end
