(* ===== verification/Storage_API.thy ===== *)
theory Storage_API
  imports Auth Versioning Accounts Namespaces
begin

text \<open>
  The storage traits (\<^verbatim>\<open>src/crates/icn-covm/src/storage/traits.rs\<close>). \<^verbatim>\<open>StorageBackend\<close> is a record
  of operations on a state type \<open>'s\<close>, since the code is generic in it; the default methods of
  \<^verbatim>\<open>StorageExtensions\<close> and \<^verbatim>\<open>EconomicOperations\<close> are functions over that record. The locale
  \<open>storage_backend\<close> is the contract the economic operations rely on, and their effect on balances
  is proved in it. A clock is a sequence \<open>t\<close> of readings: the operation takes its readings in order.
\<close>

type_synonym clock = "nat \<Rightarrow> u64"

definition clock_after :: "nat \<Rightarrow> clock \<Rightarrow> clock" where
  "clock_after n t = (\<lambda>i. t (n + i))"

record StorageEvent =
  se_event_type :: string
  se_user_id :: string
  se_namespace :: string
  se_key :: string
  se_timestamp :: u64
  se_details :: string

record 's StorageBackend =
  sb_get :: "AuthContext option \<Rightarrow> string \<Rightarrow> string \<Rightarrow> 's \<Rightarrow> StorageError + bytes"
  sb_get_versioned :: "AuthContext option \<Rightarrow> string \<Rightarrow> string \<Rightarrow> 's \<Rightarrow> StorageError + bytes \<times> VersionInfo"
  sb_get_version :: "AuthContext option \<Rightarrow> string \<Rightarrow> string \<Rightarrow> u64 \<Rightarrow> 's \<Rightarrow> StorageError + bytes \<times> VersionInfo"
  sb_list_versions :: "AuthContext option \<Rightarrow> string \<Rightarrow> string \<Rightarrow> 's \<Rightarrow> StorageError + VersionInfo list"
  sb_set :: "clock \<Rightarrow> AuthContext option \<Rightarrow> string \<Rightarrow> string \<Rightarrow> bytes \<Rightarrow> 's \<Rightarrow> (StorageError, unit, 's) outcome"
  sb_contains :: "AuthContext option \<Rightarrow> string \<Rightarrow> string \<Rightarrow> 's \<Rightarrow> StorageError + bool"
  sb_list_keys :: "AuthContext option \<Rightarrow> string \<Rightarrow> string option \<Rightarrow> 's \<Rightarrow> StorageError + string list"
  sb_begin_transaction :: "'s \<Rightarrow> (StorageError, unit, 's) outcome"
  sb_commit_transaction :: "'s \<Rightarrow> (StorageError, unit, 's) outcome"
  sb_rollback_transaction :: "'s \<Rightarrow> (StorageError, unit, 's) outcome"

section \<open>Extensions\<close>

text \<open>
  \<^verbatim>\<open>get_json\<close> and \<^verbatim>\<open>set_json\<close> go through serde: \<open>enc\<close> and \<open>dec\<close> are its encoder and decoder for
  the type in question (an encoder may fail), \<open>ty\<close> the name of the type.
\<close>

definition get_json ::
  "'s StorageBackend \<Rightarrow> string \<Rightarrow> (bytes \<Rightarrow> string + 'a) \<Rightarrow>
     AuthContext option \<Rightarrow> string \<Rightarrow> string \<Rightarrow> 's \<Rightarrow> StorageError + 'a" where
  "get_json B ty dec a ns k s =
     bindR (sb_get B a ns k s) (\<lambda>b. map_err (SE_SerializationError ty) (dec b))"

definition set_json ::
  "'s StorageBackend \<Rightarrow> string \<Rightarrow> ('a \<Rightarrow> string + bytes) \<Rightarrow> clock \<Rightarrow>
     AuthContext option \<Rightarrow> string \<Rightarrow> string \<Rightarrow> 'a \<Rightarrow> 's \<Rightarrow> (StorageError, unit, 's) outcome" where
  "set_json B ty enc t a ns k v s =
     (case enc v of
        Inl e \<Rightarrow> (Inl (SE_SerializationError ty e), s)
      | Inr b \<Rightarrow> sb_set B t a ns k b s)"

definition get_version_json ::
  "'s StorageBackend \<Rightarrow> string \<Rightarrow> (bytes \<Rightarrow> string + 'a) \<Rightarrow>
     AuthContext option \<Rightarrow> string \<Rightarrow> string \<Rightarrow> u64 \<Rightarrow> 's \<Rightarrow> StorageError + 'a option" where
  "get_version_json B ty dec a ns k v s =
     (case sb_get_version B a ns k v s of
        Inr (b, _) \<Rightarrow> (case dec b of Inl e \<Rightarrow> Inl (SE_SerializationError ty e) | Inr x \<Rightarrow> Inr (Some x))
      | Inl (SE_NotFound _) \<Rightarrow> Inr None
      | Inl e \<Rightarrow> Inl e)"

definition set_json_versioned ::
  "'s StorageBackend \<Rightarrow> string \<Rightarrow> ('a \<Rightarrow> string + bytes) \<Rightarrow> clock \<Rightarrow>
     AuthContext option \<Rightarrow> string \<Rightarrow> string \<Rightarrow> 'a \<Rightarrow> u64 option \<Rightarrow> 's \<Rightarrow> (StorageError, u64, 's) outcome" where
  "set_json_versioned B ty enc t a ns k v expected s =
     (case (case expected of
              None \<Rightarrow> Inr ()
            | Some e \<Rightarrow>
                bindR (sb_contains B a ns k s) (\<lambda>c.
                  if c then
                    bindR (sb_get_versioned B a ns k s) (\<lambda>(_, vi).
                      if vi_version vi \<noteq> e
                      then Inl (SE_VersionConflict (vi_version vi) e k)
                      else Inr ())
                  else Inr ())) of
        Inl err \<Rightarrow> (Inl err, s)
      | Inr _ \<Rightarrow>
          bindE (set_json B ty enc t a ns k v s) (\<lambda>_ s'.
            (bindR (sb_get_versioned B a ns k s') (\<lambda>(_, vi). Inr (vi_version vi)), s')))"

section \<open>Economic operations\<close>

definition resource_key :: "string \<Rightarrow> string" where
  "resource_key r = ''resources/'' @ r @ ''/metadata''"

definition balance_key :: "string \<Rightarrow> string \<Rightarrow> string" where
  "balance_key r account = ''resources/'' @ r @ ''/accounts/'' @ account"

definition reputation_key :: "string \<Rightarrow> string" where
  "reputation_key i = ''identities/'' @ i @ ''/reputation''"

definition event_user :: "AuthContext option \<Rightarrow> string" where
  "event_user a = (case a of Some c \<Rightarrow> user_id c | None \<Rightarrow> ''system'')"

definition dquoted :: "string \<Rightarrow> string" where
  "dquoted s = [CHR 0x22] @ s @ [CHR 0x22]"

definition create_resource ::
  "'s StorageBackend \<Rightarrow> clock \<Rightarrow> AuthContext option \<Rightarrow> string \<Rightarrow> string \<Rightarrow> 's \<Rightarrow>
     (StorageError, unit, 's) outcome" where
  "create_resource B t a ns r s =
     sb_set B t a ns (resource_key r)
       (''{'' @ dquoted ''id'' @ '': '' @ dquoted r @ '', '' @
        dquoted ''namespace'' @ '': '' @ dquoted ns @ ''}'') s"

text \<open>
  A stored number: text that is not UTF-8 or is not a \<^verbatim>\<open>u64\<close> counts as zero (bytes that are not
  UTF-8 are not digits, so both cases are the failure of \<open>parse_u64\<close>).
\<close>

definition number_of_bytes :: "bytes \<Rightarrow> u64" where
  "number_of_bytes b = (case parse_u64 b of Some n \<Rightarrow> n | None \<Rightarrow> 0)"

definition stored_number ::
  "'s StorageBackend \<Rightarrow> AuthContext option \<Rightarrow> string \<Rightarrow> string \<Rightarrow> 's \<Rightarrow> StorageError + u64" where
  "stored_number B a ns k s =
     bindR (sb_contains B a ns k s) (\<lambda>c.
       if c then bindR (sb_get B a ns k s) (\<lambda>b. Inr (number_of_bytes b)) else Inr 0)"

definition require_resource ::
  "'s StorageBackend \<Rightarrow> AuthContext option \<Rightarrow> string \<Rightarrow> string \<Rightarrow> 's \<Rightarrow> StorageError + unit" where
  "require_resource B a ns r s =
     bindR (sb_contains B a ns (resource_key r) s) (\<lambda>c.
       if \<not> c then Inl (SE_ResourceNotFound r) else Inr ())"

definition mint ::
  "'s StorageBackend \<Rightarrow> clock \<Rightarrow> AuthContext option \<Rightarrow> string \<Rightarrow> string \<Rightarrow> string \<Rightarrow> u64 \<Rightarrow> string \<Rightarrow> 's \<Rightarrow>
     (StorageError, unit \<times> StorageEvent option, 's) outcome" where
  "mint B t a ns r account amount reason s =
     (let key = balance_key r account in
      case bindR (require_resource B a ns r s) (\<lambda>_. stored_number B a ns key s) of
        Inl e \<Rightarrow> (Inl e, s)
      | Inr current_balance \<Rightarrow>
          bindE (sb_set B t a ns key (show_u64 (current_balance + amount)) s) (\<lambda>_ s'.
            (Inr ((), Some \<lparr>se_event_type = ''mint'', se_user_id = event_user a, se_namespace = ns,
                se_key = key, se_timestamp = t 3,
                se_details = ''Minted '' @ show_u64 amount @ '' of '' @ r @ '' for '' @ account @ '': '' @ reason\<rparr>),
             s')))"

definition insufficient :: "string \<Rightarrow> string \<Rightarrow> StorageError" where
  "insufficient account r =
     SE_InsufficientBalance (''Account '' @ account @ '' has insufficient balance for resource '' @ r)"

definition transfer ::
  "'s StorageBackend \<Rightarrow> clock \<Rightarrow> AuthContext option \<Rightarrow> string \<Rightarrow> string \<Rightarrow> string \<Rightarrow> string \<Rightarrow> u64 \<Rightarrow> string \<Rightarrow> 's \<Rightarrow>
     (StorageError, unit \<times> StorageEvent option, 's) outcome" where
  "transfer B t a ns r from_acc to_acc amount reason s =
     (let from_key = balance_key r from_acc; to_key = balance_key r to_acc in
      case bindR (require_resource B a ns r s) (\<lambda>_.
           bindR (stored_number B a ns from_key s) (\<lambda>from_balance.
             if from_balance < amount then Inl (insufficient from_acc r)
             else bindR (stored_number B a ns to_key s) (\<lambda>to_balance.
               Inr (from_balance - amount, to_balance + amount)))) of
        Inl e \<Rightarrow> (Inl e, s)
      | Inr (new_from_balance, new_to_balance) \<Rightarrow>
          bindE (sb_set B t a ns from_key (show_u64 new_from_balance) s) (\<lambda>_ s1.
          bindE (sb_set B (clock_after 3 t) a ns to_key (show_u64 new_to_balance) s1) (\<lambda>_ s2.
            (Inr ((), Some \<lparr>se_event_type = ''transfer'', se_user_id = event_user a, se_namespace = ns,
                se_key = from_key @ ''->'' @ to_key, se_timestamp = t 6,
                se_details = ''Transferred '' @ show_u64 amount @ '' of '' @ r @ '' from '' @ from_acc @
                  '' to '' @ to_acc @ '': '' @ reason\<rparr>),
             s2))))"

definition burn ::
  "'s StorageBackend \<Rightarrow> clock \<Rightarrow> AuthContext option \<Rightarrow> string \<Rightarrow> string \<Rightarrow> string \<Rightarrow> u64 \<Rightarrow> string \<Rightarrow> 's \<Rightarrow>
     (StorageError, unit \<times> StorageEvent option, 's) outcome" where
  "burn B t a ns r account amount reason s =
     (let key = balance_key r account in
      case bindR (require_resource B a ns r s) (\<lambda>_.
           bindR (stored_number B a ns key s) (\<lambda>current_balance.
             if current_balance < amount then Inl (insufficient account r)
             else Inr (current_balance - amount))) of
        Inl e \<Rightarrow> (Inl e, s)
      | Inr new_balance \<Rightarrow>
          bindE (sb_set B t a ns key (show_u64 new_balance) s) (\<lambda>_ s'.
            (Inr ((), Some \<lparr>se_event_type = ''burn'', se_user_id = event_user a, se_namespace = ns,
                se_key = key, se_timestamp = t 3,
                se_details = ''Burned '' @ show_u64 amount @ '' of '' @ r @ '' from '' @ account @ '': '' @ reason\<rparr>),
             s')))"

definition get_balance ::
  "'s StorageBackend \<Rightarrow> clock \<Rightarrow> AuthContext option \<Rightarrow> string \<Rightarrow> string \<Rightarrow> string \<Rightarrow> 's \<Rightarrow>
     StorageError + u64 \<times> StorageEvent option" where
  "get_balance B t a ns r account s =
     (let key = balance_key r account in
      bindR (require_resource B a ns r s) (\<lambda>_.
      bindR (stored_number B a ns key s) (\<lambda>balance.
        Inr (balance, Some \<lparr>se_event_type = ''get_balance'', se_user_id = event_user a,
               se_namespace = ns, se_key = key, se_timestamp = t 0,
               se_details = ''Retrieved balance of '' @ r @ '' for '' @ account @ '': '' @ show_u64 balance\<rparr>))))"

definition get_reputation ::
  "'s StorageBackend \<Rightarrow> AuthContext option \<Rightarrow> string \<Rightarrow> string \<Rightarrow> 's \<Rightarrow>
     StorageError + u64 \<times> StorageEvent option" where
  "get_reputation B a ns i s =
     bindR (stored_number B a ns (reputation_key i) s) (\<lambda>n. Inr (n, None))"

definition set_reputation ::
  "'s StorageBackend \<Rightarrow> clock \<Rightarrow> AuthContext option \<Rightarrow> string \<Rightarrow> string \<Rightarrow> u64 \<Rightarrow> 's \<Rightarrow>
     (StorageError, unit \<times> StorageEvent option, 's) outcome" where
  "set_reputation B t a ns i v s =
     bindE (sb_set B t a ns (reputation_key i) (show_u64 v) s) (\<lambda>_ s'.
       (Inr ((), Some \<lparr>se_event_type = ''set_reputation'', se_user_id = event_user a, se_namespace = ns,
           se_key = reputation_key i, se_timestamp = t 3,
           se_details = ''Set reputation for '' @ i @ '' to '' @ show_u64 v\<rparr>), s'))"

definition eco_store ::
  "'s StorageBackend \<Rightarrow> clock \<Rightarrow> AuthContext option \<Rightarrow> string \<Rightarrow> string \<Rightarrow> bytes \<Rightarrow> 's \<Rightarrow>
     (StorageError, unit \<times> StorageEvent option, 's) outcome" where
  "eco_store B t a ns k v s =
     bindE (sb_set B t a ns k v s) (\<lambda>_ s'.
       (Inr ((), Some \<lparr>se_event_type = ''store'', se_user_id = event_user a, se_namespace = ns,
           se_key = k, se_timestamp = t 3, se_details = ''Stored data for key '' @ k\<rparr>), s'))"

definition eco_load ::
  "'s StorageBackend \<Rightarrow> clock \<Rightarrow> AuthContext option \<Rightarrow> string \<Rightarrow> string \<Rightarrow> 's \<Rightarrow>
     StorageError + bytes \<times> StorageEvent option" where
  "eco_load B t a ns k s =
     bindR (sb_get B a ns k s) (\<lambda>d.
       Inr (d, Some \<lparr>se_event_type = ''load'', se_user_id = event_user a, se_namespace = ns,
           se_key = k, se_timestamp = t 0, se_details = ''Loaded data for key '' @ k\<rparr>))"

section \<open>The contract of a backend\<close>

lemma balance_key_inject [simp]: "balance_key r x = balance_key r y \<longleftrightarrow> x = y"
  by (simp add: balance_key_def)

lemma balance_key_resource_key [simp]: "balance_key r x \<noteq> resource_key r"
  by (simp add: balance_key_def resource_key_def)

lemma number_of_bytes_show [simp]: "number_of_bytes (show_u64 n) = n"
  by (simp add: number_of_bytes_def)

text \<open>The number an entry of the store stands for, and the sum of the balances of some accounts.\<close>

definition entry_number :: "bytes option \<Rightarrow> u64" where
  "entry_number e = (case e of Some b \<Rightarrow> number_of_bytes b | None \<Rightarrow> 0)"

lemma entry_number_simps [simp]:
  "entry_number None = 0" "entry_number (Some b) = number_of_bytes b"
  by (simp_all add: entry_number_def)

definition total_supply :: "(string \<Rightarrow> string \<Rightarrow> bytes option) \<Rightarrow> string \<Rightarrow> string \<Rightarrow> string set \<Rightarrow> nat" where
  "total_supply l ns r A = (\<Sum>x \<in> A. unat (entry_number (l ns (balance_key r x))))"

definition put :: "string \<Rightarrow> string \<Rightarrow> bytes \<Rightarrow> (string \<Rightarrow> string \<Rightarrow> bytes option) \<Rightarrow> string \<Rightarrow> string \<Rightarrow> bytes option" where
  "put ns k v l = (\<lambda>ns' k'. if ns' = ns \<and> k' = k then Some v else l ns' k')"

lemma put_apply: "put ns k v l ns' k' = (if ns' = ns \<and> k' = k then Some v else l ns' k')"
  by (simp add: put_def)

lemma put_same [simp]: "put ns k v l ns k = Some v"
  by (simp add: put_def)

lemma supply_put:
  assumes "finite A" "x \<in> A"
  shows "total_supply (put ns (balance_key r x) (show_u64 n) l) ns r A + unat (entry_number (l ns (balance_key r x)))
       = total_supply l ns r A + unat n"
proof -
  have "total_supply (put ns (balance_key r x) (show_u64 n) l) ns r A =
      unat n + (\<Sum>y \<in> A - {x}. unat (entry_number (l ns (balance_key r y))))"
    unfolding total_supply_def using assms
    by (subst sum.remove [where x = x]) (auto simp: put_apply intro!: sum.cong)
  moreover have "total_supply l ns r A = unat (entry_number (l ns (balance_key r x))) +
      (\<Sum>y \<in> A - {x}. unat (entry_number (l ns (balance_key r y))))"
    unfolding total_supply_def using assms by (simp add: sum.remove [where x = x])
  ultimately show ?thesis by simp
qed

lemma supply_put_outside:
  "x \<notin> A \<Longrightarrow> total_supply (put ns (balance_key r x) v l) ns r A = total_supply l ns r A"
  unfolding total_supply_def by (intro sum.cong) (auto simp: put_apply)

locale storage_backend =
  fixes B :: "'s StorageBackend"
    and look :: "'s \<Rightarrow> string \<Rightarrow> string \<Rightarrow> bytes option"
    and reads :: "AuthContext option \<Rightarrow> string \<Rightarrow> bool"
  assumes get_ok: "reads a ns \<Longrightarrow> look s ns k = Some v \<Longrightarrow> sb_get B a ns k s = Inr v"
    and get_none: "look s ns k = None \<Longrightarrow> \<exists>e. sb_get B a ns k s = Inl e"
    and get_denied: "\<not> reads a ns \<Longrightarrow> \<exists>e. sb_get B a ns k s = Inl e"
    and contains_look: "sb_contains B a ns k s = Inr (look s ns k \<noteq> None)"
    and set_ok: "sb_set B t a ns k v s = (Inr u, s') \<Longrightarrow> look s' = put ns k v (look s)"
    and set_err: "sb_set B t a ns k v s = (Inl e, s') \<Longrightarrow> look s' = look s"
    and set_reads: "sb_set B t a ns k v s = (Inr u, s') \<Longrightarrow> reads a ns"
begin

lemma get_Inr: "sb_get B a ns k s = Inr v \<longleftrightarrow> reads a ns \<and> look s ns k = Some v"
  using get_ok get_none get_denied
  by (metis Inr_inject Inr_not_Inl not_Some_eq)

lemma get_after_set: "sb_set B t a ns k v s = (Inr u, s') \<Longrightarrow> sb_get B a ns k s' = Inr v"
  using set_ok set_reads by (simp add: get_Inr)

lemma stored_number_Inr: "stored_number B a ns k s = Inr n \<Longrightarrow> n = entry_number (look s ns k)"
  by (auto simp: stored_number_def contains_look bindR_Inr_iff get_Inr split: if_splits)

lemma stored_number_reads: "reads a ns \<Longrightarrow> stored_number B a ns k s = Inr (entry_number (look s ns k))"
  by (auto simp: stored_number_def contains_look get_ok)

lemma require_resource_iff:
  "require_resource B a ns r s =
     (if look s ns (resource_key r) = None then Inl (SE_ResourceNotFound r) else Inr ())"
  by (simp add: require_resource_def contains_look)

lemma mint_look:
  assumes "mint B t a ns r x n reason s = (res, s')"
  shows "(case res of
      Inl e \<Rightarrow> look s' = look s
    | Inr _ \<Rightarrow> look s ns (resource_key r) \<noteq> None \<and>
        look s' = put ns (balance_key r x)
          (show_u64 (entry_number (look s ns (balance_key r x)) + n)) (look s))"
  using assms
  by (auto simp: mint_def Let_def require_resource_iff bindR_Inr_iff bindE_def
      dest!: stored_number_Inr set_ok set_err split: sum.splits prod.splits if_splits)

lemma burn_look:
  assumes "burn B t a ns r x n reason s = (res, s')"
  shows "(case res of
      Inl e \<Rightarrow> look s' = look s
    | Inr _ \<Rightarrow> look s ns (resource_key r) \<noteq> None \<and> n \<le> entry_number (look s ns (balance_key r x)) \<and>
        look s' = put ns (balance_key r x)
          (show_u64 (entry_number (look s ns (balance_key r x)) - n)) (look s))"
  using assms
  by (auto simp: burn_def Let_def require_resource_iff bindR_Inr_iff bindE_def not_less
      dest!: stored_number_Inr set_ok set_err split: sum.splits prod.splits if_splits)

text \<open>
  A transfer writes the debit, then the credit. When the second write fails the debit stays.
\<close>

lemma transfer_look:
  assumes "transfer B t a ns r x y n reason s = (res, s')"
  defines "debit \<equiv> put ns (balance_key r x) (show_u64 (entry_number (look s ns (balance_key r x)) - n)) (look s)"
  shows "(case res of
      Inl e \<Rightarrow> look s' = look s \<or>
        (n \<le> entry_number (look s ns (balance_key r x)) \<and> look s' = debit)
    | Inr _ \<Rightarrow> look s ns (resource_key r) \<noteq> None \<and> n \<le> entry_number (look s ns (balance_key r x)) \<and>
        look s' = put ns (balance_key r y)
          (show_u64 (entry_number (look s ns (balance_key r y)) + n)) debit)"
  using assms(1) unfolding debit_def
  by (auto simp: transfer_def Let_def require_resource_iff bindR_Inr_iff bindE_def not_less
      dest!: stored_number_Inr set_ok set_err split: sum.splits prod.splits if_splits)

lemma burn_insufficient:
  assumes "reads a ns" "look s ns (resource_key r) \<noteq> None"
    "entry_number (look s ns (balance_key r x)) < n"
  shows "burn B t a ns r x n reason s = (Inl (insufficient x r), s)"
  using assms by (auto simp: burn_def Let_def require_resource_iff stored_number_reads)

lemma transfer_insufficient:
  assumes "reads a ns" "look s ns (resource_key r) \<noteq> None"
    "entry_number (look s ns (balance_key r x)) < n"
  shows "transfer B t a ns r x y n reason s = (Inl (insufficient x r), s)"
  using assms by (auto simp: transfer_def Let_def require_resource_iff stored_number_reads)

lemma no_resource:
  assumes "look s ns (resource_key r) = None"
  shows "mint B t a ns r x n reason s = (Inl (SE_ResourceNotFound r), s)"
    "burn B t a ns r x n reason s = (Inl (SE_ResourceNotFound r), s)"
    "transfer B t a ns r x y n reason s = (Inl (SE_ResourceNotFound r), s)"
    "get_balance B t a ns r x s = Inl (SE_ResourceNotFound r)"
  using assms
  by (simp_all add: mint_def burn_def transfer_def get_balance_def Let_def require_resource_iff)

lemma get_balance_look:
  "get_balance B t a ns r x s = Inr (n, ev) \<Longrightarrow> n = entry_number (look s ns (balance_key r x))"
  by (auto simp: get_balance_def Let_def bindR_Inr_iff dest!: stored_number_Inr)

lemma transfer_supply:
  assumes "transfer B t a ns r x y n reason s = (Inr u, s')" "x \<noteq> y"
    "finite A" "x \<in> A" "y \<in> A"
    "unat (entry_number (look s ns (balance_key r y))) + unat n < 2 ^ 64"
  shows "total_supply (look s') ns r A = total_supply (look s) ns r A"
proof -
  let ?fb = "entry_number (look s ns (balance_key r x))"
  let ?tb = "entry_number (look s ns (balance_key r y))"
  define l1 where "l1 = put ns (balance_key r x) (show_u64 (?fb - n)) (look s)"
  have le: "n \<le> ?fb" and l2: "look s' = put ns (balance_key r y) (show_u64 (?tb + n)) l1"
    using transfer_look [OF assms(1)] by (auto simp: l1_def)
  have tb: "entry_number (l1 ns (balance_key r y)) = ?tb"
    using assms(2) by (simp add: l1_def put_apply)
  have "total_supply l1 ns r A + unat ?fb = total_supply (look s) ns r A + unat (?fb - n)"
    unfolding l1_def by (rule supply_put) fact+
  moreover have "total_supply (look s') ns r A + unat ?tb = total_supply l1 ns r A + unat (?tb + n)"
    unfolding l2 using supply_put [OF assms(3,5), of ns r "?tb + n" l1] tb by simp
  moreover have "unat (?fb - n) = unat ?fb - unat n" "unat n \<le> unat ?fb"
    using le by (simp_all add: unat_sub word_le_nat_alt)
  moreover have "unat (?tb + n) = unat ?tb + unat n"
    using assms(6) by (rule unat_add_u64)
  ultimately show ?thesis by linarith
qed

lemma set_json_get_json:
  assumes "set_json B ty enc t a ns k v s = (Inr u, s')" "\<And>b. enc v = Inr b \<Longrightarrow> dec b = Inr v"
  shows "get_json B ty dec a ns k s' = Inr v"
  using assms get_after_set
  by (fastforce simp: set_json_def get_json_def bindR_Inr_iff split: sum.splits)

lemma set_json_versioned_err:
  assumes "set_json_versioned B ty enc t a ns k v (Some e) s = (Inl (SE_VersionConflict c e' k'), s')"
    "sb_get_versioned B a ns k s = Inr (d, vi)" "look s ns k \<noteq> None" "vi_version vi \<noteq> e"
  shows "s' = s \<and> c = vi_version vi \<and> e' = e"
  using assms by (auto simp: set_json_versioned_def contains_look)

end

end
