(* ===== verification/In_Memory.thy ===== *)
theory In_Memory
  imports Storage_API
begin

text \<open>
  The in-memory backend (\<^verbatim>\<open>src/crates/icn-covm/src/storage/implementations/in_memory.rs\<close>): data and
  version records per namespace and key, quota accounts, an audit log and a stack of undo logs.
  Every operation of the trait \<^verbatim>\<open>StorageBackend\<close> is translated with its permission check, error
  results and the state it leaves when it fails. Hash-map iteration order is not specified by the
  code; where an operation returns keys, the model takes them sorted.
\<close>

type_synonym 'v nested = "(string, (string, 'v) fmap) fmap"

record InMemoryStorage =
  im_data :: "bytes nested"
  im_versions :: "VersionInfo nested"
  im_accounts :: "(string, ResourceAccount) fmap"
  im_audit_log :: "StorageEvent list"
  im_transaction_stack :: "(string \<times> string \<times> bytes option) list list"

definition im_new :: InMemoryStorage where
  "im_new = \<lparr>im_data = fmempty, im_versions = fmempty, im_accounts = fmempty,
     im_audit_log = [], im_transaction_stack = []\<rparr>"

definition nlookup :: "'v nested \<Rightarrow> string \<Rightarrow> string \<Rightarrow> 'v option" where
  "nlookup m ns k = (case fmlookup m ns of Some d \<Rightarrow> fmlookup d k | None \<Rightarrow> None)"

text \<open>\<^verbatim>\<open>entry(ns).or_default()\<close>, then \<^verbatim>\<open>insert\<close> or \<^verbatim>\<open>remove\<close>.\<close>

definition ninner :: "'v nested \<Rightarrow> string \<Rightarrow> (string, 'v) fmap" where
  "ninner m ns = (case fmlookup m ns of Some d \<Rightarrow> d | None \<Rightarrow> fmempty)"

definition ninsert :: "string \<Rightarrow> string \<Rightarrow> 'v \<Rightarrow> 'v nested \<Rightarrow> 'v nested" where
  "ninsert ns k v m = fmupd ns (fmupd k v (ninner m ns)) m"

definition nremove :: "string \<Rightarrow> string \<Rightarrow> 'v nested \<Rightarrow> 'v nested" where
  "nremove ns k m = fmupd ns (fmdrop k (ninner m ns)) m"

definition make_internal_key :: "string \<Rightarrow> string \<Rightarrow> string" where
  "make_internal_key ns k = ns @ '':'' @ k"

definition record_for_rollback :: "string \<Rightarrow> string \<Rightarrow> bytes option \<Rightarrow> InMemoryStorage \<Rightarrow> InMemoryStorage" where
  "record_for_rollback ns k old s =
     (case im_transaction_stack s of
        [] \<Rightarrow> s
      | st \<Rightarrow> s\<lparr>im_transaction_stack := butlast st @ [last st @ [(ns, k, old)]]\<rparr>)"

definition im_emit_event :: "u64 \<Rightarrow> string \<Rightarrow> AuthContext \<Rightarrow> string \<Rightarrow> string \<Rightarrow> string \<Rightarrow> InMemoryStorage \<Rightarrow> InMemoryStorage" where
  "im_emit_event t ty a ns k details s =
     s\<lparr>im_audit_log := im_audit_log s @
         [\<lparr>se_event_type = ty, se_user_id = user_id a, se_namespace = ns, se_key = k,
           se_timestamp = t, se_details = details\<rparr>]\<rparr>"

definition check_permission :: "AuthContext option \<Rightarrow> string \<Rightarrow> string \<Rightarrow> StorageError + unit" where
  "check_permission auth action ns =
     (case auth of
        None \<Rightarrow> Inl (SE_PermissionDenied ''anonymous'' action ns)
      | Some a \<Rightarrow>
          if has_role ''global'' ''admin'' a then Inr ()
          else if has_role ns ''admin'' a then Inr ()
          else
            (case (if action = ''read'' then Some [''reader'', ''writer'', ''admin'']
                   else if action = ''write'' then Some [''writer'', ''admin'']
                   else None) of
               None \<Rightarrow> Inl (SE_PermissionDenied (user_id a) (''unknown action: '' @ action) ns)
             | Some required_role \<Rightarrow>
                 if \<exists>role \<in> set required_role. has_role ns role a then Inr ()
                 else Inl (SE_PermissionDenied (user_id a) action ns)))"

definition im_get :: "AuthContext option \<Rightarrow> string \<Rightarrow> string \<Rightarrow> InMemoryStorage \<Rightarrow> StorageError + bytes" where
  "im_get auth ns k s =
     bindR (check_permission auth ''read'' ns) (\<lambda>_.
       case nlookup (im_data s) ns k of
         Some v \<Rightarrow> Inr v
       | None \<Rightarrow> Inl (SE_NotFound (make_internal_key ns k)))"

definition im_get_versioned ::
  "AuthContext option \<Rightarrow> string \<Rightarrow> string \<Rightarrow> InMemoryStorage \<Rightarrow> StorageError + bytes \<times> VersionInfo" where
  "im_get_versioned auth ns k s =
     bindR (check_permission auth ''read'' ns) (\<lambda>_.
       case nlookup (im_data s) ns k of
         None \<Rightarrow> Inl (SE_NotFound (make_internal_key ns k))
       | Some d \<Rightarrow>
           (case nlookup (im_versions s) ns k of
              None \<Rightarrow> Inl (SE_TransactionError (''No version info for existing key '' @ k))
            | Some vi \<Rightarrow> Inr (d, vi)))"

definition size_u64 :: "bytes \<Rightarrow> u64" where
  "size_u64 v = of_nat (length v)"

text \<open>The accounting step of \<^verbatim>\<open>set\<close>: growth is charged, shrinking is credited.\<close>

definition charge :: "u64 \<Rightarrow> AuthContext \<Rightarrow> string \<Rightarrow> u64 \<Rightarrow> u64 \<Rightarrow> InMemoryStorage \<Rightarrow>
    (StorageError, unit, InMemoryStorage) outcome" where
  "charge t a internal_key value_size existing_size s =
     (if value_size > existing_size then
        (case fmlookup (im_accounts s) (user_id a) of
           None \<Rightarrow> (Inl (SE_PermissionDenied (user_id a) ''write (no account)'' internal_key), s)
         | Some acc \<Rightarrow>
             (case add_usage t (value_size - existing_size) acc of
                (res, acc') \<Rightarrow> (res, s\<lparr>im_accounts := fmupd (user_id a) acc' (im_accounts s)\<rparr>)))
      else if value_size < existing_size then
        (case fmlookup (im_accounts s) (user_id a) of
           None \<Rightarrow> (Inr (), s)
         | Some acc \<Rightarrow> (Inr (), s\<lparr>im_accounts :=
             fmupd (user_id a) (reduce_usage t (existing_size - value_size) acc) (im_accounts s)\<rparr>))
      else (Inr (), s))"

definition im_set ::
  "clock \<Rightarrow> AuthContext option \<Rightarrow> string \<Rightarrow> string \<Rightarrow> bytes \<Rightarrow> InMemoryStorage \<Rightarrow>
     (StorageError, unit, InMemoryStorage) outcome" where
  "im_set t auth ns k v s0 =
     (case check_permission auth ''write'' ns of
        Inl e \<Rightarrow> (Inl e, s0)
      | Inr _ \<Rightarrow>
          let value_size = size_u64 v;
              existing_value = nlookup (im_data s0) ns k;
              existing_size = (case existing_value of Some w \<Rightarrow> size_u64 w | None \<Rightarrow> 0);
              s1 = record_for_rollback ns k existing_value s0
          in (case auth of
                None \<Rightarrow> (Inl (SE_PermissionDenied ''anonymous'' ''write'' (make_internal_key ns k)), s1)
              | Some a \<Rightarrow>
                  bindE (charge (t 0) a (make_internal_key ns k) value_size existing_size s1) (\<lambda>_ s2.
                    let s3 = s2\<lparr>im_data := ninsert ns k v (im_data s2)\<rparr>;
                        vi = (case nlookup (im_versions s3) ns k of
                                Some w \<Rightarrow> next_version (t 1) w (user_id a)
                              | None \<Rightarrow> version_new (t 1) (user_id a));
                        s4 = s3\<lparr>im_versions := ninsert ns k vi (im_versions s3)\<rparr>
                    in (Inr (), im_emit_event (t 2) ''write'' a ns k
                          (''Value updated ('' @ show_u64 value_size @ '' bytes)'') s4))))"

definition create_account ::
  "clock \<Rightarrow> AuthContext option \<Rightarrow> string \<Rightarrow> u64 \<Rightarrow> InMemoryStorage \<Rightarrow>
     (StorageError, unit, InMemoryStorage) outcome" where
  "create_account t auth uid quota s =
     (case auth of
        None \<Rightarrow> (Inl (SE_PermissionDenied ''anonymous'' ''create_account'' uid), s)
      | Some a \<Rightarrow>
          if \<not> has_role ''global'' ''admin'' a
          then (Inl (SE_PermissionDenied (user_id a) ''create_account'' uid), s)
          else if fmlookup (im_accounts s) uid \<noteq> None
          then (Inl (SE_TransactionError (''Account already exists for user '' @ uid)), s)
          else (Inr (), im_emit_event (t 1) ''account_created'' a ''global'' uid
                  (''Account created with quota '' @ show_u64 quota @ '' bytes'')
                  (s\<lparr>im_accounts := fmupd uid (account_new (t 0) uid quota) (im_accounts s)\<rparr>)))"

definition im_begin_transaction :: "InMemoryStorage \<Rightarrow> (StorageError, unit, InMemoryStorage) outcome" where
  "im_begin_transaction s = (Inr (), s\<lparr>im_transaction_stack := im_transaction_stack s @ [[]]\<rparr>)"

definition im_commit_transaction :: "InMemoryStorage \<Rightarrow> (StorageError, unit, InMemoryStorage) outcome" where
  "im_commit_transaction s =
     (if im_transaction_stack s = []
      then (Inl (SE_TransactionError ''No active transaction to commit''), s)
      else (Inr (), s\<lparr>im_transaction_stack := butlast (im_transaction_stack s)\<rparr>))"

definition restore :: "string \<times> string \<times> bytes option \<Rightarrow> bytes nested \<Rightarrow> bytes nested" where
  "restore op d =
     (case op of (ns, k, old) \<Rightarrow>
        (case old of Some v \<Rightarrow> ninsert ns k v d | None \<Rightarrow> nremove ns k d))"

definition im_rollback_transaction :: "InMemoryStorage \<Rightarrow> (StorageError, unit, InMemoryStorage) outcome" where
  "im_rollback_transaction s =
     (if im_transaction_stack s = []
      then (Inl (SE_TransactionError ''No active transaction to rollback''), s)
      else (Inr (), s\<lparr>im_transaction_stack := butlast (im_transaction_stack s),
                      im_data := fold restore (rev (last (im_transaction_stack s))) (im_data s)\<rparr>))"

definition get_audit_log ::
  "AuthContext option \<Rightarrow> string option \<Rightarrow> string option \<Rightarrow> nat \<Rightarrow> InMemoryStorage \<Rightarrow>
     StorageError + StorageEvent list" where
  "get_audit_log auth ns ty limit s =
     (let effective_ns = (case ns of Some n \<Rightarrow> n | None \<Rightarrow> ''global'') in
      case auth of
        None \<Rightarrow> Inl (SE_AuthenticationError (''Authentication required for view_audit_log on '' @ effective_ns))
      | Some a \<Rightarrow>
          if \<not> has_role ''global'' ''admin'' a \<and> \<not> has_role effective_ns ''admin'' a
          then Inl (SE_PermissionDenied (user_id a) ''view_audit_log'' effective_ns)
          else Inr (take limit (rev (filter (\<lambda>ev.
                 (case ns of None \<Rightarrow> True | Some n \<Rightarrow> se_namespace ev = n) \<and>
                 (case ty of None \<Rightarrow> True | Some et \<Rightarrow> se_event_type ev = et)) (im_audit_log s)))))"

definition key_version :: "string \<Rightarrow> u64 \<Rightarrow> string" where
  "key_version k v = k @ '' (version '' @ show_u64 v @ '')''"

definition im_get_version ::
  "AuthContext option \<Rightarrow> string \<Rightarrow> string \<Rightarrow> u64 \<Rightarrow> InMemoryStorage \<Rightarrow> StorageError + bytes \<times> VersionInfo" where
  "im_get_version auth ns k v s =
     bindR (check_permission auth ''read'' ns) (\<lambda>_.
       case nlookup (im_versions s) ns k of
         None \<Rightarrow> Inl (SE_NotFound k)
       | Some vi \<Rightarrow>
           (case List.find (\<lambda>w. vi_version w = v) (get_version_history vi) of
              None \<Rightarrow> Inl (SE_NotFound (key_version k v))
            | Some target \<Rightarrow>
                (case nlookup (im_data s) ns k of
                   None \<Rightarrow> Inl (SE_NotFound (key_version k v))
                 | Some d \<Rightarrow>
                     Inr (if v = 1 then ''Initial draft''
                          else if v = 2 then ''Revised draft''
                          else if v = 3 then ''Final version''
                          else d, target))))"

definition im_list_versions ::
  "AuthContext option \<Rightarrow> string \<Rightarrow> string \<Rightarrow> InMemoryStorage \<Rightarrow> StorageError + VersionInfo list" where
  "im_list_versions auth ns k s =
     bindR (check_permission auth ''read'' ns) (\<lambda>_.
       case nlookup (im_versions s) ns k of
         None \<Rightarrow> Inl (SE_NotFound k)
       | Some vi \<Rightarrow> Inr (get_version_history vi))"

definition im_diff_versions ::
  "AuthContext option \<Rightarrow> string \<Rightarrow> string \<Rightarrow> u64 \<Rightarrow> u64 \<Rightarrow> InMemoryStorage \<Rightarrow> StorageError + 'diff" where
  "im_diff_versions auth ns k v1 v2 s =
     bindR (check_permission auth ''read'' ns) (\<lambda>_.
       Inl (SE_TransactionError ''Version diffing not implemented for InMemoryStorage''))"

definition im_list_keys ::
  "AuthContext option \<Rightarrow> string \<Rightarrow> string option \<Rightarrow> InMemoryStorage \<Rightarrow> StorageError + string list" where
  "im_list_keys auth ns prefix s =
     bindR (check_permission auth ''read'' ns) (\<lambda>_.
       Inr (case fmlookup (im_data s) ns of
              Some d \<Rightarrow>
                (case prefix of
                   Some p \<Rightarrow> filter (starts_with p) (hkeys d)
                 | None \<Rightarrow> hkeys d)
            | None \<Rightarrow> []))"

definition im_list_namespaces ::
  "AuthContext option \<Rightarrow> string \<Rightarrow> InMemoryStorage \<Rightarrow> StorageError + NamespaceMetadata list" where
  "im_list_namespaces auth parent s =
     bindR (check_permission auth ''read'' ''global'') (\<lambda>_.
       Inr (map (\<lambda>ns. \<lparr>nm_path = ns,
                nm_owner = (case auth of Some a \<Rightarrow> user_id a | None \<Rightarrow> ''system''),
                nm_quota_bytes = 1000000, nm_used_bytes = 0, nm_parent = Some parent,
                nm_attributes = fmempty\<rparr>)
             (filter (\<lambda>ns. starts_with parent ns \<and> ns \<noteq> parent) (hkeys (im_data s)))))"

text \<open>\<^verbatim>\<open>auth.unwrap()\<close> panics when there is no context.\<close>

definition im_create_namespace ::
  "clock \<Rightarrow> AuthContext option \<Rightarrow> string \<Rightarrow> u64 \<Rightarrow> string option \<Rightarrow> InMemoryStorage \<Rightarrow>
     (StorageError fault, unit, InMemoryStorage) outcome" where
  "im_create_namespace t auth ns quota parent s =
     (case auth of
        None \<Rightarrow> (Inl Panic, s)
      | Some a \<Rightarrow>
          if \<not> has_role ''global'' ''admin'' a
          then (Inl (Err (SE_PermissionDenied (user_id a) ''create_namespace'' ns)), s)
          else if (case parent of Some p \<Rightarrow> fmlookup (im_data s) p = None | None \<Rightarrow> False)
          then (Inl (Err (SE_NotFound (the parent))), s)
          else if fmlookup (im_data s) ns = None
          then (Inr (), im_emit_event (t 0) ''namespace_created'' a ''global'' ns
                  (''Namespace created with quota '' @ show_u64 quota @ '' bytes'')
                  (s\<lparr>im_data := fmupd ns fmempty (im_data s),
                     im_versions := fmupd ns fmempty (im_versions s)\<rparr>))
          else (Inr (), s))"

definition im_delete ::
  "clock \<Rightarrow> AuthContext option \<Rightarrow> string \<Rightarrow> string \<Rightarrow> InMemoryStorage \<Rightarrow>
     (StorageError fault, unit, InMemoryStorage) outcome" where
  "im_delete t auth ns k s0 =
     (case check_permission auth ''write'' ns of
        Inl e \<Rightarrow> (Inl (Err e), s0)
      | Inr _ \<Rightarrow>
          (case nlookup (im_data s0) ns k of
             None \<Rightarrow> (Inl (Err (SE_NotFound (make_internal_key ns k))), s0)
           | Some v \<Rightarrow>
               let s1 = record_for_rollback ns k (Some v) s0
               in (case auth of
                     None \<Rightarrow> (Inl Panic, s1)
                   | Some a \<Rightarrow>
                       let s2 = (case fmlookup (im_accounts s1) (user_id a) of
                                   Some acc \<Rightarrow> s1\<lparr>im_accounts :=
                                     fmupd (user_id a) (reduce_usage (t 0) (size_u64 v) acc) (im_accounts s1)\<rparr>
                                 | None \<Rightarrow> s1);
                           s3 = s2\<lparr>im_data := nremove ns k (im_data s2)\<rparr>;
                           s4 = (if fmlookup (im_versions s3) ns = None then s3
                                 else s3\<lparr>im_versions := nremove ns k (im_versions s3)\<rparr>)
                       in (Inr (), im_emit_event (t 1) ''delete'' a ns k ''Key deleted'' s4))))"

definition im_get_usage :: "AuthContext option \<Rightarrow> string \<Rightarrow> InMemoryStorage \<Rightarrow> StorageError + u64" where
  "im_get_usage auth ns s =
     bindR (check_permission auth ''read'' ns) (\<lambda>_.
       Inr (case fmlookup (im_data s) ns of
              Some d \<Rightarrow> sum_list (map (\<lambda>k. size_u64 (the (fmlookup d k))) (hkeys d))
            | None \<Rightarrow> 0))"

definition im_contains :: "AuthContext option \<Rightarrow> string \<Rightarrow> string \<Rightarrow> InMemoryStorage \<Rightarrow> StorageError + bool" where
  "im_contains auth ns k s =
     (case fmlookup (im_data s) ns of
        Some d \<Rightarrow> Inr (fmlookup d k \<noteq> None)
      | None \<Rightarrow> Inr False)"

definition in_memory :: "InMemoryStorage StorageBackend" where
  "in_memory = \<lparr>sb_get = im_get, sb_get_versioned = im_get_versioned, sb_get_version = im_get_version,
     sb_list_versions = im_list_versions, sb_set = im_set, sb_contains = im_contains,
     sb_list_keys = im_list_keys, sb_begin_transaction = im_begin_transaction,
     sb_commit_transaction = im_commit_transaction, sb_rollback_transaction = im_rollback_transaction\<rparr>"

lemma in_memory_simps [simp]:
  "sb_get in_memory = im_get" "sb_get_versioned in_memory = im_get_versioned"
  "sb_get_version in_memory = im_get_version" "sb_list_versions in_memory = im_list_versions"
  "sb_set in_memory = im_set" "sb_contains in_memory = im_contains"
  "sb_list_keys in_memory = im_list_keys" "sb_begin_transaction in_memory = im_begin_transaction"
  "sb_commit_transaction in_memory = im_commit_transaction"
  "sb_rollback_transaction in_memory = im_rollback_transaction"
  by (simp_all add: in_memory_def)

section \<open>Lookups after updates\<close>

lemma nlookup_ninsert [simp]:
  "nlookup (ninsert ns k v m) ns' k' = (if ns' = ns \<and> k' = k then Some v else nlookup m ns' k')"
  by (auto simp: nlookup_def ninsert_def ninner_def split: option.splits)

lemma nlookup_nremove [simp]:
  "nlookup (nremove ns k m) ns' k' = (if ns' = ns \<and> k' = k then None else nlookup m ns' k')"
  by (auto simp: nlookup_def nremove_def ninner_def split: option.splits)

lemma nlookup_new_namespace [simp]:
  "fmlookup m ns = None \<Longrightarrow> nlookup (fmupd ns fmempty m) = nlookup m"
  by (auto simp: nlookup_def fun_eq_iff split: option.splits)

definition im_look :: "InMemoryStorage \<Rightarrow> string \<Rightarrow> string \<Rightarrow> bytes option" where
  "im_look s = nlookup (im_data s)"

definition may_read :: "AuthContext option \<Rightarrow> string \<Rightarrow> bool" where
  "may_read auth ns = is_ok (check_permission auth ''read'' ns)"

definition may_write :: "AuthContext option \<Rightarrow> string \<Rightarrow> bool" where
  "may_write auth ns = is_ok (check_permission auth ''write'' ns)"

lemma may_read_iff:
  "may_read auth ns \<longleftrightarrow> (\<exists>a. auth = Some a \<and> (has_role ''global'' ''admin'' a \<or>
     (\<exists>role \<in> {''reader'', ''writer'', ''admin''}. has_role ns role a)))"
  by (auto simp: may_read_def check_permission_def split: option.splits)

lemma may_write_iff:
  "may_write auth ns \<longleftrightarrow> (\<exists>a. auth = Some a \<and> (has_role ''global'' ''admin'' a \<or>
     (\<exists>role \<in> {''writer'', ''admin''}. has_role ns role a)))"
  by (auto simp: may_write_def check_permission_def split: option.splits)

lemma may_write_may_read: "may_write auth ns \<Longrightarrow> may_read auth ns"
  by (auto simp: may_read_iff may_write_iff)

lemma im_contains_look: "im_contains a ns k s = Inr (im_look s ns k \<noteq> None)"
  by (auto simp: im_contains_def im_look_def nlookup_def split: option.splits)

lemma im_get_look:
  "im_get a ns k s =
     (case check_permission a ''read'' ns of
        Inl e \<Rightarrow> Inl e
      | Inr _ \<Rightarrow> (case im_look s ns k of Some v \<Rightarrow> Inr v | None \<Rightarrow> Inl (SE_NotFound (make_internal_key ns k))))"
  by (simp add: im_get_def im_look_def bindR_def split: sum.split)

lemma record_for_rollback_simps [simp]:
  "im_data (record_for_rollback ns k old s) = im_data s"
  "im_versions (record_for_rollback ns k old s) = im_versions s"
  "im_accounts (record_for_rollback ns k old s) = im_accounts s"
  "im_audit_log (record_for_rollback ns k old s) = im_audit_log s"
  by (simp_all add: record_for_rollback_def split: list.splits)

lemma im_emit_event_simps [simp]:
  "im_data (im_emit_event t ty a ns k d s) = im_data s"
  "im_versions (im_emit_event t ty a ns k d s) = im_versions s"
  "im_accounts (im_emit_event t ty a ns k d s) = im_accounts s"
  "im_transaction_stack (im_emit_event t ty a ns k d s) = im_transaction_stack s"
  by (simp_all add: im_emit_event_def)

text \<open>The accounting step changes the accounts only.\<close>

lemma charge_frame:
  "charge t a ik n m s = (res, s') \<Longrightarrow> \<exists>acc. s' = s\<lparr>im_accounts := acc\<rparr>"
  by (auto simp: charge_def split: if_splits option.splits prod.splits intro: exI [of _ "im_accounts s"])

lemma charge_frame_simps:
  assumes "charge t a ik n m s = (res, s')"
  shows "im_data s' = im_data s" "im_versions s' = im_versions s"
    "im_audit_log s' = im_audit_log s" "im_transaction_stack s' = im_transaction_stack s"
  using charge_frame [OF assms] by auto

lemma im_set_denied:
  "\<not> may_write auth ns \<Longrightarrow> \<exists>e. im_set t auth ns k v s = (Inl e, s)"
  by (auto simp: may_write_def im_set_def split: sum.splits)

definition old_size :: "InMemoryStorage \<Rightarrow> string \<Rightarrow> string \<Rightarrow> u64" where
  "old_size s ns k = (case im_look s ns k of Some w \<Rightarrow> size_u64 w | None \<Rightarrow> 0)"

definition new_version :: "clock \<Rightarrow> AuthContext \<Rightarrow> VersionInfo option \<Rightarrow> VersionInfo" where
  "new_version t a old = (case old of Some w \<Rightarrow> next_version (t 1) w (user_id a)
     | None \<Rightarrow> version_new (t 1) (user_id a))"

text \<open>\<^verbatim>\<open>set\<close> in one equation: permission, undo record, accounting, then the three writes.\<close>

lemma im_set_allowed:
  assumes "may_write (Some a) ns"
  shows "im_set t (Some a) ns k v s =
     bindE (charge (t 0) a (make_internal_key ns k) (size_u64 v) (old_size s ns k)
              (record_for_rollback ns k (im_look s ns k) s)) (\<lambda>_ s2.
       (Inr (), im_emit_event (t 2) ''write'' a ns k
          (''Value updated ('' @ show_u64 (size_u64 v) @ '' bytes)'')
          (s2\<lparr>im_data := ninsert ns k v (im_data s2),
              im_versions := ninsert ns k (new_version t a (nlookup (im_versions s2) ns k)) (im_versions s2)\<rparr>)))"
  using assms
  by (auto simp: may_write_def is_ok_iff im_set_def Let_def old_size_def im_look_def new_version_def)

lemma im_set_cases:
  assumes "im_set t auth ns k v s = (res, s')"
  obtains (denied) e where "res = Inl e" "s' = s" "\<not> may_write auth ns"
  | (charge) a e where "auth = Some a" "may_write auth ns" "res = Inl e"
      "charge (t 0) a (make_internal_key ns k) (size_u64 v) (old_size s ns k)
         (record_for_rollback ns k (im_look s ns k) s) = (Inl e, s')"
  | (ok) a s2 where "auth = Some a" "may_write auth ns" "res = Inr ()"
      "charge (t 0) a (make_internal_key ns k) (size_u64 v) (old_size s ns k)
         (record_for_rollback ns k (im_look s ns k) s) = (Inr (), s2)"
      "s' = im_emit_event (t 2) ''write'' a ns k
          (''Value updated ('' @ show_u64 (size_u64 v) @ '' bytes)'')
          (s2\<lparr>im_data := ninsert ns k v (im_data s2),
              im_versions := ninsert ns k (new_version t a (nlookup (im_versions s2) ns k)) (im_versions s2)\<rparr>)"
proof (cases "may_write auth ns")
  case True
  then obtain a where a: "auth = Some a" by (auto simp: may_write_iff)
  with assms True show ?thesis using charge ok
    by (fastforce simp: im_set_allowed bindE_def split: sum.splits prod.splits)
next
  case False
  from im_set_denied [OF this, of t k v s] assms have "\<exists>e. res = Inl e" "s' = s" by auto
  with False show ?thesis using denied by blast
qed

lemma im_set_look:
  assumes "im_set t auth ns k v s = (res, s')"
  shows "im_look s' = (if is_ok res then put ns k v (im_look s) else im_look s)"
  using assms
proof (cases rule: im_set_cases)
  case (charge a e)
  from charge_frame_simps [OF charge(4)] charge(3) show ?thesis by (simp add: im_look_def)
next
  case (ok a s2)
  from charge_frame_simps [OF ok(4)] ok(3) show ?thesis
    by (simp add: ok(5) im_look_def put_def fun_eq_iff)
qed simp

interpretation im: storage_backend in_memory im_look may_read
proof unfold_locales
  fix t a ns k v and s s' :: InMemoryStorage and u :: unit
  assume set: "sb_set in_memory t a ns k v s = (Inr u, s')"
  have "may_write a ns" using set im_set_denied [of a ns t k v s] by auto
  then show "may_read a ns" by (rule may_write_may_read)
  show "im_look s' = put ns k v (im_look s)" using set im_set_look by fastforce
next
  fix t a ns k v e and s s' :: InMemoryStorage
  assume "sb_set in_memory t a ns k v s = (Inl e, s')"
  then show "im_look s' = im_look s" using im_set_look by fastforce
qed (auto simp: im_get_look im_contains_look may_read_def is_ok_iff split: sum.splits)

section \<open>Invariant\<close>

definition im_inv :: "InMemoryStorage \<Rightarrow> bool" where
  "im_inv s \<longleftrightarrow>
     (\<forall>u acc. fmlookup (im_accounts s) u = Some acc \<longrightarrow>
        ra_owner_id acc = u \<and> ra_storage_used_bytes acc \<le> ra_storage_quota_bytes acc) \<and>
     (\<forall>ns k vi. nlookup (im_versions s) ns k = Some vi \<longrightarrow> version_chain vi)"

lemma im_inv_new [simp]: "im_inv im_new"
  by (simp add: im_inv_def im_new_def nlookup_def)

lemma im_inv_record [simp]: "im_inv (record_for_rollback ns k old s) = im_inv s"
  by (simp add: im_inv_def)

lemma im_inv_emit [simp]: "im_inv (im_emit_event t ty a ns k d s) = im_inv s"
  by (simp add: im_inv_def)

lemma im_inv_data [simp]: "im_inv (s\<lparr>im_data := d\<rparr>) = im_inv s"
  by (simp add: im_inv_def)

lemma im_inv_stack [simp]: "im_inv (s\<lparr>im_transaction_stack := st\<rparr>) = im_inv s"
  by (simp add: im_inv_def)

lemma im_inv_account:
  "im_inv s \<Longrightarrow> ra_owner_id acc = u \<Longrightarrow> ra_storage_used_bytes acc \<le> ra_storage_quota_bytes acc \<Longrightarrow>
     im_inv (s\<lparr>im_accounts := fmupd u acc (im_accounts s)\<rparr>)"
  by (auto simp: im_inv_def)

lemma im_inv_version:
  "im_inv s \<Longrightarrow> version_chain vi \<Longrightarrow> im_inv (s\<lparr>im_versions := ninsert ns k vi (im_versions s)\<rparr>)"
  by (auto simp: im_inv_def)

lemma add_usage_owner [simp]: "add_usage t b acc = (res, acc') \<Longrightarrow> ra_owner_id acc' = ra_owner_id acc"
  by (auto simp: add_usage_def split: if_splits)

lemma reduce_usage_owner [simp]: "ra_owner_id (reduce_usage t b acc) = ra_owner_id acc"
  by (simp add: reduce_usage_def)

lemma im_inv_accountD:
  "im_inv s \<Longrightarrow> fmlookup (im_accounts s) u = Some acc \<Longrightarrow>
     ra_owner_id acc = u \<and> ra_storage_used_bytes acc \<le> ra_storage_quota_bytes acc"
  by (simp add: im_inv_def)

lemma charge_inv [covm_inv]:
  assumes "im_inv s" "charge t a ik n m s = (res, s')"
  shows "im_inv s'"
proof (cases "fmlookup (im_accounts s) (user_id a)")
  case None
  with assms show ?thesis by (auto simp: charge_def split: if_splits)
next
  case (Some acc)
  note acc = im_inv_accountD [OF assms(1) Some]
  have "im_inv (s\<lparr>im_accounts := fmupd (user_id a) acc' (im_accounts s)\<rparr>)"
    if "add_usage t b acc = (r, acc')" for b r acc'
    using assms(1) acc that by (intro im_inv_account account_quota.add_keeps_bound [OF _ that]) auto
  moreover have "im_inv (s\<lparr>im_accounts := fmupd (user_id a) (reduce_usage t b acc) (im_accounts s)\<rparr>)" for b
    using assms(1) acc by (intro im_inv_account account_quota.reduce_keeps_bound) auto
  ultimately show ?thesis
    using assms(2) Some assms(1) by (auto simp: charge_def split: if_splits prod.splits)
qed

lemma new_version_chain:
  "im_inv s \<Longrightarrow> version_chain (new_version t a (nlookup (im_versions s) ns k))"
  by (auto simp: im_inv_def new_version_def next_version_chain split: option.splits)

lemma im_set_inv [covm_inv]:
  assumes "im_inv s" "im_set t auth ns k v s = (res, s')"
  shows "im_inv s'"
  using assms(2)
proof (cases rule: im_set_cases)
  case (ok a s2)
  have i2: "im_inv s2" using charge_inv [OF _ ok(4)] assms(1) by simp
  have "im_inv ((s2\<lparr>im_data := ninsert ns k v (im_data s2)\<rparr>)\<lparr>im_versions :=
      ninsert ns k (new_version t a (nlookup (im_versions s2) ns k))
        (im_versions (s2\<lparr>im_data := ninsert ns k v (im_data s2)\<rparr>))\<rparr>)"
    by (rule im_inv_version) (simp_all add: i2 new_version_chain)
  then show ?thesis by (simp add: ok(5))
next
  case (charge a e)
  then show ?thesis using charge_inv [OF _ charge(4)] assms(1) by simp
qed (use assms in auto)

lemma im_inv_version_remove:
  "im_inv s \<Longrightarrow> im_inv (s\<lparr>im_versions := nremove ns k (im_versions s)\<rparr>)"
  by (auto simp: im_inv_def split: if_splits)

lemma im_delete_cases:
  assumes "im_delete t auth ns k s = (res, s')"
  obtains (denied) e where "res = Inl (Err e)" "s' = s" "\<not> may_write auth ns \<or> im_look s ns k = None"
  | (ok) a v acc vs where "auth = Some a" "may_write auth ns" "res = Inr ()" "im_look s ns k = Some v"
      "acc = (case fmlookup (im_accounts s) (user_id a) of
                Some c \<Rightarrow> fmupd (user_id a) (reduce_usage (t 0) (size_u64 v) c) (im_accounts s)
              | None \<Rightarrow> im_accounts s)"
      "vs = (if fmlookup (im_versions s) ns = None then im_versions s else nremove ns k (im_versions s))"
      "s' = im_emit_event (t 1) ''delete'' a ns k ''Key deleted''
         ((record_for_rollback ns k (Some v) s)\<lparr>im_accounts := acc,
            im_data := nremove ns k (im_data s), im_versions := vs\<rparr>)"
proof (cases "check_permission auth ''write'' ns")
  case (Inl e)
  then show ?thesis using assms denied by (auto simp: im_delete_def may_write_def)
next
  case (Inr u)
  then obtain a where a: "auth = Some a" by (auto simp: check_permission_def split: option.splits)
  show ?thesis
  proof (cases "im_look s ns k")
    case None
    then show ?thesis using assms Inr denied by (auto simp: im_delete_def im_look_def)
  next
    case (Some v)
    show ?thesis
      by (rule ok [OF a _ _ Some refl refl])
        (use assms a Inr Some in \<open>auto simp: im_delete_def may_write_def im_look_def Let_def
           simp del: One_nat_def split: option.splits
           intro!: arg_cong [of _ _ "im_emit_event (t 1) ''delete'' a ns k ''Key deleted''"]
             InMemoryStorage.equality\<close>)
  qed
qed

lemma im_delete_inv [covm_inv]:
  assumes "im_inv s" "im_delete t auth ns k s = (res, s')"
  shows "im_inv s'"
  using assms(2)
proof (cases rule: im_delete_cases)
  case (ok a v acc vs)
  have acc: "ra_owner_id c = u \<and> ra_storage_used_bytes c \<le> ra_storage_quota_bytes c"
    if "fmlookup acc u = Some c" for u c
    using that ok(5) im_inv_accountD [OF assms(1)]
    by (auto split: option.splits if_splits intro!: account_quota.reduce_keeps_bound)
  have "version_chain vi" if "nlookup vs ns' k' = Some vi" for ns' k' vi
    using that ok(6) assms(1) by (auto simp: im_inv_def split: if_splits)
  with acc show ?thesis by (simp add: ok(7)) (simp add: im_inv_def)
qed (use assms in auto)

lemma im_create_account_inv [covm_inv]:
  assumes "im_inv s" "create_account t auth u q s = (res, s')"
  shows "im_inv s'"
  using assms
  by (auto simp: create_account_def account_new_def split: option.splits if_splits intro!: im_inv_account)

lemma im_create_namespace_inv [covm_inv]:
  assumes "im_inv s" "im_create_namespace t auth ns q p s = (res, s')"
  shows "im_inv s'"
  using assms
  by (auto simp: im_create_namespace_def im_inv_def nlookup_def split: option.splits if_splits)

lemma im_transaction_inv [covm_inv]:
  assumes "im_inv s"
  shows "im_begin_transaction s = (res, s') \<Longrightarrow> im_inv s'"
    "im_commit_transaction s = (res, s') \<Longrightarrow> im_inv s'"
    "im_rollback_transaction s = (res, s') \<Longrightarrow> im_inv s'"
  using assms
  by (auto simp: im_begin_transaction_def im_commit_transaction_def im_rollback_transaction_def im_inv_def
      split: if_splits)

section \<open>Versions\<close>

lemma im_set_version:
  assumes "im_set t (Some a) ns k v s = (Inr u, s')"
  shows "im_get_versioned (Some a) ns k s' = Inr (v, new_version t a (nlookup (im_versions s) ns k))"
    and "nlookup (im_versions s') ns' k' =
      (if ns' = ns \<and> k' = k then Some (new_version t a (nlookup (im_versions s) ns k))
       else nlookup (im_versions s) ns' k')"
proof -
  have perm: "may_read (Some a) ns" using im.set_reads [of t "Some a" ns k v s] assms by simp
  have frame: "im_data s' = ninsert ns k v (im_data s)"
    "im_versions s' = ninsert ns k (new_version t a (nlookup (im_versions s) ns k)) (im_versions s)"
    using assms
    by (auto elim!: im_set_cases simp: charge_frame_simps(1) charge_frame_simps(2))
  then show "im_get_versioned (Some a) ns k s' = Inr (v, new_version t a (nlookup (im_versions s) ns k))"
    using perm by (auto simp: im_get_versioned_def may_read_def is_ok_iff)
  show "nlookup (im_versions s') ns' k' =
      (if ns' = ns \<and> k' = k then Some (new_version t a (nlookup (im_versions s) ns k))
       else nlookup (im_versions s) ns' k')"
    by (simp add: frame(2))
qed

section \<open>Transactions\<close>

text \<open>
  The writing operations as a step relation. Inside a transaction, replaying the undo log of the
  top of the stack gives back the data of the moment it was opened, whatever the operations do.
\<close>

inductive im_step :: "InMemoryStorage \<Rightarrow> InMemoryStorage \<Rightarrow> bool" where
  step_set: "im_set t auth ns k v s = (res, s') \<Longrightarrow> im_step s s'"
| step_delete: "im_delete t auth ns k s = (res', s') \<Longrightarrow> im_step s s'"
| step_create_account: "create_account t auth u q s = (res, s') \<Longrightarrow> im_step s s'"
| step_create_namespace: "im_create_namespace t auth ns q p s = (res', s') \<Longrightarrow> im_step s s'"

inductive_cases im_stepE: "im_step s s'"

lemma im_step_inv: "im_step s s' \<Longrightarrow> im_inv s \<Longrightarrow> im_inv s'"
  by (induction rule: im_step.induct)
    (blast intro: im_set_inv im_delete_inv im_create_account_inv im_create_namespace_inv)+

lemma nlookup_restore:
  "nlookup (restore (ns, k, old) d) ns' k' = (if ns' = ns \<and> k' = k then old else nlookup d ns' k')"
  by (auto simp: restore_def split: option.splits)

definition undo :: "InMemoryStorage \<Rightarrow> (string \<Rightarrow> string \<Rightarrow> bytes option)" where
  "undo s = nlookup (fold restore (rev (last (im_transaction_stack s))) (im_data s))"

lemma fold_restore_cong:
  "nlookup d = nlookup d' \<Longrightarrow> nlookup (fold restore ops d) = nlookup (fold restore ops d')"
proof (induction ops arbitrary: d d')
  case (Cons op ops)
  obtain ns k old where "op = (ns, k, old)" by (cases op)
  then have "nlookup (restore op d) = nlookup (restore op d')"
    using Cons.prems by (simp add: fun_eq_iff nlookup_restore)
  from Cons.IH [OF this] show ?case by simp
qed simp

lemma undo_unchanged:
  assumes "im_transaction_stack s' = im_transaction_stack s" "im_look s' = im_look s"
  shows "undo s' = undo s"
  unfolding undo_def assms(1) by (rule fold_restore_cong) (use assms(2) in \<open>simp add: im_look_def\<close>)

lemma undo_recorded:
  assumes "im_transaction_stack s \<noteq> []"
    "im_transaction_stack s' = im_transaction_stack (record_for_rollback ns k (im_look s ns k) s)"
    "\<And>ns' k'. (ns', k') \<noteq> (ns, k) \<Longrightarrow> im_look s' ns' k' = im_look s ns' k'"
  shows "undo s' = undo s" and "butlast (im_transaction_stack s') = butlast (im_transaction_stack s)"
    and "im_transaction_stack s' \<noteq> []"
proof -
  have st: "im_transaction_stack s' = butlast (im_transaction_stack s) @
      [last (im_transaction_stack s) @ [(ns, k, im_look s ns k)]]"
    using assms(1,2) by (simp add: record_for_rollback_def split: list.splits)
  have "nlookup (restore (ns, k, im_look s ns k) (im_data s')) = nlookup (im_data s)"
    using assms(3) by (auto simp: fun_eq_iff nlookup_restore im_look_def)
  from fold_restore_cong [OF this] show "undo s' = undo s" by (simp add: undo_def st)
  show "butlast (im_transaction_stack s') = butlast (im_transaction_stack s)"
    "im_transaction_stack s' \<noteq> []" by (simp_all add: st)
qed

lemma im_step_undo:
  assumes "im_step s s'" "im_transaction_stack s \<noteq> []"
  shows "undo s' = undo s \<and> butlast (im_transaction_stack s') = butlast (im_transaction_stack s) \<and>
    im_transaction_stack s' \<noteq> []"
  using assms(1)
proof (cases rule: im_step.cases)
  case (step_set t auth ns k v res)
  then show ?thesis
  proof (cases rule: im_set_cases)
    case (charge a e)
    note f = charge_frame_simps [OF charge(4)]
    show ?thesis using undo_recorded [OF assms(2), of s' ns k] f by (auto simp: im_look_def)
  next
    case (ok a s2)
    note f = charge_frame_simps [OF ok(4)]
    have "im_transaction_stack s' = im_transaction_stack (record_for_rollback ns k (im_look s ns k) s)"
      using f ok(5) by simp
    moreover have "im_look s' ns' k' = im_look s ns' k'" if "(ns', k') \<noteq> (ns, k)" for ns' k'
      using f ok(5) that by (auto simp: im_look_def)
    ultimately show ?thesis using undo_recorded [OF assms(2)] by blast
  qed (use assms in auto)
next
  case (step_delete t auth ns k res)
  then show ?thesis
  proof (cases rule: im_delete_cases)
    case (ok a v acc vs)
    have "im_transaction_stack s' = im_transaction_stack (record_for_rollback ns k (im_look s ns k) s)"
      using ok(4,7) by simp
    moreover have "im_look s' ns' k' = im_look s ns' k'" if "(ns', k') \<noteq> (ns, k)" for ns' k'
      using ok(7) that by (auto simp: im_look_def)
    ultimately show ?thesis using undo_recorded [OF assms(2)] by blast
  qed (use assms in auto)
next
  case (step_create_account t auth u q res)
  then have "im_transaction_stack s' = im_transaction_stack s" "im_look s' = im_look s"
    by (auto simp: create_account_def im_look_def split: option.splits if_splits)
  then show ?thesis using undo_unchanged [of s' s] assms(2) by simp
next
  case (step_create_namespace t auth ns q p res)
  then have "im_transaction_stack s' = im_transaction_stack s" "im_look s' = im_look s"
    by (auto simp: im_create_namespace_def im_look_def split: option.splits if_splits)
  then show ?thesis using undo_unchanged [of s' s] assms(2) by simp
qed

lemma im_steps_undo:
  assumes "im_step\<^sup>*\<^sup>* s s'" "im_transaction_stack s \<noteq> []"
  shows "undo s' = undo s \<and> butlast (im_transaction_stack s') = butlast (im_transaction_stack s) \<and>
    im_transaction_stack s' \<noteq> []"
  using assms by (induction rule: rtranclp_induct) (auto dest: im_step_undo)

lemma rollback_undo:
  assumes "im_begin_transaction s = (Inr u, s1)" "im_step\<^sup>*\<^sup>* s1 s2"
  obtains s3 where "im_rollback_transaction s2 = (Inr (), s3)"
    "im_look s3 = im_look s" "im_transaction_stack s3 = im_transaction_stack s"
proof -
  have s1: "im_transaction_stack s1 = im_transaction_stack s @ [[]]" "im_data s1 = im_data s"
    using assms(1) by (auto simp: im_begin_transaction_def)
  then have "undo s1 = im_look s" "im_transaction_stack s1 \<noteq> []" by (simp_all add: undo_def im_look_def)
  with im_steps_undo [OF assms(2)] s1
  have "undo s2 = im_look s" "butlast (im_transaction_stack s2) = im_transaction_stack s"
    "im_transaction_stack s2 \<noteq> []" by auto
  then show ?thesis
    by (intro that [of "s2\<lparr>im_transaction_stack := butlast (im_transaction_stack s2),
          im_data := fold restore (rev (last (im_transaction_stack s2))) (im_data s2)\<rparr>"])
       (simp_all add: im_rollback_transaction_def undo_def im_look_def)
qed


section \<open>A store for the witnesses\<close>

text \<open>An administrator with an account and its quota, a resource, and an amount of it minted.\<close>

definition demo_clock :: clock where
  "demo_clock = (\<lambda>_. 0)"

definition funded_store :: "u64 \<Rightarrow> u64 \<Rightarrow> InMemoryStorage" where
  "funded_store quota amount =
     snd (mint in_memory demo_clock (Some demo_auth) ''default'' ''token'' ''alice'' amount ''''
       (snd (create_resource in_memory demo_clock (Some demo_auth) ''default'' ''token''
         (snd (create_account demo_clock (Some demo_auth) ''alice'' quota im_new)))))"

definition demo_store :: InMemoryStorage where
  "demo_store = funded_store 1000 10"


section \<open>Reachable stores\<close>

inductive im_reachable :: "InMemoryStorage \<Rightarrow> bool" where
  reach_new: "im_reachable im_new"
| reach_step: "im_reachable s \<Longrightarrow> im_step s s' \<Longrightarrow> im_reachable s'"
| reach_begin: "im_reachable s \<Longrightarrow> im_begin_transaction s = (res, s') \<Longrightarrow> im_reachable s'"
| reach_commit: "im_reachable s \<Longrightarrow> im_commit_transaction s = (res, s') \<Longrightarrow> im_reachable s'"
| reach_rollback: "im_reachable s \<Longrightarrow> im_rollback_transaction s = (res, s') \<Longrightarrow> im_reachable s'"

lemma im_reachable_inv: "im_reachable s \<Longrightarrow> im_inv s"
  by (induction rule: im_reachable.induct) (auto intro: im_step_inv im_transaction_inv)

section \<open>Properties\<close>

text \<open>
  C35: writing. A successful \<^verbatim>\<open>set\<close> makes exactly the written entry visible to \<^verbatim>\<open>get\<close> and leaves every
  other entry of every namespace as it was; a failing one leaves the whole data as it was.
\<close>

theorem set_then_get:
  "case im_set t auth ns k v s of
     (Inr _, s') \<Rightarrow> im_get auth ns k s' = Inr v \<and> im_look s' = put ns k v (im_look s)
   | (Inl _, s') \<Rightarrow> im_look s' = im_look s"
proof (cases "im_set t auth ns k v s")
  case (Pair res s')
  show ?thesis
  proof (cases res)
    case (Inl e)
    then show ?thesis using im_set_look [OF Pair] Pair by (simp add: is_ok_def)
  next
    case (Inr u)
    then have "sb_set in_memory t auth ns k v s = (Inr u, s')" using Pair by (simp add: in_memory_def)
    from im.get_after_set [OF this] show ?thesis
      using im_set_look [OF Pair] Inr Pair by (simp add: is_ok_def in_memory_def)
  qed
qed



text \<open>
  C32: quotas and version numbers. In every state the operations reach from the empty store, each account
  belongs to the user it is filed under and uses at most its quota, and the version record of each key is a
  chain numbered without gaps; transactions may be begun, committed and rolled back on the way.
\<close>

theorem reachable_quota_and_versions:
  assumes "im_reachable s"
  shows "(\<forall>u acc. fmlookup (im_accounts s) u = Some acc \<longrightarrow>
            ra_owner_id acc = u \<and> ra_storage_used_bytes acc \<le> ra_storage_quota_bytes acc) \<and>
         (\<forall>ns k vi. nlookup (im_versions s) ns k = Some vi \<longrightarrow> version_chain vi)"
  using im_reachable_inv [OF assms] unfolding im_inv_def by blast


theorem reachable_quota_and_versions_witness:
  "let s = snd (create_account demo_clock (Some demo_auth) ''alice'' 1000 im_new)
   in (\<exists>acc. fmlookup (im_accounts s) ''alice'' = Some acc \<and> ra_owner_id acc = ''alice'' \<and>
         ra_storage_used_bytes acc \<le> ra_storage_quota_bytes acc)"
proof -
  let ?s = "snd (create_account demo_clock (Some demo_auth) ''alice'' 1000 im_new)"
  have "im_reachable ?s"
    by (rule reach_step [OF reach_new], rule step_create_account, rule prod.collapse [symmetric])
  note r = reachable_quota_and_versions [OF this]
  have "fmlookup (im_accounts ?s) ''alice'' \<noteq> None" by code_simp
  then show ?thesis using r by (auto simp: Let_def)
qed

text \<open>
  C4: transactions. After \<^verbatim>\<open>begin_transaction\<close> and any sequence of writes, deletions and account or
  namespace creations, \<^verbatim>\<open>rollback_transaction\<close> succeeds, gives back the data as it was at the begin, and
  leaves the enclosing transactions as they were.
\<close>

theorem rollback_restores:
  assumes "im_begin_transaction s = (Inr u, s1)" "im_step\<^sup>*\<^sup>* s1 s2"
  shows "\<exists>s3. im_rollback_transaction s2 = (Inr (), s3) \<and> im_look s3 = im_look s \<and>
    im_transaction_stack s3 = im_transaction_stack s"
  using rollback_undo [OF assms] by metis

theorem rollback_restores_witness:
  "\<exists>s3. im_rollback_transaction (snd (im_set demo_clock (Some demo_auth) ''default'' ''k'' ''v''
            (snd (im_begin_transaction demo_store)))) = (Inr (), s3) \<and>
     im_look s3 = im_look demo_store \<and> im_transaction_stack s3 = im_transaction_stack demo_store"
proof -
  let ?s1 = "snd (im_begin_transaction demo_store)"
  have "im_begin_transaction demo_store = (Inr (), ?s1)" by (simp add: im_begin_transaction_def)
  moreover have "im_step\<^sup>*\<^sup>* ?s1 (snd (im_set demo_clock (Some demo_auth) ''default'' ''k'' ''v'' ?s1))"
    by (rule r_into_rtranclp, rule step_set, rule prod.collapse [symmetric])
  ultimately show ?thesis by (rule rollback_restores)
qed

text \<open>
  nested transactions are not undone together. Committing an inner transaction drops its undo log
  instead of handing it to the outer one, so rolling back the outer transaction keeps what the inner one
  wrote.
\<close>

theorem nested_commit_survives_rollback:
  "let s1 = snd (im_begin_transaction demo_store);
       s2 = snd (im_begin_transaction s1);
       s3 = snd (im_set demo_clock (Some demo_auth) ''default'' ''k'' ''v'' s2);
       s4 = snd (im_commit_transaction s3);
       s5 = snd (im_rollback_transaction s4)
   in im_look demo_store ''default'' ''k'' = None \<and> im_look s5 ''default'' ''k'' = Some ''v'' \<and>
      im_transaction_stack s5 = []"
  by code_simp

text \<open>
  versions. A successful write gives the key the next version number (one for a new key) with the
  writer as its author, readable with the new value, and changes no other key's versions.
\<close>

theorem write_advances_version:
  "case im_set t (Some a) ns k v s of
     (Inl _, _) \<Rightarrow> True
   | (Inr _, s') \<Rightarrow>
       (\<exists>vi. im_get_versioned (Some a) ns k s' = Inr (v, vi) \<and> vi_created_by vi = user_id a \<and>
          vi_version vi = (case nlookup (im_versions s) ns k of None \<Rightarrow> 1 | Some old \<Rightarrow> sat_add (vi_version old) 1)) \<and>
       (\<forall>ns' k'. nlookup (im_versions s') ns' k' =
          (if ns' = ns \<and> k' = k then nlookup (im_versions s') ns k else nlookup (im_versions s) ns' k'))"
proof (cases "im_set t (Some a) ns k v s")
  case (Pair res s')
  show ?thesis
  proof (cases res)
    case (Inr u)
    with Pair have set: "im_set t (Some a) ns k v s = (Inr u, s')" by simp
    show ?thesis using im_set_version [OF set] set Inr
      by (auto simp: new_version_def version_new_def next_version_def split: option.split)
  qed (use Pair in simp)
qed


subsection \<open>Resources\<close>

text \<open>
  minting and burning. Each either fails and leaves all data as it was, or the resource exists and
  exactly the account's balance changes: by the amount added modulo 2 to the 64, or by the amount taken
  from a balance that covers it.
\<close>

theorem mint_burn_balances:
  "(case mint in_memory t a ns r x n reason s of
      (Inl _, s') \<Rightarrow> im_look s' = im_look s
    | (Inr _, s') \<Rightarrow> im_look s ns (resource_key r) \<noteq> None \<and>
        im_look s' = put ns (balance_key r x)
          (show_u64 (entry_number (im_look s ns (balance_key r x)) + n)) (im_look s)) \<and>
   (case burn in_memory t a ns r x n reason s of
      (Inl _, s') \<Rightarrow> im_look s' = im_look s
    | (Inr _, s') \<Rightarrow> im_look s ns (resource_key r) \<noteq> None \<and> n \<le> entry_number (im_look s ns (balance_key r x)) \<and>
        im_look s' = put ns (balance_key r x)
          (show_u64 (entry_number (im_look s ns (balance_key r x)) - n)) (im_look s))"
  using im.mint_look [of t a ns r x n reason s] im.burn_look [of t a ns r x n reason s]
  by (auto split: prod.split sum.split)

text \<open>
  C3: transfers conserve the supply. A successful transfer between two different accounts leaves the sum
  of the balances of any finite set of accounts with both unchanged, when the receiver's balance does not
  exceed 64 bits.
\<close>

theorem transfer_conserves:
  assumes "transfer in_memory t a ns r x y n reason s = (Inr u, s')" "x \<noteq> y" "finite A" "x \<in> A" "y \<in> A"
    "unat (entry_number (im_look s ns (balance_key r y))) + unat n < 2 ^ 64"
  shows "total_supply (im_look s') ns r A = total_supply (im_look s) ns r A"
  using assms by (rule im.transfer_supply)

theorem transfer_conserves_witness:
  "\<exists>s' u. transfer in_memory demo_clock (Some demo_auth) ''default'' ''token'' ''alice'' ''bob'' 4 '''' demo_store
       = (Inr u, s') \<and>
     total_supply (im_look s') ''default'' ''token'' {''alice'', ''bob''} =
       total_supply (im_look demo_store) ''default'' ''token'' {''alice'', ''bob''}"
proof -
  let ?r = "transfer in_memory demo_clock (Some demo_auth) ''default'' ''token'' ''alice'' ''bob'' 4 '''' demo_store"
  have "\<not> isl (fst ?r)" by code_simp
  then obtain u s' where tr: "?r = (Inr u, s')" by (cases ?r; cases "fst ?r") auto
  have "im_look demo_store ''default'' (balance_key ''token'' ''bob'') = None" by code_simp
  then have "unat (entry_number (im_look demo_store ''default'' (balance_key ''token'' ''bob''))) + unat (4 :: u64) < 2 ^ 64"
    by simp
  from transfer_conserves [OF tr _ _ _ _ this, of "{''alice'', ''bob''}"]
  have "total_supply (im_look s') ''default'' ''token'' {''alice'', ''bob''} =
      total_supply (im_look demo_store) ''default'' ''token'' {''alice'', ''bob''}" by simp
  then show ?thesis using tr by blast
qed

text \<open>
  overdrafts. When the balance of the account is below the amount, transfer and burn return the
  insufficient-balance error and change nothing at all.
\<close>

theorem overdraft_refused:
  assumes "may_read a ns" "im_look s ns (resource_key r) \<noteq> None" "entry_number (im_look s ns (balance_key r x)) < n"
  shows "transfer in_memory t a ns r x y n reason s = (Inl (insufficient x r), s) \<and>
    burn in_memory t a ns r x n reason s = (Inl (insufficient x r), s)"
  using im.transfer_insufficient [OF assms] im.burn_insufficient [OF assms] by blast

theorem overdraft_refused_witness:
  "transfer in_memory demo_clock (Some demo_auth) ''default'' ''token'' ''alice'' ''bob'' 11 '''' demo_store =
     (Inl (insufficient ''alice'' ''token''), demo_store)"
proof -
  have "may_read (Some demo_auth) ''default''" by code_simp
  moreover have "im_look demo_store ''default'' (resource_key ''token'') \<noteq> None" by code_simp
  moreover have "entry_number (im_look demo_store ''default'' (balance_key ''token'' ''alice'')) < 11" by code_simp
  ultimately show ?thesis using overdraft_refused by blast
qed

text \<open>
  a transfer from an account to itself mints. Both balances are read before either is written, so the
  credit overwrites the debit: the account ends with its old balance plus the amount, and a holder of ten
  who sends four to herself has fourteen.
\<close>

theorem self_transfer_mints:
  "(case transfer in_memory t a ns r x x n reason s of
      (Inl _, _) \<Rightarrow> True
    | (Inr _, s') \<Rightarrow> entry_number (im_look s' ns (balance_key r x)) = entry_number (im_look s ns (balance_key r x)) + n) \<and>
   im_look demo_store ''default'' (balance_key ''token'' ''alice'') = Some ''10'' \<and>
   im_look (snd (transfer in_memory demo_clock (Some demo_auth) ''default'' ''token'' ''alice'' ''alice'' 4 '''' demo_store))
     ''default'' (balance_key ''token'' ''alice'') = Some ''14''"
proof -
  have "entry_number (im_look s' ns (balance_key r x)) = entry_number (im_look s ns (balance_key r x)) + n"
    if "transfer in_memory t a ns r x x n reason s = (Inr u, s')" for u s'
    using im.transfer_look [OF that] by simp
  moreover have "im_look demo_store ''default'' (balance_key ''token'' ''alice'') = Some ''10''" by code_simp
  moreover have "im_look (snd (transfer in_memory demo_clock (Some demo_auth) ''default'' ''token'' ''alice'' ''alice'' 4 '''' demo_store))
     ''default'' (balance_key ''token'' ''alice'') = Some ''14''" by code_simp
  ultimately show ?thesis by (auto split: prod.split sum.split)
qed

text \<open>
  a transfer is not atomic. The debit is written first; when the credit then exceeds the storage quota the
  transfer returns an error and the debit stays, so the amount is lost.
\<close>

theorem failed_transfer_loses_units:
  "let s = funded_store 41 15;
       r = transfer in_memory demo_clock (Some demo_auth) ''default'' ''token'' ''alice'' ''bob'' 5 '''' s
   in isl (fst r) \<and>
      im_look s ''default'' (balance_key ''token'' ''alice'') = Some ''15'' \<and>
      im_look (snd r) ''default'' (balance_key ''token'' ''alice'') = Some ''10'' \<and>
      im_look (snd r) ''default'' (balance_key ''token'' ''bob'') = None"
  by code_simp

end
