(* ===== verification/VM_Stack.thy ===== *)
theory VM_Stack
  imports VM_Types
begin

text \<open>
  The operand stack (\<^verbatim>\<open>src/crates/icn-covm/src/vm/stack.rs\<close>): the struct \<^verbatim>\<open>VMStack\<close>, one definition
  per method of the trait \<^verbatim>\<open>StackOps\<close>, the interface \<open>stack_ops\<close> with the laws the machine relies
  on, and its interpretation on the vector implementation. The vector grows at its end, as in
  the source.
\<close>

record VMStack =
  stack_vec :: "TypedValue list"

definition stack_new :: VMStack where
  "stack_new = \<lparr>stack_vec = []\<rparr>"

definition stack_push :: "TypedValue \<Rightarrow> VMStack \<Rightarrow> VMStack" where
  "stack_push v s = s\<lparr>stack_vec := stack_vec s @ [v]\<rparr>"

definition stack_pop :: "string \<Rightarrow> VMStack \<Rightarrow> (VMError fault, TypedValue, VMStack) outcome" where
  "stack_pop op_name s =
     (if stack_vec s = [] then (Inl (Err VE_StackUnderflow), s)
      else (Inr (last (stack_vec s)), s\<lparr>stack_vec := butlast (stack_vec s)\<rparr>))"

definition stack_pop_two ::
  "string \<Rightarrow> VMStack \<Rightarrow> (VMError fault, TypedValue \<times> TypedValue, VMStack) outcome" where
  "stack_pop_two op_name s =
     bindE (stack_pop op_name s) (\<lambda>b s1.
     bindE (stack_pop op_name s1) (\<lambda>a s2. (Inr (a, b), s2)))"

definition stack_top :: "VMStack \<Rightarrow> TypedValue option" where
  "stack_top s = (if stack_vec s = [] then None else Some (last (stack_vec s)))"

definition get_stack :: "VMStack \<Rightarrow> TypedValue list" where
  "get_stack s = stack_vec s"

definition stack_len :: "VMStack \<Rightarrow> nat" where
  "stack_len s = length (stack_vec s)"

definition stack_is_empty :: "VMStack \<Rightarrow> bool" where
  "stack_is_empty s = (stack_vec s = [])"

definition stack_clear :: "VMStack \<Rightarrow> VMStack" where
  "stack_clear s = s\<lparr>stack_vec := []\<rparr>"

definition stack_dup :: "string \<Rightarrow> VMStack \<Rightarrow> (VMError fault, unit, VMStack) outcome" where
  "stack_dup op_name s =
     (case stack_top s of
        None \<Rightarrow> (Inl (Err VE_StackUnderflow), s)
      | Some v \<Rightarrow> (Inr (), stack_push v s))"

definition stack_swap :: "string \<Rightarrow> VMStack \<Rightarrow> (VMError fault, unit, VMStack) outcome" where
  "stack_swap op_name s =
     (let n = length (stack_vec s); xs = stack_vec s
      in if n < 2 then (Inl (Err VE_StackUnderflow), s)
         else (Inr (), s\<lparr>stack_vec := xs[n - 1 := xs ! (n - 2), n - 2 := xs ! (n - 1)]\<rparr>))"

definition stack_over :: "string \<Rightarrow> VMStack \<Rightarrow> (VMError fault, unit, VMStack) outcome" where
  "stack_over op_name s =
     (let n = length (stack_vec s)
      in if n < 2 then (Inl (Err VE_StackUnderflow), s)
         else (Inr (), stack_push (stack_vec s ! (n - 2)) s))"

text \<open>
  \<^verbatim>\<open>assert_equal_stack\<close> reads the top of the stack with \<^verbatim>\<open>last().unwrap()\<close> after the length check,
  so depth 0 on an empty stack panics; the loop compares positions \<open>1..<depth\<close> below the top.
\<close>

definition assert_equal_stack :: "nat \<Rightarrow> VMStack \<Rightarrow> VMError fault + bool" where
  "assert_equal_stack depth s =
     (let xs = stack_vec s
      in if length xs < depth then Inl (Err VE_StackUnderflow)
         else if xs = [] then Inl Panic
         else Inr (\<forall>i \<in> set [1..<depth]. tv_eq (xs ! (length xs - 1 - i)) (last xs)))"

definition format_stack :: "VMStack \<Rightarrow> string" where
  "format_stack s =
     concat (map (\<lambda>(i, v). show_nat i @ '': '' @ tv_display v @ ''\<newline>'')
       (List.enumerate 0 (stack_vec s)))"

definition pop_number :: "string \<Rightarrow> VMStack \<Rightarrow> (VMError fault, f64, VMStack) outcome" where
  "pop_number op_name s =
     bindE (stack_pop op_name s) (\<lambda>v s1.
       (map_err (\<lambda>_. Err (VE_TypeMismatch ''Number'' (type_name v) op_name)) (as_number v), s1))"

definition pop_bool :: "string \<Rightarrow> VMStack \<Rightarrow> (VMError fault, bool, VMStack) outcome" where
  "pop_bool op_name s =
     bindE (stack_pop op_name s) (\<lambda>v s1.
       (map_err (\<lambda>_. Err (VE_TypeMismatch ''Boolean'' (type_name v) op_name)) (as_boolean v), s1))"

definition pop_string :: "string \<Rightarrow> VMStack \<Rightarrow> (VMError fault, string, VMStack) outcome" where
  "pop_string op_name s =
     bindE (stack_pop op_name s) (\<lambda>v s1.
       (map_err (\<lambda>_. Err (VE_TypeMismatch ''String'' (type_name v) op_name)) (as_string v), s1))"

section \<open>The interface\<close>

text \<open>
  What the machine relies on: a value pushed is the value popped, an empty stack reports an
  underflow and is left as it is, and the length counts the pushes.
\<close>

locale stack_ops =
  fixes push :: "'v \<Rightarrow> 's \<Rightarrow> 's"
    and pop :: "string \<Rightarrow> 's \<Rightarrow> ('e, 'v, 's) outcome"
    and len :: "'s \<Rightarrow> nat"
    and underflow :: 'e
  assumes pop_push: "pop n (push v s) = (Inr v, s)"
    and len_push: "len (push v s) = Suc (len s)"
    and pop_empty: "len s = 0 \<Longrightarrow> pop n s = (Inl underflow, s)"
    and push_cases: "len s \<noteq> 0 \<Longrightarrow> \<exists>v t. s = push v t"
begin

lemma push_inject: "push v s = push w t \<longleftrightarrow> v = w \<and> s = t"
  by (metis Inr_inject fst_conv snd_conv pop_push)

lemma pop_ok_iff: "pop n s = (Inr v, t) \<longleftrightarrow> s = push v t"
proof
  assume p: "pop n s = (Inr v, t)"
  show "s = push v t"
  proof (cases "len s = 0")
    case True
    then show ?thesis using pop_empty [of s n] p by simp
  next
    case False
    then obtain w u where "s = push w u" using push_cases by blast
    then show ?thesis using p pop_push [of n w u] by simp
  qed
qed (simp add: pop_push)

lemma pop_len: "pop n s = (Inr v, t) \<Longrightarrow> len s = Suc (len t)"
  using len_push by (auto simp: pop_ok_iff)

lemma pop_err_iff: "pop n s = (Inl e, t) \<longleftrightarrow> len s = 0 \<and> e = underflow \<and> t = s"
proof (cases "len s = 0")
  case True
  then show ?thesis using pop_empty [of s n] by auto
next
  case False
  then obtain w u where "s = push w u" using push_cases by blast
  then show ?thesis using False pop_push [of n w u] by auto
qed

lemma pop_op_name: "pop n s = pop m s"
proof (cases "len s = 0")
  case True
  then show ?thesis using pop_empty by metis
next
  case False
  then obtain v t where "s = push v t" using push_cases by blast
  then show ?thesis by (simp add: pop_push)
qed

end

interpretation vm_stack: stack_ops stack_push stack_pop stack_len "Err VE_StackUnderflow"
proof unfold_locales
  fix s :: VMStack
  assume "stack_len s \<noteq> 0"
  then have "s = stack_push (last (stack_vec s)) (s\<lparr>stack_vec := butlast (stack_vec s)\<rparr>)"
    by (cases s) (simp add: stack_len_def stack_push_def)
  then show "\<exists>v t. s = stack_push v t" by blast
qed (simp_all add: stack_pop_def stack_push_def stack_len_def)

lemma stack_pop_push [simp]: "stack_pop n (stack_push v s) = (Inr v, s)"
  by (rule vm_stack.pop_push)

lemma stack_pop_two_push [simp]:
  "stack_pop_two n (stack_push b (stack_push a s)) = (Inr (a, b), s)"
  by (simp add: stack_pop_two_def)

lemma stack_top_push [simp]: "stack_top (stack_push v s) = Some v"
  by (simp add: stack_top_def stack_push_def)

lemma stack_dup_push [simp]:
  "stack_dup n (stack_push v s) = (Inr (), stack_push v (stack_push v s))"
  by (simp add: stack_dup_def)

lemma stack_over_push [simp]:
  "stack_over n (stack_push b (stack_push a s)) =
     (Inr (), stack_push a (stack_push b (stack_push a s)))"
  by (simp add: stack_over_def stack_push_def nth_append)

lemma stack_swap_push [simp]:
  "stack_swap n (stack_push b (stack_push a s)) = (Inr (), stack_push a (stack_push b s))"
  by (simp add: stack_swap_def stack_push_def nth_append list_update_append)

text \<open>Swapping twice is the identity, and it fails exactly on fewer than two values.\<close>

lemma stack_two_cases:
  assumes "2 \<le> stack_len s"
  obtains a b t where "s = stack_push b (stack_push a t)"
proof -
  obtain b u where bu: "s = stack_push b u" using assms vm_stack.push_cases [of s] by force
  then have "stack_len u \<noteq> 0" using assms by (simp add: vm_stack.len_push)
  then obtain a t where "u = stack_push a t" using vm_stack.push_cases [of u] by force
  with bu that show ?thesis by blast
qed

lemma stack_pop_two_ok_iff:
  "stack_pop_two n s = (Inr (a, b), t) \<longleftrightarrow> s = stack_push b (stack_push a t)"
  by (auto simp: stack_pop_two_def bindE_Inr_iff vm_stack.pop_ok_iff)

end
