(* ===== verification/VM_Memory.thy ===== *)
theory VM_Memory
  imports VM_Types
begin

text \<open>
  Variables, functions and call frames (\<^verbatim>\<open>src/crates/icn-covm/src/vm/memory.rs\<close>): the structs
  \<^verbatim>\<open>TypedCallFrame\<close> and \<^verbatim>\<open>VMMemory\<close> and the methods of the trait \<^verbatim>\<open>MemoryScope\<close>. The source
  reaches the current frame through an index kept in \<^verbatim>\<open>call_stack\<close>; the invariant \<open>mem_inv\<close> says
  that the indices are exactly the positions of \<^verbatim>\<open>call_frames\<close>, so no access is out of range.
\<close>

record TypedCallFrame =
  cf_memory :: "(string, TypedValue) fmap"
  cf_params :: "(string, TypedValue) fmap"
  cf_return_value :: "TypedValue option"
  cf_function_name :: string

record VMMemory =
  m_memory :: "(string, TypedValue) fmap"
  m_functions :: "(string, string list \<times> Op list) fmap"
  m_call_stack :: "nat list"
  m_call_frames :: "TypedCallFrame list"
  m_parameters :: "(string, string) fmap"
  m_string_metadata :: "(string, string) fmap"

definition mem_new :: VMMemory where
  "mem_new = \<lparr>m_memory = fmempty, m_functions = fmempty, m_call_stack = [], m_call_frames = [],
     m_parameters = fmempty, m_string_metadata = fmempty\<rparr>"

definition get_string_metadata :: "string \<Rightarrow> VMMemory \<Rightarrow> string option" where
  "get_string_metadata k m = fmlookup (m_string_metadata m) k"

definition set_string_metadata :: "string \<Rightarrow> string \<Rightarrow> VMMemory \<Rightarrow> VMMemory" where
  "set_string_metadata k v m = m\<lparr>m_string_metadata := fmupd k v (m_string_metadata m)\<rparr>"

definition store_param :: "string \<Rightarrow> TypedValue \<Rightarrow> VMMemory \<Rightarrow> VMMemory" where
  "store_param k v m =
     (let t = (case v of Number n \<Rightarrow> show_f64 n | Boolean b \<Rightarrow> show_bool b | Str s \<Rightarrow> s | Null \<Rightarrow> ''null'')
      in m\<lparr>m_parameters := fmupd k t (m_parameters m)\<rparr>)"

definition mem_store :: "string \<Rightarrow> TypedValue \<Rightarrow> VMMemory \<Rightarrow> (VMError fault, unit, VMMemory) outcome" where
  "mem_store name v m =
     (case m_call_stack m of
        [] \<Rightarrow> (Inr (), m\<lparr>m_memory := fmupd name v (m_memory m)\<rparr>)
      | _ # _ \<Rightarrow>
          let i = last (m_call_stack m); fs = m_call_frames m
          in if i < length fs
             then (Inr (), m\<lparr>m_call_frames :=
                     fs[i := (fs ! i)\<lparr>cf_memory := fmupd name v (cf_memory (fs ! i))\<rparr>]\<rparr>)
             else (Inl Panic, m))"

definition load_global :: "string \<Rightarrow> VMMemory \<Rightarrow> VMError fault + TypedValue" where
  "load_global name m =
     (case fmlookup (m_memory m) name of
        Some v \<Rightarrow> Inr v
      | None \<Rightarrow> Inl (Err (VE_UndefinedVariable name)))"

definition mem_load :: "string \<Rightarrow> VMMemory \<Rightarrow> VMError fault + TypedValue" where
  "mem_load name m =
     (case m_call_stack m of
        [] \<Rightarrow> load_global name m
      | _ # _ \<Rightarrow>
          let i = last (m_call_stack m); fs = m_call_frames m
          in if i < length fs
             then (case fmlookup (cf_memory (fs ! i)) name of
                     Some v \<Rightarrow> Inr v
                   | None \<Rightarrow>
                       (case fmlookup (cf_params (fs ! i)) name of
                          Some v \<Rightarrow> Inr v
                        | None \<Rightarrow> load_global name m))
             else Inl Panic)"

definition define_function :: "string \<Rightarrow> string list \<Rightarrow> Op list \<Rightarrow> VMMemory \<Rightarrow> VMMemory" where
  "define_function name params body m = m\<lparr>m_functions := fmupd name (params, body) (m_functions m)\<rparr>"

definition get_function :: "string \<Rightarrow> VMMemory \<Rightarrow> VMError fault + (string list \<times> Op list)" where
  "get_function name m =
     (case fmlookup (m_functions m) name of
        Some f \<Rightarrow> Inr f
      | None \<Rightarrow> Inl (Err (VE_UndefinedFunction name)))"

definition push_call_frame :: "string \<Rightarrow> (string, TypedValue) fmap \<Rightarrow> VMMemory \<Rightarrow> VMMemory" where
  "push_call_frame name params m =
     (let frame = \<lparr>cf_memory = fmempty, cf_params = params, cf_return_value = None, cf_function_name = name\<rparr>;
          frames = m_call_frames m @ [frame]
      in m\<lparr>m_call_frames := frames, m_call_stack := m_call_stack m @ [length frames - 1]\<rparr>)"

text \<open>\<^verbatim>\<open>pop_call_frame\<close> pops both vectors; the result is the popped frame, if there was one.\<close>

definition pop_call_frame :: "VMMemory \<Rightarrow> TypedCallFrame option \<times> VMMemory" where
  "pop_call_frame m =
     (if m_call_frames m = [] then None else Some (last (m_call_frames m)),
      m\<lparr>m_call_stack := butlast (m_call_stack m), m_call_frames := butlast (m_call_frames m)\<rparr>)"

definition current_call_frame :: "VMMemory \<Rightarrow> TypedCallFrame option" where
  "current_call_frame m =
     (if m_call_frames m = [] then None else Some (last (m_call_frames m)))"

definition set_return_value :: "TypedValue \<Rightarrow> VMMemory \<Rightarrow> (VMError fault, unit, VMMemory) outcome" where
  "set_return_value v m =
     (if m_call_frames m = []
      then (Inl (Err (VE_NotImplemented ''Cannot return outside a function'')), m)
      else (Inr (), m\<lparr>m_call_frames :=
              butlast (m_call_frames m) @ [(last (m_call_frames m))\<lparr>cf_return_value := Some v\<rparr>]\<rparr>))"

definition get_return_value :: "VMMemory \<Rightarrow> TypedValue option" where
  "get_return_value m = Option.bind (current_call_frame m) cf_return_value"

text \<open>
  Runtime parameters are kept as text and also entered into the global memory as typed values.
\<close>

definition param_value :: "string \<Rightarrow> TypedValue" where
  "param_value t =
     (case parse_f64 t of
        Some n \<Rightarrow> Number n
      | None \<Rightarrow> if t = ''true'' then Boolean True
               else if t = ''false'' then Boolean False
               else if t = ''null'' then Null
               else Str t)"

definition mem_set_parameters :: "(string, string) fmap \<Rightarrow> VMMemory \<Rightarrow> VMMemory" where
  "mem_set_parameters ps m =
     m\<lparr>m_parameters := ps, m_memory := fmadd (m_memory m) (fmmap param_value ps)\<rparr>"

definition get_parameter :: "string \<Rightarrow> VMMemory \<Rightarrow> VMError fault + string" where
  "get_parameter name m =
     (case fmlookup (m_parameters m) name of
        Some t \<Rightarrow> Inr t
      | None \<Rightarrow> Inl (Err (VE_UndefinedParameter name)))"

definition get_memory_map :: "VMMemory \<Rightarrow> VMError fault + (string, TypedValue) fmap" where
  "get_memory_map m =
     (case m_call_stack m of
        [] \<Rightarrow> Inr (m_memory m)
      | _ # _ \<Rightarrow>
          let i = last (m_call_stack m); fs = m_call_frames m
          in if i < length fs
             then Inr (fmadd (fmadd (m_memory m) (cf_params (fs ! i))) (cf_memory (fs ! i)))
             else Inl Panic)"

definition format_memory_map :: "(string, TypedValue) fmap \<Rightarrow> string" where
  "format_memory_map mm =
     (if mm = fmempty then ''Memory: {}''
      else let items = map (\<lambda>k. k @ '': '' @ tv_display (the (fmlookup mm k))) (hkeys mm)
           in ''Memory: {\<newline>  '' @ join '',\<newline>  '' (sort items) @ ''\<newline>}'')"

definition format_call_stack :: "VMMemory \<Rightarrow> VMError fault + string" where
  "format_call_stack m =
     (if m_call_frames m = [] then Inr ''Call Stack: []''
      else if \<forall>i \<in> set (m_call_stack m). i < length (m_call_frames m)
      then Inr (''Call Stack: ['' @
             join '', '' (map (\<lambda>(i, f). show_nat i @ ''. '' @ cf_function_name (m_call_frames m ! f))
               (List.enumerate 0 (m_call_stack m))) @ '']'')
      else Inl Panic)"

text \<open>\<^verbatim>\<open>impl Display for VMMemory\<close>, which \<^verbatim>\<open>DumpMemory\<close> and \<^verbatim>\<open>DumpState\<close> emit.\<close>

definition mem_display :: "VMMemory \<Rightarrow> VMError fault + string" where
  "mem_display m =
     bindR (get_memory_map m) (\<lambda>mm.
     bindR (format_call_stack m) (\<lambda>cs.
       Inr (format_memory_map mm @ ''\<newline>'' @ cs @ ''\<newline>'' @
         (if m_functions m = fmempty then ''''
          else ''Functions: [\<newline>'' @
                 concat (map (\<lambda>f. ''  '' @ f @ ''\<newline>'') (hkeys (m_functions m))) @ '']\<newline>''))))"

definition clear_memory :: "VMMemory \<Rightarrow> VMMemory" where
  "clear_memory m = m\<lparr>m_memory := fmempty\<rparr>"

definition in_function_call :: "VMMemory \<Rightarrow> bool" where
  "in_function_call m = (m_call_stack m \<noteq> [])"

definition call_stack_depth :: "VMMemory \<Rightarrow> nat" where
  "call_stack_depth m = length (m_call_stack m)"

section \<open>The frame-index invariant\<close>

definition mem_inv :: "VMMemory \<Rightarrow> bool" where
  "mem_inv m = (m_call_stack m = [0..<length (m_call_frames m)])"

lemma mem_inv_new [simp]: "mem_inv mem_new"
  by (simp add: mem_inv_def mem_new_def)

lemma mem_inv_last: "mem_inv m \<Longrightarrow> m_call_stack m = x # xs \<Longrightarrow>
    last (m_call_stack m) = length (m_call_frames m) - 1 \<and> m_call_frames m \<noteq> []"
  by (cases "length (m_call_frames m)") (auto simp: mem_inv_def)

lemma mem_inv_empty_iff: "mem_inv m \<Longrightarrow> m_call_stack m = [] \<longleftrightarrow> m_call_frames m = []"
  by (auto simp: mem_inv_def)

text \<open>
  Under the invariant the current frame is the last one, and the operations have a form
  without indices: \<open>mem_scope\<close> is the current frame, if a call is active.
\<close>

definition mem_scope :: "VMMemory \<Rightarrow> TypedCallFrame option" where
  "mem_scope m = current_call_frame m"

definition scope_lookup :: "TypedCallFrame option \<Rightarrow> (string, TypedValue) fmap \<Rightarrow> string \<Rightarrow> TypedValue option" where
  "scope_lookup fo g name =
     (case fo of
        None \<Rightarrow> fmlookup g name
      | Some f \<Rightarrow>
          (case fmlookup (cf_memory f) name of
             Some v \<Rightarrow> Some v
           | None \<Rightarrow> (case fmlookup (cf_params f) name of Some v \<Rightarrow> Some v | None \<Rightarrow> fmlookup g name)))"

lemma mem_load_scope:
  assumes "mem_inv m"
  shows "mem_load name m =
     (case scope_lookup (mem_scope m) (m_memory m) name of
        Some v \<Rightarrow> Inr v | None \<Rightarrow> Inl (Err (VE_UndefinedVariable name)))"
proof (cases "m_call_stack m")
  case Nil
  then show ?thesis using mem_inv_empty_iff [OF assms]
    by (simp add: mem_load_def load_global_def scope_lookup_def mem_scope_def current_call_frame_def)
next
  case (Cons x xs)
  with mem_inv_last [OF assms Cons] show ?thesis
    by (auto simp: mem_load_def load_global_def scope_lookup_def mem_scope_def current_call_frame_def
        last_conv_nth Let_def split: option.splits)
qed

lemma mem_store_scope:
  assumes "mem_inv m"
  shows "mem_store name v m =
     (Inr (), case mem_scope m of
        None \<Rightarrow> m\<lparr>m_memory := fmupd name v (m_memory m)\<rparr>
      | Some f \<Rightarrow> m\<lparr>m_call_frames :=
           butlast (m_call_frames m) @ [f\<lparr>cf_memory := fmupd name v (cf_memory f)\<rparr>]\<rparr>)"
proof (cases "m_call_stack m")
  case Nil
  then show ?thesis using mem_inv_empty_iff [OF assms]
    by (simp add: mem_store_def mem_scope_def current_call_frame_def)
next
  case (Cons x xs)
  have upd: "fs[length fs - Suc 0 := y] = butlast fs @ [y]" if "fs \<noteq> []" for fs and y :: TypedCallFrame
    using that by (induction fs rule: rev_induct) (auto simp: list_update_append)
  from mem_inv_last [OF assms Cons] Cons show ?thesis
    by (simp add: mem_store_def mem_scope_def current_call_frame_def last_conv_nth upd Let_def)
qed

lemma mem_store_ok: "mem_inv m \<Longrightarrow> \<exists>m'. mem_store name v m = (Inr (), m')"
  by (simp add: mem_store_scope)

lemma mem_store_inv [covm_inv]: "mem_inv m \<Longrightarrow> mem_store name v m = (r, m') \<Longrightarrow> mem_inv m'"
  by (auto simp: mem_store_scope mem_inv_def mem_scope_def current_call_frame_def
      split: option.splits if_splits)

lemma push_call_frame_inv [covm_inv]: "mem_inv m \<Longrightarrow> mem_inv (push_call_frame f ps m)"
  by (simp add: mem_inv_def push_call_frame_def Let_def)

lemma pop_call_frame_inv [covm_inv]: "mem_inv m \<Longrightarrow> mem_inv (snd (pop_call_frame m))"
  by (cases "m_call_frames m" rule: rev_cases) (auto simp: mem_inv_def pop_call_frame_def)

lemma set_return_value_inv [covm_inv]: "mem_inv m \<Longrightarrow> set_return_value v m = (r, m') \<Longrightarrow> mem_inv m'"
  by (auto simp: mem_inv_def set_return_value_def split: if_splits)

lemma mem_load_no_panic: "mem_inv m \<Longrightarrow> mem_load name m \<noteq> Inl Panic"
  by (simp add: mem_load_scope split: option.splits)

lemma mem_define_inv [covm_inv]: "mem_inv m \<Longrightarrow> mem_inv (define_function f ps b m)"
  by (simp add: mem_inv_def define_function_def)

lemma mem_metadata_inv [covm_inv]: "mem_inv m \<Longrightarrow> mem_inv (set_string_metadata k v m)"
  by (simp add: mem_inv_def set_string_metadata_def)

section \<open>The interface\<close>

text \<open>
  The laws of the trait \<^verbatim>\<open>MemoryScope\<close> the machine relies on: what a load sees after a store, and
  that leaving a call gives back the variables of the caller.
\<close>

locale memory_scope =
  fixes store :: "string \<Rightarrow> 'v \<Rightarrow> 'm \<Rightarrow> ('e, unit, 'm) outcome"
    and load :: "string \<Rightarrow> 'm \<Rightarrow> 'e + 'v"
    and enter :: "string \<Rightarrow> (string, 'v) fmap \<Rightarrow> 'm \<Rightarrow> 'm"
    and leave :: "'m \<Rightarrow> 'm"
    and inv :: "'m \<Rightarrow> bool"
  assumes store_inv: "inv m \<Longrightarrow> store x v m = (r, m') \<Longrightarrow> inv m'"
    and store_total: "inv m \<Longrightarrow> \<exists>m'. store x v m = (Inr (), m')"
    and load_store: "inv m \<Longrightarrow> store x v m = (r, m') \<Longrightarrow> load y m' = (if y = x then Inr v else load y m)"
    and enter_inv: "inv m \<Longrightarrow> inv (enter f ps m)"
    and leave_inv: "inv m \<Longrightarrow> inv (leave m)"
    and leave_enter: "inv m \<Longrightarrow> leave (enter f ps m) = m"
    and leave_store: "inv m \<Longrightarrow> store x v (enter f ps m) = (r, m') \<Longrightarrow> leave m' = m"
    and load_param: "inv m \<Longrightarrow> fmlookup ps x = Some v \<Longrightarrow> load x (enter f ps m) = Inr v"
begin

lemma load_own_store: "inv m \<Longrightarrow> store x v m = (r, m') \<Longrightarrow> load x m' = Inr v"
  by (simp add: load_store)

lemma store_overwrites:
  assumes "inv m" "store x v m = (r, m1)" "store x w m1 = (r', m2)"
  shows "load y m2 = (if y = x then Inr w else load y m)"
  using assms store_inv [OF assms(1,2)] by (simp add: load_store)

lemma caller_unchanged_by_local_store:
  assumes "inv m" "store x v (enter f ps m) = (r, m')"
  shows "load y (leave m') = load y m"
  using assms leave_store by simp

lemma local_shadows_param:
  assumes "inv m" "fmlookup ps x = Some w" "store x v (enter f ps m) = (r, m')"
  shows "load x m' = Inr v"
  using load_store [OF enter_inv [OF assms(1)] assms(3)] by simp

end

lemma scope_lookup_update:
  "scope_lookup (Some (f\<lparr>cf_memory := fmupd x v (cf_memory f)\<rparr>)) g y =
     (if y = x then Some v else scope_lookup (Some f) g y)"
  by (auto simp: scope_lookup_def split: option.splits)

lemma mem_load_store:
  assumes "mem_inv m" "mem_store x v m = (r, m')"
  shows "mem_load y m' = (if y = x then Inr v else mem_load y m)"
proof -
  have inv': "mem_inv m'" using assms by (rule mem_store_inv)
  have m': "m' = (case mem_scope m of
        None \<Rightarrow> m\<lparr>m_memory := fmupd x v (m_memory m)\<rparr>
      | Some f \<Rightarrow> m\<lparr>m_call_frames :=
           butlast (m_call_frames m) @ [f\<lparr>cf_memory := fmupd x v (cf_memory f)\<rparr>]\<rparr>)"
    using assms by (simp add: mem_store_scope)
  show ?thesis
  proof (cases "mem_scope m")
    case None
    with m' have "mem_scope m' = None" "m_memory m' = fmupd x v (m_memory m)"
      by (auto simp: mem_scope_def current_call_frame_def split: if_splits)
    then show ?thesis by (simp add: mem_load_scope inv' assms(1) None scope_lookup_def)
  next
    case (Some f)
    with m' have "mem_scope m' = Some (f\<lparr>cf_memory := fmupd x v (cf_memory f)\<rparr>)"
      "m_memory m' = m_memory m"
      by (auto simp: mem_scope_def current_call_frame_def)
    then show ?thesis
      by (simp add: mem_load_scope inv' assms(1) Some scope_lookup_update)
  qed
qed

lemma pop_push_call_frame: "snd (pop_call_frame (push_call_frame f ps m)) = m"
  by (simp add: pop_call_frame_def push_call_frame_def Let_def)

lemma pop_store_call_frame:
  assumes "mem_inv m" "mem_store x v (push_call_frame f ps m) = (r, m')"
  shows "snd (pop_call_frame m') = m"
  using assms push_call_frame_inv [OF assms(1), of f ps]
  by (auto simp: mem_store_scope mem_scope_def current_call_frame_def push_call_frame_def
      pop_call_frame_def Let_def)

interpretation vm_memory: memory_scope mem_store mem_load push_call_frame
  "\<lambda>m. snd (pop_call_frame m)" mem_inv
proof unfold_locales
  fix m :: VMMemory and ps :: "(string, TypedValue) fmap" and x f v
  assume "mem_inv m" "fmlookup ps x = Some v"
  moreover have "mem_scope (push_call_frame f ps m) =
      Some \<lparr>cf_memory = fmempty, cf_params = ps, cf_return_value = None, cf_function_name = f\<rparr>"
    by (simp add: mem_scope_def current_call_frame_def push_call_frame_def Let_def)
  ultimately show "mem_load x (push_call_frame f ps m) = Inr v"
    by (simp add: mem_load_scope push_call_frame_inv scope_lookup_def)
qed (fact mem_store_inv mem_store_ok mem_load_store push_call_frame_inv pop_call_frame_inv
       | rule pop_push_call_frame | erule (1) pop_store_call_frame)+


section \<open>Properties\<close>

text \<open>
  variables. On a consistent memory a store always succeeds, keeps it consistent, and changes what exactly
  the stored name loads; a store inside a call is gone after the return.
\<close>

theorem store_load_variables:
  assumes "mem_inv m"
  shows "(case mem_store x v m of
            (Inr _, m') \<Rightarrow> mem_inv m' \<and> (\<forall>y. mem_load y m' = (if y = x then Inr v else mem_load y m))
          | (Inl _, _) \<Rightarrow> False) \<and>
         (case mem_store x v (push_call_frame f ps m) of (_, m') \<Rightarrow> snd (pop_call_frame m') = m)"
proof -
  obtain m' where st: "mem_store x v m = (Inr (), m')" using vm_memory.store_total [OF assms] by blast
  obtain r m2 where st2: "mem_store x v (push_call_frame f ps m) = (r, m2)" by fastforce
  show ?thesis
    using st st2 vm_memory.store_inv [OF assms st] vm_memory.load_store [OF assms st] pop_store_call_frame [OF assms st2]
    by simp
qed

theorem store_load_variables_witness:
  "\<exists>m'. mem_store ''x'' Null mem_new = (Inr (), m') \<and> mem_load ''x'' m' = Inr Null \<and>
     snd (pop_call_frame (snd (mem_store ''x'' Null (push_call_frame ''f'' fmempty mem_new)))) = mem_new"
  using store_load_variables [of mem_new "''x''" Null "''f''" fmempty]
  by (auto split: prod.splits sum.splits)

text \<open>
  scoping. Inside a call a name is looked up in the local variables of the top frame, then in its
  parameters, then in the global variables; outside a call in the global variables only. Loading never panics
  and reports an undefined name as such.
\<close>

theorem lookup_order:
  assumes "mem_inv m"
  shows "mem_load name m =
    (case (if m_call_frames m = [] then fmlookup (m_memory m) name
           else case fmlookup (cf_memory (last (m_call_frames m))) name of
             Some v \<Rightarrow> Some v
           | None \<Rightarrow> (case fmlookup (cf_params (last (m_call_frames m))) name of
                 Some v \<Rightarrow> Some v
               | None \<Rightarrow> fmlookup (m_memory m) name)) of
       Some v \<Rightarrow> Inr v
     | None \<Rightarrow> Inl (Err (VE_UndefinedVariable name)))"
  using mem_load_scope [OF assms, of name] by (simp add: scope_lookup_def mem_scope_def current_call_frame_def)

theorem lookup_order_witness:
  "mem_load ''x'' (push_call_frame ''f'' (fmupd ''x'' Null fmempty) mem_new) = Inr Null"
proof -
  have "mem_inv (push_call_frame ''f'' (fmupd ''x'' Null fmempty) mem_new)" by (simp add: push_call_frame_inv)
  from lookup_order [OF this, of "''x''"] show ?thesis by (simp add: push_call_frame_def mem_new_def Let_def)
qed

end
