(* ===== verification/Execution.thy ===== *)
theory Execution
  imports Storage_API
begin

text \<open>
  The executor (\<^verbatim>\<open>src/crates/icn-covm/src/vm/execution.rs\<close>): the struct \<^verbatim>\<open>VMExecution\<close> and every method
  of the trait \<^verbatim>\<open>ExecutorOps\<close>. It holds the storage backend, calls the storage operations through
  \<^verbatim>\<open>storage_operation\<close>, which translates storage errors, and collects output and events. The backend
  is any record \<open>B\<close> of operations; \<open>E\<close> carries the clock and the texts of \<^verbatim>\<open>Debug\<close> formatting.
\<close>

record 's VMExecution =
  ex_storage_backend :: "'s option"
  ex_auth_context :: "AuthContext option"
  ex_namespace :: string
  ex_output :: string
  ex_events :: "VMEvent list"
  ex_transaction_active :: bool

type_synonym ('a, 's) exec_result = "(VMError fault, 'a, 's VMExecution) outcome"

definition execution_new :: "'s VMExecution" where
  "execution_new = \<lparr>ex_storage_backend = None, ex_auth_context = None, ex_namespace = ''default'',
     ex_output = [], ex_events = [], ex_transaction_active = False\<rparr>"

definition op_clock :: "venv \<Rightarrow> 's VMExecution \<Rightarrow> clock" where
  "op_clock E x = now E (length (ex_events x))"

section \<open>Calling the storage\<close>

definition storage_error_to_vm :: "venv \<Rightarrow> string \<Rightarrow> StorageError \<Rightarrow> VMError" where
  "storage_error_to_vm E operation_name err =
     (case err of
        SE_AuthenticationError details \<Rightarrow> VE_InvalidSignature ''unknown'' details
      | SE_PermissionDenied uid action key \<Rightarrow>
          VE_StorageError (''Permission denied for user '' @ quoted uid @ '' during '' @ operation_name @
            '': operation '' @ quoted action @ '' on '' @ quoted key)
      | SE_NotFound key \<Rightarrow>
          VE_StorageError (''Key '' @ quoted key @ '' not found during '' @ operation_name)
      | _ \<Rightarrow> VE_StorageError (''Error during '' @ operation_name @ '': '' @ dbg_storage_error E err))"

definition storage_operation ::
  "venv \<Rightarrow> string \<Rightarrow>
     (AuthContext option \<Rightarrow> string \<Rightarrow> 's \<Rightarrow> (StorageError fault, 'a, 's) outcome) \<Rightarrow>
     's VMExecution \<Rightarrow> ('a, 's) exec_result" where
  "storage_operation E operation_name f x =
     (case ex_storage_backend x of
        None \<Rightarrow> (Inl (Err VE_StorageUnavailable), x)
      | Some backend \<Rightarrow>
          (case f (ex_auth_context x) (ex_namespace x) backend of
             (Inr v, backend') \<Rightarrow> (Inr v, x\<lparr>ex_storage_backend := Some backend'\<rparr>)
           | (Inl (Err e), backend') \<Rightarrow>
               (Inl (Err (storage_error_to_vm E operation_name e)), x\<lparr>ex_storage_backend := Some backend'\<rparr>)
           | (Inl Panic, backend') \<Rightarrow> (Inl Panic, x\<lparr>ex_storage_backend := Some backend'\<rparr>)))"

text \<open>A storage call seen as a closure: one that changes the backend, and one that only reads it.\<close>

definition writing :: "(StorageError, 'a, 's) outcome \<Rightarrow> (StorageError fault, 'a, 's) outcome" where
  "writing r = (map_err Err (fst r), snd r)"

definition reading :: "'s \<Rightarrow> StorageError + 'a \<Rightarrow> (StorageError fault, 'a, 's) outcome" where
  "reading s r = (map_err Err r, s)"

definition storage_event_to_vm_event :: "StorageEvent \<Rightarrow> string \<Rightarrow> VMEvent" where
  "storage_event_to_vm_event ev category =
     \<lparr>ev_category = category, ev_message = se_event_type ev @ '': '' @ se_details ev,
      ev_timestamp = se_timestamp ev\<rparr>"

text \<open>The event the closures of the operations build: the label is fixed per operation.\<close>

definition labelled_event :: "string \<Rightarrow> string \<Rightarrow> StorageEvent \<Rightarrow> VMEvent" where
  "labelled_event category label ev =
     \<lparr>ev_category = category, ev_message = label @ '': '' @ se_details ev, ev_timestamp = se_timestamp ev\<rparr>"

definition push_event :: "VMEvent \<Rightarrow> 's VMExecution \<Rightarrow> 's VMExecution" where
  "push_event ev x = x\<lparr>ex_events := ex_events x @ [ev]\<rparr>"

definition push_storage_event :: "string \<Rightarrow> string \<Rightarrow> StorageEvent option \<Rightarrow> 's VMExecution \<Rightarrow> 's VMExecution" where
  "push_storage_event category label ev x =
     (case ev of None \<Rightarrow> x | Some e \<Rightarrow> push_event (labelled_event category label e) x)"

definition set_storage_backend :: "'s \<Rightarrow> 's VMExecution \<Rightarrow> 's VMExecution" where
  "set_storage_backend b x = x\<lparr>ex_storage_backend := Some b\<rparr>"

definition set_auth_context :: "AuthContext \<Rightarrow> 's VMExecution \<Rightarrow> 's VMExecution" where
  "set_auth_context a x = x\<lparr>ex_auth_context := Some a\<rparr>"

definition set_namespace :: "string \<Rightarrow> 's VMExecution \<Rightarrow> 's VMExecution" where
  "set_namespace ns x = x\<lparr>ex_namespace := ns\<rparr>"

definition emit :: "string \<Rightarrow> 's VMExecution \<Rightarrow> 's VMExecution" where
  "emit message x = x\<lparr>ex_output := ex_output x @ message @ ''\<newline>''\<rparr>"

definition emit_event :: "venv \<Rightarrow> string \<Rightarrow> string \<Rightarrow> 's VMExecution \<Rightarrow> 's VMExecution" where
  "emit_event E category message x =
     push_event \<lparr>ev_category = category, ev_message = message, ev_timestamp = op_clock E x 0\<rparr> x"

definition clear_output :: "'s VMExecution \<Rightarrow> 's VMExecution" where
  "clear_output x = x\<lparr>ex_output := []\<rparr>"

section \<open>Economic operations\<close>

definition execute_create_resource ::
  "venv \<Rightarrow> 's StorageBackend \<Rightarrow> string \<Rightarrow> 's VMExecution \<Rightarrow> (unit, 's) exec_result" where
  "execute_create_resource E B r x =
     bindE (storage_operation E ''create_resource''
              (\<lambda>a ns s. writing (create_resource B (op_clock E x) a ns r s)) x) (\<lambda>_ x'.
       (Inr (), push_event \<lparr>ev_category = ''economic'', ev_message = ''Resource created: '' @ r,
                  ev_timestamp = op_clock E x 3\<rparr> x'))"

definition reason_str :: "string option \<Rightarrow> string" where
  "reason_str reason = (case reason of Some r \<Rightarrow> r | None \<Rightarrow> ''No reason provided'')"

text \<open>\<^verbatim>\<open>amount.as_number().unwrap() as u64\<close>, evaluated inside the closure.\<close>

definition with_amount ::
  "TypedValue \<Rightarrow> (u64 \<Rightarrow> 's \<Rightarrow> (StorageError, 'a, 's) outcome) \<Rightarrow> 's \<Rightarrow> (StorageError fault, 'a, 's) outcome" where
  "with_amount amount f s =
     (case as_number amount of Inl _ \<Rightarrow> (Inl Panic, s) | Inr n \<Rightarrow> writing (f (f64_as_u64 n) s))"

definition execute_mint ::
  "venv \<Rightarrow> 's StorageBackend \<Rightarrow> string \<Rightarrow> string \<Rightarrow> TypedValue \<Rightarrow> string option \<Rightarrow> 's VMExecution \<Rightarrow>
     (unit, 's) exec_result" where
  "execute_mint E B r account amount reason x =
     bindE (storage_operation E ''mint'' (\<lambda>a ns.
              with_amount amount (\<lambda>n. mint B (op_clock E x) a ns r account n (reason_str reason))) x)
       (\<lambda>(_, ev) x'. (Inr (), push_storage_event ''economic'' ''mint'' ev x'))"

definition execute_transfer ::
  "venv \<Rightarrow> 's StorageBackend \<Rightarrow> string \<Rightarrow> string \<Rightarrow> string \<Rightarrow> TypedValue \<Rightarrow> string option \<Rightarrow> 's VMExecution \<Rightarrow>
     (unit, 's) exec_result" where
  "execute_transfer E B r from_acc to_acc amount reason x =
     bindE (storage_operation E ''transfer'' (\<lambda>a ns.
              with_amount amount (\<lambda>n.
                transfer B (op_clock E x) a ns r from_acc to_acc n (reason_str reason))) x)
       (\<lambda>(_, ev) x'. (Inr (), push_storage_event ''economic'' ''transfer'' ev x'))"

definition execute_burn ::
  "venv \<Rightarrow> 's StorageBackend \<Rightarrow> string \<Rightarrow> string \<Rightarrow> TypedValue \<Rightarrow> string option \<Rightarrow> 's VMExecution \<Rightarrow>
     (unit, 's) exec_result" where
  "execute_burn E B r account amount reason x =
     bindE (storage_operation E ''burn'' (\<lambda>a ns.
              with_amount amount (\<lambda>n. burn B (op_clock E x) a ns r account n (reason_str reason))) x)
       (\<lambda>(_, ev) x'. (Inr (), push_storage_event ''economic'' ''burn'' ev x'))"

definition execute_balance ::
  "venv \<Rightarrow> 's StorageBackend \<Rightarrow> string \<Rightarrow> string \<Rightarrow> 's VMExecution \<Rightarrow> (TypedValue, 's) exec_result" where
  "execute_balance E B r account x =
     bindE (storage_operation E ''get_balance'' (\<lambda>a ns s.
              reading s (get_balance B (op_clock E x) a ns r account s)) x)
       (\<lambda>(balance, ev) x'. (Inr (Number (f64_of_nat (unat balance))),
            push_storage_event ''economic'' ''balance'' ev x'))"

definition reputation_amount :: "TypedValue option \<Rightarrow> VMError + u64" where
  "reputation_amount amount =
     (case amount of
        None \<Rightarrow> Inr 1
      | Some value \<Rightarrow>
          bindR (map_err (\<lambda>err. case err of
                   CoercionError from_ty to_ty \<Rightarrow> VE_TypeMismatch to_ty from_ty ''increment_reputation''
                 | _ \<Rightarrow> VE_TypeMismatch ''number'' (type_name value) ''increment_reputation'')
                 (as_number value)) (\<lambda>num.
            let rounded = f64_round num
            in if f64_lt rounded f64_zero then Inl (VE_InvalidAmount rounded)
               else if f64_lt (f64_of_int (2 ^ 64)) rounded then Inl (VE_InvalidAmount rounded)
               else Inr (f64_as_u64 rounded)))"

definition execute_increment_reputation ::
  "venv \<Rightarrow> 's StorageBackend \<Rightarrow> string \<Rightarrow> TypedValue option \<Rightarrow> 's VMExecution \<Rightarrow> (unit, 's) exec_result" where
  "execute_increment_reputation E B i amount x =
     (case reputation_amount amount of
        Inl e \<Rightarrow> (Inl (Err e), x)
      | Inr amount_val \<Rightarrow>
          let payload = ''{'' @ dquoted ''identity_id'' @ '': '' @ dquoted i @ '', '' @
                dquoted ''amount'' @ '': '' @ show_u64 amount_val @ ''}'';
              x1 = emit_event E ''reputation'' payload x
          in if ex_storage_backend x1 = None then (Inr (), x1)
             else
               bindE (storage_operation E ''get_reputation'' (\<lambda>a ns s.
                        reading s (get_reputation B a ns i s)) x1) (\<lambda>(current_rep, ev) x2.
               let x3 = push_storage_event ''reputation'' ''get_reputation'' ev x2 in
               bindE (storage_operation E ''set_reputation'' (\<lambda>a ns s.
                        writing (set_reputation B (op_clock E x3) a ns i (current_rep + amount_val) s)) x3)
                 (\<lambda>(_, ev') x4. (Inr (), push_storage_event ''reputation'' ''set_reputation'' ev' x4))))"

section \<open>Persistent values\<close>

definition execute_store_p ::
  "venv \<Rightarrow> 's StorageBackend \<Rightarrow> string \<Rightarrow> TypedValue \<Rightarrow> 's VMExecution \<Rightarrow> (unit, 's) exec_result" where
  "execute_store_p E B key value x =
     bindE (storage_operation E ''store_p'' (\<lambda>a ns s.
              writing (eco_store B (op_clock E x) a ns key (tv_display value) s)) x)
       (\<lambda>(_, ev) x'. (Inr (), push_storage_event ''storage'' ''store'' ev x'))"

text \<open>\<^verbatim>\<open>String::from_utf8\<close> accepts exactly the well-formed UTF-8 byte sequences.\<close>

definition cont_byte :: "nat \<Rightarrow> bool" where
  "cont_byte b = (128 \<le> b \<and> b \<le> 191)"

fun utf8_bytes :: "nat list \<Rightarrow> bool" where
  "utf8_bytes [] = True"
| "utf8_bytes (a # r) =
     (if a < 128 then utf8_bytes r
      else if 194 \<le> a \<and> a \<le> 223 then
        (case r of b # r' \<Rightarrow> cont_byte b \<and> utf8_bytes r' | _ \<Rightarrow> False)
      else if 224 \<le> a \<and> a \<le> 239 then
        (case r of b # c # r' \<Rightarrow>
             cont_byte b \<and> cont_byte c \<and> (a = 224 \<longrightarrow> 160 \<le> b) \<and> (a = 237 \<longrightarrow> b \<le> 159) \<and> utf8_bytes r'
         | _ \<Rightarrow> False)
      else if 240 \<le> a \<and> a \<le> 244 then
        (case r of b # c # d # r' \<Rightarrow>
             cont_byte b \<and> cont_byte c \<and> cont_byte d \<and>
             (a = 240 \<longrightarrow> 144 \<le> b) \<and> (a = 244 \<longrightarrow> b \<le> 143) \<and> utf8_bytes r'
         | _ \<Rightarrow> False)
      else False)"

definition valid_utf8 :: "bytes \<Rightarrow> bool" where
  "valid_utf8 b = utf8_bytes (map of_char b)"

fun str_contains :: "string \<Rightarrow> string \<Rightarrow> bool" where
  "str_contains p [] = (p = [])"
| "str_contains p (c # cs) = (starts_with p (c # cs) \<or> str_contains p cs)"

definition parse_stored :: "string \<Rightarrow> TypedValue" where
  "parse_stored s =
     (case parse_f64 s of
        Some n \<Rightarrow> Number n
      | None \<Rightarrow> if s = ''true'' then Boolean True
               else if s = ''false'' then Boolean False
               else if s = ''null'' then Null
               else Str s)"

definition execute_load_p ::
  "venv \<Rightarrow> 's StorageBackend \<Rightarrow> string \<Rightarrow> MissingKeyBehavior \<Rightarrow> 's VMExecution \<Rightarrow> (TypedValue, 's) exec_result" where
  "execute_load_p E B key missing x =
     (case storage_operation E ''load_p'' (\<lambda>a ns s. reading s (eco_load B (op_clock E x) a ns key s)) x of
        (Inr (d, ev), x') \<Rightarrow>
          let x'' = push_storage_event ''storage'' ''load'' ev x'
          in if \<not> valid_utf8 d
             then (Inl (Err (VE_Deserialization (''Failed to parse value for key '' @ quoted key))), x'')
             else (Inr (parse_stored d), x'')
      | (Inl (Err (VE_StorageError msg)), x') \<Rightarrow>
          if str_contains ''not found'' msg then
            (case missing of
               MK_Default \<Rightarrow> (Inr (Number f64_zero), x')
             | MK_Error \<Rightarrow> (Inl (Err (VE_StorageError (''Key '' @ quoted key @ '' not found during load_p''))), x'))
          else (Inl (Err (VE_StorageError msg)), x')
      | (Inl e, x') \<Rightarrow> (Inl e, x'))"

section \<open>Transactions on a fork\<close>

definition fork :: "venv \<Rightarrow> 's StorageBackend \<Rightarrow> 's VMExecution \<Rightarrow> VMError + 's VMExecution" where
  "fork E B x =
     (case ex_storage_backend x of
        None \<Rightarrow> Inl VE_StorageUnavailable
      | Some backend \<Rightarrow>
          (case sb_begin_transaction B backend of
             (Inl e, _) \<Rightarrow> Inl (VE_StorageError (''Failed to begin transaction: '' @ dbg_storage_error E e))
           | (Inr _, backend') \<Rightarrow>
               Inr \<lparr>ex_storage_backend = Some backend', ex_auth_context = ex_auth_context x,
                    ex_namespace = ex_namespace x, ex_output = ex_output x, ex_events = [],
                    ex_transaction_active = True\<rparr>))"

definition end_fork_transaction ::
  "venv \<Rightarrow> ('s \<Rightarrow> (StorageError, unit, 's) outcome) \<Rightarrow> string \<Rightarrow> 's VMExecution \<Rightarrow> (unit, 's) exec_result" where
  "end_fork_transaction E f verb x =
     (if \<not> ex_transaction_active x
      then (Inl (Err (VE_StorageError (''No active transaction to '' @ verb))), x)
      else
        (case ex_storage_backend x of
           None \<Rightarrow> (Inr (), x\<lparr>ex_transaction_active := False\<rparr>)
         | Some backend \<Rightarrow>
             (case f backend of
                (Inl e, backend') \<Rightarrow>
                  (Inl (Err (VE_StorageError (''Failed to '' @ verb @ '' transaction: '' @ dbg_storage_error E e))),
                   x\<lparr>ex_storage_backend := Some backend'\<rparr>)
              | (Inr _, backend') \<Rightarrow>
                  (Inr (), x\<lparr>ex_storage_backend := Some backend', ex_transaction_active := False\<rparr>))))"

definition commit_fork_transaction :: "venv \<Rightarrow> 's StorageBackend \<Rightarrow> 's VMExecution \<Rightarrow> (unit, 's) exec_result" where
  "commit_fork_transaction E B x = end_fork_transaction E (sb_commit_transaction B) ''commit'' x"

definition rollback_fork_transaction :: "venv \<Rightarrow> 's StorageBackend \<Rightarrow> 's VMExecution \<Rightarrow> (unit, 's) exec_result" where
  "rollback_fork_transaction E B x = end_fork_transaction E (sb_rollback_transaction B) ''rollback'' x"

section \<open>Arithmetic and logic on stack values\<close>

text \<open>
  The error translation of one operation: \<open>expected\<close> and \<open>found\<close> describe the operands when the error is
  not a failed coercion.
\<close>

definition typed_mismatch :: "string \<Rightarrow> string \<Rightarrow> string \<Rightarrow> TypedValueError \<Rightarrow> VMError" where
  "typed_mismatch expected found operation err =
     (case err of
        CoercionError from_ty to_ty \<Rightarrow> VE_TypeMismatch to_ty from_ty operation
      | _ \<Rightarrow> VE_TypeMismatch expected found operation)"

definition division_error :: "string \<Rightarrow> string \<Rightarrow> string \<Rightarrow> TypedValueError \<Rightarrow> VMError" where
  "division_error expected found operation err =
     (case err of
        InvalidOperationForType op types \<Rightarrow>
          if types = ''by zero'' then VE_DivisionByZero
          else VE_InvalidOperation (op @ '' on '' @ types)
      | _ \<Rightarrow> typed_mismatch expected found operation err)"

definition two_types :: "TypedValue \<Rightarrow> TypedValue \<Rightarrow> string" where
  "two_types a b = type_name a @ '' and '' @ type_name b"

definition execute_arithmetic :: "TypedValue \<Rightarrow> TypedValue \<Rightarrow> string \<Rightarrow> VMError + TypedValue" where
  "execute_arithmetic a b op =
     (if op = ''add'' then
        map_err (typed_mismatch ''compatible types for addition'' (two_types a b) ''add'') (tv_add a b)
      else if op = ''sub'' then
        map_err (typed_mismatch ''compatible types for subtraction'' (two_types a b) ''sub'') (tv_sub a b)
      else if op = ''mul'' then
        map_err (\<lambda>err. if err = ValueOutOfBounds then VE_InvalidAmount (f64_neg f64_one)
                 else typed_mismatch ''compatible types for multiplication'' (two_types a b) ''mul'' err)
          (tv_mul a b)
      else if op = ''div'' then
        map_err (division_error ''compatible types for division'' (two_types a b) ''div'') (tv_div a b)
      else if op = ''mod'' then
        map_err (division_error ''compatible types for modulo'' (two_types a b) ''mod'') (tv_modulo a b)
      else Inl (VE_NotImplemented (''Unknown arithmetic operation: '' @ op)))"

definition execute_comparison :: "TypedValue \<Rightarrow> TypedValue \<Rightarrow> string \<Rightarrow> VMError + TypedValue" where
  "execute_comparison a b op =
     (if op = ''eq'' then
        map_err (typed_mismatch ''comparable types'' (two_types a b) ''equals'') (tv_equals a b)
      else if op = ''lt'' then
        map_err (typed_mismatch ''comparable types'' (two_types a b) ''less_than'') (tv_less_than a b)
      else if op = ''gt'' then
        map_err (typed_mismatch ''comparable types'' (two_types a b) ''greater_than'') (tv_greater_than a b)
      else Inl (VE_NotImplemented (''Unknown comparison operation: '' @ op)))"

definition execute_logical :: "TypedValue \<Rightarrow> string \<Rightarrow> VMError + TypedValue" where
  "execute_logical a op =
     (if op = ''not'' then
        map_err (typed_mismatch ''any type that can be coerced to boolean'' (type_name a) ''not'')
          (tv_logical_not a)
      else Inl (VE_NotImplemented (''Unknown logical operation: '' @ op)))"

definition execute_binary_logical :: "TypedValue \<Rightarrow> TypedValue \<Rightarrow> string \<Rightarrow> VMError + TypedValue" where
  "execute_binary_logical a b op =
     (if op = ''and'' then
        map_err (typed_mismatch ''values that can be coerced to boolean'' (two_types a b) ''and'')
          (tv_logical_and a b)
      else if op = ''or'' then
        map_err (typed_mismatch ''values that can be coerced to boolean'' (two_types a b) ''or'')
          (tv_logical_or a b)
      else Inl (VE_NotImplemented (''Unknown binary logical operation: '' @ op)))"

section \<open>What is stored is what is loaded\<close>

lemma utf8_ascii: "\<forall>b \<in> set bs. b < 128 \<Longrightarrow> utf8_bytes bs"
  by (induction bs rule: utf8_bytes.induct) auto

lemma valid_utf8_ascii: "\<forall>c \<in> set s. of_char c < (128 :: nat) \<Longrightarrow> valid_utf8 s"
  by (simp add: valid_utf8_def utf8_ascii)

lemma digit_char_ascii: "d < 10 \<Longrightarrow> of_char (digit_char d) < (128 :: nat)"
  by (simp add: digit_char_def)

lemma show_nat_ascii: "c \<in> set (show_nat n) \<Longrightarrow> of_char c < (128 :: nat)"
  using set_show_nat digit_char_ascii by fastforce

lemma dec_str_ascii: "c \<in> set (dec_str m e) \<Longrightarrow> of_char c < (128 :: nat)"
  by (auto simp: dec_str_def Let_def split: if_splits dest: show_nat_ascii in_set_takeD in_set_dropD)

lemma show_f64_ascii: "\<forall>c \<in> set (show_f64 x). of_char c < (128 :: nat)"
  by (cases x) (auto split: prod.splits dest: dec_str_ascii)

lemma show_f64_utf8 [simp]: "valid_utf8 (show_f64 x)"
  using show_f64_ascii by (rule valid_utf8_ascii)

lemma parse_f64_quote: "parse_f64 (CHR 0x22 # s) = None"
  by (simp add: parse_f64_def parse_dec_def Let_def is_digit_def char_digit_def ascii_lower_def)

lemma parse_stored_display:
  "tv_wf v \<Longrightarrow> parse_stored (tv_display v) = (case v of Str s \<Rightarrow> Str (dquoted s) | _ \<Rightarrow> v)"
  by (cases v) (auto simp: parse_stored_def parse_show_f64 show_bool_def dquoted_def parse_f64_quote)

lemma push_storage_event_backend [simp]:
  "ex_storage_backend (push_storage_event c l ev x) = ex_storage_backend x"
  "ex_auth_context (push_storage_event c l ev x) = ex_auth_context x"
  "ex_namespace (push_storage_event c l ev x) = ex_namespace x"
  by (auto simp: push_storage_event_def push_event_def split: option.splits)

context storage_backend
begin

lemma store_p_look:
  assumes "execute_store_p E B key v x = (Inr u, x')" "ex_storage_backend x = Some s"
  obtains s' where "ex_storage_backend x' = Some s'"
    "look s' = put (ex_namespace x) key (tv_display v) (look s)"
    "ex_auth_context x' = ex_auth_context x" "ex_namespace x' = ex_namespace x"
    "reads (ex_auth_context x) (ex_namespace x)"
proof -
  obtain s' w where set: "sb_set B (op_clock E x) (ex_auth_context x) (ex_namespace x) key (tv_display v) s = (Inr w, s')"
    and x': "ex_storage_backend x' = Some s'" "ex_auth_context x' = ex_auth_context x"
      "ex_namespace x' = ex_namespace x"
    using assms
    by (auto simp: execute_store_p_def storage_operation_def writing_def eco_store_def bindE_def
        split: prod.splits sum.splits)
  show ?thesis by (rule that [OF x'(1) set_ok [OF set] x'(2,3) set_reads [OF set]])
qed

lemma load_p_look:
  assumes "ex_storage_backend x = Some s" "reads (ex_auth_context x) (ex_namespace x)"
    "look s (ex_namespace x) key = Some d" "valid_utf8 d"
  shows "fst (execute_load_p E B key missing x) = Inr (parse_stored d)"
  using assms get_ok [OF assms(2,3)]
  by (simp add: execute_load_p_def storage_operation_def reading_def eco_load_def Let_def)

lemma load_p_missing:
  assumes "ex_storage_backend x = Some s" "look s (ex_namespace x) key = None"
    "sb_get B (ex_auth_context x) (ex_namespace x) key s = Inl (SE_NotFound k)"
  shows "execute_load_p E B key MK_Default x = (Inr (Number f64_zero), x)"
proof -
  have "str_contains ''not found'' (a @ '' not found during load_p'')" for a
    by (induction a) (simp_all add: starts_with_def)
  from this [of "''Key '' @ quoted k"] assms show ?thesis
    by (simp add: execute_load_p_def storage_operation_def reading_def eco_load_def storage_error_to_vm_def)
qed

lemma store_p_load_p:
  assumes "execute_store_p E B key v x = (Inr u, x')" "tv_wf v" "valid_utf8 (tv_display v)"
    "ex_storage_backend x \<noteq> None"
  shows "fst (execute_load_p E B key missing x') =
     Inr (case v of Str t \<Rightarrow> Str (dquoted t) | _ \<Rightarrow> v)"
proof -
  obtain s where s: "ex_storage_backend x = Some s" using assms(4) by blast
  from assms(1) s obtain s' where s': "ex_storage_backend x' = Some s'"
    "look s' = put (ex_namespace x) key (tv_display v) (look s)"
    "ex_auth_context x' = ex_auth_context x" "ex_namespace x' = ex_namespace x"
    "reads (ex_auth_context x) (ex_namespace x)" by (rule store_p_look)
  have "fst (execute_load_p E B key missing x') = Inr (parse_stored (tv_display v))"
    by (rule load_p_look [OF s'(1)]) (use s' assms(3) in simp_all)
  then show ?thesis by (simp add: parse_stored_display [OF assms(2)])
qed

end

end
