(* ===== verification/VM_State.thy ===== *)
theory VM_State
  imports VM_Stack VM_Memory Execution
begin

text \<open>
  The machine state (\<^verbatim>\<open>src/crates/icn-covm/src/vm/vm.rs\<close>, the struct \<^verbatim>\<open>VM\<close>): stack, memory, executor and
  mode flags, the operations that configure it, and the texts it writes (\<^verbatim>\<open>Display\<close> of an operation in
  \<^verbatim>\<open>vm/types.rs\<close>, explanations, storage traces). The ledger field, which no operation touches, and
  the tracer, which only records what runs, are not part of the state.
\<close>

record 's VM =
  vm_stack :: VMStack
  vm_memory :: VMMemory
  vm_executor :: "'s VMExecution"
  vm_missing_key_behavior :: MissingKeyBehavior
  vm_trace_enabled :: bool
  vm_explain_enabled :: bool
  vm_simulation_mode :: bool
  vm_verbose_storage_trace :: bool

type_synonym ('a, 's) vm_result = "(VMError fault, 'a, 's VM) outcome"

definition vm_new :: "'s VM" where
  "vm_new = \<lparr>vm_stack = stack_new, vm_memory = mem_new, vm_executor = execution_new,
     vm_missing_key_behavior = MK_Default, vm_trace_enabled = False, vm_explain_enabled = False,
     vm_simulation_mode = False, vm_verbose_storage_trace = False\<rparr>"

definition vm_set_storage_backend :: "'s \<Rightarrow> 's VM \<Rightarrow> 's VM" where
  "vm_set_storage_backend b vm = vm\<lparr>vm_executor := set_storage_backend b (vm_executor vm)\<rparr>"

definition with_storage_backend :: "'s \<Rightarrow> 's VM" where
  "with_storage_backend b = vm_set_storage_backend b vm_new"

definition vm_set_auth_context :: "AuthContext \<Rightarrow> 's VM \<Rightarrow> 's VM" where
  "vm_set_auth_context a vm = vm\<lparr>vm_executor := set_auth_context a (vm_executor vm)\<rparr>"

definition vm_set_namespace :: "string \<Rightarrow> 's VM \<Rightarrow> 's VM" where
  "vm_set_namespace ns vm = vm\<lparr>vm_executor := set_namespace ns (vm_executor vm)\<rparr>"

definition set_missing_key_behavior :: "MissingKeyBehavior \<Rightarrow> 's VM \<Rightarrow> 's VM" where
  "set_missing_key_behavior b vm = vm\<lparr>vm_missing_key_behavior := b\<rparr>"

definition set_simulation_mode :: "bool \<Rightarrow> 's VM \<Rightarrow> 's VM" where
  "set_simulation_mode b vm = vm\<lparr>vm_simulation_mode := b\<rparr>"

text \<open>Values that are not executable here are left to the caller's closure \<open>f\<close>, as in the source.\<close>

definition with_storage :: "('s \<Rightarrow> 'a) \<Rightarrow> 's VM \<Rightarrow> VMError + 'a" where
  "with_storage f vm =
     (case ex_storage_backend (vm_executor vm) of
        Some s \<Rightarrow> Inr (f s) | None \<Rightarrow> Inl VE_StorageNotAvailable)"

definition with_storage_mut :: "('s \<Rightarrow> 'a \<times> 's) \<Rightarrow> 's VM \<Rightarrow> (VMError, 'a, 's VM) outcome" where
  "with_storage_mut f vm =
     (case ex_storage_backend (vm_executor vm) of
        Some s \<Rightarrow> (case f s of (a, s') \<Rightarrow>
          (Inr a, vm\<lparr>vm_executor := (vm_executor vm)\<lparr>ex_storage_backend := Some s'\<rparr>\<rparr>))
      | None \<Rightarrow> (Inl VE_StorageNotAvailable, vm))"

definition vm_fork :: "venv \<Rightarrow> 's StorageBackend \<Rightarrow> 's VM \<Rightarrow> VMError + 's VM" where
  "vm_fork E B vm = bindR (fork E B (vm_executor vm)) (\<lambda>x. Inr (vm\<lparr>vm_executor := x\<rparr>))"

definition try_clone :: "'s VM \<Rightarrow> 's VM option" where
  "try_clone vm = Some (vm\<lparr>vm_executor := execution_new\<rparr>)"

text \<open>Running an operation of a part on the part, keeping the part's state in every outcome.\<close>

definition on_stack :: "(VMStack \<Rightarrow> (VMError fault, 'a, VMStack) outcome) \<Rightarrow> 's VM \<Rightarrow> ('a, 's) vm_result" where
  "on_stack f vm = (case f (vm_stack vm) of (r, s) \<Rightarrow> (r, vm\<lparr>vm_stack := s\<rparr>))"

definition on_memory :: "(VMMemory \<Rightarrow> (VMError fault, 'a, VMMemory) outcome) \<Rightarrow> 's VM \<Rightarrow> ('a, 's) vm_result" where
  "on_memory f vm = (case f (vm_memory vm) of (r, m) \<Rightarrow> (r, vm\<lparr>vm_memory := m\<rparr>))"

definition on_executor :: "('s VMExecution \<Rightarrow> ('a, 's) exec_result) \<Rightarrow> 's VM \<Rightarrow> ('a, 's) vm_result" where
  "on_executor f vm = (case f (vm_executor vm) of (r, x) \<Rightarrow> (r, vm\<lparr>vm_executor := x\<rparr>))"

definition vm_commit_fork_transaction :: "venv \<Rightarrow> 's StorageBackend \<Rightarrow> 's VM \<Rightarrow> (unit, 's) vm_result" where
  "vm_commit_fork_transaction E B = on_executor (commit_fork_transaction E B)"

definition vm_rollback_fork_transaction :: "venv \<Rightarrow> 's StorageBackend \<Rightarrow> 's VM \<Rightarrow> (unit, 's) vm_result" where
  "vm_rollback_fork_transaction E B = on_executor (rollback_fork_transaction E B)"

definition vm_push :: "TypedValue \<Rightarrow> 's VM \<Rightarrow> 's VM" where
  "vm_push v vm = vm\<lparr>vm_stack := stack_push v (vm_stack vm)\<rparr>"

definition pop_one :: "string \<Rightarrow> 's VM \<Rightarrow> (TypedValue, 's) vm_result" where
  "pop_one op_name = on_stack (stack_pop op_name)"

definition pop_two :: "string \<Rightarrow> 's VM \<Rightarrow> (TypedValue \<times> TypedValue, 's) vm_result" where
  "pop_two op_name = on_stack (stack_pop_two op_name)"

definition vm_emit :: "string \<Rightarrow> 's VM \<Rightarrow> 's VM" where
  "vm_emit msg vm = vm\<lparr>vm_executor := emit msg (vm_executor vm)\<rparr>"

definition vm_emit_event :: "venv \<Rightarrow> string \<Rightarrow> string \<Rightarrow> 's VM \<Rightarrow> 's VM" where
  "vm_emit_event E c msg vm = vm\<lparr>vm_executor := emit_event E c msg (vm_executor vm)\<rparr>"

text \<open>
  \<^verbatim>\<open>set_parameters\<close>: each entry becomes a parameter; the entries are independent, so the order of
  the hash map does not matter and the model takes the keys sorted.
\<close>

definition parameter_value :: "string \<Rightarrow> TypedValue" where
  "parameter_value t =
     (if map ascii_lower t = ''true'' then Boolean True
      else if map ascii_lower t = ''false'' then Boolean False
      else case parse_f64 t of Some n \<Rightarrow> Number n | None \<Rightarrow> Str t)"

definition set_parameters :: "(string, string) fmap \<Rightarrow> 's VM \<Rightarrow> 's VM" where
  "set_parameters ps vm =
     vm\<lparr>vm_memory := fold (\<lambda>k. store_param k (parameter_value (the (fmlookup ps k)))) (hkeys ps) (vm_memory vm)\<rparr>"

section \<open>Texts\<close>

definition call1 :: "string \<Rightarrow> string \<Rightarrow> string" where
  "call1 f a = f @ ''('' @ a @ '')''"

definition op_display :: "venv \<Rightarrow> Op \<Rightarrow> string" where
  "op_display E op = (case op of
     OpPush v \<Rightarrow> call1 ''Push'' (tv_display v)
   | OpAdd \<Rightarrow> ''Add'' | OpSub \<Rightarrow> ''Sub'' | OpMul \<Rightarrow> ''Mul'' | OpDiv \<Rightarrow> ''Div'' | OpMod \<Rightarrow> ''Mod''
   | OpStore name \<Rightarrow> call1 ''Store'' name
   | OpLoad name \<Rightarrow> call1 ''Load'' name
   | OpIf _ _ _ \<Rightarrow> ''If''
   | OpLoop count _ \<Rightarrow> call1 ''Loop'' (show_nat count)
   | OpWhile _ _ \<Rightarrow> ''While''
   | OpEmit msg \<Rightarrow> call1 ''Emit'' msg
   | OpNegate \<Rightarrow> ''Negate''
   | OpAssertTop v \<Rightarrow> call1 ''AssertTop'' (tv_display v)
   | OpDumpStack \<Rightarrow> ''DumpStack'' | OpDumpMemory \<Rightarrow> ''DumpMemory''
   | OpAssertMemory key v \<Rightarrow> call1 ''AssertMemory'' (key @ '', '' @ tv_display v)
   | OpPop \<Rightarrow> ''Pop'' | OpEq \<Rightarrow> ''Eq'' | OpGt \<Rightarrow> ''Gt'' | OpLt \<Rightarrow> ''Lt''
   | OpNot \<Rightarrow> ''Not'' | OpAnd \<Rightarrow> ''And'' | OpOr \<Rightarrow> ''Or''
   | OpDup \<Rightarrow> ''Dup'' | OpSwap \<Rightarrow> ''Swap'' | OpOver \<Rightarrow> ''Over''
   | OpDef name _ _ \<Rightarrow> call1 ''Def'' name
   | OpCall name \<Rightarrow> call1 ''Call'' name
   | OpReturn \<Rightarrow> ''Return'' | OpNop \<Rightarrow> ''Nop''
   | OpMatch _ _ _ \<Rightarrow> ''Match''
   | OpBreak \<Rightarrow> ''Break'' | OpContinue \<Rightarrow> ''Continue''
   | OpEmitEvent c m \<Rightarrow> call1 ''EmitEvent'' (c @ '', '' @ m)
   | OpAssertEqualStack d \<Rightarrow> call1 ''AssertEqualStack'' (show_nat d)
   | OpDumpState \<Rightarrow> ''DumpState''
   | OpRankedVote c b \<Rightarrow> call1 ''RankedVote'' (show_nat c @ '' candidates, '' @ show_nat b @ '' ballots'')
   | OpLiquidDelegate a b \<Rightarrow> call1 ''LiquidDelegate'' (a @ '' -> '' @ b)
   | OpVoteThreshold x \<Rightarrow> call1 ''VoteThreshold'' (show_f64 x)
   | OpQuorumThreshold x \<Rightarrow> call1 ''QuorumThreshold'' (show_f64 x)
   | OpMinDeliberation d \<Rightarrow> call1 ''MinDeliberation'' (dbg_duration E d)
   | OpExpiresIn d \<Rightarrow> call1 ''ExpiresIn'' (dbg_duration E d)
   | OpRequireRole r \<Rightarrow> call1 ''RequireRole'' r
   | OpStoreP k \<Rightarrow> call1 ''StoreP'' k
   | OpLoadP k \<Rightarrow> call1 ''LoadP'' k
   | OpLoadVersionP k v \<Rightarrow> call1 ''LoadVersionP'' (k @ '', v'' @ show_u64 v)
   | OpListVersionsP k \<Rightarrow> call1 ''ListVersionsP'' k
   | OpDiffVersionsP k v w \<Rightarrow> call1 ''DiffVersionsP'' (k @ '', v'' @ show_u64 v @ '', v'' @ show_u64 w)
   | OpVerifyIdentity i _ _ \<Rightarrow> call1 ''VerifyIdentity'' i
   | OpCheckMembership i ns \<Rightarrow> call1 ''CheckMembership'' (i @ '', '' @ ns)
   | OpCheckDelegation a b \<Rightarrow> call1 ''CheckDelegation'' (a @ '' -> '' @ b)
   | OpVerifySignature \<Rightarrow> ''VerifySignature''
   | OpCreateResource r \<Rightarrow> call1 ''CreateResource'' r
   | OpMint r a n _ \<Rightarrow> call1 ''Mint'' (show_f64 n @ '' of '' @ r @ '' to '' @ a)
   | OpTransfer r a b n _ \<Rightarrow> call1 ''Transfer'' (show_f64 n @ '' of '' @ r @ '' from '' @ a @ '' to '' @ b)
   | OpBurn r a n _ \<Rightarrow> call1 ''Burn'' (show_f64 n @ '' of '' @ r @ '' from '' @ a)
   | OpBalance r a \<Rightarrow> call1 ''Balance'' (r @ '' for '' @ a)
   | OpGetIdentity i \<Rightarrow> call1 ''GetIdentity'' i
   | OpRequireValidSignature v _ _ \<Rightarrow> call1 ''RequireValidSignature'' v
   | OpIfPassed _ \<Rightarrow> ''IfPassed'' | OpElse _ \<Rightarrow> ''Else''
   | OpIncrementReputation i n _ \<Rightarrow> call1 ''IncrementReputation'' (i @ '', '' @ dbg_amount E n)
   | OpMacro m \<Rightarrow> call1 ''Macro'' m)"

definition explain_op :: "venv \<Rightarrow> Op \<Rightarrow> string" where
  "explain_op E op = (case op of
     OpPush v \<Rightarrow> ''Push value '' @ dbg_value E v @ '' onto the stack''
   | OpAdd \<Rightarrow> ''Add the top two values on the stack''
   | OpSub \<Rightarrow> ''Subtract the top value from the second value on the stack''
   | OpMul \<Rightarrow> ''Multiply the top two values on the stack''
   | OpDiv \<Rightarrow> ''Divide the second value by the top value on the stack''
   | OpMod \<Rightarrow> ''Calculate the remainder of the second value divided by the top value''
   | OpStore key \<Rightarrow> ''Store the top value in memory with key '' @ quoted key
   | OpLoad key \<Rightarrow> ''Load value with key '' @ quoted key @ '' from memory''
   | OpIf _ _ e \<Rightarrow> ''If the condition is true, execute '' @ quoted ''then'' @ '' branch'' @
       (if e = None then '''' else '', otherwise execute '' @ quoted ''else'' @ '' branch'')
   | OpLoop count _ \<Rightarrow> ''Execute the body '' @ show_nat count @ '' times''
   | OpWhile _ _ \<Rightarrow> ''While the condition is true, execute the body''
   | OpPop \<Rightarrow> ''Remove the top value from the stack''
   | OpEq \<Rightarrow> ''Check if the top two values are equal''
   | OpGt \<Rightarrow> ''Check if the second value is greater than the top value''
   | OpLt \<Rightarrow> ''Check if the second value is less than the top value''
   | OpNot \<Rightarrow> ''Logical NOT of the top value''
   | OpAnd \<Rightarrow> ''Logical AND of the top two values''
   | OpOr \<Rightarrow> ''Logical OR of the top two values''
   | OpDup \<Rightarrow> ''Duplicate the top value on the stack''
   | OpSwap \<Rightarrow> ''Swap the top two values on the stack''
   | OpOver \<Rightarrow> ''Copy the second value to the top of the stack''
   | OpDef name _ _ \<Rightarrow> ''Define a function named '' @ quoted name
   | OpCall name \<Rightarrow> ''Call the function named '' @ quoted name
   | OpReturn \<Rightarrow> ''Return from the current function''
   | OpNop \<Rightarrow> ''No operation (do nothing)''
   | OpMatch _ _ _ \<Rightarrow> ''Match a value against several cases''
   | OpBreak \<Rightarrow> ''Break out of the innermost loop''
   | OpContinue \<Rightarrow> ''Continue to the next iteration of the innermost loop''
   | OpEmitEvent c m \<Rightarrow> ''Emit an event with category '' @ quoted c @ '' and message '' @ quoted m
   | OpAssertEqualStack d \<Rightarrow> ''Assert that the top '' @ show_nat d @ '' values on the stack are equal''
   | OpDumpState \<Rightarrow> ''Display the entire VM state''
   | OpStoreP key \<Rightarrow> ''Store the top stack value in persistent storage under key '' @ quoted key
   | OpLoadP key \<Rightarrow> ''Load value from persistent storage with key '' @ quoted key @
       '' and push it onto the stack''
   | _ \<Rightarrow> ''Execute operation: '' @ op_display E op)"

definition log_explanation :: "venv \<Rightarrow> Op \<Rightarrow> 's VM \<Rightarrow> 's VM" where
  "log_explanation E op vm =
     (if vm_explain_enabled vm then vm_emit (''[EXPLAIN] '' @ explain_op E op) vm else vm)"

definition log_storage_operation :: "venv \<Rightarrow> string \<Rightarrow> string \<Rightarrow> TypedValue \<Rightarrow> 's VM \<Rightarrow> 's VM" where
  "log_storage_operation E operation key value vm =
     (if vm_verbose_storage_trace vm
      then vm_emit_event E ''storage_trace'' (operation @ '' '' @ key @ '' = '' @ tv_display value) vm
      else vm)"

end
