(* ===== verification/Governance.thy ===== *)
theory Governance
  imports VM_State
begin

text \<open>
  The governance operations (\<^verbatim>\<open>src/crates/icn-covm/src/governance\<close>: \<^verbatim>\<open>ranked_vote.rs\<close>,
  \<^verbatim>\<open>liquid_delegate.rs\<close>, \<^verbatim>\<open>vote_threshold.rs\<close>, \<^verbatim>\<open>quorum_threshold.rs\<close> and the dispatcher of \<^verbatim>\<open>mod.rs\<close>). The
  handlers are written for a stack of \<^verbatim>\<open>f64\<close>: \<open>num_of\<close> is the number they read from a popped value,
  and a number they push is a \<open>Number\<close>.
\<close>

section \<open>Ranked-choice vote\<close>

fun pop_ballot :: "venv \<Rightarrow> nat \<Rightarrow> 's VM \<Rightarrow> (f64 list, 's) vm_result" where
  "pop_ballot E 0 vm = (Inr [], vm)"
| "pop_ballot E (Suc n) vm =
     bindE (pop_one ''RankedVote'' vm) (\<lambda>v vm1.
     bindE (pop_ballot E n vm1) (\<lambda>vs vm2. (Inr (num_of E v # vs), vm2)))"

fun pop_ballots :: "venv \<Rightarrow> nat \<Rightarrow> nat \<Rightarrow> 's VM \<Rightarrow> (f64 list list, 's) vm_result" where
  "pop_ballots E c 0 vm = (Inr [], vm)"
| "pop_ballots E c (Suc n) vm =
     bindE (pop_ballot E c vm) (\<lambda>b vm1.
     bindE (pop_ballots E c n vm1) (\<lambda>bs vm2. (Inr (b # bs), vm2)))"

text \<open>The choices as candidate numbers: \<^verbatim>\<open>choice as usize\<close>.\<close>

definition ballot_choices :: "f64 list \<Rightarrow> nat list" where
  "ballot_choices b = map (f64_as_nat 64) b"

definition first_choice :: "nat \<Rightarrow> bool list \<Rightarrow> nat list \<Rightarrow> nat option" where
  "first_choice candidates eliminated ballot =
     List.find (\<lambda>c. c < candidates \<and> \<not> eliminated ! c) ballot"

definition count_votes :: "nat \<Rightarrow> bool list \<Rightarrow> nat list list \<Rightarrow> nat list" where
  "count_votes candidates eliminated ballots =
     fold (\<lambda>b votes. case first_choice candidates eliminated b of
              Some c \<Rightarrow> votes[c := votes ! c + 1]
            | None \<Rightarrow> votes) ballots (replicate candidates 0)"

definition fewest_votes :: "nat \<Rightarrow> bool list \<Rightarrow> nat list \<Rightarrow> nat \<times> nat" where
  "fewest_votes ballots eliminated votes =
     fold (\<lambda>(candidate, vote_count) (min_votes, min_candidate).
              if \<not> eliminated ! candidate \<and> vote_count < min_votes \<and> vote_count > 0
              then (vote_count, candidate)
              else (min_votes, min_candidate))
       (List.enumerate 0 votes) (ballots + 1, 0)"

text \<open>The loop runs while more than one candidate remains; each round ends with an event.\<close>

fun runoff :: "venv \<Rightarrow> nat \<Rightarrow> nat list list \<Rightarrow> nat \<Rightarrow> bool list \<Rightarrow> 's VM \<Rightarrow> bool list \<times> 's VM" where
  "runoff E candidates ballots remaining eliminated vm =
     (if remaining > 1 then
        let votes = count_votes candidates eliminated ballots;
            (min_votes, min_candidate) = fewest_votes (length ballots) eliminated votes
        in runoff E candidates ballots (remaining - 1) (eliminated[min_candidate := True])
             (vm_emit_event E ''governance''
                (''Eliminated candidate '' @ show_nat min_candidate @ '' with '' @ show_nat min_votes @ '' votes'') vm)
      else (eliminated, vm))"

declare runoff.simps [simp del]

definition winner_of :: "bool list \<Rightarrow> nat" where
  "winner_of eliminated =
     (case List.find (\<lambda>i. \<not> eliminated ! i) [0..<length eliminated] of Some i \<Rightarrow> i | None \<Rightarrow> 0)"

definition handle_ranked_vote :: "venv \<Rightarrow> nat \<Rightarrow> nat \<Rightarrow> 's VM \<Rightarrow> (unit, 's) vm_result" where
  "handle_ranked_vote E candidates ballots vm =
     (if candidates < 2 then
        (Inl (Err (VE_GovernanceError ''RankedVote requires at least 2 candidates'')), vm)
      else if ballots < 1 then
        (Inl (Err (VE_GovernanceError ''RankedVote requires at least 1 ballot'')), vm)
      else
        bindE (pop_ballots E candidates ballots vm) (\<lambda>all_ballots vm1.
          let vm2 = vm_emit_event E ''governance''
                (''Running ranked-choice vote with '' @ show_nat candidates @ '' candidates and '' @
                 show_nat ballots @ '' ballots'') vm1;
              (eliminated, vm3) = runoff E candidates (map ballot_choices all_ballots) candidates
                 (replicate candidates False) vm2;
              winner = winner_of eliminated;
              vm4 = vm_emit_event E ''governance''
                (''Winner of ranked-choice vote: candidate '' @ show_nat winner) vm3
          in (Inr (), vm_push (Number (f64_of_nat winner)) vm4)))"

section \<open>Delegation\<close>

definition delegations_key :: string where
  "delegations_key = ''governance_delegations''"

definition current_delegations :: "venv \<Rightarrow> VMMemory \<Rightarrow> VMError fault + (string, string) fmap" where
  "current_delegations E m =
     (case mem_load delegations_key m of
        Inr _ \<Rightarrow>
          Inr (case get_string_metadata delegations_key m of
                 Some t \<Rightarrow> (case json_dec E t of Some d \<Rightarrow> d | None \<Rightarrow> fmempty)
               | None \<Rightarrow> fmempty)
      | Inl Panic \<Rightarrow> Inl Panic
      | Inl (Err _) \<Rightarrow> Inr fmempty)"

text \<open>
  The cycle check follows the chain of delegations and stops at a node seen before or at the end.
  It terminates because every visited node that continues the chain is a fresh key of the map.
\<close>

function follow_chain :: "(string, string) fmap \<Rightarrow> string fset \<Rightarrow> string \<Rightarrow> bool" where
  "follow_chain d visited current =
     (if current = '''' then False
      else if current |\<in>| visited then True
      else follow_chain d (finsert current visited)
             (case fmlookup d current of Some next \<Rightarrow> next | None \<Rightarrow> ''''))"
  by pat_completeness auto
termination
proof (relation "measure (\<lambda>(d, visited, current).
    2 * fcard (fmdom d |-| visited) + (if current = '''' then 0 else 1))", goal_cases)
  case (2 d visited current)
  show ?case
  proof (cases "fmlookup d current")
    case (Some nx)
    then have "current |\<in>| fmdom d |-| visited" using 2 by (auto intro: fmdomI)
    then have "fmdom d |-| finsert current visited |\<subset>| fmdom d |-| visited" by auto
    then have "fcard (fmdom d |-| finsert current visited) < fcard (fmdom d |-| visited)"
      by (rule pfsubset_fcard_mono)
    then show ?thesis using 2 Some by simp
  next
    case None
    then have "fmdom d |-| finsert current visited = fmdom d |-| visited"
      by (auto simp: fmdom_notI)
    then show ?thesis using 2 None by simp
  qed
qed simp

declare follow_chain.simps [simp del]

definition handle_liquid_delegate :: "venv \<Rightarrow> string \<Rightarrow> string \<Rightarrow> 's VM \<Rightarrow> (unit, 's) vm_result" where
  "handle_liquid_delegate E from_id to_id vm =
     (if from_id = '''' then
        (Inl (Err (VE_GovernanceError (''LiquidDelegate requires a non-empty '' @ quoted ''from'' @ '' parameter''))), vm)
      else
        (case current_delegations E (vm_memory vm) of
           Inl e \<Rightarrow> (Inl e, vm)
         | Inr d \<Rightarrow>
             bindE
               (if to_id = '''' then
                  (Inr (fmdrop from_id d),
                   if fmlookup d from_id \<noteq> None
                   then vm_emit_event E ''governance'' (''Delegation revoked for '' @ from_id) vm
                   else vm_emit_event E ''governance'' (''No delegation found to revoke for '' @ from_id) vm)
                else if follow_chain d {|from_id|} to_id then
                  (Inl (Err (VE_GovernanceError
                     (''Delegation from '' @ from_id @ '' to '' @ to_id @ '' would create a cycle''))), vm)
                else
                  (Inr (fmupd from_id to_id d),
                   vm_emit_event E ''governance'' (''Delegation created from '' @ from_id @ '' to '' @ to_id) vm))
               (\<lambda>d' vm1.
                  on_memory (mem_store delegations_key (Number (f64_of_nat (fcard (fmdom d')))))
                    (vm1\<lparr>vm_memory := set_string_metadata delegations_key (json_enc E d') (vm_memory vm1)\<rparr>))))"

section \<open>Thresholds\<close>

text \<open>\<^verbatim>\<open>{:.2}\<close>: two decimals, the exact value rounded half to even.\<close>

fun show_fixed2 :: "f64 \<Rightarrow> string" where
  "show_fixed2 F64_NaN = ''NaN''"
| "show_fixed2 (F64_Inf s) = (if s then ''-inf'' else ''inf'')"
| "show_fixed2 (F64_Zero s) = (if s then ''-0.00'' else ''0.00'')"
| "show_fixed2 (F64_Num q) =
     (let n = nat (rne (\<bar>q\<bar> * 100))
      in (if q < 0 then ''-'' else '''') @ show_nat (n div 100) @ ''.'' @
         [digit_char (n mod 100 div 10), digit_char (n mod 10)])"

definition push_check :: "venv \<Rightarrow> bool \<Rightarrow> string \<Rightarrow> 's VM \<Rightarrow> 's VM" where
  "push_check E met what vm =
     (if met then vm_emit_event E ''governance'' (what @ '' met'') (vm_push (Number f64_zero) vm)
      else vm_emit_event E ''governance'' (what @ '' not met'') (vm_push (Number f64_one) vm))"

definition handle_vote_threshold :: "venv \<Rightarrow> f64 \<Rightarrow> 's VM \<Rightarrow> (unit, 's) vm_result" where
  "handle_vote_threshold E threshold vm =
     (if f64_lt threshold f64_zero then
        (Inl (Err (VE_GovernanceError ''VoteThreshold must be non-negative'')), vm)
      else
        bindE (pop_one ''VoteThreshold'' vm) (\<lambda>v vm1.
          let total_votes = num_of E v;
              vm2 = vm_emit_event E ''governance'' (''Vote threshold check: '' @ show_fixed2 total_votes @
                '' votes, threshold: '' @ show_fixed2 threshold) vm1
          in (Inr (), push_check E (f64_le threshold total_votes) ''Vote threshold'' vm2)))"

definition handle_quorum_threshold :: "venv \<Rightarrow> f64 \<Rightarrow> 's VM \<Rightarrow> (unit, 's) vm_result" where
  "handle_quorum_threshold E threshold vm =
     (if f64_lt threshold f64_zero \<or> f64_lt f64_one threshold then
        (Inl (Err (VE_GovernanceError ''QuorumThreshold must be between 0.0 and 1.0'')), vm)
      else
        bindE (pop_one ''QuorumThreshold:total_possible'' vm) (\<lambda>v vm1.
        bindE (pop_one ''QuorumThreshold:votes_cast'' vm1) (\<lambda>w vm2.
          let total_possible = num_of E v; votes_cast = num_of E w in
          if f64_le total_possible f64_zero then
            (Inl (Err (VE_GovernanceError ''Total possible votes must be greater than zero'')), vm2)
          else
            let ratio = f64_div votes_cast total_possible;
                vm3 = vm_emit_event E ''governance''
                  (''Quorum check: '' @ show_f64 votes_cast @ ''/'' @ show_f64 total_possible @ '' = '' @
                   show_fixed2 (f64_mul ratio (f64_of_int 100)) @ ''%, threshold: '' @
                   show_fixed2 (f64_mul threshold (f64_of_int 100)) @ ''%'') vm2
            in (Inr (), push_check E (f64_le threshold ratio) ''Quorum threshold'' vm3))))"

section \<open>Dispatcher\<close>

definition try_handle_governance_op :: "venv \<Rightarrow> Op \<Rightarrow> 's VM \<Rightarrow> (unit option, 's) vm_result" where
  "try_handle_governance_op E op vm =
     (let handled = (\<lambda>r. bindE r (\<lambda>_ vm'. (Inr (Some ()), vm'))) in
      case op of
        OpRankedVote c b \<Rightarrow> handled (handle_ranked_vote E c b vm)
      | OpLiquidDelegate a b \<Rightarrow> handled (handle_liquid_delegate E a b vm)
      | OpQuorumThreshold t \<Rightarrow> handled (handle_quorum_threshold E t vm)
      | OpVoteThreshold t \<Rightarrow> handled (handle_vote_threshold E t vm)
      | _ \<Rightarrow> (Inr None, vm))"

section \<open>The count and the elimination\<close>

lemma count_votes_spec:
  assumes "c < candidates"
  shows "count_votes candidates eliminated ballots ! c =
     length (filter (\<lambda>b. first_choice candidates eliminated b = Some c) ballots)"
proof -
  let ?f = "\<lambda>b votes. case first_choice candidates eliminated b of
              Some c \<Rightarrow> votes[c := votes ! c + 1] | None \<Rightarrow> votes"
  have "fold ?f ballots votes ! c =
      votes ! c + length (filter (\<lambda>b. first_choice candidates eliminated b = Some c) ballots)"
    if "length votes = candidates" for votes :: "nat list"
    using that
  proof (induction ballots arbitrary: votes)
    case (Cons b bs)
    have len: "length (?f b votes) = candidates" using Cons.prems by (simp split: option.splits)
    show ?case using Cons.IH [OF len] Cons.prems assms
      by (auto simp: nth_list_update split: option.splits)
  qed simp
  from this [of "replicate candidates 0"] assms show ?thesis by (simp add: count_votes_def)
qed

lemma length_count_votes [simp]: "length (count_votes n eliminated ballots) = n"
proof -
  let ?f = "\<lambda>b votes. case first_choice n eliminated b of
              Some c \<Rightarrow> votes[c := votes ! c + 1] | None \<Rightarrow> votes"
  have "length (fold ?f ballots votes) = length votes" for votes :: "nat list"
    by (induction ballots arbitrary: votes) (auto split: option.splits)
  then show ?thesis by (simp add: count_votes_def)
qed

lemma first_choice_valid: "first_choice n eliminated b = Some c \<Longrightarrow> c < n \<and> \<not> eliminated ! c \<and> c \<in> set b"
  by (auto simp: first_choice_def find_Some_iff)

text \<open>Candidates that still run and have a vote.\<close>

definition running :: "bool list \<Rightarrow> nat list \<Rightarrow> nat set" where
  "running eliminated votes = {i. i < length votes \<and> \<not> eliminated ! i \<and> 0 < votes ! i}"

lemma fewest_votes_inv:
  assumes "k \<le> length votes" "\<forall>i < k. votes ! i \<le> n"
    "fold (\<lambda>(candidate, vote_count) (min_votes, min_candidate).
              if \<not> eliminated ! candidate \<and> vote_count < min_votes \<and> vote_count > 0
              then (vote_count, candidate) else (min_votes, min_candidate))
       (List.enumerate 0 (take k votes)) (n + 1, 0) = (m, c)"
  shows "(if running eliminated (take k votes) = {} then m = n + 1 \<and> c = 0
          else c \<in> running eliminated (take k votes) \<and> m = votes ! c \<and>
               (\<forall>i \<in> running eliminated (take k votes). m \<le> votes ! i))"
  using assms
proof (induction k arbitrary: m c)
  case (Suc k)
  let ?f = "\<lambda>(candidate, vote_count) (min_votes, min_candidate).
              if \<not> eliminated ! candidate \<and> vote_count < min_votes \<and> vote_count > 0
              then (vote_count, candidate) else (min_votes, min_candidate)"
  obtain m' c' where mc: "fold ?f (List.enumerate 0 (take k votes)) (n + 1, 0) = (m', c')" by fastforce
  have k: "k < length votes" using Suc.prems by simp
  have take: "take (Suc k) votes = take k votes @ [votes ! k]" using k by (simp add: take_Suc_conv_app_nth)
  have "List.enumerate 0 (take (Suc k) votes) = List.enumerate 0 (take k votes) @ [(k, votes ! k)]"
    using k by (simp add: take enumerate_append_eq)
  then have step: "(m, c) = ?f (k, votes ! k) (m', c')" using Suc.prems(3) mc by simp
  have IH: "if running eliminated (take k votes) = {} then m' = n + 1 \<and> c' = 0
      else c' \<in> running eliminated (take k votes) \<and> m' = votes ! c' \<and>
        (\<forall>i \<in> running eliminated (take k votes). m' \<le> votes ! i)"
    using Suc.IH [OF _ _ mc] Suc.prems by simp
  have run: "running eliminated (take (Suc k) votes) =
      running eliminated (take k votes) \<union> (if \<not> eliminated ! k \<and> 0 < votes ! k then {k} else {})"
    using k by (auto simp: running_def less_Suc_eq nth_append take min_def)
  have le: "votes ! k \<le> n" using Suc.prems(2) by simp
  show ?case
  proof (cases "\<not> eliminated ! k \<and> 0 < votes ! k")
    case True
    with step IH le run show ?thesis by (cases "votes ! k < m'") (auto split: if_splits)
  next
    case False
    with step have "m = m'" "c = c'" by auto
    with IH run False show ?thesis by (auto split: if_splits)
  qed
qed (simp add: running_def)

lemma fewest_votes_spec:
  assumes "fewest_votes n eliminated votes = (m, c)" "\<forall>i < length votes. votes ! i \<le> n"
  shows "(if running eliminated votes = {} then m = n + 1 \<and> c = 0
          else c \<in> running eliminated votes \<and> m = votes ! c \<and>
               (\<forall>i \<in> running eliminated votes. m \<le> votes ! i))"
  by (rule fewest_votes_inv [OF order_refl assms(2), unfolded take_all [OF order_refl],
        OF assms(1) [unfolded fewest_votes_def]])

lemma count_votes_bound: "i < n \<Longrightarrow> count_votes n eliminated ballots ! i \<le> length ballots"
  by (simp add: count_votes_spec)

section \<open>The runoff\<close>

definition out :: "bool list \<Rightarrow> nat set" where
  "out eliminated = {i. i < length eliminated \<and> eliminated ! i}"

lemma finite_out [simp]: "finite (out e)"
  by (simp add: out_def)

lemma out_update: "out (e[c := True]) = (if c < length e then insert c (out e) else out e)"
  by (auto simp: out_def nth_list_update split: if_splits)

lemma runoff_out:
  assumes "runoff E n ballots remaining e vm = (e', vm')"
  shows "length e' = length e \<and> out e \<subseteq> out e' \<and> card (out e') \<le> card (out e) + (remaining - 1)"
  using assms
proof (induction E n ballots remaining e vm arbitrary: e' vm' rule: runoff.induct)
  case (1 E n ballots remaining e vm)
  show ?case
  proof (cases "remaining > 1")
    case True
    obtain m c where mc: "fewest_votes (length ballots) e (count_votes n e ballots) = (m, c)" by fastforce
    let ?vm = "vm_emit_event E ''governance''
       (''Eliminated candidate '' @ show_nat c @ '' with '' @ show_nat m @ '' votes'') vm"
    have "runoff E n ballots (remaining - 1) (e[c := True]) ?vm = (e', vm')"
      using "1.prems" True mc by (subst (asm) runoff.simps) simp
    from "1.IH" [OF True refl mc [symmetric] refl this] show ?thesis
      using card_insert_le [of "out e" c] True
      by (auto simp: out_update card_insert_if split: if_splits)
  next
    case False
    with "1.prems" show ?thesis by (subst (asm) runoff.simps) simp
  qed
qed

lemma runoff_stack: "runoff E n ballots remaining e vm = (e', vm') \<Longrightarrow> vm_stack vm' = vm_stack vm"
proof (induction E n ballots remaining e vm arbitrary: e' vm' rule: runoff.induct)
  case (1 E n bs k e vm)
  show ?case
  proof (cases "k > 1")
    case True
    obtain m c where mc: "fewest_votes (length bs) e (count_votes n e bs) = (m, c)" by fastforce
    let ?vm = "vm_emit_event E ''governance''
       (''Eliminated candidate '' @ show_nat c @ '' with '' @ show_nat m @ '' votes'') vm"
    have "runoff E n bs (k - 1) (e[c := True]) ?vm = (e', vm')"
      using "1.prems" True mc by (subst (asm) runoff.simps) simp
    from "1.IH" [OF True refl mc [symmetric] refl this] show ?thesis by (simp add: vm_emit_event_def)
  next
    case False
    with "1.prems" show ?thesis by (subst (asm) runoff.simps) simp
  qed
qed

lemma winner_of_valid:
  assumes "card (out e) < length e"
  shows "winner_of e < length e \<and> winner_of e \<notin> out e"
proof -
  have "\<exists>i < length e. \<not> e ! i"
  proof (rule ccontr)
    assume "\<not> (\<exists>i < length e. \<not> e ! i)"
    then have "out e = {..<length e}" by (auto simp: out_def)
    with assms show False by simp
  qed
  then have "List.find (\<lambda>i. \<not> e ! i) [0..<length e] \<noteq> None" by (auto simp: find_None_iff)
  then obtain i where i: "List.find (\<lambda>i. \<not> e ! i) [0..<length e] = Some i" by blast
  then have "winner_of e = i" by (simp add: winner_of_def)
  with i show ?thesis by (auto simp: find_Some_iff out_def)
qed

lemma runoff_winner:
  assumes "runoff E n ballots n (replicate n False) vm = (e, vm')" "0 < n"
  shows "winner_of e < n \<and> winner_of e \<notin> out e"
proof -
  have "out (replicate n False) = {}" by (auto simp: out_def)
  with runoff_out [OF assms(1)] have "length e = n" "card (out e) \<le> n - 1" by auto
  with assms(2) have "length e = n" "card (out e) < length e" by linarith+
  then show ?thesis using winner_of_valid by fastforce
qed

text \<open>
  The first round: when the elected candidate would be the favourite of every ballot, it is the only
  candidate with a vote, so it has the fewest votes and is eliminated.
\<close>

lemma runoff_first:
  assumes "2 \<le> n" "ballots \<noteq> []" "c < n"
    "\<forall>b \<in> set ballots. first_choice n (replicate n False) b = Some c"
    "runoff E n ballots n (replicate n False) vm = (e, vm')"
  shows "c \<in> out e"
proof -
  let ?e = "replicate n False" and ?v = "count_votes n (replicate n False) ballots"
  obtain m c' where mc: "fewest_votes (length ballots) ?e ?v = (m, c')" by fastforce
  have v: "?v ! i = (if i = c then length ballots else 0)" if "i < n" for i
    using assms(4) that by (auto simp: count_votes_spec filter_id_conv filter_empty_conv)
  have run: "running ?e ?v = {c}"
    using assms(2,3) v by (auto simp: running_def split: if_splits)
  have "c' = c" using fewest_votes_spec [OF mc] run by (auto simp: count_votes_bound)
  then have "runoff E n ballots (n - 1) (?e[c := True])
      (vm_emit_event E ''governance''
        (''Eliminated candidate '' @ show_nat c @ '' with '' @ show_nat m @ '' votes'') vm) = (e, vm')"
    using assms(1,5) mc by (subst (asm) runoff.simps) simp
  from runoff_out [OF this] show ?thesis using assms(3) by (auto simp: out_update)
qed

text \<open>Between two candidates that both have a vote, the one with more votes wins; the second one wins a tie.\<close>

lemma runoff_two:
  assumes "runoff E 2 ballots 2 (replicate 2 False) vm = (e, vm')"
    "votes = count_votes 2 (replicate 2 False) ballots" "0 < votes ! 0" "0 < votes ! 1"
  shows "winner_of e = (if votes ! 1 < votes ! 0 then 0 else 1)"
proof -
  let ?e = "replicate 2 False"
  obtain m c where mc: "fewest_votes (length ballots) ?e votes = (m, c)" by fastforce
  have len: "length votes = 2" by (simp add: assms(2))
  have bound: "\<forall>i < length votes. votes ! i \<le> length ballots"
    using len by (simp add: assms(2) count_votes_bound)
  have c: "c = (if votes ! 1 < votes ! 0 then 1 else 0)"
  proof -
    obtain a b where ab: "votes = [a, b]"
      using len by (cases votes; cases "tl votes"; cases "tl (tl votes)") auto
    with mc assms(3,4) bound show ?thesis
      by (auto simp: fewest_votes_def numeral_2_eq_2 less_Suc_eq split: if_splits)
  qed
  have "runoff E 2 ballots (2 - 1) (?e[c := True])
      (vm_emit_event E ''governance''
        (''Eliminated candidate '' @ show_nat c @ '' with '' @ show_nat m @ '' votes'') vm) = (e, vm')"
    using assms(1) mc unfolding assms(2) by (subst (asm) runoff.simps) simp
  then have "e = ?e[c := True]" by (subst (asm) runoff.simps) simp
  then show ?thesis using c by (auto simp: winner_of_def numeral_2_eq_2)
qed

section \<open>Delegations stay acyclic\<close>

definition delegation_graph :: "(string, string) fmap \<Rightarrow> (string \<times> string) set" where
  "delegation_graph d = {(a, b). fmlookup d a = Some b}"

definition delegations_ok :: "(string, string) fmap \<Rightarrow> bool" where
  "delegations_ok d \<longleftrightarrow> acyclic (delegation_graph d) \<and> fmlookup d '''' = None \<and>
     (\<forall>a b. fmlookup d a = Some b \<longrightarrow> b \<noteq> '''')"

lemma delegations_ok_empty [simp]: "delegations_ok fmempty"
  by (simp add: delegations_ok_def delegation_graph_def acyclic_def)

lemma delegations_ok_drop: "delegations_ok d \<Longrightarrow> delegations_ok (fmdrop a d)"
proof -
  assume d: "delegations_ok d"
  have "delegation_graph (fmdrop a d) \<subseteq> delegation_graph d"
    by (auto simp: delegation_graph_def split: if_splits)
  with d show ?thesis by (auto simp: delegations_ok_def intro: acyclic_subset split: if_splits)
qed

text \<open>
  A walk from \<open>current\<close> reports a cycle if it meets a visited node, and if all visited nodes other
  than \<open>from_id\<close> lie before \<open>current\<close> on the chain, that node is \<open>from_id\<close>.
\<close>

lemma follow_chain_complete:
  assumes "(current, x) \<in> (delegation_graph d)\<^sup>*" "x |\<in>| visited" "x \<noteq> ''''" "fmlookup d '''' = None"
  shows "follow_chain d visited current"
  using assms
proof (induction d visited current rule: follow_chain.induct)
  case (1 d visited current)
  show ?case
  proof (cases "current |\<in>| visited \<or> current = ''''")
    case True
    moreover have "current \<noteq> ''''"
    proof
      assume "current = ''''"
      with "1.prems"(1,4) have "x = ''''"
        by (auto simp: delegation_graph_def elim: converse_rtranclE)
      with "1.prems"(3) show False by simp
    qed
    ultimately show ?thesis by (subst follow_chain.simps) simp
  next
    case False
    with "1.prems" obtain b where b: "fmlookup d current = Some b" "(b, x) \<in> (delegation_graph d)\<^sup>*"
      by (auto simp: delegation_graph_def elim: converse_rtranclE)
    have "follow_chain d (finsert current visited) b"
      using "1.IH" False b "1.prems" by simp
    then show ?thesis using False b by (subst follow_chain.simps) simp
  qed
qed

lemma follow_chain_sound:
  assumes "follow_chain d visited current" "acyclic (delegation_graph d)"
    "\<forall>v. v |\<in>| visited \<longrightarrow> v \<noteq> from_id \<longrightarrow> (v, current) \<in> (delegation_graph d)\<^sup>+ \<or> current = ''''"
  shows "(current, from_id) \<in> (delegation_graph d)\<^sup>*"
  using assms
proof (induction d visited current rule: follow_chain.induct)
  case (1 d visited current)
  have ne: "current \<noteq> ''''" using "1.prems"(1) by (subst (asm) follow_chain.simps) (auto split: if_splits)
  show ?case
  proof (cases "current |\<in>| visited")
    case True
    with "1.prems"(2,3) ne have "current = from_id" by (auto simp: acyclic_def)
    then show ?thesis by simp
  next
    case False
    define nx where "nx = (case fmlookup d current of Some b \<Rightarrow> b | None \<Rightarrow> '''')"
    have fc: "follow_chain d (finsert current visited) nx"
      using "1.prems"(1) ne False by (subst (asm) follow_chain.simps) (simp add: nx_def)
    show ?thesis
    proof (cases "fmlookup d current")
      case None
      with fc show ?thesis by (subst (asm) follow_chain.simps) (simp add: nx_def)
    next
      case (Some b)
      then have e: "(current, b) \<in> delegation_graph d" by (simp add: delegation_graph_def)
      have "(b, from_id) \<in> (delegation_graph d)\<^sup>*"
      proof (rule "1.IH" [OF ne False, unfolded Some option.case])
        show "follow_chain d (finsert current visited) b" using fc Some by (simp add: nx_def)
        show "\<forall>v. v |\<in>| finsert current visited \<longrightarrow> v \<noteq> from_id \<longrightarrow>
            (v, b) \<in> (delegation_graph d)\<^sup>+ \<or> b = ''''"
          using "1.prems"(3) e ne by (auto intro: trancl_into_trancl)
      qed (fact "1.prems"(2))
      with e show ?thesis by (rule converse_rtrancl_into_rtrancl)
    qed
  qed
qed

lemma follow_chain_iff:
  assumes "delegations_ok d" "from_id \<noteq> ''''"
  shows "follow_chain d {|from_id|} to_id \<longleftrightarrow> (to_id, from_id) \<in> (delegation_graph d)\<^sup>*"
  using assms follow_chain_sound [of d "{|from_id|}" to_id from_id]
    follow_chain_complete [of to_id from_id d "{|from_id|}"]
  by (auto simp: delegations_ok_def)

lemma delegations_ok_add:
  assumes "delegations_ok d" "from_id \<noteq> ''''" "to_id \<noteq> ''''" "\<not> follow_chain d {|from_id|} to_id"
  shows "delegations_ok (fmupd from_id to_id d)"
proof -
  let ?g = "delegation_graph d"
  have "delegation_graph (fmupd from_id to_id d) \<subseteq> insert (from_id, to_id) ?g"
    by (auto simp: delegation_graph_def split: if_splits)
  moreover have "acyclic (insert (from_id, to_id) ?g)"
    using assms by (simp add: follow_chain_iff) (simp add: delegations_ok_def)
  ultimately have "acyclic (delegation_graph (fmupd from_id to_id d))" by (rule acyclic_subset [rotated])
  with assms show ?thesis by (auto simp: delegations_ok_def)
qed


lemma delegate_ok:
  assumes "current_delegations E (vm_memory vm) = Inr d"
    "handle_liquid_delegate E from_id to_id vm = (Inr u, vm')"
    "d' = (if to_id = '''' then fmdrop from_id d else fmupd from_id to_id d)"
  shows "from_id \<noteq> ''''" and "to_id \<noteq> '''' \<Longrightarrow> \<not> follow_chain d {|from_id|} to_id"
    and "\<exists>t. on_memory (mem_store delegations_key (Number (f64_of_nat (fcard (fmdom d')))))
      ((vm_emit_event E ''governance'' t vm)\<lparr>vm_memory := set_string_metadata delegations_key (json_enc E d') (vm_memory vm)\<rparr>)
        = (Inr u, vm')"
proof -
  have m: "vm_memory (vm_emit_event E c t vm) = vm_memory vm" for c t by (simp add: vm_emit_event_def)
  show "from_id \<noteq> ''''" using assms(2) by (auto simp: handle_liquid_delegate_def)
  show "\<not> follow_chain d {|from_id|} to_id" if "to_id \<noteq> ''''"
    using assms(1,2) that by (auto simp: handle_liquid_delegate_def bindE_def split: if_splits)
  show "\<exists>t. on_memory (mem_store delegations_key (Number (f64_of_nat (fcard (fmdom d')))))
      ((vm_emit_event E ''governance'' t vm)\<lparr>vm_memory := set_string_metadata delegations_key (json_enc E d') (vm_memory vm)\<rparr>)
        = (Inr u, vm')"
    using assms(1,2) unfolding assms(3)
    by (cases "to_id = ''''"; cases "fmlookup d from_id")
      (auto simp: handle_liquid_delegate_def bindE_def m split: if_splits)
qed

section \<open>Properties\<close>


text \<open>
  each round of the ranked vote. The candidate the count selects has, among the candidates still running
  with at least one first choice, the fewest ballots whose first remaining choice it is; candidates nobody
  ranks first are never selected while another has a vote.
\<close>

theorem round_eliminates_fewest:
  assumes "fewest_votes (length ballots) e (count_votes n e ballots) = (m, c)"
    "\<exists>i < n. \<not> e ! i \<and> (\<exists>b \<in> set ballots. first_choice n e b = Some i)"
  shows "c < n \<and> \<not> e ! c \<and> m = length (filter (\<lambda>b. first_choice n e b = Some c) ballots) \<and> 0 < m \<and>
    (\<forall>i < n. \<not> e ! i \<longrightarrow> (\<exists>b \<in> set ballots. first_choice n e b = Some i) \<longrightarrow>
       m \<le> length (filter (\<lambda>b. first_choice n e b = Some i) ballots))"
proof -
  have run: "i \<in> running e (count_votes n e ballots) \<longleftrightarrow> i < n \<and> \<not> e ! i \<and> (\<exists>b \<in> set ballots. first_choice n e b = Some i)" for i
    by (auto simp: running_def count_votes_spec filter_empty_conv)
  have "running e (count_votes n e ballots) \<noteq> {}" using assms(2) run by blast
  then have *: "c \<in> running e (count_votes n e ballots) \<and> m = count_votes n e ballots ! c \<and>
      (\<forall>i \<in> running e (count_votes n e ballots). m \<le> count_votes n e ballots ! i)"
    using fewest_votes_spec [OF assms(1)] by (metis count_votes_bound length_count_votes)
  then have c: "c < n" "\<not> e ! c" "\<exists>b \<in> set ballots. first_choice n e b = Some c" using run by blast+
  have m: "m = length (filter (\<lambda>b. first_choice n e b = Some c) ballots)" using * c by (simp add: count_votes_spec)
  have "0 < m" using c(3) by (auto simp: m filter_empty_conv)
  moreover have "m \<le> length (filter (\<lambda>b. first_choice n e b = Some i) ballots)"
    if "i < n" "\<not> e ! i" "\<exists>b \<in> set ballots. first_choice n e b = Some i" for i
    using * run that by (metis count_votes_spec)
  ultimately show ?thesis using c m by blast
qed

theorem round_eliminates_fewest_witness:
  "1 = length (filter (\<lambda>b. first_choice 3 [False, False, False] b = Some 1) [[0, 1], [0, 2], [1, 0 :: nat]])"
proof -
  have "fewest_votes (length [[0, 1], [0, 2], [1, 0 :: nat]]) [False, False, False]
      (count_votes 3 [False, False, False] [[0, 1], [0, 2], [1, 0]]) = (1, 1)" by code_simp
  moreover have "\<exists>i < 3. \<not> [False, False, False] ! i \<and>
      (\<exists>b \<in> set [[0, 1], [0, 2], [1, 0 :: nat]]. first_choice 3 [False, False, False] b = Some i)"
    by (rule exI [of _ 0]) (simp add: first_choice_def)
  ultimately show ?thesis using round_eliminates_fewest by blast
qed

text \<open>
  a unanimous favourite loses. When every ballot ranks the same candidate first, that candidate is the
  only one with votes, the first round eliminates it, and it is never the winner.
\<close>

theorem unanimous_favourite_loses:
  assumes "2 \<le> n" "ballots \<noteq> []" "c < n"
    "\<forall>b \<in> set ballots. first_choice n (replicate n False) b = Some c"
  shows "winner_of (fst (runoff E n ballots n (replicate n False) vm)) \<noteq> c"
proof -
  obtain e vm' where run: "runoff E n ballots n (replicate n False) vm = (e, vm')" by fastforce
  show ?thesis using runoff_first [OF assms run] runoff_winner [OF run] assms(1) run by auto
qed

theorem unanimous_favourite_loses_witness:
  "winner_of (fst (runoff demo_env 3 [[2, 0, 1], [2, 1, 0]] 3 (replicate 3 False) (vm_new :: unit VM))) \<noteq> 2"
  by (rule unanimous_favourite_loses) (simp_all add: first_choice_def numeral_3_eq_3 nth_Cons')

text \<open>
  two candidates. When both have first choices, the candidate with more of them wins, and the second one
  wins a tie.
\<close>

theorem two_candidate_majority:
  assumes "0 < count_votes 2 (replicate 2 False) ballots ! 0" "0 < count_votes 2 (replicate 2 False) ballots ! 1"
  shows "winner_of (fst (runoff E 2 ballots 2 (replicate 2 False) vm)) =
    (if count_votes 2 (replicate 2 False) ballots ! 1 < count_votes 2 (replicate 2 False) ballots ! 0 then 0 else 1)"
proof -
  obtain e vm' where run: "runoff E 2 ballots 2 (replicate 2 False) vm = (e, vm')" by fastforce
  show ?thesis using runoff_two [OF run refl assms] run by simp
qed

theorem two_candidate_majority_witness:
  "winner_of (fst (runoff demo_env 2 [[0, 1], [0, 1], [1, 0]] 2 (replicate 2 False) (vm_new :: unit VM))) = 0"
proof -
  have "count_votes 2 (replicate 2 False) [[0, 1], [0, 1], [1, 0]] = [2, 1]" by code_simp
  then show ?thesis using two_candidate_majority [of "[[0, 1], [0, 1], [1, 0]]"] by simp
qed


text \<open>
  the cycle check of a delegation is exact. On a delegation map without cycles, following the chain from
  the delegate meets the delegator just when the delegate already delegates to the delegator through some
  chain, so that the new delegation would close a cycle.
\<close>

theorem cycle_check_exact:
  assumes "delegations_ok d" "from_id \<noteq> ''''"
  shows "follow_chain d {|from_id|} to_id \<longleftrightarrow> (to_id, from_id) \<in> {(a, b). fmlookup d a = Some b}\<^sup>*"
  using follow_chain_iff [OF assms] by (simp add: delegation_graph_def)

theorem cycle_check_exact_witness:
  "follow_chain (fmupd ''ann'' ''bob'' fmempty) {|''bob''|} ''ann''"
proof -
  let ?d = "fmupd ''ann'' ''bob'' fmempty :: (string, string) fmap"
  have ok: "delegations_ok ?d"
    by (rule delegations_ok_add) (simp_all add: follow_chain.simps)
  have "(''ann'', ''bob'') \<in> {(a, b). fmlookup ?d a = Some b}\<^sup>*" by (rule r_into_rtrancl) simp
  then show ?thesis using cycle_check_exact [OF ok, of "''bob''" "''ann''"] by simp
qed

text \<open>
  C39: delegations stay acyclic. Where the stored map is free of cycles and \<^verbatim>\<open>serde_json\<close> reads back what it
  wrote for the new map, a successful delegation stores the map with the one entry added, or removed for an
  empty delegate, and that map is free of cycles again.
\<close>

theorem delegations_stay_acyclic:
  assumes "mem_inv (vm_memory vm)" "current_delegations E (vm_memory vm) = Inr d" "delegations_ok d"
    "handle_liquid_delegate E from_id to_id vm = (Inr u, vm')"
    "d' = (if to_id = '''' then fmdrop from_id d else fmupd from_id to_id d)" "json_dec E (json_enc E d') = Some d'"
  shows "current_delegations E (vm_memory vm') = Inr d' \<and> acyclic {(a, b). fmlookup d' a = Some b}"
proof -
  note ok = delegate_ok [OF assms(2,4,5)]
  have fr: "from_id \<noteq> ''''" and nc: "to_id \<noteq> '''' \<Longrightarrow> \<not> follow_chain d {|from_id|} to_id"
    using ok(1,2) by simp_all
  have "delegations_ok d'"
    using assms(3,5) fr nc by (auto intro: delegations_ok_drop delegations_ok_add)
  moreover have "current_delegations E (vm_memory vm') = Inr d'"
  proof -
    let ?m = "set_string_metadata delegations_key (json_enc E d') (vm_memory vm)"
    obtain t where st: "on_memory (mem_store delegations_key (Number (f64_of_nat (fcard (fmdom d')))))
         ((vm_emit_event E ''governance'' t vm)\<lparr>vm_memory := ?m\<rparr>) = (Inr u, vm')"
      using ok(3) by blast
    have inv: "mem_inv ?m" using assms(1) by (simp add: mem_metadata_inv)
    obtain q m' where ms: "mem_store delegations_key (Number (f64_of_nat (fcard (fmdom d')))) ?m = (q, m')" by fastforce
    then have m': "vm_memory vm' = m'" using st by (auto simp: on_memory_def)
    have "mem_load delegations_key m' = Inr (Number (f64_of_nat (fcard (fmdom d'))))"
      using mem_load_store [OF inv ms] by simp
    moreover have "get_string_metadata delegations_key m' = get_string_metadata delegations_key ?m"
      using ms by (auto simp: mem_store_def get_string_metadata_def Let_def split: list.splits if_splits)
    ultimately show ?thesis using assms(6)
      by (simp add: current_delegations_def m' get_string_metadata_def set_string_metadata_def)
  qed
  ultimately show ?thesis by (simp add: delegations_ok_def delegation_graph_def)
qed

theorem delegations_stay_acyclic_witness:
  "\<exists>vm'. handle_liquid_delegate demo_env ''ann'' ''bob'' (vm_new :: unit VM) = (Inr (), vm') \<and>
     current_delegations demo_env (vm_memory vm') = Inr (fmupd ''ann'' ''bob'' fmempty)"
proof -
  obtain r vm' where h: "handle_liquid_delegate demo_env ''ann'' ''bob'' (vm_new :: unit VM) = (r, vm')" by fastforce
  have "r = fst (handle_liquid_delegate demo_env ''ann'' ''bob'' (vm_new :: unit VM))" using h by simp
  also have "\<dots> = Inr ()"
    by (simp add: handle_liquid_delegate_def current_delegations_def vm_new_def mem_new_def mem_load_def load_global_def
        follow_chain.simps bindE_def on_memory_def mem_store_def set_string_metadata_def vm_emit_event_def)
  finally have r: "r = Inr ()" .
  have c: "current_delegations demo_env (vm_memory (vm_new :: unit VM)) = Inr fmempty" by code_simp
  have j: "json_dec demo_env (json_enc demo_env (fmupd ''ann'' ''bob'' fmempty)) = Some (fmupd ''ann'' ''bob'' fmempty)"
    by (simp add: demo_env_def hkeys_def sorted_list_of_fset.rep_eq)
  have "mem_inv (vm_memory (vm_new :: unit VM))" by (simp add: vm_new_def)
  from delegations_stay_acyclic [OF this c _ _ _ j, of "''ann''" "''bob''" "()" vm'] show ?thesis using h r by simp
qed

text \<open>
  what a threshold pushes. A met vote threshold pushes zero, which \<^verbatim>\<open>is_falsey\<close> counts as false, and a
  missed one pushes one: a conditional on the result takes its else branch exactly when the threshold is met.
\<close>

theorem met_threshold_is_falsey:
  assumes "\<not> f64_lt threshold f64_zero"
  shows "\<exists>w vm'. handle_vote_threshold E threshold (vm_push v vm) = (Inr (), vm') \<and>
    vm_stack vm' = stack_push w (vm_stack vm) \<and> (is_falsey w \<longleftrightarrow> f64_le threshold (num_of E v))"
  using assms
  by (auto simp: handle_vote_threshold_def bindE_def pop_one_def on_stack_def vm_push_def push_check_def
      vm_emit_event_def Let_def f64_one_def f64_zero_def)

theorem met_threshold_is_falsey_witness:
  "\<exists>w vm'. handle_vote_threshold demo_env (f64_of_int 3) (vm_push (Number (f64_of_int 5)) (vm_new :: unit VM)) = (Inr (), vm') \<and>
     vm_stack vm' = stack_push w (vm_stack (vm_new :: unit VM)) \<and> is_falsey w"
proof -
  have "\<not> f64_lt (f64_of_int 3) f64_zero" "f64_le (f64_of_int 3) (num_of demo_env (Number (f64_of_int 5)))"
    by (simp_all add: f64_of_int_small f64_zero_def f64_le_def demo_env_def)
  then show ?thesis
    using met_threshold_is_falsey [of "f64_of_int 3" demo_env "Number (f64_of_int 5)" "vm_new :: unit VM"] by blast
qed

end
