(* ===== verification/Machine.thy ===== *)
theory Machine
  imports Governance
begin

text \<open>
  The interpreter loop (\<^verbatim>\<open>src/crates/icn-covm/src/vm/vm.rs\<close>, \<^verbatim>\<open>execute\<close>, \<^verbatim>\<open>execute_inner\<close> and
  \<^verbatim>\<open>execute_call\<close>). A program may not end (\<^verbatim>\<open>While\<close>, recursive calls), so the interpreter takes fuel:
  \<open>None\<close> means the fuel ran out, and a result does not depend on the fuel once there is one. The
  local variable \<^verbatim>\<open>loop_control\<close> of \<^verbatim>\<open>execute_inner\<close> is passed along the operations of one call.
\<close>

section \<open>Operations without nested blocks\<close>

definition binary :: "string \<Rightarrow> (TypedValue \<Rightarrow> TypedValue \<Rightarrow> VMError + TypedValue) \<Rightarrow> 's VM \<Rightarrow> (unit, 's) vm_result" where
  "binary op_name f vm =
     bindE (pop_two op_name vm) (\<lambda>(a, b) vm1.
       case f a b of
         Inl e \<Rightarrow> (Inl (Err e), vm1)
       | Inr r \<Rightarrow> (Inr (), vm_push r vm1))"

text \<open>\<^verbatim>\<open>actual.equals(&expected).unwrap_or(Boolean(false)).as_boolean().unwrap_or(false)\<close>\<close>

definition equal_values :: "TypedValue \<Rightarrow> TypedValue \<Rightarrow> bool" where
  "equal_values a b =
     (case as_boolean (case tv_equals a b of Inr v \<Rightarrow> v | Inl _ \<Rightarrow> Boolean False) of
        Inr r \<Rightarrow> r | Inl _ \<Rightarrow> False)"

definition emit_display :: "VMError fault + string \<Rightarrow> 's VM \<Rightarrow> (unit, 's) vm_result" where
  "emit_display t vm = (case t of Inl e \<Rightarrow> (Inl e, vm) | Inr s \<Rightarrow> (Inr (), vm_emit s vm))"

definition exec_basic :: "venv \<Rightarrow> 's StorageBackend \<Rightarrow> Op \<Rightarrow> 's VM \<Rightarrow> (unit, 's) vm_result" where
  "exec_basic E B op vm = (case op of
     OpPush v \<Rightarrow> (Inr (), vm_push v vm)
   | OpAdd \<Rightarrow> binary ''Add'' (\<lambda>a b. execute_arithmetic a b ''add'') vm
   | OpSub \<Rightarrow> binary ''Sub'' (\<lambda>a b. execute_arithmetic a b ''sub'') vm
   | OpMul \<Rightarrow> binary ''Mul'' (\<lambda>a b. execute_arithmetic a b ''mul'') vm
   | OpDiv \<Rightarrow> binary ''Div'' (\<lambda>a b. execute_arithmetic a b ''div'') vm
   | OpMod \<Rightarrow> binary ''Mod'' (\<lambda>a b. execute_arithmetic a b ''mod'') vm
   | OpStore name \<Rightarrow>
       bindE (pop_one ''Store'' vm) (\<lambda>v. on_memory (mem_store name v))
   | OpLoad name \<Rightarrow>
       (case mem_load name (vm_memory vm) of
          Inl e \<Rightarrow> (Inl e, vm)
        | Inr v \<Rightarrow> (Inr (), vm_push v vm))
   | OpEmit msg \<Rightarrow> (Inr (), vm_emit msg vm)
   | OpNegate \<Rightarrow>
       bindE (pop_one ''Negate'' vm) (\<lambda>v vm1.
         case v of
           Number n \<Rightarrow> (Inr (), vm_push (Number (f64_neg n)) vm1)
         | _ \<Rightarrow> (Inl (Err (VE_TypeMismatch ''number'' (type_name v) ''negate'')), vm1))
   | OpAssertTop expected \<Rightarrow>
       bindE (pop_one ''AssertTop'' vm) (\<lambda>actual vm1.
         if \<not> equal_values actual expected
         then (Inl (Err (VE_AssertionFailed
                 (''Expected '' @ tv_display expected @ '', got '' @ tv_display actual))), vm1)
         else (Inr (), vm1))
   | OpDumpStack \<Rightarrow> (Inr (), vm_emit (format_stack (vm_stack vm)) vm)
   | OpDumpMemory \<Rightarrow> emit_display (mem_display (vm_memory vm)) vm
   | OpAssertMemory key expected \<Rightarrow>
       (case mem_load key (vm_memory vm) of
          Inl e \<Rightarrow> (Inl e, vm)
        | Inr actual \<Rightarrow>
            if \<not> equal_values actual expected
            then (Inl (Err (VE_AssertionFailed
                    (''Memory '' @ quoted key @ '': expected '' @ tv_display expected @ '', got '' @ tv_display actual))), vm)
            else (Inr (), vm))
   | OpPop \<Rightarrow> bindE (pop_one ''Pop'' vm) (\<lambda>_ vm1. (Inr (), vm1))
   | OpEq \<Rightarrow> binary ''Eq'' (\<lambda>a b. execute_comparison a b ''eq'') vm
   | OpGt \<Rightarrow> binary ''Gt'' (\<lambda>a b. execute_comparison a b ''gt'') vm
   | OpLt \<Rightarrow> binary ''Lt'' (\<lambda>a b. execute_comparison a b ''lt'') vm
   | OpNot \<Rightarrow>
       bindE (pop_one ''Not'' vm) (\<lambda>v vm1.
         case execute_logical v ''not'' of
           Inl e \<Rightarrow> (Inl (Err e), vm1)
         | Inr r \<Rightarrow> (Inr (), vm_push r vm1))
   | OpAnd \<Rightarrow> binary ''And'' (\<lambda>a b. execute_binary_logical a b ''and'') vm
   | OpOr \<Rightarrow> binary ''Or'' (\<lambda>a b. execute_binary_logical a b ''or'') vm
   | OpDup \<Rightarrow> on_stack (stack_dup ''Dup'') vm
   | OpSwap \<Rightarrow> on_stack (stack_swap ''Swap'') vm
   | OpOver \<Rightarrow> on_stack (stack_over ''Over'') vm
   | OpDef name params body \<Rightarrow> (Inr (), vm\<lparr>vm_memory := define_function name params body (vm_memory vm)\<rparr>)
   | OpNop \<Rightarrow> (Inr (), vm)
   | OpEmitEvent category message \<Rightarrow> (Inr (), vm_emit_event E category message vm)
   | OpAssertEqualStack depth \<Rightarrow>
       (case assert_equal_stack depth (vm_stack vm) of
          Inl e \<Rightarrow> (Inl e, vm)
        | Inr ok \<Rightarrow>
            if \<not> ok
            then (Inl (Err (VE_AssertionFailed (''Stack depth '' @ show_nat depth @ '' values are not equal''))), vm)
            else (Inr (), vm))
   | OpDumpState \<Rightarrow>
       emit_display (mem_display (vm_memory vm)) (vm_emit (format_stack (vm_stack vm)) vm)
   | OpCreateResource r \<Rightarrow> on_executor (execute_create_resource E B r) vm
   | OpMint r account amount reason \<Rightarrow> on_executor (execute_mint E B r account (Number amount) reason) vm
   | OpTransfer r from_acc to_acc amount reason \<Rightarrow>
       on_executor (execute_transfer E B r from_acc to_acc (Number amount) reason) vm
   | OpBurn r account amount reason \<Rightarrow> on_executor (execute_burn E B r account (Number amount) reason) vm
   | OpBalance r account \<Rightarrow>
       bindE (on_executor (execute_balance E B r account) vm) (\<lambda>v vm1. (Inr (), vm_push v vm1))
   | OpIncrementReputation i amount _ \<Rightarrow>
       on_executor (execute_increment_reputation E B i (map_option Number amount)) vm
   | OpStoreP key \<Rightarrow>
       bindE (pop_one ''StoreP'' vm) (\<lambda>v vm1.
         on_executor (execute_store_p E B key v) (log_storage_operation E ''StoreP'' key v vm1))
   | OpLoadP key \<Rightarrow>
       bindE (on_executor (execute_load_p E B key (vm_missing_key_behavior vm)) vm) (\<lambda>v vm1.
         (Inr (), vm_push v (log_storage_operation E ''LoadP'' key v vm1)))
   | _ \<Rightarrow> (Inr (), vm))"

section \<open>Simulation mode\<close>

definition simulated :: "Op \<Rightarrow> bool" where
  "simulated op = (case op of
     OpStoreP _ \<Rightarrow> True | OpLoadP _ \<Rightarrow> True | OpLoadVersionP _ _ \<Rightarrow> True | OpListVersionsP _ \<Rightarrow> True
   | OpDiffVersionsP _ _ _ \<Rightarrow> True | OpCreateResource _ \<Rightarrow> True | OpMint _ _ _ _ \<Rightarrow> True
   | OpTransfer _ _ _ _ _ \<Rightarrow> True | OpBurn _ _ _ _ \<Rightarrow> True | OpBalance _ _ \<Rightarrow> True
   | _ \<Rightarrow> False)"

definition simulate :: "venv \<Rightarrow> Op \<Rightarrow> 's VM \<Rightarrow> 's VM" where
  "simulate E op vm =
     (let vm1 = vm_emit (''[SIMULATION] Would execute: '' @ op_display E op) vm in
      case op of
        OpLoadP _ \<Rightarrow> vm_push (Number f64_zero) vm1
      | OpLoadVersionP _ _ \<Rightarrow> vm_push (Number f64_zero) vm1
      | OpBalance _ _ \<Rightarrow> vm_push (Number f64_zero) vm1
      | _ \<Rightarrow> vm1)"

section \<open>Control\<close>

text \<open>
  What the dispatcher of \<^verbatim>\<open>execute_inner\<close> does with an operation: run it in place, run nested blocks,
  end the sequence, or hand it to the governance module.
\<close>

datatype (plugins only: code) dispatch =
    D_Basic
  | D_If "Op list" "Op list" "Op list option"
  | D_Loop nat "Op list"
  | D_While "Op list" "Op list"
  | D_Call string
  | D_Return
  | D_Match "Op list" "(TypedValue \<times> Op list) list" "Op list option"
  | D_Break
  | D_Continue
  | D_Other

definition dispatch :: "Op \<Rightarrow> dispatch" where
  "dispatch op = (case op of
     OpIf c t e \<Rightarrow> D_If c t e
   | OpLoop n b \<Rightarrow> D_Loop n b
   | OpWhile c b \<Rightarrow> D_While c b
   | OpCall f \<Rightarrow> D_Call f
   | OpReturn \<Rightarrow> D_Return
   | OpMatch v cs d \<Rightarrow> D_Match v cs d
   | OpBreak \<Rightarrow> D_Break
   | OpContinue \<Rightarrow> D_Continue
   | OpRankedVote _ _ \<Rightarrow> D_Other | OpLiquidDelegate _ _ \<Rightarrow> D_Other
   | OpVoteThreshold _ \<Rightarrow> D_Other | OpQuorumThreshold _ \<Rightarrow> D_Other
   | OpMinDeliberation _ \<Rightarrow> D_Other | OpExpiresIn _ \<Rightarrow> D_Other | OpRequireRole _ \<Rightarrow> D_Other
   | OpLoadVersionP _ _ \<Rightarrow> D_Other | OpListVersionsP _ \<Rightarrow> D_Other | OpDiffVersionsP _ _ _ \<Rightarrow> D_Other
   | OpVerifyIdentity _ _ _ \<Rightarrow> D_Other | OpCheckMembership _ _ \<Rightarrow> D_Other
   | OpCheckDelegation _ _ \<Rightarrow> D_Other | OpVerifySignature \<Rightarrow> D_Other
   | OpGetIdentity _ \<Rightarrow> D_Other | OpRequireValidSignature _ _ _ \<Rightarrow> D_Other
   | OpIfPassed _ \<Rightarrow> D_Other | OpElse _ \<Rightarrow> D_Other | OpMacro _ \<Rightarrow> D_Other
   | _ \<Rightarrow> D_Basic)"

definition exec_return :: "'s VM \<Rightarrow> (unit, 's) vm_result" where
  "exec_return vm =
     (if in_function_call (vm_memory vm)
      then on_memory (set_return_value
             (case stack_top (vm_stack vm) of Some v \<Rightarrow> v | None \<Rightarrow> Null)) vm
      else (Inr (), vm))"

definition exec_other :: "venv \<Rightarrow> Op \<Rightarrow> 's VM \<Rightarrow> (unit, 's) vm_result" where
  "exec_other E op vm =
     bindE (try_handle_governance_op E op vm) (\<lambda>h vm1.
       case h of
         Some _ \<Rightarrow> (Inr (), vm1)
       | None \<Rightarrow> (Inl (Err (VE_NotImplemented (''Operation not implemented: '' @ dbg_op E op))), vm1))"

definition match_case :: "TypedValue \<Rightarrow> (TypedValue \<times> Op list) list \<Rightarrow> Op list option \<Rightarrow> Op list option" where
  "match_case v cs d =
     (case List.find (\<lambda>(c, _). tv_eq (case tv_equals v c of Inr r \<Rightarrow> r | Inl _ \<Rightarrow> Boolean False) (Boolean True)) cs of
        Some (_, body) \<Rightarrow> Some body
      | None \<Rightarrow> d)"

fun pop_params :: "string \<Rightarrow> string list \<Rightarrow> (string, TypedValue) fmap \<Rightarrow> 's VM \<Rightarrow>
    ((string, TypedValue) fmap, 's) vm_result" where
  "pop_params name [] ps vm = (Inr ps, vm)"
| "pop_params name (p # rest) ps vm =
     bindE (pop_one (''Call('' @ name @ '')'') vm) (\<lambda>v vm1. pop_params name rest (fmupd p v ps) vm1)"

text \<open>Before the body of a call: the function, its arguments from the stack, the new frame.\<close>

definition enter_call :: "string \<Rightarrow> 's VM \<Rightarrow> (Op list, 's) vm_result" where
  "enter_call name vm =
     (case get_function name (vm_memory vm) of
        Inl e \<Rightarrow> (Inl e, vm)
      | Inr (params, body) \<Rightarrow>
          bindE (pop_params name (rev params) fmempty vm) (\<lambda>ps vm1.
            (Inr body, vm1\<lparr>vm_memory := push_call_frame name ps (vm_memory vm1)\<rparr>)))"

definition leave_call :: "string \<Rightarrow> 's VM \<Rightarrow> (unit, 's) vm_result" where
  "leave_call name vm =
     (case pop_call_frame (vm_memory vm) of
        (None, m) \<Rightarrow>
          (Inl (Err (VE_ContextMismatch (''Expected call frame for function '' @ quoted name @ '' but none found''))),
           vm\<lparr>vm_memory := m\<rparr>)
      | (Some f, m) \<Rightarrow>
          (Inr (), case cf_return_value f of
                     Some v \<Rightarrow> vm_push v (vm\<lparr>vm_memory := m\<rparr>)
                   | None \<Rightarrow> vm\<lparr>vm_memory := m\<rparr>))"

text \<open>Sequencing of results that may be missing.\<close>

definition obind :: "('e, 'a, 's) outcome option \<Rightarrow> ('a \<Rightarrow> 's \<Rightarrow> ('e, 'b, 's) outcome option) \<Rightarrow>
    ('e, 'b, 's) outcome option" where
  "obind m f =
     (case m of
        None \<Rightarrow> None
      | Some (Inl e, s) \<Rightarrow> Some (Inl e, s)
      | Some (Inr a, s) \<Rightarrow> f a s)"

lemma obind_simps [simp]:
  "obind None f = None"
  "obind (Some (Inl e, s)) f = Some (Inl e, s)"
  "obind (Some (Inr a, s)) f = f a s"
  by (simp_all add: obind_def)


text \<open>
  The loops, given the function \<open>inner\<close> that runs a block: \<^verbatim>\<open>execute_inner\<close> with the fuel of the
  nested call. \<^verbatim>\<open>While\<close> has the number of its rounds bounded by fuel too.
\<close>

type_synonym 's block_runner = "Op list \<Rightarrow> 's VM \<Rightarrow> (unit, 's) vm_result option"

primrec exec_loop :: "'s block_runner \<Rightarrow> Op list \<Rightarrow> nat \<Rightarrow> LoopControl \<Rightarrow> 's VM \<Rightarrow> (LoopControl, 's) vm_result option" where
  "exec_loop inner body 0 lc vm = Some (Inr lc, vm)"
| "exec_loop inner body (Suc count) lc vm =
     obind (inner body vm) (\<lambda>_ vm1.
       case lc of
         LC_Break \<Rightarrow> Some (Inr LC_None, vm1)
       | LC_Continue \<Rightarrow> exec_loop inner body count LC_None vm1
       | LC_None \<Rightarrow> exec_loop inner body count lc vm1)"

primrec exec_while :: "'s block_runner \<Rightarrow> Op list \<Rightarrow> Op list \<Rightarrow> nat \<Rightarrow> LoopControl \<Rightarrow> 's VM \<Rightarrow> (LoopControl, 's) vm_result option" where
  "exec_while inner c body 0 lc vm = None"
| "exec_while inner c body (Suc n) lc vm =
     obind (inner c vm) (\<lambda>_ vm1.
     obind (Some (pop_one ''While'' vm1)) (\<lambda>v vm2.
       if is_falsey v then Some (Inr lc, vm2)
       else
         obind (inner body vm2) (\<lambda>_ vm3.
           case lc of
             LC_Break \<Rightarrow> Some (Inr LC_None, vm3)
           | LC_Continue \<Rightarrow> exec_while inner c body n LC_None vm3
           | LC_None \<Rightarrow> exec_while inner c body n lc vm3)))"

definition exec_call :: "'s block_runner \<Rightarrow> string \<Rightarrow> 's VM \<Rightarrow> (unit, 's) vm_result option" where
  "exec_call inner name vm =
     obind (Some (enter_call name vm)) (\<lambda>body vm1.
     obind (inner body vm1) (\<lambda>_ vm2. Some (leave_call name vm2)))"

definition exec_if :: "'s block_runner \<Rightarrow> Op list \<Rightarrow> Op list \<Rightarrow> Op list option \<Rightarrow> 's VM \<Rightarrow> (unit, 's) vm_result option" where
  "exec_if inner c t e vm =
     obind (inner c vm) (\<lambda>_ vm1.
     obind (Some (pop_one ''If'' vm1)) (\<lambda>v vm2.
       if is_falsey v
       then (case e of Some b \<Rightarrow> inner b vm2 | None \<Rightarrow> Some (Inr (), vm2))
       else inner t vm2))"

definition exec_match :: "'s block_runner \<Rightarrow> Op list \<Rightarrow> (TypedValue \<times> Op list) list \<Rightarrow> Op list option \<Rightarrow> 's VM \<Rightarrow>
    (unit, 's) vm_result option" where
  "exec_match inner v cs d vm =
     obind (inner v vm) (\<lambda>_ vm1.
     obind (Some (pop_one ''Match'' vm1)) (\<lambda>x vm2.
       case match_case x cs d of
         Some b \<Rightarrow> inner b vm2
       | None \<Rightarrow> Some (Inr (), vm2)))"

text \<open>
  One operation of a sequence: the sequence goes on with a value of \<^verbatim>\<open>loop_control\<close>, or \<^verbatim>\<open>break\<close> or
  \<^verbatim>\<open>return\<close> leaves the function.
\<close>

datatype flow = Go LoopControl | Stop

definition going :: "LoopControl \<Rightarrow> (unit, 's) vm_result option \<Rightarrow> (flow, 's) vm_result option" where
  "going lc r = obind r (\<lambda>_ vm. Some (Inr (Go lc), vm))"

definition stopping :: "(unit, 's) vm_result \<Rightarrow> (flow, 's) vm_result option" where
  "stopping r = obind (Some r) (\<lambda>_ vm. Some (Inr Stop, vm))"

definition exec_op :: "venv \<Rightarrow> 's StorageBackend \<Rightarrow> 's block_runner \<Rightarrow> nat \<Rightarrow> Op \<Rightarrow> LoopControl \<Rightarrow> 's VM \<Rightarrow>
    (flow, 's) vm_result option" where
  "exec_op E B inner n op lc vm0 =
     (let vm = log_explanation E op vm0 in
      if vm_simulation_mode vm \<and> simulated op then Some (Inr (Go lc), simulate E op vm)
      else
        (case dispatch op of
           D_Basic \<Rightarrow> going lc (Some (exec_basic E B op vm))
         | D_If c t e \<Rightarrow> going lc (exec_if inner c t e vm)
         | D_Loop count body \<Rightarrow> obind (exec_loop inner body count lc vm) (\<lambda>lc' vm'. Some (Inr (Go lc'), vm'))
         | D_While c body \<Rightarrow> obind (exec_while inner c body n lc vm) (\<lambda>lc' vm'. Some (Inr (Go lc'), vm'))
         | D_Call name \<Rightarrow> going lc (exec_call inner name vm)
         | D_Match v cs d \<Rightarrow> going lc (exec_match inner v cs d vm)
         | D_Return \<Rightarrow> stopping (exec_return vm)
         | D_Break \<Rightarrow> stopping (Inr (), vm)
         | D_Continue \<Rightarrow> stopping (Inr (), vm)
         | D_Other \<Rightarrow> stopping (exec_other E op vm)))"

primrec exec_ops :: "venv \<Rightarrow> 's StorageBackend \<Rightarrow> 's block_runner \<Rightarrow> nat \<Rightarrow> Op list \<Rightarrow> LoopControl \<Rightarrow> 's VM \<Rightarrow>
    (unit, 's) vm_result option" where
  "exec_ops E B inner n [] lc vm = Some (Inr (), vm)"
| "exec_ops E B inner n (op # rest) lc vm =
     obind (exec_op E B inner n op lc vm) (\<lambda>fl vm1.
       case fl of
         Go lc' \<Rightarrow> exec_ops E B inner n rest lc' vm1
       | Stop \<Rightarrow> Some (Inr (), vm1))"

primrec execute_inner :: "venv \<Rightarrow> 's StorageBackend \<Rightarrow> nat \<Rightarrow> Op list \<Rightarrow> 's VM \<Rightarrow> (unit, 's) vm_result option" where
  "execute_inner E B 0 ops vm = None"
| "execute_inner E B (Suc n) ops vm = exec_ops E B (execute_inner E B n) n ops LC_None vm"

definition execute :: "venv \<Rightarrow> 's StorageBackend \<Rightarrow> nat \<Rightarrow> Op list \<Rightarrow> 's VM \<Rightarrow> (unit, 's) vm_result option" where
  "execute E B n ops vm = execute_inner E B n ops vm"

section \<open>Fuel\<close>

lemma obind_Some_iff:
  "obind m f = Some (r, t) \<longleftrightarrow>
     (\<exists>e. m = Some (Inl e, t) \<and> r = Inl e) \<or> (\<exists>a s. m = Some (Inr a, s) \<and> f a s = Some (r, t))"
  by (cases m; cases "fst (the m)") (auto simp: obind_def split: prod.splits sum.splits)

lemma obind_mono:
  assumes "obind m f = Some r" "\<And>x. m = Some x \<Longrightarrow> m' = Some x"
    "\<And>a s x. f a s = Some x \<Longrightarrow> g a s = Some x"
  shows "obind m' g = Some r"
  using assms by (cases r) (fastforce simp: obind_Some_iff)

definition extends :: "'s block_runner \<Rightarrow> 's block_runner \<Rightarrow> bool" where
  "extends f g = (\<forall>ops vm r. f ops vm = Some r \<longrightarrow> g ops vm = Some r)"

lemma extendsD: "extends f g \<Longrightarrow> f ops vm = Some r \<Longrightarrow> g ops vm = Some r"
  unfolding extends_def by blast

lemma exec_loop_mono:
  assumes "extends f g" "exec_loop f body count lc vm = Some r"
  shows "exec_loop g body count lc vm = Some r"
  using assms(2)
proof (induction count arbitrary: lc vm r)
  case (Suc count)
  show ?case
    using Suc.prems unfolding exec_loop.simps
    by (rule obind_mono) (auto split: LoopControl.splits intro: extendsD [OF assms(1)] Suc.IH)
qed simp

lemma exec_while_mono:
  assumes "extends f g" "n \<le> m" "exec_while f c body n lc vm = Some r"
  shows "exec_while g c body m lc vm = Some r"
  using assms(2,3)
proof (induction n arbitrary: m lc vm r)
  case (Suc n)
  obtain m' where m: "m = Suc m'" "n \<le> m'" using Suc.prems(1) by (cases m) auto
  have IH: "exec_while f c body n lc vm = Some r \<Longrightarrow> exec_while g c body m' lc vm = Some r" for lc vm r
    using Suc.IH m(2) by blast
  show ?case
    using Suc.prems(2) unfolding exec_while.simps m(1)
  proof (rule obind_mono, goal_cases)
    case (2 a s x)
    then show ?case
    proof (rule obind_mono, goal_cases)
      case (2 v s' y)
      show ?case
      proof (cases "is_falsey v")
        case False
        with 2 show ?thesis
          by simp (erule obind_mono, auto split: LoopControl.splits intro: extendsD [OF assms(1)] IH)
      qed (use 2 in simp)
    qed
  qed (use extendsD [OF assms(1)] in blast)
qed simp

lemma exec_if_mono:
  assumes "extends f g" "exec_if f c t e vm = Some r"
  shows "exec_if g c t e vm = Some r"
  using assms(2) unfolding exec_if_def
proof (rule obind_mono, goal_cases)
  case (2 a s x)
  then show ?case
    by (rule obind_mono) (auto split: option.splits if_splits intro: extendsD [OF assms(1)])
qed (use extendsD [OF assms(1)] in blast)

lemma exec_match_mono:
  assumes "extends f g" "exec_match f v cs d vm = Some r"
  shows "exec_match g v cs d vm = Some r"
  using assms(2) unfolding exec_match_def
proof (rule obind_mono, goal_cases)
  case (2 a s x)
  then show ?case
    by (rule obind_mono) (auto split: option.splits intro: extendsD [OF assms(1)])
qed (use extendsD [OF assms(1)] in blast)

lemma exec_call_mono:
  assumes "extends f g" "exec_call f name vm = Some r"
  shows "exec_call g name vm = Some r"
  using assms(2) unfolding exec_call_def
proof (rule obind_mono, goal_cases)
  case (2 a s x)
  then show ?case by (rule obind_mono) (auto intro: extendsD [OF assms(1)])
qed

lemma going_mono:
  assumes "going lc m = Some r" "\<And>x. m = Some x \<Longrightarrow> m' = Some x"
  shows "going lc m' = Some r"
  using assms unfolding going_def by (rule obind_mono)

lemma exec_op_mono:
  assumes "extends f g" "n \<le> m" "exec_op E B f n op lc vm = Some r"
  shows "exec_op E B g m op lc vm = Some r"
proof (cases "vm_simulation_mode (log_explanation E op vm) \<and> simulated op")
  case True
  with assms(3) show ?thesis by (simp add: exec_op_def)
next
  case False
  let ?vm = "log_explanation E op vm"
  have eq: "exec_op E B h k op lc vm = (case dispatch op of
           D_Basic \<Rightarrow> going lc (Some (exec_basic E B op ?vm))
         | D_If c t e \<Rightarrow> going lc (exec_if h c t e ?vm)
         | D_Loop count body \<Rightarrow> obind (exec_loop h body count lc ?vm) (\<lambda>lc' vm'. Some (Inr (Go lc'), vm'))
         | D_While c body \<Rightarrow> obind (exec_while h c body k lc ?vm) (\<lambda>lc' vm'. Some (Inr (Go lc'), vm'))
         | D_Call name \<Rightarrow> going lc (exec_call h name ?vm)
         | D_Match v cs d \<Rightarrow> going lc (exec_match h v cs d ?vm)
         | D_Return \<Rightarrow> stopping (exec_return ?vm)
         | D_Break \<Rightarrow> stopping (Inr (), ?vm)
         | D_Continue \<Rightarrow> stopping (Inr (), ?vm)
         | D_Other \<Rightarrow> stopping (exec_other E op ?vm))" for h k
    using False by (auto simp: exec_op_def Let_def)
  show ?thesis
  proof (cases "dispatch op")
    case (D_If c t e)
    with assms(3) show ?thesis unfolding eq
      by simp (erule going_mono, rule exec_if_mono [OF assms(1)])
  next
    case (D_Loop count body)
    with assms(3) show ?thesis unfolding eq
      by simp (erule obind_mono, rule exec_loop_mono [OF assms(1)])
  next
    case (D_While c body)
    with assms(3) show ?thesis unfolding eq
      by simp (erule obind_mono, rule exec_while_mono [OF assms(1,2)])
  next
    case (D_Call name)
    with assms(3) show ?thesis unfolding eq
      by simp (erule going_mono, rule exec_call_mono [OF assms(1)])
  next
    case (D_Match v cs d)
    with assms(3) show ?thesis unfolding eq
      by simp (erule going_mono, rule exec_match_mono [OF assms(1)])
  qed (use assms(3) in \<open>simp_all add: eq\<close>)
qed

lemma exec_ops_mono:
  assumes "extends f g" "n \<le> m" "exec_ops E B f n ops lc vm = Some r"
  shows "exec_ops E B g m ops lc vm = Some r"
  using assms(3)
proof (induction ops arbitrary: lc vm r)
  case (Cons op ops)
  show ?case
    using Cons.prems unfolding exec_ops.simps
    by (rule obind_mono)
      (auto split: flow.splits intro: exec_op_mono [OF assms(1,2)] Cons.IH)
qed simp

lemma execute_inner_extends: "extends (execute_inner E B n) (execute_inner E B (Suc n))"
proof (induction n)
  case (Suc n)
  show ?case unfolding extends_def
  proof (intro allI impI)
    fix ops vm r
    assume "execute_inner E B (Suc n) ops vm = Some r"
    then have "exec_ops E B (execute_inner E B n) n ops LC_None vm = Some r" by simp
    from exec_ops_mono [OF Suc.IH le_SucI [OF order_refl] this]
    show "execute_inner E B (Suc (Suc n)) ops vm = Some r" by (subst execute_inner.simps(2))
  qed
qed (simp add: extends_def)

lemma execute_inner_mono:
  assumes "n \<le> m" "execute_inner E B n ops vm = Some r"
  shows "execute_inner E B m ops vm = Some r"
  using assms
proof (induction m rule: dec_induct)
  case (step m)
  then show ?case using extendsD [OF execute_inner_extends] by blast
qed simp

section \<open>Variables and frames\<close>

text \<open>
  What a run may change of the variables: inside a call, only the top frame; at top level, only the
  global variables. The number of frames is the same after a run that succeeds.
\<close>

definition local_change :: "VMMemory \<Rightarrow> VMMemory \<Rightarrow> bool" where
  "local_change m m' \<longleftrightarrow>
     mem_inv m' \<and> length (m_call_frames m') = length (m_call_frames m) \<and>
     butlast (m_call_frames m') = butlast (m_call_frames m) \<and>
     (m_call_frames m \<noteq> [] \<longrightarrow> m_memory m' = m_memory m)"

text \<open>A failing run may leave frames of calls it was in.\<close>

definition unwound :: "VMMemory \<Rightarrow> VMMemory \<Rightarrow> bool" where
  "unwound m m' \<longleftrightarrow> mem_inv m' \<and> length (m_call_frames m) \<le> length (m_call_frames m')"

definition result_ok :: "VMMemory \<Rightarrow> ('a, 's) vm_result \<Rightarrow> bool" where
  "result_ok m r \<longleftrightarrow>
     (if is_ok (fst r) then local_change m (vm_memory (snd r)) else unwound m (vm_memory (snd r)))"

lemma local_change_refl: "mem_inv m \<Longrightarrow> local_change m m"
  by (simp add: local_change_def)

lemma local_change_trans: "local_change m1 m2 \<Longrightarrow> local_change m2 m3 \<Longrightarrow> local_change m1 m3"
  by (auto simp: local_change_def)

lemma local_change_unwound: "local_change m m' \<Longrightarrow> unwound m m'"
  by (simp add: local_change_def unwound_def)

lemma local_change_unwound_trans: "local_change m1 m2 \<Longrightarrow> unwound m2 m3 \<Longrightarrow> unwound m1 m3"
  by (simp add: local_change_def unwound_def)

lemma local_change_inv: "local_change m m' \<Longrightarrow> mem_inv m'"
  by (simp add: local_change_def)

lemma result_ok_simps [simp]:
  "result_ok m (Inr a, vm) \<longleftrightarrow> local_change m (vm_memory vm)"
  "result_ok m (Inl e, vm) \<longleftrightarrow> unwound m (vm_memory vm)"
  by (simp_all add: result_ok_def)

lemma result_ok_same: "mem_inv m \<Longrightarrow> vm_memory (snd r) = m \<Longrightarrow> result_ok m r"
  by (simp add: result_ok_def local_change_refl local_change_unwound)

lemma result_ok_bindE:
  assumes "result_ok m r" "\<And>a vm. r = (Inr a, vm) \<Longrightarrow> local_change m (vm_memory vm) \<Longrightarrow> result_ok (vm_memory vm) (f a vm)"
  shows "result_ok m (bindE r f)"
proof -
  obtain x vm where r: "r = (x, vm)" by fastforce
  show ?thesis
  proof (cases x)
    case (Inr a)
    with assms r have lc: "local_change m (vm_memory vm)" "result_ok (vm_memory vm) (f a vm)" by auto
    then show ?thesis using Inr r
      by (auto simp: result_ok_def intro: local_change_trans local_change_unwound_trans split: if_splits)
  qed (use assms r in simp)
qed

lemma result_ok_obind:
  assumes "obind m f = Some q" "\<And>x. m = Some x \<Longrightarrow> result_ok v x"
    "\<And>a vm y. m = Some (Inr a, vm) \<Longrightarrow> local_change v (vm_memory vm) \<Longrightarrow> f a vm = Some y \<Longrightarrow>
       result_ok (vm_memory vm) y"
  shows "result_ok v q"
proof (cases m)
  case (Some r)
  obtain x vm where r: "r = (x, vm)" by fastforce
  have ok: "result_ok v (x, vm)" using assms(2) Some r by simp
  show ?thesis
  proof (cases x)
    case (Inr a)
    then have lc: "local_change v (vm_memory vm)" using ok by simp
    have "result_ok (vm_memory vm) q" using assms(1,3) Some r Inr lc by simp
    then show ?thesis using lc
      by (auto simp: result_ok_def intro: local_change_trans local_change_unwound_trans split: if_splits)
  qed (use assms(1) Some r ok in auto)
qed (use assms(1) in simp)

lemma vm_memory_simps [simp]:
  "vm_memory (vm_push v vm) = vm_memory vm"
  "vm_memory (vm_emit t vm) = vm_memory vm"
  "vm_memory (vm_emit_event E c t vm) = vm_memory vm"
  "vm_memory (log_explanation E op vm) = vm_memory vm"
  "vm_memory (log_storage_operation E o' k v vm) = vm_memory vm"
  by (simp_all add: vm_push_def vm_emit_def vm_emit_event_def log_explanation_def log_storage_operation_def)

lemma on_stack_memory [simp]: "vm_memory (snd (on_stack f vm)) = vm_memory vm"
  by (simp add: on_stack_def split: prod.splits)

lemma on_executor_memory [simp]: "vm_memory (snd (on_executor f vm)) = vm_memory vm"
  by (simp add: on_executor_def split: prod.splits)

lemma pop_memory [simp]:
  "vm_memory (snd (pop_one n vm)) = vm_memory vm" "vm_memory (snd (pop_two n vm)) = vm_memory vm"
  by (simp_all add: pop_one_def pop_two_def)

lemma pop_one_memory: "pop_one n vm = (r, vm') \<Longrightarrow> vm_memory vm' = vm_memory vm"
  using pop_memory(1) [of n vm] by simp

lemma mem_store_local:
  assumes "mem_inv m" "mem_store x v m = (r, m')"
  shows "local_change m m'"
proof -
  have "mem_inv m'" using assms by (rule mem_store_inv)
  then show ?thesis using assms
    by (auto simp: mem_store_scope local_change_def mem_scope_def current_call_frame_def
        split: option.splits if_splits)
qed

lemma set_return_value_local:
  assumes "mem_inv m" "set_return_value v m = (r, m')"
  shows "local_change m m'"
  using assms set_return_value_inv [OF assms]
  by (auto simp: local_change_def set_return_value_def split: if_splits)

lemma metadata_local: "mem_inv m \<Longrightarrow> local_change m (set_string_metadata k v m)"
  by (simp add: local_change_def mem_metadata_inv) (simp add: set_string_metadata_def)

lemma define_local: "mem_inv m \<Longrightarrow> local_change m (define_function f ps b m)"
  by (simp add: local_change_def mem_define_inv) (simp add: define_function_def)

lemma on_memory_ok:
  assumes "mem_inv (vm_memory vm)" "\<And>r m'. f (vm_memory vm) = (r, m') \<Longrightarrow> local_change (vm_memory vm) m'"
  shows "result_ok (vm_memory vm) (on_memory f vm)"
  using assms(2) by (auto simp: on_memory_def result_ok_def intro: local_change_unwound split: prod.splits)

lemma binary_ok: "mem_inv (vm_memory vm) \<Longrightarrow> result_ok (vm_memory vm) (binary n f vm)"
  unfolding binary_def
  by (rule result_ok_bindE, rule result_ok_same)
    (auto simp: local_change_inv split: sum.splits intro!: local_change_refl local_change_unwound)

lemma emit_display_ok: "mem_inv (vm_memory vm) \<Longrightarrow> result_ok (vm_memory vm) (emit_display t vm)"
  by (auto simp: emit_display_def split: sum.splits intro!: local_change_refl local_change_unwound)

lemma exec_basic_ok:
  fixes vm :: "'s VM"
  assumes inv: "mem_inv (vm_memory vm)"
  shows "result_ok (vm_memory vm) (exec_basic E B op vm)"
proof -
  note same = result_ok_same [OF inv]
  have pop: "result_ok (vm_memory vm) (bindE (pop_one n vm) f)"
    if "\<And>v vm1. vm_memory vm1 = vm_memory vm \<Longrightarrow> result_ok (vm_memory vm) (f v vm1)" for n and f :: "_ \<Rightarrow> 's VM \<Rightarrow> (unit, 's) vm_result"
    by (rule result_ok_bindE, rule same) (use that pop_one_memory in fastforce)+
  have exc: "result_ok (vm_memory vm) (bindE (on_executor g vm) f)"
    if "\<And>v vm1. vm_memory vm1 = vm_memory vm \<Longrightarrow> result_ok (vm_memory vm) (f v vm1)" for g and f :: "TypedValue \<Rightarrow> 's VM \<Rightarrow> (unit, 's) vm_result"
    by (rule result_ok_bindE, rule same)
      (use that in \<open>fastforce simp: on_executor_def split: prod.splits\<close>)+
  have store: "result_ok (vm_memory vm) (on_memory (mem_store name v) vm1)" if "vm_memory vm1 = vm_memory vm" for name v vm1
    using on_memory_ok [of vm1 "mem_store name v"] mem_store_local inv that by metis
  have part: "result_ok (vm_memory vm) (on_stack g vm1)" "result_ok (vm_memory vm) (on_executor h vm1)"
    if "vm_memory vm1 = vm_memory vm" for g vm1 and h :: "'s VMExecution \<Rightarrow> (unit, 's) exec_result"
    using that by (auto intro!: same)
  have disp: "result_ok (vm_memory vm) (emit_display t vm1)" if "vm_memory vm1 = vm_memory vm" for t vm1
    using emit_display_ok [of vm1 t] inv that by simp
  have refl: "local_change (vm_memory vm) (vm_memory vm)" "unwound (vm_memory vm) (vm_memory vm)"
    using inv by (simp_all add: local_change_refl local_change_unwound)
  show ?thesis
    by (cases op)
      (auto simp: exec_basic_def inv define_local store binary_ok part disp refl
        intro!: pop exc split: sum.splits TypedValue.splits)
qed

lemma exec_return_ok: "mem_inv (vm_memory vm) \<Longrightarrow> result_ok (vm_memory vm) (exec_return vm)"
  by (auto simp: exec_return_def intro!: on_memory_ok set_return_value_local local_change_refl)

lemma pop_ballot_memory: "pop_ballot E n vm = (r, vm') \<Longrightarrow> vm_memory vm' = vm_memory vm"
  by (induction n arbitrary: vm r vm') (auto simp: bindE_def dest!: pop_one_memory split: prod.splits sum.splits)

lemma pop_ballots_memory: "pop_ballots E c n vm = (r, vm') \<Longrightarrow> vm_memory vm' = vm_memory vm"
  by (induction n arbitrary: vm r vm') (auto simp: bindE_def dest!: pop_ballot_memory split: prod.splits sum.splits)

lemma runoff_memory: "runoff E n bs k e vm = (e', vm') \<Longrightarrow> vm_memory vm' = vm_memory vm"
proof (induction E n bs k e vm arbitrary: e' vm' rule: runoff.induct)
  case (1 E n bs k e vm)
  show ?case
  proof (cases "k > 1")
    case True
    obtain m c where mc: "fewest_votes (length bs) e (count_votes n e bs) = (m, c)" by fastforce
    let ?vm = "vm_emit_event E ''governance''
       (''Eliminated candidate '' @ show_nat c @ '' with '' @ show_nat m @ '' votes'') vm"
    have "runoff E n bs (k - 1) (e[c := True]) ?vm = (e', vm')"
      using "1.prems" True mc by (subst (asm) runoff.simps) simp
    from "1.IH" [OF True refl mc [symmetric] refl this] show ?thesis by simp
  next
    case False
    with "1.prems" show ?thesis by (subst (asm) runoff.simps) simp
  qed
qed

lemma handlers_memory:
  "vm_memory (snd (handle_ranked_vote E c b vm)) = vm_memory vm"
  "vm_memory (snd (handle_vote_threshold E t vm)) = vm_memory vm"
  "vm_memory (snd (handle_quorum_threshold E t vm)) = vm_memory vm"
  by (auto simp: handle_ranked_vote_def handle_vote_threshold_def handle_quorum_threshold_def
      push_check_def bindE_def Let_def dest!: pop_ballots_memory pop_one_memory runoff_memory
      split: prod.splits sum.splits)

lemma handle_liquid_delegate_ok:
  assumes inv: "mem_inv (vm_memory vm)"
  shows "result_ok (vm_memory vm) (handle_liquid_delegate E a b vm)"
proof -
  have st: "result_ok (vm_memory vm) (on_memory (mem_store k v)
      (vm1\<lparr>vm_memory := set_string_metadata k' t (vm_memory vm)\<rparr>))" for k v k' t and vm1 :: "'a VM"
  proof -
    let ?vm = "vm1\<lparr>vm_memory := set_string_metadata k' t (vm_memory vm)\<rparr>"
    have lc: "local_change (vm_memory vm) (vm_memory ?vm)" using metadata_local inv by simp
    have "result_ok (vm_memory ?vm) (on_memory (mem_store k v) ?vm)"
      using local_change_inv [OF lc] by (intro on_memory_ok mem_store_local)
    then show ?thesis using lc
      by (auto simp: result_ok_def intro: local_change_trans local_change_unwound_trans split: if_splits)
  qed
  have refl: "unwound (vm_memory vm) (vm_memory vm)"
    using inv by (simp add: local_change_refl local_change_unwound)
  show ?thesis
    by (auto simp: handle_liquid_delegate_def refl intro!: st split: sum.splits)
qed

lemma exec_other_ok:
  assumes inv: "mem_inv (vm_memory vm)"
  shows "result_ok (vm_memory vm) (exec_other E op vm)"
proof -
  note same = result_ok_same [OF inv]
  have h: "result_ok (vm_memory vm) (bindE (bindE r (\<lambda>_ vm'. (Inr (Some ()), vm'))) (\<lambda>h vm1.
       case h of Some _ \<Rightarrow> (Inr (), vm1)
       | None \<Rightarrow> (Inl (Err (VE_NotImplemented t)), vm1)))"
    if "result_ok (vm_memory vm) r" for r :: "(unit, 'a) vm_result" and t
    using that by (cases r; cases "fst r") auto
  have refl: "unwound (vm_memory vm) (vm_memory vm)"
    using inv by (simp add: local_change_refl local_change_unwound)
  note hs = handlers_memory [THEN same]
  show ?thesis
    unfolding exec_other_def try_handle_governance_op_def
    by (cases op) (auto simp: refl Let_def intro!: h handle_liquid_delegate_ok inv hs)
qed

lemma pop_params_memory: "pop_params f ps m vm = (r, vm') \<Longrightarrow> vm_memory vm' = vm_memory vm"
  by (induction f ps m vm rule: pop_params.induct)
    (auto simp: bindE_def dest!: pop_one_memory split: prod.splits sum.splits)

text \<open>A call: the new frame is on top for the body, and leaving gives back the frames of the caller.\<close>

definition runner_ok :: "'s block_runner \<Rightarrow> bool" where
  "runner_ok inner \<longleftrightarrow> (\<forall>ops vm r. mem_inv (vm_memory vm) \<longrightarrow> inner ops vm = Some r \<longrightarrow>
     result_ok (vm_memory vm) r)"

lemma runner_okD: "runner_ok inner \<Longrightarrow> inner ops vm = Some r \<Longrightarrow> mem_inv (vm_memory vm) \<Longrightarrow> result_ok (vm_memory vm) r"
  unfolding runner_ok_def by blast

lemma enter_call_memory:
  assumes "enter_call name vm = (r, vm')"
  shows "(case r of Inl _ \<Rightarrow> vm_memory vm' = vm_memory vm
          | Inr _ \<Rightarrow> \<exists>ps. vm_memory vm' = push_call_frame name ps (vm_memory vm))"
  using assms
  by (auto simp: enter_call_def bindE_def dest!: pop_params_memory split: prod.splits sum.splits)

lemma exec_call_frames:
  assumes inv: "mem_inv (vm_memory vm)" and ok: "runner_ok inner"
    and run: "exec_call inner name vm = Some (r, vm')"
  shows "mem_inv (vm_memory vm')" "length (m_call_frames (vm_memory vm)) \<le> length (m_call_frames (vm_memory vm'))"
    and "is_ok r \<Longrightarrow> m_call_frames (vm_memory vm') = m_call_frames (vm_memory vm) \<and>
      m_memory (vm_memory vm') = m_memory (vm_memory vm)"
proof -
  obtain q vm1 where enter: "enter_call name vm = (q, vm1)" by fastforce
  have "mem_inv (vm_memory vm') \<and> length (m_call_frames (vm_memory vm)) \<le> length (m_call_frames (vm_memory vm')) \<and>
     (is_ok r \<longrightarrow> m_call_frames (vm_memory vm') = m_call_frames (vm_memory vm) \<and>
        m_memory (vm_memory vm') = m_memory (vm_memory vm))"
  proof (cases q)
    case (Inl e)
    then show ?thesis using run enter enter_call_memory [OF enter] inv by (auto simp: exec_call_def)
  next
    case (Inr body)
    then obtain ps where m1: "vm_memory vm1 = push_call_frame name ps (vm_memory vm)"
      using enter_call_memory [OF enter] by auto
    have inv1: "mem_inv (vm_memory vm1)" using inv m1 by (simp add: push_call_frame_inv)
    have len: "length (m_call_frames (vm_memory vm1)) = Suc (length (m_call_frames (vm_memory vm)))"
      "butlast (m_call_frames (vm_memory vm1)) = m_call_frames (vm_memory vm)"
      "m_memory (vm_memory vm1) = m_memory (vm_memory vm)" "m_call_frames (vm_memory vm1) \<noteq> []"
      by (simp_all add: m1 push_call_frame_def Let_def)
    have run1: "obind (inner body vm1) (\<lambda>_ vm2. Some (leave_call name vm2)) = Some (r, vm')"
      using run enter Inr by (simp add: exec_call_def)
    then obtain q2 vm2 where body: "inner body vm1 = Some (q2, vm2)" by (cases "inner body vm1") auto
    note ok2 = runner_okD [OF ok body inv1]
    show ?thesis
    proof (cases q2)
      case (Inl e)
      then show ?thesis using run1 body ok2 len by (auto simp: unwound_def)
    next
      case (Inr u)
      with ok2 have lc: "local_change (vm_memory vm1) (vm_memory vm2)" by simp
      then have ne: "m_call_frames (vm_memory vm2) \<noteq> []" using len by (auto simp: local_change_def)
      have "leave_call name vm2 = (r, vm')" using run1 body Inr by simp
      then have "vm_memory vm' = snd (pop_call_frame (vm_memory vm2))"
        using ne by (auto simp: leave_call_def pop_call_frame_def split: option.splits)
      then show ?thesis using lc len pop_call_frame_inv [OF local_change_inv [OF lc]]
        by (auto simp: local_change_def pop_call_frame_def)
    qed
  qed
  then show "mem_inv (vm_memory vm')" "length (m_call_frames (vm_memory vm)) \<le> length (m_call_frames (vm_memory vm'))"
    "is_ok r \<Longrightarrow> m_call_frames (vm_memory vm') = m_call_frames (vm_memory vm) \<and>
      m_memory (vm_memory vm') = m_memory (vm_memory vm)" by blast+
qed

lemma exec_call_ok:
  assumes "mem_inv (vm_memory vm)" "runner_ok inner" "exec_call inner name vm = Some r"
  shows "result_ok (vm_memory vm) r"
  using assms exec_call_frames [OF assms(1,2), of name "fst r" "snd r"]
  by (auto simp: result_ok_def local_change_def unwound_def)

lemma exec_if_ok:
  assumes "mem_inv (vm_memory vm)" "runner_ok inner" "exec_if inner c t e vm = Some r"
  shows "result_ok (vm_memory vm) r"
  using assms(3) unfolding exec_if_def
proof (rule result_ok_obind, goal_cases)
  case (1 x)
  then show ?case using runner_okD [OF assms(2)] assms(1) by blast
next
  case (2 a vm1 y)
  from 2(3) show ?case
  proof (rule result_ok_obind, goal_cases)
    case (1 x)
    then show ?case using 2(2) by (auto intro!: result_ok_same local_change_inv)
  next
    case (2 v vm2 y)
    then show ?case using runner_okD [OF assms(2)] local_change_inv
      by (auto simp: local_change_refl split: if_splits option.splits)
  qed
qed

lemma exec_match_ok:
  assumes "mem_inv (vm_memory vm)" "runner_ok inner" "exec_match inner v cs d vm = Some r"
  shows "result_ok (vm_memory vm) r"
  using assms(3) unfolding exec_match_def
proof (rule result_ok_obind, goal_cases)
  case (1 x)
  then show ?case using runner_okD [OF assms(2)] assms(1) by blast
next
  case (2 a vm1 y)
  from 2(3) show ?case
  proof (rule result_ok_obind, goal_cases)
    case (1 x)
    then show ?case using 2(2) by (auto intro!: result_ok_same local_change_inv)
  next
    case (2 v vm2 y)
    then show ?case using runner_okD [OF assms(2)] local_change_inv
      by (auto simp: local_change_refl split: option.splits)
  qed
qed

lemma exec_loop_ok:
  assumes "mem_inv (vm_memory vm)" "runner_ok inner" "exec_loop inner body count lc vm = Some r"
  shows "result_ok (vm_memory vm) r"
  using assms(1,3)
proof (induction count arbitrary: lc vm r)
  case (Suc count)
  show ?case using Suc.prems(2) unfolding exec_loop.simps
  proof (rule result_ok_obind, goal_cases)
    case (1 x)
    then show ?case using runner_okD [OF assms(2)] Suc.prems(1) by blast
  next
    case (2 a vm1 y)
    then show ?case using Suc.IH local_change_inv
      by (auto simp: local_change_refl split: LoopControl.splits)
  qed
qed (auto simp: local_change_refl)

lemma exec_while_ok:
  assumes "mem_inv (vm_memory vm)" "runner_ok inner" "exec_while inner c body n lc vm = Some r"
  shows "result_ok (vm_memory vm) r"
  using assms(1,3)
proof (induction n arbitrary: lc vm r)
  case (Suc n)
  note inner = runner_okD [OF assms(2)]
  show ?case using Suc.prems(2) unfolding exec_while.simps
  proof (rule result_ok_obind, goal_cases)
    case (1 x)
    then show ?case using inner Suc.prems(1) by blast
  next
    case (2 a vm1 y)
    from 2(3) show ?case
    proof (rule result_ok_obind, goal_cases)
      case (1 x)
      then show ?case using 2(2) by (auto intro!: result_ok_same local_change_inv)
    next
      case (2 v vm2 y)
      show ?case
      proof (cases "is_falsey v")
        case False
        with 2(3) have "obind (inner body vm2) (\<lambda>_ vm3. case lc of
             LC_Break \<Rightarrow> Some (Inr LC_None, vm3)
           | LC_Continue \<Rightarrow> exec_while inner c body n LC_None vm3
           | LC_None \<Rightarrow> exec_while inner c body n lc vm3) = Some y" by simp
        then show ?thesis
          by (rule result_ok_obind)
            (use 2(2) inner Suc.IH local_change_inv in
              \<open>auto simp: local_change_refl split: LoopControl.splits\<close>)
      qed (use 2 local_change_inv in \<open>auto simp: local_change_refl\<close>)
    qed
  qed
qed simp

lemma going_ok: "going lc m = Some r \<Longrightarrow> (\<And>x. m = Some x \<Longrightarrow> result_ok v x) \<Longrightarrow> result_ok v r"
  unfolding going_def by (erule result_ok_obind) (auto simp: local_change_inv local_change_refl)

lemma stopping_ok: "stopping q = Some r \<Longrightarrow> result_ok v q \<Longrightarrow> result_ok v r"
  unfolding stopping_def by (erule result_ok_obind) (auto simp: local_change_inv local_change_refl)

lemma simulate_memory [simp]: "vm_memory (simulate E op vm) = vm_memory vm"
  by (cases op) (auto simp: simulate_def Let_def)

lemma exec_op_ok:
  assumes inv: "mem_inv (vm_memory vm)" and ok: "runner_ok inner" and run: "exec_op E B inner n op lc vm = Some r"
  shows "result_ok (vm_memory vm) r"
proof -
  let ?vm = "log_explanation E op vm"
  have inv': "mem_inv (vm_memory ?vm)" using inv by simp
  have r: "local_change (vm_memory vm) (vm_memory vm)" using inv by (rule local_change_refl)
  show ?thesis
  proof (cases "vm_simulation_mode ?vm \<and> simulated op")
    case True
    with run r show ?thesis by (auto simp: exec_op_def Let_def)
  next
    case False
    with run have run': "(case dispatch op of
           D_Basic \<Rightarrow> going lc (Some (exec_basic E B op ?vm))
         | D_If c t e \<Rightarrow> going lc (exec_if inner c t e ?vm)
         | D_Loop count body \<Rightarrow> obind (exec_loop inner body count lc ?vm) (\<lambda>lc' vm'. Some (Inr (Go lc'), vm'))
         | D_While c body \<Rightarrow> obind (exec_while inner c body n lc ?vm) (\<lambda>lc' vm'. Some (Inr (Go lc'), vm'))
         | D_Call name \<Rightarrow> going lc (exec_call inner name ?vm)
         | D_Match v cs d \<Rightarrow> going lc (exec_match inner v cs d ?vm)
         | D_Return \<Rightarrow> stopping (exec_return ?vm)
         | D_Break \<Rightarrow> stopping (Inr (), ?vm)
         | D_Continue \<Rightarrow> stopping (Inr (), ?vm)
         | D_Other \<Rightarrow> stopping (exec_other E op ?vm)) = Some r"
      by (auto simp: exec_op_def Let_def)
    have lp: "result_ok v q" if "obind m (\<lambda>lc' vm'. Some (Inr (Go lc'), vm')) = Some q"
      "\<And>x. m = Some x \<Longrightarrow> result_ok v x" for m and v q
      using that by (rule result_ok_obind) (auto simp: local_change_inv local_change_refl)
    have "result_ok (vm_memory ?vm) r"
    proof (cases "dispatch op")
      case D_Basic
      then show ?thesis using run' exec_basic_ok [OF inv', of E B op] by (auto elim!: going_ok)
    next
      case D_If
      then show ?thesis using run' exec_if_ok [OF inv' ok] by (auto elim!: going_ok)
    next
      case D_Loop
      then show ?thesis using run' exec_loop_ok [OF inv' ok] by (auto elim!: lp)
    next
      case D_While
      then show ?thesis using run' exec_while_ok [OF inv' ok] by (auto elim!: lp)
    next
      case D_Call
      then show ?thesis using run' exec_call_ok [OF inv' ok] by (auto elim!: going_ok)
    next
      case D_Match
      then show ?thesis using run' exec_match_ok [OF inv' ok] by (auto elim!: going_ok)
    next
      case D_Return
      then show ?thesis using run' exec_return_ok [OF inv'] by (auto elim!: stopping_ok)
    next
      case D_Other
      then show ?thesis using run' exec_other_ok [OF inv'] by (auto elim!: stopping_ok)
    qed (use run' r in \<open>auto simp: stopping_def\<close>)
    then show ?thesis by simp
  qed
qed

lemma exec_ops_ok:
  assumes "mem_inv (vm_memory vm)" "runner_ok inner" "exec_ops E B inner n ops lc vm = Some r"
  shows "result_ok (vm_memory vm) r"
  using assms(1,3)
proof (induction ops arbitrary: lc vm r)
  case (Cons op ops)
  show ?case using Cons.prems(2) unfolding exec_ops.simps
    by (rule result_ok_obind)
      (use exec_op_ok [OF Cons.prems(1) assms(2)] Cons.IH local_change_inv in
        \<open>auto simp: local_change_refl split: flow.splits\<close>)
qed (auto simp: local_change_refl)

lemma execute_inner_ok: "runner_ok (execute_inner E B n)"
proof (induction n)
  case (Suc n)
  show ?case
    unfolding runner_ok_def using exec_ops_ok [OF _ Suc.IH] by (metis execute_inner.simps(2))
qed (simp add: runner_ok_def)

section \<open>Termination without While and Call\<close>

fun bounded_op :: "Op \<Rightarrow> bool" where
  "bounded_op (OpIf c t e) =
     ((\<forall>o' \<in> set c. bounded_op o') \<and> (\<forall>o' \<in> set t. bounded_op o') \<and>
      (case e of Some b \<Rightarrow> (\<forall>o' \<in> set b. bounded_op o') | None \<Rightarrow> True))"
| "bounded_op (OpLoop n b) = (\<forall>o' \<in> set b. bounded_op o')"
| "bounded_op (OpMatch v cs d) =
     ((\<forall>o' \<in> set v. bounded_op o') \<and> (\<forall>(c, b) \<in> set cs. \<forall>o' \<in> set b. bounded_op o') \<and>
      (case d of Some b \<Rightarrow> (\<forall>o' \<in> set b. bounded_op o') | None \<Rightarrow> True))"
| "bounded_op (OpWhile c b) = False"
| "bounded_op (OpCall f) = False"
| "bounded_op _ = True"

lemma dispatch_cases:
  "dispatch op = D_If c t e \<Longrightarrow> op = OpIf c t e"
  "dispatch op = D_Loop n b \<Longrightarrow> op = OpLoop n b"
  "dispatch op = D_While c b \<Longrightarrow> op = OpWhile c b"
  "dispatch op = D_Call f \<Longrightarrow> op = OpCall f"
  "dispatch op = D_Match v cs d \<Longrightarrow> op = OpMatch v cs d"
  by (cases op; simp add: dispatch_def)+

definition sized :: "nat \<Rightarrow> Op list \<Rightarrow> bool" where
  "sized n ops = (\<forall>op \<in> set ops. bounded_op op \<and> size op < n)"

lemma list_size: "op \<in> set ops \<Longrightarrow> size op < size_list size ops"
  by (induction ops) auto

lemma case_size:
  assumes "(c, b) \<in> set cs" "op \<in> set b"
  shows "size op < size_list (size_prod (\<lambda>_. 0) (size_list size)) cs"
proof -
  have "size op < size_list size b" using assms(2) by (rule list_size)
  also have "\<dots> \<le> size_prod (\<lambda>_. 0) (size_list size) (c, b)" by simp
  also have "\<dots> \<le> size_list (size_prod (\<lambda>_. 0) (size_list size)) cs"
    using assms(1) by (rule size_list_estimation') simp
  finally show ?thesis .
qed

lemma sized_if:
  assumes "bounded_op (OpIf c t e)" "size (OpIf c t e) < Suc n"
  shows "sized n c" "sized n t" "e = Some b \<Longrightarrow> sized n b"
  using assms by (fastforce simp: sized_def dest: list_size)+

lemma sized_loop:
  assumes "bounded_op (OpLoop k b)" "size (OpLoop k b) < Suc n"
  shows "sized n b"
  using assms by (fastforce simp: sized_def dest: list_size)

lemma sized_match:
  assumes "bounded_op (OpMatch v cs d)" "size (OpMatch v cs d) < Suc n"
  shows "sized n v" "d = Some b \<Longrightarrow> sized n b" "(c, b) \<in> set cs \<Longrightarrow> sized n b"
  using assms by (fastforce simp: sized_def dest: list_size case_size)+

definition returns :: "'a option \<Rightarrow> bool" where
  "returns m = (m \<noteq> None)"

lemma returns_Some [simp]: "returns (Some x)"
  by (simp add: returns_def)

lemma returns_obind:
  assumes "returns m" "\<And>a s. m = Some (Inr a, s) \<Longrightarrow> returns (f a s)"
  shows "returns (obind m f)"
  using assms by (auto simp: returns_def obind_def split: option.splits sum.splits)

lemma exec_loop_total:
  assumes "\<And>vm. returns (inner body vm)"
  shows "returns (exec_loop inner body count lc vm)"
  by (induction count arbitrary: lc vm) (auto simp: assms split: LoopControl.splits intro!: returns_obind)

lemma match_case_in: "match_case v cs d = Some b \<Longrightarrow> (\<exists>c. (c, b) \<in> set cs) \<or> d = Some b"
  by (auto simp: match_case_def find_Some_iff split: option.splits) (metis nth_mem)

lemma exec_op_total:
  assumes block: "\<And>ops vm. sized n ops \<Longrightarrow> returns (inner ops vm)"
    and op: "bounded_op op" "size op < Suc n"
  shows "returns (exec_op E B inner k op lc vm)"
proof (cases "dispatch op")
  case (D_If c t e)
  note s = sized_if [OF op [unfolded dispatch_cases(1) [OF this]]]
  have "returns (exec_if inner c t e vm)" for vm
    unfolding exec_if_def
    by (intro returns_obind) (auto simp: block s split: option.splits)
  then show ?thesis by (auto simp: exec_op_def Let_def D_If going_def intro!: returns_obind)
next
  case (D_Loop m b)
  note s = sized_loop [OF op [unfolded dispatch_cases(2) [OF this]]]
  have "returns (exec_loop inner b m lc vm)" for vm by (intro exec_loop_total block s)
  then show ?thesis by (auto simp: exec_op_def Let_def D_Loop intro!: returns_obind)
next
  case (D_Match v cs d)
  note s = sized_match [OF op [unfolded dispatch_cases(5) [OF this]]]
  have "returns (exec_match inner v cs d vm)" for vm
    unfolding exec_match_def
    by (intro returns_obind) (auto simp: block s dest!: match_case_in split: option.splits)
  then show ?thesis by (auto simp: exec_op_def Let_def D_Match going_def intro!: returns_obind)
next
  case (D_While c b)
  with op(1) show ?thesis using dispatch_cases(3) [OF D_While] by simp
next
  case (D_Call f)
  with op(1) show ?thesis using dispatch_cases(4) [OF D_Call] by simp
qed (auto simp: exec_op_def Let_def going_def stopping_def intro!: returns_obind)

lemma execute_inner_total: "sized n ops \<Longrightarrow> returns (execute_inner E B (Suc n) ops vm)"
proof (induction n arbitrary: ops vm)
  case 0
  then have "ops = []" by (cases ops) (auto simp: sized_def)
  then show ?case by simp
next
  case (Suc n)
  have "returns (exec_ops E B (execute_inner E B (Suc n)) (Suc n) ops lc vm)" for lc vm
    using Suc.prems
  proof (induction ops arbitrary: lc vm)
    case (Cons op ops)
    have "returns (exec_op E B (execute_inner E B (Suc n)) (Suc n) op lc vm)"
      by (rule exec_op_total [of n]) (use Suc.IH Cons.prems in \<open>auto simp: sized_def simp del: execute_inner.simps\<close>)
    then show ?case using Cons
      by (auto simp: sized_def simp del: execute_inner.simps split: flow.splits intro!: returns_obind)
  qed simp
  then show ?case by (subst execute_inner.simps(2))
qed

lemma sized_size_list: "(\<forall>op \<in> set ops. bounded_op op) \<Longrightarrow> sized (size_list size ops) ops"
  by (auto simp: sized_def list_size)

end
