(* ===== verification/Simulation.thy ===== *)
theory Simulation
  imports Machine
begin

text \<open>
  Invariants of the machine, and simulation mode. The locale \<open>vm_invariant\<close> is the contract a
  property of the machine state meets to be kept by every run: it is kept by the operations without
  nested blocks and by entering and leaving a call. Its interpretation for simulation mode gives that
  a simulated run leaves the storage as it was, for programs that do not use \<^verbatim>\<open>IncrementReputation\<close>,
  the one storage operation the mode does not cover.
\<close>

text \<open>The blocks nested in an operation.\<close>

definition blocks :: "Op \<Rightarrow> Op list list" where
  "blocks op = (case op of
     OpIf c t e \<Rightarrow> c # t # (case e of Some b \<Rightarrow> [b] | None \<Rightarrow> [])
   | OpLoop n b \<Rightarrow> [b]
   | OpWhile c b \<Rightarrow> [c, b]
   | OpMatch v cs d \<Rightarrow> v # map snd cs @ (case d of Some b \<Rightarrow> [b] | None \<Rightarrow> [])
   | _ \<Rightarrow> [])"

locale vm_invariant =
  fixes E :: venv and B :: "'s StorageBackend"
    and P :: "'s VM \<Rightarrow> bool" and ok :: "Op \<Rightarrow> bool"
  assumes explain: "P vm \<Longrightarrow> P (log_explanation E op vm)"
    and simulate_step: "P vm \<Longrightarrow> P (simulate E op vm)"
    and basic: "P vm \<Longrightarrow> ok op \<Longrightarrow> \<not> (vm_simulation_mode vm \<and> simulated op) \<Longrightarrow>
      exec_basic E B op vm = (r, vm') \<Longrightarrow> P vm'"
    and ret: "P vm \<Longrightarrow> exec_return vm = (r, vm') \<Longrightarrow> P vm'"
    and other: "P vm \<Longrightarrow> exec_other E op vm = (r, vm') \<Longrightarrow> P vm'"
    and pop: "P vm \<Longrightarrow> pop_one n vm = (q, vm') \<Longrightarrow> P vm'"
    and enter: "P vm \<Longrightarrow> enter_call f vm = (b, vm') \<Longrightarrow> P vm' \<and> (\<forall>body. b = Inr body \<longrightarrow> (\<forall>op \<in> set body. ok op))"
    and leave: "P vm \<Longrightarrow> leave_call f vm = (r, vm') \<Longrightarrow> P vm'"
    and nested: "ok op \<Longrightarrow> blk \<in> set (blocks op) \<Longrightarrow> o' \<in> set blk \<Longrightarrow> ok o'"
begin

definition keeps :: "('a, 's) vm_result option \<Rightarrow> bool" where
  "keeps m = (\<forall>r vm. m = Some (r, vm) \<longrightarrow> P vm)"

lemma keeps_Some [simp]: "keeps (Some (r, vm)) = P vm" "keeps None"
  by (simp_all add: keeps_def)

lemma keeps_obind:
  "keeps m \<Longrightarrow> (\<And>a vm. m = Some (Inr a, vm) \<Longrightarrow> P vm \<Longrightarrow> keeps (f a vm)) \<Longrightarrow> keeps (obind m f)"
  by (auto simp: obind_def split: option.splits sum.splits)

definition safe :: "'s block_runner \<Rightarrow> bool" where
  "safe inner = (\<forall>ops vm. P vm \<longrightarrow> (\<forall>op \<in> set ops. ok op) \<longrightarrow> keeps (inner ops vm))"

lemma safeD: "safe inner \<Longrightarrow> P vm \<Longrightarrow> \<forall>op \<in> set ops. ok op \<Longrightarrow> keeps (inner ops vm)"
  by (simp add: safe_def)

lemma keeps_pop: "P vm \<Longrightarrow> keeps (Some (pop_one n vm))"
  by (cases "pop_one n vm") (auto dest: pop)

lemma keeps_loop:
  "safe inner \<Longrightarrow> \<forall>op \<in> set body. ok op \<Longrightarrow> P vm \<Longrightarrow> keeps (exec_loop inner body k lc vm)"
  by (induction k arbitrary: lc vm) (auto split: LoopControl.splits intro!: keeps_obind safeD)

lemma keeps_while:
  "safe inner \<Longrightarrow> \<forall>op \<in> set c \<union> set body. ok op \<Longrightarrow> P vm \<Longrightarrow> keeps (exec_while inner c body k lc vm)"
  by (induction k arbitrary: lc vm)
    (auto split: LoopControl.splits intro!: keeps_obind keeps_pop safeD)

lemma keeps_if:
  assumes "safe inner" "P vm" "\<forall>b \<in> set (blocks (OpIf c t e)). \<forall>op \<in> set b. ok op"
  shows "keeps (exec_if inner c t e vm)"
  unfolding exec_if_def
  by (intro keeps_obind) (use assms in \<open>auto simp: blocks_def intro!: safeD keeps_pop split: option.splits\<close>)

lemma keeps_match:
  assumes "safe inner" "P vm" "\<forall>b \<in> set (blocks (OpMatch v cs d)). \<forall>op \<in> set b. ok op"
  shows "keeps (exec_match inner v cs d vm)"
proof -
  have "\<forall>op \<in> set b. ok op" if "match_case x cs d = Some b" for x b
  proof -
    have "b \<in> set (blocks (OpMatch v cs d))"
      using match_case_in [OF that] by (force simp: blocks_def image_iff)
    then show ?thesis using assms(3) by blast
  qed
  then show ?thesis
    unfolding exec_match_def
    by (intro keeps_obind) (use assms in \<open>auto simp: blocks_def intro!: safeD keeps_pop split: option.splits\<close>)
qed

lemma keeps_call:
  assumes "safe inner" "P vm"
  shows "keeps (exec_call inner f vm)"
  unfolding exec_call_def
proof (intro keeps_obind)
  show "keeps (Some (enter_call f vm))" using enter assms(2) by (cases "enter_call f vm") auto
next
  fix body vm1
  assume "Some (enter_call f vm) = Some (Inr body, vm1)" "P vm1"
  then show "keeps (inner body vm1)" using enter [OF assms(2)] by (intro safeD assms(1)) auto
next
  fix vm2
  assume "P vm2"
  then show "keeps (Some (leave_call f vm2))" using leave by (cases "leave_call f vm2") auto
qed

lemma keeps_op:
  assumes "safe inner" "P vm" "ok op"
  shows "keeps (exec_op E B inner n op lc vm)"
proof -
  let ?vm = "log_explanation E op vm"
  have p: "P ?vm" using explain assms(2) .
  note blk = nested [OF assms(3)]
  have fin: "keeps (going lc m)" if "keeps m" for m lc
    using that unfolding going_def by (intro keeps_obind) auto
  have lp: "keeps (obind m (\<lambda>lc' vm'. Some (Inr (Go lc'), vm')))" if "keeps m" for m
    using that by (intro keeps_obind) auto
  have st: "keeps (stopping r)" if "keeps (Some r)" for r
    using that unfolding stopping_def by (intro keeps_obind) auto
  show ?thesis
  proof (cases "vm_simulation_mode ?vm \<and> simulated op")
    case True
    then show ?thesis using simulate_step [OF p] by (simp add: exec_op_def Let_def)
  next
    case False
    have "keeps (Some (exec_basic E B op ?vm))"
      using basic [OF p assms(3) False] by (cases "exec_basic E B op ?vm") auto
    moreover have "keeps (Some (exec_return ?vm))"
      using ret [OF p] by (cases "exec_return ?vm") auto
    moreover have "keeps (Some (exec_other E op ?vm))"
      using other [OF p] by (cases "exec_other E op ?vm") auto
    moreover have "keeps (exec_if inner c t e ?vm)" if "dispatch op = D_If c t e" for c t e
      using keeps_if [OF assms(1) p] blk dispatch_cases(1) [OF that] by blast
    moreover have "keeps (exec_match inner v cs d ?vm)" if "dispatch op = D_Match v cs d" for v cs d
      using keeps_match [OF assms(1) p] blk dispatch_cases(5) [OF that] by blast
    moreover have "keeps (exec_loop inner b k lc ?vm)" if "dispatch op = D_Loop k b" for k b
      using keeps_loop [OF assms(1) _ p] blk dispatch_cases(2) [OF that] by (simp add: blocks_def)
    moreover have "keeps (exec_while inner c b n lc ?vm)" if "dispatch op = D_While c b" for c b
      by (rule keeps_while [OF assms(1) _ p])
        (use blk dispatch_cases(3) [OF that] in \<open>auto simp: blocks_def\<close>)
    ultimately show ?thesis using False p keeps_call [OF assms(1) p]
      by (auto simp: exec_op_def Let_def intro!: fin lp st split: dispatch.split)
  qed
qed

lemma keeps_ops:
  assumes "safe inner" "P vm" "\<forall>op \<in> set ops. ok op"
  shows "keeps (exec_ops E B inner n ops lc vm)"
  using assms(2,3)
proof (induction ops arbitrary: lc vm)
  case (Cons op ops)
  then show ?case
    by (auto intro!: keeps_obind keeps_op [OF assms(1)] split: flow.splits)
qed simp

lemma execute_inner_safe: "safe (execute_inner E B n)"
proof (induction n)
  case (Suc n)
  then show ?case unfolding safe_def using keeps_ops [OF Suc.IH] by (metis execute_inner.simps(2))
qed (simp add: safe_def)

lemma execute_keeps:
  assumes "P vm" "\<forall>op \<in> set ops. ok op" "execute E B n ops vm = Some (r, vm')"
  shows "P vm'"
  using safeD [OF execute_inner_safe assms(1,2), of n] assms(3) by (simp add: execute_def)

end

section \<open>Simulation mode\<close>

text \<open>No use of \<^verbatim>\<open>IncrementReputation\<close>, also not in a function the operation defines.\<close>

fun quiet_op :: "Op \<Rightarrow> bool" where
  "quiet_op (OpIf c t e) =
     ((\<forall>o' \<in> set c. quiet_op o') \<and> (\<forall>o' \<in> set t. quiet_op o') \<and>
      (case e of Some b \<Rightarrow> (\<forall>o' \<in> set b. quiet_op o') | None \<Rightarrow> True))"
| "quiet_op (OpLoop n b) = (\<forall>o' \<in> set b. quiet_op o')"
| "quiet_op (OpWhile c b) = ((\<forall>o' \<in> set c. quiet_op o') \<and> (\<forall>o' \<in> set b. quiet_op o'))"
| "quiet_op (OpMatch v cs d) =
     ((\<forall>o' \<in> set v. quiet_op o') \<and> (\<forall>(c, b) \<in> set cs. \<forall>o' \<in> set b. quiet_op o') \<and>
      (case d of Some b \<Rightarrow> (\<forall>o' \<in> set b. quiet_op o') | None \<Rightarrow> True))"
| "quiet_op (OpDef f ps b) = (\<forall>o' \<in> set b. quiet_op o')"
| "quiet_op (OpIncrementReputation i n r) = False"
| "quiet_op _ = True"

definition backend_of :: "'s VM \<Rightarrow> 's option" where
  "backend_of vm = ex_storage_backend (vm_executor vm)"

definition quiet_functions :: "VMMemory \<Rightarrow> bool" where
  "quiet_functions m = (\<forall>f ps b. fmlookup (m_functions m) f = Some (ps, b) \<longrightarrow> (\<forall>op \<in> set b. quiet_op op))"

definition simulating :: "'s option \<Rightarrow> 's VM \<Rightarrow> bool" where
  "simulating s vm \<longleftrightarrow> vm_simulation_mode vm \<and> backend_of vm = s \<and> quiet_functions (vm_memory vm)"

lemma quiet_functions_same: "m_functions m' = m_functions m \<Longrightarrow> quiet_functions m' = quiet_functions m"
  by (simp add: quiet_functions_def)

lemma functions_simps [simp]:
  "m_functions (set_string_metadata k v m) = m_functions m"
  "m_functions (push_call_frame f ps m) = m_functions m"
  "m_functions (snd (pop_call_frame m)) = m_functions m"
  by (simp_all add: set_string_metadata_def push_call_frame_def pop_call_frame_def Let_def)

lemma mem_store_functions: "mem_store x v m = (r, m') \<Longrightarrow> m_functions m' = m_functions m"
  by (auto simp: mem_store_def Let_def split: list.splits if_splits)

lemma set_return_value_functions: "set_return_value v m = (r, m') \<Longrightarrow> m_functions m' = m_functions m"
  by (auto simp: set_return_value_def split: if_splits)

text \<open>Changes of the state that simulation mode does not mind.\<close>

definition harmless :: "'s VM \<Rightarrow> 's VM \<Rightarrow> bool" where
  "harmless vm vm' \<longleftrightarrow> vm_simulation_mode vm' = vm_simulation_mode vm \<and> backend_of vm' = backend_of vm \<and>
     m_functions (vm_memory vm') = m_functions (vm_memory vm)"

lemma harmless_refl [simp]: "harmless vm vm"
  by (simp add: harmless_def)

lemma harmless_trans: "harmless a b \<Longrightarrow> harmless b c \<Longrightarrow> harmless a c"
  by (simp add: harmless_def)

lemma harmless_simulating: "harmless vm vm' \<Longrightarrow> simulating s vm \<Longrightarrow> simulating s vm'"
  using quiet_functions_same [of "vm_memory vm'" "vm_memory vm"]
  by (simp add: harmless_def simulating_def)

lemma harmless_simps [simp]:
  "harmless vm (vm_push v vm') = harmless vm vm'"
  "harmless vm (vm_emit t vm') = harmless vm vm'"
  "harmless vm (vm_emit_event E c t vm') = harmless vm vm'"
  "harmless vm (log_explanation E op vm') = harmless vm vm'"
  "harmless vm (log_storage_operation E o' k v vm') = harmless vm vm'"
  "harmless (vm_emit_event E c t vm) vm' = harmless vm vm'"
  by (simp_all add: harmless_def backend_of_def vm_push_def vm_emit_def vm_emit_event_def emit_def
      emit_event_def push_event_def log_explanation_def log_storage_operation_def)

lemma on_stack_harmless: "on_stack f vm = (r, vm') \<Longrightarrow> harmless vm vm'"
  by (auto simp: on_stack_def harmless_def backend_of_def split: prod.splits)

lemma on_memory_harmless:
  "on_memory f vm = (r, vm') \<Longrightarrow> (\<And>m q m'. f m = (q, m') \<Longrightarrow> m_functions m' = m_functions m) \<Longrightarrow> harmless vm vm'"
  by (auto simp: on_memory_def harmless_def backend_of_def split: prod.splits)

lemma pop_harmless: "pop_one n vm = (r, vm') \<Longrightarrow> harmless vm vm'" "pop_two n vm = (r', vm') \<Longrightarrow> harmless vm vm'"
  by (simp_all add: pop_one_def pop_two_def on_stack_harmless)

lemma bindE_harmless:
  assumes "bindE m f = (r, vm')" "\<And>q v. m = (q, v) \<Longrightarrow> harmless vm v"
    "\<And>a v q w. m = (Inr a, v) \<Longrightarrow> f a v = (q, w) \<Longrightarrow> harmless v w"
  shows "harmless vm vm'"
  using assms by (auto simp: bindE_def split: prod.splits sum.splits intro: harmless_trans)

lemma binary_harmless: "binary n f vm = (r, vm') \<Longrightarrow> harmless vm vm'"
  unfolding binary_def
  by (erule bindE_harmless) (auto dest: pop_harmless split: sum.splits)

lemma pop_ballot_harmless: "pop_ballot E n vm = (r, vm') \<Longrightarrow> harmless vm vm'"
proof (induction n arbitrary: vm r vm')
  case (Suc n)
  show ?case using Suc.prems unfolding pop_ballot.simps
    by (rule bindE_harmless)
      (auto dest!: pop_harmless elim!: bindE_harmless intro: Suc.IH)
qed simp

lemma pop_ballots_harmless: "pop_ballots E c n vm = (r, vm') \<Longrightarrow> harmless vm vm'"
proof (induction n arbitrary: vm r vm')
  case (Suc n)
  show ?case using Suc.prems unfolding pop_ballots.simps
    by (rule bindE_harmless)
      (auto dest!: pop_ballot_harmless elim!: bindE_harmless intro: Suc.IH)
qed simp

lemma runoff_harmless: "runoff E n bs k e vm = (e', vm') \<Longrightarrow> harmless vm vm'"
proof (induction E n bs k e vm arbitrary: e' vm' rule: runoff.induct)
  case (1 E n bs k e vm)
  show ?case
  proof (cases "k > 1")
    case True
    obtain m c where mc: "fewest_votes (length bs) e (count_votes n e bs) = (m, c)" by fastforce
    let ?vm = "vm_emit_event E ''governance''
       (''Eliminated candidate '' @ show_nat c @ '' with '' @ show_nat m @ '' votes'') vm"
    have "runoff E n bs (k - 1) (e[c := True]) ?vm = (e', vm')"
      using "1.prems" True mc by (subst (asm) runoff.simps) simp
    from "1.IH" [OF True refl mc [symmetric] refl this] show ?thesis
      by (rule harmless_trans [rotated]) simp
  next
    case False
    with "1.prems" show ?thesis by (subst (asm) runoff.simps) simp
  qed
qed

lemma handlers_harmless:
  "handle_ranked_vote E c b vm = (r, vm') \<Longrightarrow> harmless vm vm'"
  "handle_vote_threshold E t vm = (r, vm') \<Longrightarrow> harmless vm vm'"
  "handle_quorum_threshold E t vm = (r, vm') \<Longrightarrow> harmless vm vm'"
  unfolding handle_ranked_vote_def handle_vote_threshold_def handle_quorum_threshold_def
  by (auto simp: push_check_def Let_def split: prod.splits if_splits elim!: bindE_harmless
      dest: pop_harmless pop_ballots_harmless dest!: runoff_harmless)

lemma liquid_delegate_harmless: "handle_liquid_delegate E a b vm = (r, vm') \<Longrightarrow> harmless vm vm'"
  by (auto simp: handle_liquid_delegate_def harmless_def backend_of_def on_memory_def vm_emit_event_def
      emit_event_def push_event_def dest!: mem_store_functions
      split: if_splits sum.splits prod.splits)

lemma exec_other_harmless: "exec_other E op vm = (r, vm') \<Longrightarrow> harmless vm vm'"
  unfolding exec_other_def try_handle_governance_op_def
  by (cases op)
    (auto simp: Let_def bindE_def split: prod.splits sum.splits
      dest: handlers_harmless liquid_delegate_harmless)

lemma exec_return_harmless: "exec_return vm = (r, vm') \<Longrightarrow> harmless vm vm'"
  by (auto simp: exec_return_def split: if_splits elim!: on_memory_harmless
      dest: set_return_value_functions)

lemma pop_params_harmless: "pop_params f ps m vm = (r, vm') \<Longrightarrow> harmless vm vm'"
proof (induction ps arbitrary: m vm r vm')
  case (Cons p ps)
  show ?case using Cons.prems unfolding pop_params.simps
    by (rule bindE_harmless) (auto dest: pop_harmless intro: Cons.IH)
qed simp

lemma enter_call_harmless: "enter_call f vm = (r, vm') \<Longrightarrow> harmless vm vm'"
  by (auto simp: enter_call_def harmless_def backend_of_def split: sum.splits prod.splits
      elim!: bindE_harmless [unfolded harmless_def backend_of_def]
      dest!: pop_params_harmless [unfolded harmless_def backend_of_def])

lemma leave_call_harmless: "leave_call f vm = (r, vm') \<Longrightarrow> harmless vm vm'"
  by (auto simp: leave_call_def harmless_def backend_of_def vm_push_def pop_call_frame_def
      split: prod.splits option.splits if_splits)

lemma simulate_harmless: "harmless vm (simulate E op vm)"
  by (cases op) (auto simp: simulate_def Let_def)

lemma exec_basic_harmless:
  assumes "exec_basic E B op vm = (r, vm')" "\<not> simulated op" "quiet_op op" "\<And>f ps b. op \<noteq> OpDef f ps b"
  shows "harmless vm vm'"
proof -
  have st: "bindE (pop_one n vm) f = (r, vm') \<Longrightarrow>
      (\<And>v vm1 q w. f v vm1 = (q, w) \<Longrightarrow> harmless vm1 w) \<Longrightarrow> harmless vm vm'" for n f
    by (erule bindE_harmless) (auto dest: pop_harmless)
  show ?thesis
    using assms
    by (cases op)
      (auto simp: exec_basic_def simulated_def emit_display_def split: sum.splits if_splits TypedValue.splits
        dest: binary_harmless on_stack_harmless elim!: st on_memory_harmless dest!: mem_store_functions)
qed

lemma exec_basic_simulating:
  assumes "simulating s vm" "quiet_op op" "\<not> (vm_simulation_mode vm \<and> simulated op)"
    "exec_basic E B op vm = (r, vm')"
  shows "simulating s vm'"
proof (cases "\<exists>f ps b. op = OpDef f ps b")
  case True
  then obtain f ps b where op: "op = OpDef f ps b" by blast
  with assms show ?thesis
    by (auto simp: exec_basic_def simulating_def backend_of_def quiet_functions_def define_function_def
        split: if_splits)
next
  case False
  with assms have "harmless vm vm'" by (intro exec_basic_harmless) (auto simp: simulating_def)
  then show ?thesis using assms(1) by (rule harmless_simulating)
qed

interpretation sim: vm_invariant E B "simulating s" quiet_op for E B s
proof unfold_locales
  fix vm vm' :: "'a VM" and f and b :: "VMError fault + Op list"
  assume s: "simulating s vm" and e: "enter_call f vm = (b, vm')"
  have "\<forall>op \<in> set body. quiet_op op" if "b = Inr body" for body
    using s e that
    by (auto simp: enter_call_def get_function_def bindE_def simulating_def quiet_functions_def
        split: sum.splits option.splits prod.splits)
  with harmless_simulating [OF enter_call_harmless [OF e] s]
  show "simulating s vm' \<and> (\<forall>body. b = Inr body \<longrightarrow> (\<forall>op \<in> set body. quiet_op op))" by blast
next
  fix op o' :: Op and blk :: "Op list"
  assume "quiet_op op" "blk \<in> set (blocks op)" "o' \<in> set blk"
  then show "quiet_op o'" by (cases op) (auto simp: blocks_def split: option.splits)
next
  fix vm vm' :: "'a VM" and op r
  assume "simulating s vm" "quiet_op op" "\<not> (vm_simulation_mode vm \<and> simulated op)"
    "exec_basic E B op vm = (r, vm')"
  then show "simulating s vm'" by (rule exec_basic_simulating)
qed (auto elim!: harmless_simulating [rotated]
      intro: simulate_harmless exec_return_harmless exec_other_harmless pop_harmless leave_call_harmless)

end
