(* ===== verification/Bytecode.thy ===== *)
theory Bytecode
  imports Simulation
begin

text \<open>
  The bytecode compiler and interpreter (\<^verbatim>\<open>src/crates/icn-covm/src/bytecode.rs\<close>). The compiler appends
  to the instruction vector and patches the targets of forward jumps, as in the source; the
  interpreter is a machine with a program counter. Two places of the source wrap a value that is a
  \<^verbatim>\<open>TypedValue\<close> already (\<^verbatim>\<open>Balance\<close> and the amount of \<^verbatim>\<open>IncrementReputation\<close>); the model keeps the value.
\<close>

datatype (plugins only: code) BytecodeOp =
    BPush TypedValue
  | BStore string
  | BLoad string
  | BAdd | BSub | BMul | BDiv
  | BEmit string
  | BEmitEvent string string
  | BCall string
  | BJumpIfZero nat
  | BJump nat
  | BFunctionEntry string "string list"
  | BReturn
  | BAssertTop TypedValue
  | BAssertMemory string TypedValue
  | BAssertEqualStack nat
  | BRankedVote "string list" "nat list list"
  | BLiquidDelegate string string
  | BVoteThreshold f64
  | BQuorumThreshold f64
  | BBreak
  | BContinue
  | BStoreP string
  | BLoadP string
  | BDup | BPop | BSwap
  | BEq | BGt | BLt
  | BNegate
  | BAnd | BOr | BNot
  | BLoadParam string
  | BAssert | BAssertEq
  | BPrint
  | BStoreStorage string
  | BLoadStorage string
  | BLoadStorageVersion string u64
  | BListStorageVersions string
  | BDiffStorageVersions string u64 u64
  | BMod
  | BRequireIdentity string
  | BVerifySignature
  | BCreateResource string
  | BMint string string TypedValue "string option"
  | BTransfer string string string TypedValue "string option"
  | BBurn string string TypedValue "string option"
  | BBalance string string
  | BGetIdentity string
  | BRequireValidSignature string string string
  | BIncrementReputation string "TypedValue option" "string option"
  | BIfPassed "BytecodeOp list"
  | BElse "BytecodeOp list"
  | BMacro string
  | BNop
  | BRequireRole string
  | BMinDeliberation duration
  | BExpiresIn duration

section \<open>Compiler\<close>

definition compile_block_push :: "Op \<Rightarrow> BytecodeOp" where
  "compile_block_push op = (case op of OpPush v \<Rightarrow> BPush v | _ \<Rightarrow> BNop)"

text \<open>Operations that become one instruction.\<close>

definition simple_code :: "Op \<Rightarrow> BytecodeOp" where
  "simple_code op = (case op of
     OpPush v \<Rightarrow> BPush v
   | OpAdd \<Rightarrow> BAdd | OpSub \<Rightarrow> BSub | OpMul \<Rightarrow> BMul | OpDiv \<Rightarrow> BDiv
   | OpStore name \<Rightarrow> BStore name
   | OpLoad name \<Rightarrow> BLoad name
   | OpPop \<Rightarrow> BPop | OpEq \<Rightarrow> BEq | OpGt \<Rightarrow> BGt | OpLt \<Rightarrow> BLt
   | OpNot \<Rightarrow> BNot | OpAnd \<Rightarrow> BAnd | OpOr \<Rightarrow> BOr
   | OpDup \<Rightarrow> BDup | OpSwap \<Rightarrow> BSwap
   | OpOver \<Rightarrow> BReturn
   | OpNegate \<Rightarrow> BNegate
   | OpCall name \<Rightarrow> BCall name
   | OpReturn \<Rightarrow> BReturn
   | OpNop \<Rightarrow> BNop
   | OpBreak \<Rightarrow> BBreak
   | OpContinue \<Rightarrow> BContinue
   | OpEmit msg \<Rightarrow> BEmit msg
   | OpEmitEvent c m \<Rightarrow> BEmitEvent c m
   | OpDumpStack \<Rightarrow> BReturn | OpDumpMemory \<Rightarrow> BReturn | OpDumpState \<Rightarrow> BReturn
   | OpAssertTop v \<Rightarrow> BAssertTop v
   | OpAssertMemory k v \<Rightarrow> BAssertMemory k v
   | OpAssertEqualStack d \<Rightarrow> BAssertEqualStack d
   | OpMod \<Rightarrow> BMod
   | OpRankedVote _ _ \<Rightarrow> BReturn
   | OpStoreP k \<Rightarrow> BStoreStorage k
   | OpLoadP k \<Rightarrow> BLoadStorage k
   | OpLoadVersionP k v \<Rightarrow> BLoadStorageVersion k v
   | OpListVersionsP k \<Rightarrow> BListStorageVersions k
   | OpLiquidDelegate a b \<Rightarrow> BLiquidDelegate a b
   | OpVoteThreshold t \<Rightarrow> BVoteThreshold t
   | OpQuorumThreshold t \<Rightarrow> BQuorumThreshold t
   | OpVerifyIdentity _ _ _ \<Rightarrow> BReturn
   | OpCheckMembership _ _ \<Rightarrow> BReturn
   | OpCheckDelegation _ _ \<Rightarrow> BReturn
   | OpDiffVersionsP k v w \<Rightarrow> BDiffStorageVersions k v w
   | OpCreateResource r \<Rightarrow> BCreateResource r
   | OpMint r a n reason \<Rightarrow> BMint r a (Number n) reason
   | OpTransfer r a b n reason \<Rightarrow> BTransfer r a b (Number n) reason
   | OpBurn r a n reason \<Rightarrow> BBurn r a (Number n) reason
   | OpBalance r a \<Rightarrow> BBalance r a
   | OpVerifySignature \<Rightarrow> BVerifySignature
   | OpGetIdentity i \<Rightarrow> BGetIdentity i
   | OpRequireValidSignature v m s \<Rightarrow> BRequireValidSignature v m s
   | OpIncrementReputation i n reason \<Rightarrow> BIncrementReputation i (map_option Number n) reason
   | OpIfPassed b \<Rightarrow> BIfPassed (map compile_block_push b)
   | OpElse b \<Rightarrow> BElse (map compile_block_push b)
   | OpMacro m \<Rightarrow> BMacro m
   | OpRequireRole r \<Rightarrow> BRequireRole r
   | OpMinDeliberation d \<Rightarrow> BMinDeliberation d
   | OpExpiresIn d \<Rightarrow> BExpiresIn d
   | _ \<Rightarrow> BNop)"

type_synonym code = "BytecodeOp list"

text \<open>Patching the placeholder at a position: a jump keeps its kind and gets its target.\<close>

definition patch_jz :: "nat \<Rightarrow> nat \<Rightarrow> code \<Rightarrow> code" where
  "patch_jz pos addr is = (case is ! pos of BJumpIfZero _ \<Rightarrow> is[pos := BJumpIfZero addr] | _ \<Rightarrow> is)"

definition patch_jump :: "nat \<Rightarrow> nat \<Rightarrow> code \<Rightarrow> code" where
  "patch_jump pos addr is = (case is ! pos of BJump _ \<Rightarrow> is[pos := BJump addr] | _ \<Rightarrow> is)"

text \<open>
  The compound operations, given the function \<open>cg\<close> that appends the code of one operation (a block is a \<open>fold\<close>): \<^verbatim>\<open>compile_if\<close>,
  \<^verbatim>\<open>compile_while\<close>, \<^verbatim>\<open>compile_loop\<close>, \<^verbatim>\<open>compile_def\<close> and \<^verbatim>\<open>compile_match\<close>.
\<close>

definition compile_if :: "(Op \<Rightarrow> code \<Rightarrow> code) \<Rightarrow> Op list \<Rightarrow> Op list \<Rightarrow> Op list option \<Rightarrow> code \<Rightarrow> code" where
  "compile_if cg c t e is0 =
     (let is1 = fold cg c is0;
          jz = length is1;
          is2 = fold cg t (is1 @ [BJumpIfZero 0])
      in case e of
           Some els \<Rightarrow>
             let jump = length is2;
                 is3 = is2 @ [BJump 0];
                 is4 = patch_jz jz (length is3) is3;
                 is5 = fold cg els is4
             in patch_jump jump (length is5) is5
         | None \<Rightarrow> patch_jz jz (length is2) is2)"

definition compile_while :: "(Op \<Rightarrow> code \<Rightarrow> code) \<Rightarrow> Op list \<Rightarrow> Op list \<Rightarrow> code \<Rightarrow> code" where
  "compile_while cg c body is0 =
     (let loop_start = length is0;
          is1 = fold cg c is0;
          exit_jump = length is1;
          is2 = fold cg body (is1 @ [BJumpIfZero 0]) @ [BJump loop_start]
      in patch_jz exit_jump (length is2) is2)"

definition compile_loop :: "(Op \<Rightarrow> code \<Rightarrow> code) \<Rightarrow> nat \<Rightarrow> Op list \<Rightarrow> code \<Rightarrow> code" where
  "compile_loop cg count body is0 =
     (if count \<le> 5 then (fold cg body ^^ count) is0
      else if count = 1000 \<and> length body \<le> 5 then
        let is1 = is0 @ [BPush (Number (f64_of_nat count))];
            loop_start = length is1;
            is2 = is1 @ [BDup, BPush (Number f64_zero), BGt];
            exit_jump = length is2;
            is3 = fold cg body (is2 @ [BJumpIfZero 0]) @ [BPush (Number f64_one), BSub, BJump loop_start]
        in patch_jz exit_jump (length is3) is3 @ [BPop]
      else
        let is1 = is0 @ [BPush (Number (f64_of_nat count))];
            counter_var = ''__loop_counter_'' @ show_nat (length is1);
            is2 = is1 @ [BStore counter_var];
            loop_start = length is2;
            is3 = is2 @ [BLoad counter_var, BPush (Number f64_zero), BGt];
            exit_jump = length is3;
            is4 = fold cg body (is3 @ [BJumpIfZero 0]) @
                    [BLoad counter_var, BPush (Number f64_one), BSub, BStore counter_var, BJump loop_start]
        in patch_jz exit_jump (length is4) is4)"

definition compile_def :: "(Op \<Rightarrow> code \<Rightarrow> code) \<Rightarrow> (string, nat) fmap \<Rightarrow> string \<Rightarrow> string list \<Rightarrow> Op list \<Rightarrow> code \<Rightarrow> code" where
  "compile_def cg ft name params body is0 =
     (case fmlookup ft name of
        Some _ \<Rightarrow> fold cg body (is0 @ [BFunctionEntry name params]) @ [BReturn]
      | None \<Rightarrow> is0)"

fun compile_cases :: "(Op \<Rightarrow> code \<Rightarrow> code) \<Rightarrow> string \<Rightarrow> (TypedValue \<times> Op list) list \<Rightarrow> nat list \<Rightarrow> code \<Rightarrow> nat list \<times> code" where
  "compile_cases cg match_var [] exits is0 = (exits, is0)"
| "compile_cases cg match_var ((v, body) # cs) exits is0 =
     (let is1 = is0 @ [BLoad match_var, BPush v, BEq];
          skip = length is1;
          is2 = fold cg body (is1 @ [BJumpIfZero 0]);
          exit_jump = length is2;
          is3 = is2 @ [BJump 0];
          is4 = patch_jz skip (length is3) is3
      in compile_cases cg match_var cs (exits @ [exit_jump]) is4)"

definition compile_match :: "(Op \<Rightarrow> code \<Rightarrow> code) \<Rightarrow> Op list \<Rightarrow> (TypedValue \<times> Op list) list \<Rightarrow> Op list option \<Rightarrow> code \<Rightarrow> code" where
  "compile_match cg v cs d is0 =
     (let is1 = fold cg v is0;
          match_var = ''__match_value_'' @ show_nat (length is1);
          (exits, is2) = compile_cases cg match_var cs [] (is1 @ [BStore match_var]);
          is3 = (case d of Some b \<Rightarrow> fold cg b is2 | None \<Rightarrow> is2)
      in fold (\<lambda>pos. patch_jump pos (length is3)) exits is3)"

lemma fold_ext: "(\<And>op is. op \<in> set b \<Longrightarrow> f op is = g op is) \<Longrightarrow> fold f b = fold g b"
  by (intro ext fold_cong) auto

lemma compile_if_cong [fundef_cong]:
  assumes "c = c'" "t = t'" "e = e'" "is0 = is0'"
    "\<And>op is. op \<in> set c' \<union> set t' \<union> (case e' of Some b \<Rightarrow> set b | None \<Rightarrow> {}) \<Longrightarrow> f op is = g op is"
  shows "compile_if f c t e is0 = compile_if g c' t' e' is0'"
proof -
  have "fold f c' = fold g c'" "fold f t' = fold g t'" "\<And>b. e' = Some b \<Longrightarrow> fold f b = fold g b"
    by (rule fold_ext, use assms(5) in force)+
  then show ?thesis unfolding assms(1-4) by (simp add: compile_if_def Let_def split: option.splits)
qed

lemma compile_while_cong [fundef_cong]:
  assumes "c = c'" "t = t'" "is0 = is0'" "\<And>op is. op \<in> set c' \<union> set t' \<Longrightarrow> f op is = g op is"
  shows "compile_while f c t is0 = compile_while g c' t' is0'"
proof -
  have "fold f c' = fold g c'" "fold f t' = fold g t'"
    by (rule fold_ext, use assms(4) in force)+
  then show ?thesis unfolding assms(1-3) by (simp add: compile_while_def)
qed

lemma compile_loop_cong [fundef_cong]:
  assumes "n = n'" "b = b'" "is0 = is0'" "\<And>op is. op \<in> set b' \<Longrightarrow> f op is = g op is"
  shows "compile_loop f n b is0 = compile_loop g n' b' is0'"
proof -
  have "fold f b' = fold g b'" by (rule fold_ext) (rule assms(4))
  then show ?thesis unfolding assms(1-3) by (simp add: compile_loop_def)
qed

lemma compile_def_cong [fundef_cong]:
  assumes "ft = ft'" "name = name'" "ps = ps'" "b = b'" "is0 = is0'" "\<And>op is. op \<in> set b' \<Longrightarrow> f op is = g op is"
  shows "compile_def f ft name ps b is0 = compile_def g ft' name' ps' b' is0'"
proof -
  have "fold f b' = fold g b'" by (rule fold_ext) (rule assms(6))
  then show ?thesis unfolding assms(1-5) by (simp add: compile_def_def split: option.split)
qed

lemma compile_cases_ext:
  "(\<And>c b. (c, b) \<in> set cs \<Longrightarrow> fold f b = fold g b) \<Longrightarrow> compile_cases f mv cs ex is0 = compile_cases g mv cs ex is0"
proof (induction cs arbitrary: ex is0)
  case (Cons p cs)
  obtain v b where p: "p = (v, b)" by fastforce
  have "fold f b = fold g b" using Cons.prems [of v b] p by simp
  moreover have "compile_cases f mv cs ex is0 = compile_cases g mv cs ex is0" for ex is0
    by (rule Cons.IH) (use Cons.prems in auto)
  ultimately show ?case by (simp add: p Let_def)
qed simp

lemma compile_match_cong [fundef_cong]:
  assumes "v = v'" "cs = cs'" "d = d'" "is0 = is0'"
    "\<And>op is. op \<in> set v' \<union> (\<Union>(c, b) \<in> set cs'. set b) \<union> (case d' of Some b \<Rightarrow> set b | None \<Rightarrow> {}) \<Longrightarrow>
       f op is = g op is"
  shows "compile_match f v cs d is0 = compile_match g v' cs' d' is0'"
proof -
  have "fold f b = fold g b" if "(c, b) \<in> set cs'" for c b
    by (rule fold_ext, use assms(5) that in force)
  then have "compile_cases f mv cs' ex is0 = compile_cases g mv cs' ex is0" for mv ex is0
    by (rule compile_cases_ext)
  moreover have "fold f v' = fold g v'" "\<And>b. d' = Some b \<Longrightarrow> fold f b = fold g b"
    by (rule fold_ext, use assms(5) in force)+
  ultimately show ?thesis unfolding assms(1-4)
    by (simp add: compile_match_def Let_def split: option.splits prod.splits)
qed

text \<open>\<^verbatim>\<open>compile_ops\<close>: the dispatch on one operation, and the loop over a block.\<close>

function (sequential) compile_op :: "(string, nat) fmap \<Rightarrow> Op \<Rightarrow> code \<Rightarrow> code" where
  "compile_op ft (OpIf c t e) is0 = compile_if (compile_op ft) c t e is0"
| "compile_op ft (OpWhile c b) is0 = compile_while (compile_op ft) c b is0"
| "compile_op ft (OpLoop n b) is0 = compile_loop (compile_op ft) n b is0"
| "compile_op ft (OpDef name ps b) is0 = compile_def (compile_op ft) ft name ps b is0"
| "compile_op ft (OpMatch v cs d) is0 = compile_match (compile_op ft) v cs d is0"
| "compile_op ft op is0 = is0 @ [simple_code op]"
  by pat_completeness auto
termination
proof (relation "measure (\<lambda>(ft, op, is). size op)", goal_cases)
  case 1 then show ?case by simp
next
  case 2 then show ?case by (auto dest!: list_size split: option.splits)
next
  case 3 then show ?case by (auto dest!: list_size)
next
  case 4 then show ?case by (auto dest!: list_size)
next
  case 5 then show ?case by (auto dest!: list_size)
next
  case (6 ft v cs d is0 op isa)
  then consider "op \<in> set v" | c b where "(c, b) \<in> set cs" "op \<in> set b" | b where "d = Some b" "op \<in> set b"
    by (auto split: option.splits)
  then show ?case
    by cases (auto dest: list_size case_size)
qed

definition compile_ops :: "(string, nat) fmap \<Rightarrow> Op list \<Rightarrow> code \<Rightarrow> code" where
  "compile_ops ft ops is0 = fold (compile_op ft) ops is0"

record BytecodeProgram =
  bp_instructions :: code
  bp_function_table :: "(string, nat) fmap"
  bp_original_ops :: "Op list option"

text \<open>
  \<^verbatim>\<open>pre_process_functions\<close> compiles the functions to learn entry points and truncates the code again:
  the table keeps positions counted without the other operations.
\<close>

definition pre_process_functions :: "Op list \<Rightarrow> (string, nat) fmap" where
  "pre_process_functions ops =
     fst (fold (\<lambda>op (ft, is).
         case op of
           OpDef name params body \<Rightarrow>
             let ft' = fmupd name (length is) ft
             in (ft', compile_ops ft' body (is @ [BFunctionEntry name params]) @ [BReturn])
         | _ \<Rightarrow> (ft, is)) ops (fmempty, []))"

definition compile :: "Op list \<Rightarrow> BytecodeProgram" where
  "compile ops =
     (let ft = pre_process_functions ops
      in \<lparr>bp_instructions = compile_ops ft ops [], bp_function_table = ft, bp_original_ops = Some ops\<rparr>)"

section \<open>Interpreter\<close>

record 's BytecodeInterpreter =
  bi_pc :: nat
  bi_program :: code
  bi_vm :: "'s VM"

type_synonym 's bi_result = "(VMError fault, unit, 's BytecodeInterpreter) outcome"

definition interpreter_new :: "'s VM \<Rightarrow> BytecodeProgram \<Rightarrow> 's BytecodeInterpreter" where
  "interpreter_new vm p = \<lparr>bi_pc = 0, bi_program = bp_instructions p, bi_vm = vm\<rparr>"

text \<open>An operation on the machine, then the next instruction; a failing one does not advance.\<close>

definition on_vm :: "('s VM \<Rightarrow> (unit, 's) vm_result) \<Rightarrow> 's BytecodeInterpreter \<Rightarrow> 's bi_result" where
  "on_vm f b =
     (case f (bi_vm b) of
        (Inl e, vm) \<Rightarrow> (Inl e, b\<lparr>bi_vm := vm\<rparr>)
      | (Inr _, vm) \<Rightarrow> (Inr (), b\<lparr>bi_vm := vm, bi_pc := bi_pc b + 1\<rparr>))"

definition not_implemented :: "string \<Rightarrow> 's BytecodeInterpreter \<Rightarrow> 's bi_result" where
  "not_implemented msg b = (Inl (Err (VE_NotImplemented msg)), b)"

definition unary_not :: "string \<Rightarrow> 's VM \<Rightarrow> (unit, 's) vm_result" where
  "unary_not op_name vm =
     bindE (pop_one op_name vm) (\<lambda>v vm1.
       case execute_logical v ''not'' of
         Inl e \<Rightarrow> (Inl (Err e), vm1)
       | Inr r \<Rightarrow> (Inr (), vm_push r vm1))"

definition require_role :: "string \<Rightarrow> 's VM \<Rightarrow> (unit, 's) vm_result" where
  "require_role role vm =
     (case ex_auth_context (vm_executor vm) of
        None \<Rightarrow> (Inl (Err VE_IdentityContextUnavailable), vm)
      | Some a \<Rightarrow>
          if \<not> has_role ''global'' role a \<and> \<not> has_role (ex_namespace (vm_executor vm)) role a
          then (Inl (Err (VE_PermissionDenied (user_id a) ''require_role'' role)), vm)
          else (Inr (), vm))"

text \<open>\<open>dbg\<close> is the \<^verbatim>\<open>Debug\<close> text of an instruction.\<close>

definition execute_instruction ::
  "venv \<Rightarrow> (BytecodeOp \<Rightarrow> string) \<Rightarrow> 's StorageBackend \<Rightarrow> BytecodeOp \<Rightarrow> 's BytecodeInterpreter \<Rightarrow> 's bi_result" where
  "execute_instruction E dbg B op b = (case op of
     BPush v \<Rightarrow> on_vm (\<lambda>vm. (Inr (), vm_push v vm)) b
   | BStore name \<Rightarrow> on_vm (\<lambda>vm. bindE (pop_one ''Store'' vm) (\<lambda>v. on_memory (mem_store name v))) b
   | BLoad name \<Rightarrow>
       on_vm (\<lambda>vm. case mem_load name (vm_memory vm) of
                     Inl e \<Rightarrow> (Inl e, vm) | Inr v \<Rightarrow> (Inr (), vm_push v vm)) b
   | BAdd \<Rightarrow> on_vm (binary ''Add'' (\<lambda>x y. execute_arithmetic x y ''add'')) b
   | BSub \<Rightarrow> on_vm (binary ''Sub'' (\<lambda>x y. execute_arithmetic x y ''sub'')) b
   | BMul \<Rightarrow> on_vm (binary ''Mul'' (\<lambda>x y. execute_arithmetic x y ''mul'')) b
   | BDiv \<Rightarrow> on_vm (binary ''Div'' (\<lambda>x y. execute_arithmetic x y ''div'')) b
   | BEmit msg \<Rightarrow> on_vm (\<lambda>vm. (Inr (), vm_emit msg vm)) b
   | BEmitEvent c m \<Rightarrow> on_vm (\<lambda>vm. (Inr (), vm_emit_event E c m vm)) b
   | BCall f \<Rightarrow> not_implemented (''Function call '' @ quoted f @ '' not implemented yet'') b
   | BReturn \<Rightarrow> not_implemented ''Return not implemented yet'' b
   | BJumpIfZero addr \<Rightarrow>
       (case pop_one ''JumpIfZero'' (bi_vm b) of
          (Inl e, vm) \<Rightarrow> (Inl e, b\<lparr>bi_vm := vm\<rparr>)
        | (Inr v, vm) \<Rightarrow> (Inr (), b\<lparr>bi_vm := vm, bi_pc := if is_falsey v then addr else bi_pc b + 1\<rparr>))
   | BJump addr \<Rightarrow> (Inr (), b\<lparr>bi_pc := addr\<rparr>)
   | BFunctionEntry f _ \<Rightarrow> not_implemented (''Function entry '' @ quoted f @ '' not implemented yet'') b
   | BPrint \<Rightarrow> on_vm (\<lambda>vm. bindE (pop_one ''Print'' vm) (\<lambda>_ vm1. (Inr (), vm1))) b
   | BDup \<Rightarrow> on_vm (on_stack (stack_dup ''Dup'')) b
   | BPop \<Rightarrow> on_vm (\<lambda>vm. bindE (pop_one ''Pop'' vm) (\<lambda>_ vm1. (Inr (), vm1))) b
   | BSwap \<Rightarrow> on_vm (on_stack (stack_swap ''Swap'')) b
   | BEq \<Rightarrow> on_vm (binary ''Eq'' (\<lambda>x y. execute_comparison x y ''eq'')) b
   | BGt \<Rightarrow> on_vm (binary ''Gt'' (\<lambda>x y. execute_comparison x y ''gt'')) b
   | BLt \<Rightarrow> on_vm (binary ''Lt'' (\<lambda>x y. execute_comparison x y ''lt'')) b
   | BNegate \<Rightarrow> on_vm (unary_not ''Negate'') b
   | BAnd \<Rightarrow> on_vm (binary ''And'' (\<lambda>x y. execute_binary_logical x y ''and'')) b
   | BOr \<Rightarrow> on_vm (binary ''Or'' (\<lambda>x y. execute_binary_logical x y ''or'')) b
   | BNot \<Rightarrow> on_vm (unary_not ''Not'') b
   | BMod \<Rightarrow> on_vm (binary ''Mod'' (\<lambda>x y. execute_arithmetic x y ''mod'')) b
   | BCreateResource r \<Rightarrow> on_vm (on_executor (execute_create_resource E B r)) b
   | BMint r a n reason \<Rightarrow> on_vm (on_executor (execute_mint E B r a n reason)) b
   | BTransfer r x y n reason \<Rightarrow> on_vm (on_executor (execute_transfer E B r x y n reason)) b
   | BBurn r a n reason \<Rightarrow> on_vm (on_executor (execute_burn E B r a n reason)) b
   | BBalance r a \<Rightarrow>
       on_vm (\<lambda>vm. bindE (on_executor (execute_balance E B r a) vm) (\<lambda>v vm1. (Inr (), vm_push v vm1))) b
   | BVerifySignature \<Rightarrow> not_implemented ''VerifySignature not implemented'' b
   | BStoreStorage k \<Rightarrow>
       on_vm (\<lambda>vm. bindE (pop_one ''StoreStorage'' vm) (\<lambda>v. on_executor (execute_store_p E B k v))) b
   | BLoadStorage k \<Rightarrow>
       on_vm (\<lambda>vm. bindE (on_executor (execute_load_p E B k (vm_missing_key_behavior vm)) vm) (\<lambda>v vm1.
                     (Inr (), vm_push v vm1))) b
   | BNop \<Rightarrow> on_vm (\<lambda>vm. (Inr (), vm)) b
   | BRequireRole role \<Rightarrow> on_vm (require_role role) b
   | BMinDeliberation d \<Rightarrow>
       on_vm (\<lambda>vm. (Inr (), vm_emit_event E ''governance'' (''Minimum deliberation period: '' @ dbg_duration E d) vm)) b
   | BExpiresIn d \<Rightarrow>
       on_vm (\<lambda>vm. (Inr (), vm_emit_event E ''governance'' (''Expires in: '' @ dbg_duration E d) vm)) b
   | BIncrementReputation i n reason \<Rightarrow>
       (Inr (), b\<lparr>bi_program := bi_program b @ [BIncrementReputation i n reason], bi_pc := bi_pc b + 1\<rparr>)
   | _ \<Rightarrow> not_implemented (''Operation not implemented in bytecode: '' @ dbg op) b)"

text \<open>The loop of \<^verbatim>\<open>execute\<close>: it ends when the program counter leaves the code; fuel bounds its rounds.\<close>

fun run :: "venv \<Rightarrow> (BytecodeOp \<Rightarrow> string) \<Rightarrow> 's StorageBackend \<Rightarrow> nat \<Rightarrow> 's BytecodeInterpreter \<Rightarrow> 's bi_result option" where
  "run E dbg B 0 b = None"
| "run E dbg B (Suc n) b =
     (if bi_pc b < length (bi_program b)
      then obind (Some (execute_instruction E dbg B (bi_program b ! bi_pc b) b)) (\<lambda>_. run E dbg B n)
      else Some (Inr (), b))"

definition bytecode_execute ::
  "venv \<Rightarrow> (BytecodeOp \<Rightarrow> string) \<Rightarrow> 's StorageBackend \<Rightarrow> nat \<Rightarrow> 's BytecodeInterpreter \<Rightarrow> 's bi_result option" where
  "bytecode_execute E dbg B n b = run E dbg B n (b\<lparr>bi_pc := 0\<rparr>)"

end
