(* ===== verification/Compiler.thy ===== *)
theory Compiler
  imports Bytecode
begin

text \<open>
  Correctness of the bytecode compiler on the fragment both engines implement alike. The
  back-patching compiler equals a relocatable reference compiler \<open>code_op\<close>, which gives the code of
  an operation from its start address; the code of a block run by the bytecode interpreter then gives
  what \<^verbatim>\<open>VM::execute\<close> gives for the block: the same result, error included, and the same machine
  state. The fragment has no calls, matches, assertions and governance operations, and loops of at
  most five rounds, which the compiler unrolls; the modes that make the machine write extra output are
  off.
\<close>

section \<open>The fragment\<close>

definition plain_op :: "Op \<Rightarrow> bool" where
  "plain_op op = (case op of
     OpPush _ \<Rightarrow> True | OpAdd \<Rightarrow> True | OpSub \<Rightarrow> True | OpMul \<Rightarrow> True | OpDiv \<Rightarrow> True | OpMod \<Rightarrow> True
   | OpStore _ \<Rightarrow> True | OpLoad _ \<Rightarrow> True | OpEmit _ \<Rightarrow> True | OpPop \<Rightarrow> True
   | OpEq \<Rightarrow> True | OpGt \<Rightarrow> True | OpLt \<Rightarrow> True | OpNot \<Rightarrow> True | OpAnd \<Rightarrow> True | OpOr \<Rightarrow> True
   | OpDup \<Rightarrow> True | OpSwap \<Rightarrow> True | OpNop \<Rightarrow> True | OpEmitEvent _ _ \<Rightarrow> True
   | OpStoreP _ \<Rightarrow> True | OpLoadP _ \<Rightarrow> True | OpCreateResource _ \<Rightarrow> True | OpMint _ _ _ _ \<Rightarrow> True
   | OpTransfer _ _ _ _ _ \<Rightarrow> True | OpBurn _ _ _ _ \<Rightarrow> True | OpBalance _ _ \<Rightarrow> True
   | _ \<Rightarrow> False)"

fun compilable :: "Op \<Rightarrow> bool" where
  "compilable (OpIf c t e) =
     ((\<forall>o' \<in> set c. compilable o') \<and> (\<forall>o' \<in> set t. compilable o') \<and>
      (case e of Some b \<Rightarrow> (\<forall>o' \<in> set b. compilable o') | None \<Rightarrow> True))"
| "compilable (OpWhile c b) = ((\<forall>o' \<in> set c. compilable o') \<and> (\<forall>o' \<in> set b. compilable o'))"
| "compilable (OpLoop n b) = (n \<le> 5 \<and> (\<forall>o' \<in> set b. compilable o'))"
| "compilable op = plain_op op"

abbreviation compilables :: "Op list \<Rightarrow> bool" where
  "compilables ops \<equiv> \<forall>op \<in> set ops. compilable op"

section \<open>The reference compiler\<close>

primrec code_seq :: "(Op \<Rightarrow> nat \<Rightarrow> code) \<Rightarrow> Op list \<Rightarrow> nat \<Rightarrow> code" where
  "code_seq cg [] n = []"
| "code_seq cg (op # ops) n = cg op n @ code_seq cg ops (n + length (cg op n))"

lemma code_seq_cong [fundef_cong]:
  "ops = ops' \<Longrightarrow> n = n' \<Longrightarrow> (\<And>op k. op \<in> set ops' \<Longrightarrow> f op k = g op k) \<Longrightarrow> code_seq f ops n = code_seq g ops' n'"
  by (induction ops arbitrary: ops' n n') auto

lemma code_seq_append:
  "code_seq cg (a @ b) n = code_seq cg a n @ code_seq cg b (n + length (code_seq cg a n))"
  by (induction a arbitrary: n) (simp_all add: add.assoc)

function (sequential) code_op :: "Op \<Rightarrow> nat \<Rightarrow> code" where
  "code_op (OpIf c t None) n =
     (let cc = code_seq code_op c n;
          m = n + length cc + 1;
          ct = code_seq code_op t m
      in cc @ [BJumpIfZero (m + length ct)] @ ct)"
| "code_op (OpIf c t (Some b)) n =
     (let cc = code_seq code_op c n;
          m = n + length cc + 1;
          ct = code_seq code_op t m;
          k = m + length ct + 1;
          ce = code_seq code_op b k
      in cc @ [BJumpIfZero k] @ ct @ [BJump (k + length ce)] @ ce)"
| "code_op (OpWhile c b) n =
     (let cc = code_seq code_op c n;
          m = n + length cc + 1;
          cb = code_seq code_op b m
      in cc @ [BJumpIfZero (m + length cb + 1)] @ cb @ [BJump n])"
| "code_op (OpLoop k b) n = code_seq code_op (concat (replicate k b)) n"
| "code_op op n = [simple_code op]"
  by pat_completeness auto
termination
  by (relation "measure (\<lambda>(op, n). size op)") (auto dest!: list_size split: if_splits)

abbreviation code_ops :: "Op list \<Rightarrow> nat \<Rightarrow> code" where
  "code_ops \<equiv> code_seq code_op"

section \<open>Back-patching\<close>

lemma patch_jz_at: "length pre = n \<Longrightarrow> patch_jz n a (pre @ BJumpIfZero x # post) = pre @ BJumpIfZero a # post"
  by (auto simp: patch_jz_def nth_append list_update_append)

lemma patch_jump_at: "length pre = n \<Longrightarrow> patch_jump n a (pre @ BJump x # post) = pre @ BJump a # post"
  by (auto simp: patch_jump_def nth_append list_update_append)

lemma patch_simps [simp]:
  "n = length p + length q \<Longrightarrow> patch_jz n a (p @ q @ BJumpIfZero x # post) = p @ q @ BJumpIfZero a # post"
  "n = Suc (length p + length q + length r) \<Longrightarrow>
     patch_jump n a (p @ q @ i # r @ BJump x # post) = p @ q @ i # r @ BJump a # post"
  using patch_jz_at [of "p @ q" n] patch_jump_at [of "p @ q @ i # r" n] by simp_all

lemma fold_compile:
  assumes "\<And>op is0. op \<in> set ops \<Longrightarrow> cg op is0 = is0 @ code_op op (length is0)"
  shows "fold cg ops is0 = is0 @ code_ops ops (length is0)"
  using assms by (induction ops arbitrary: is0) simp_all

lemma funpow_fold: "(fold f b ^^ n) s = fold f (concat (replicate n b)) s"
  by (induction n arbitrary: s) (simp_all add: funpow_swap1 del: funpow.simps(2) add: funpow_Suc_right)

lemma compile_op_code: "compilable op \<Longrightarrow> compile_op ft op is0 = is0 @ code_op op (length is0)"
proof (induction ft op is0 rule: compile_op.induct)
  case (1 ft c t e is0)
  have f: "fold (compile_op ft) b is1 = is1 @ code_ops b (length is1)" if "b = c \<or> b = t \<or> e = Some b" for b is1
    by (rule fold_compile, rule "1.IH") (use "1.prems" that in auto)
  show ?case by (cases e) (simp_all add: compile_if_def Let_def f add.assoc)
next
  case (2 ft c b is0)
  have f: "fold (compile_op ft) d is1 = is1 @ code_ops d (length is1)" if "d = c \<or> d = b" for d is1
    by (rule fold_compile, rule "2.IH") (use "2.prems" that in auto)
  show ?case by (simp add: compile_while_def Let_def f)
next
  case (3 ft n b is0)
  have f: "fold (compile_op ft) (concat (replicate n b)) is0 = is0 @ code_ops (concat (replicate n b)) (length is0)"
    by (rule fold_compile, rule "3.IH") (use "3.prems" in \<open>auto split: if_splits\<close>)
  show ?case using "3.prems" by (simp add: compile_loop_def funpow_fold f)
qed (simp_all add: plain_op_def)

lemma compile_code:
  assumes "compilables ops"
  shows "bp_instructions (compile ops) = code_ops ops 0"
proof -
  have "fold (compile_op ft) ops [] = [] @ code_ops ops (length ([] :: code))" for ft
    by (rule fold_compile) (use assms in \<open>simp add: compile_op_code\<close>)
  then show ?thesis by (simp add: compile_def compile_ops_def Let_def)
qed

section \<open>Steps of the bytecode machine\<close>

text \<open>A configuration is a program counter and a machine; the program does not change.\<close>

type_synonym 's config = "nat \<times> 's VM"

definition interp :: "code \<Rightarrow> 's config \<Rightarrow> 's BytecodeInterpreter" where
  "interp P c = \<lparr>bi_pc = fst c, bi_program = P, bi_vm = snd c\<rparr>"

definition steps_to :: "venv \<Rightarrow> (BytecodeOp \<Rightarrow> string) \<Rightarrow> 's StorageBackend \<Rightarrow> code \<Rightarrow> 's config \<Rightarrow> 's config \<Rightarrow> bool" where
  "steps_to E dbg B P c c' \<longleftrightarrow>
     fst c < length P \<and> execute_instruction E dbg B (P ! fst c) (interp P c) = (Inr (), interp P c')"

definition fails_with :: "venv \<Rightarrow> (BytecodeOp \<Rightarrow> string) \<Rightarrow> 's StorageBackend \<Rightarrow> code \<Rightarrow> 's config \<Rightarrow> VMError fault \<Rightarrow> 's VM \<Rightarrow> bool" where
  "fails_with E dbg B P c e vm \<longleftrightarrow>
     fst c < length P \<and> (\<exists>b. execute_instruction E dbg B (P ! fst c) (interp P c) = (Inl e, b) \<and> bi_vm b = vm)"

text \<open>From a configuration the machine gets to an address with the outcome, or fails with it.\<close>

definition gives :: "venv \<Rightarrow> (BytecodeOp \<Rightarrow> string) \<Rightarrow> 's StorageBackend \<Rightarrow> code \<Rightarrow> 's config \<Rightarrow> nat \<Rightarrow> ('a, 's) vm_result \<Rightarrow> bool" where
  "gives E dbg B P c pc r =
     (case r of
        (Inr _, vm) \<Rightarrow> (steps_to E dbg B P)\<^sup>*\<^sup>* c (pc, vm)
      | (Inl e, vm) \<Rightarrow> \<exists>c'. (steps_to E dbg B P)\<^sup>*\<^sup>* c c' \<and> fails_with E dbg B P c' e vm)"

lemma gives_simps [simp]:
  "gives E dbg B P c pc (Inr a, vm) = (steps_to E dbg B P)\<^sup>*\<^sup>* c (pc, vm)"
  "gives E dbg B P c pc (Inl e, vm) = (\<exists>c'. (steps_to E dbg B P)\<^sup>*\<^sup>* c c' \<and> fails_with E dbg B P c' e vm)"
  by (simp_all add: gives_def)

lemma gives_steps:
  "(steps_to E dbg B P)\<^sup>*\<^sup>* c c' \<Longrightarrow> gives E dbg B P c' pc r \<Longrightarrow> gives E dbg B P c pc r"
  by (cases r; cases "fst r") (auto intro: rtranclp_trans)

lemma gives_obind:
  assumes "obind m f = Some r"
    "\<And>x. m = Some x \<Longrightarrow> gives E dbg B P c k x"
    "\<And>a vm. m = Some (Inr a, vm) \<Longrightarrow> f a vm = Some r \<Longrightarrow> gives E dbg B P (k, vm) pc r"
  shows "gives E dbg B P c pc r"
proof (cases r)
  case (Pair q vm)
  with assms(1) consider e where "m = Some (Inl e, vm)" "q = Inl e" | a vm1 where "m = Some (Inr a, vm1)" "f a vm1 = Some r"
    by (auto simp: obind_Some_iff)
  then show ?thesis
  proof cases
    case 1
    then show ?thesis using assms(2) Pair by fastforce
  next
    case 2
    then show ?thesis using assms(2) [OF 2(1)] assms(3) [OF 2] by (auto intro: gives_steps)
  qed
qed

definition code_at :: "code \<Rightarrow> nat \<Rightarrow> code \<Rightarrow> bool" where
  "code_at P n c \<longleftrightarrow> (\<exists>pre post. P = pre @ c @ post \<and> length pre = n)"

lemma code_at_append [simp]: "code_at P n (a @ b) \<longleftrightarrow> code_at P n a \<and> code_at P (n + length a) b"
proof
  assume "code_at P n (a @ b)"
  then obtain pre post where p: "P = pre @ (a @ b) @ post" "length pre = n" by (auto simp: code_at_def)
  have "P = pre @ a @ (b @ post)" "P = (pre @ a) @ b @ post" "length (pre @ a) = n + length a" using p by simp_all
  then show "code_at P n a \<and> code_at P (n + length a) b" unfolding code_at_def using p(2) by blast
next
  assume h: "code_at P n a \<and> code_at P (n + length a) b"
  obtain pre post where p: "P = pre @ a @ post" "length pre = n" using h unfolding code_at_def by blast
  obtain pre' post' where p': "P = pre' @ b @ post'" "length pre' = n + length a"
    using h unfolding code_at_def by blast
  have "pre' = pre @ a" using p p' by (metis append_assoc append_eq_append_conv length_append)
  then have "P = pre @ (a @ b) @ post'" using p'(1) by simp
  then show "code_at P n (a @ b)" unfolding code_at_def using p(2) by blast
qed

lemma code_at_Nil [simp]: "code_at P n [] \<longleftrightarrow> n \<le> length P"
proof
  assume "n \<le> length P"
  then have "P = take n P @ [] @ drop n P" "length (take n P) = n" by simp_all
  then show "code_at P n []" unfolding code_at_def by blast
qed (auto simp: code_at_def)

lemma code_at_Cons [simp]:
  "code_at P n (i # c) \<longleftrightarrow> n < length P \<and> P ! n = i \<and> code_at P (Suc n) c"
proof -
  have "code_at P n [i] \<longleftrightarrow> n < length P \<and> P ! n = i"
  proof
    assume "n < length P \<and> P ! n = i"
    then have "P = take n P @ [i] @ drop (Suc n) P" "length (take n P) = n"
      by (auto simp: id_take_nth_drop)
    then show "code_at P n [i]" unfolding code_at_def by blast
  qed (auto simp: code_at_def)
  then show ?thesis using code_at_append [of P n "[i]" c] by simp
qed

section \<open>Modes\<close>

definition unlogged :: "'s VM \<Rightarrow> bool" where
  "unlogged vm \<longleftrightarrow> \<not> vm_explain_enabled vm \<and> \<not> vm_simulation_mode vm \<and> \<not> vm_verbose_storage_trace vm"

lemma unlogged_simps [simp]:
  "unlogged (vm_push v vm) = unlogged vm"
  "unlogged (vm_emit t vm) = unlogged vm"
  "unlogged (vm_emit_event E c t vm) = unlogged vm"
  "unlogged (vm\<lparr>vm_memory := m\<rparr>) = unlogged vm"
  "unlogged (vm\<lparr>vm_stack := s\<rparr>) = unlogged vm"
  "unlogged (vm\<lparr>vm_executor := x\<rparr>) = unlogged vm"
  by (simp_all add: unlogged_def vm_push_def vm_emit_def vm_emit_event_def)

lemma unlogged_log [simp]:
  "unlogged vm \<Longrightarrow> log_explanation E op vm = vm"
  "unlogged vm \<Longrightarrow> log_storage_operation E o' k v vm = vm"
  by (simp_all add: unlogged_def log_explanation_def log_storage_operation_def)

lemma unlogged_on:
  "on_stack f vm = (r, vm') \<Longrightarrow> unlogged vm' = unlogged vm"
  "on_memory g vm = (q, vm') \<Longrightarrow> unlogged vm' = unlogged vm"
  "on_executor h vm = (u, vm') \<Longrightarrow> unlogged vm' = unlogged vm"
  by (auto simp: on_stack_def on_memory_def on_executor_def split: prod.splits)

lemma unlogged_pop:
  "pop_one n vm = (r, vm') \<Longrightarrow> unlogged vm' = unlogged vm"
  "pop_two n vm = (q, vm') \<Longrightarrow> unlogged vm' = unlogged vm"
  by (auto simp: pop_one_def pop_two_def dest: unlogged_on)

lemma unlogged_bindE:
  assumes "bindE m f = (r, vm')" "\<And>q v. m = (q, v) \<Longrightarrow> unlogged v"
    "\<And>a v q w. unlogged v \<Longrightarrow> f a v = (q, w) \<Longrightarrow> unlogged w"
  shows "unlogged vm'"
  using assms by (auto simp: bindE_def split: prod.splits sum.splits)

lemma unlogged_binary: "binary n f vm = (r, vm') \<Longrightarrow> unlogged vm \<Longrightarrow> unlogged vm'"
  unfolding binary_def by (erule unlogged_bindE) (auto dest: unlogged_pop split: sum.splits)

lemma pop_one_name: "pop_one n vm = pop_one n' vm"
  by (simp add: pop_one_def on_stack_def stack_pop_def)

lemma exec_basic_unlogged:
  assumes "exec_basic E B op vm = (r, vm')" "plain_op op" "unlogged vm"
  shows "unlogged vm'"
  using assms
  by (cases op)
    (auto simp: exec_basic_def plain_op_def split: sum.splits elim!: unlogged_bindE
      dest!: unlogged_pop unlogged_on dest: unlogged_binary)

lemma on_vm_interp:
  "on_vm f (interp P (n, vm)) =
     (case f vm of (Inl e, vm') \<Rightarrow> (Inl e, interp P (n, vm')) | (Inr _, vm') \<Rightarrow> (Inr (), interp P (Suc n, vm')))"
  by (simp add: on_vm_def interp_def split: prod.split sum.split)

lemma basic_instruction:
  assumes "plain_op op" "unlogged vm"
  shows "execute_instruction E dbg B (simple_code op) (interp P (n, vm)) = on_vm (exec_basic E B op) (interp P (n, vm))"
proof -
  have "bindE (pop_one ''StoreStorage'' vm) (\<lambda>v. on_executor (execute_store_p E B k v)) =
      bindE (pop_one ''StoreP'' vm) (\<lambda>v vm1. on_executor (execute_store_p E B k v) (log_storage_operation E ''StoreP'' k v vm1))" for k
    using assms(2) pop_one_name [of "''StoreStorage''" vm "''StoreP''"]
    by (auto simp: bindE_def dest: unlogged_pop split: prod.splits sum.splits)
  moreover have "bindE (on_executor f vm) (\<lambda>v vm1. (Inr (), vm_push v vm1)) =
      bindE (on_executor f vm) (\<lambda>v vm1. (Inr (), vm_push v (log_storage_operation E ''LoadP'' k v vm1)))" for f k
    using assms(2) by (auto simp: bindE_def dest: unlogged_on split: prod.splits sum.splits)
  ultimately show ?thesis
    using assms
    by (cases op) (simp_all add: plain_op_def simple_code_def execute_instruction_def exec_basic_def unary_not_def
      on_vm_interp)
qed

lemma gives_basic:
  assumes "plain_op op" "unlogged vm" "code_at P n [simple_code op]"
  shows "gives E dbg B P (n, vm) (Suc n) (exec_basic E B op vm)"
proof (cases "exec_basic E B op vm")
  case (Pair r vm')
  have at: "n < length P" "P ! n = simple_code op" using assms(3) by simp_all
  show ?thesis
  proof (cases r)
    case (Inl e)
    then have "fails_with E dbg B P (n, vm) e vm'"
      using at Pair basic_instruction [OF assms(1,2), of E dbg B P n] by (simp add: fails_with_def on_vm_def interp_def)
    then show ?thesis using Inl Pair by auto
  next
    case (Inr u)
    then have "steps_to E dbg B P (n, vm) (Suc n, vm')"
      using at Pair basic_instruction [OF assms(1,2), of E dbg B P n] by (simp add: steps_to_def on_vm_def interp_def)
    then show ?thesis using Inr Pair by auto
  qed
qed

lemma gives_jump:
  "code_at P n [BJump a] \<Longrightarrow> steps_to E dbg B P (n, vm) (a, vm)"
  by (simp add: steps_to_def execute_instruction_def interp_def)

lemma gives_branch:
  assumes "code_at P n [BJumpIfZero a]" "pop_one s vm = (r, vm')"
  shows "(case r of Inl e \<Rightarrow> fails_with E dbg B P (n, vm) e vm'
          | Inr v \<Rightarrow> steps_to E dbg B P (n, vm) (if is_falsey v then a else Suc n, vm'))"
  using assms pop_one_name [of "''JumpIfZero''" vm s]
  by (auto simp: steps_to_def fails_with_def execute_instruction_def interp_def split: sum.splits)

section \<open>Simulation\<close>

definition yields :: "venv \<Rightarrow> (BytecodeOp \<Rightarrow> string) \<Rightarrow> 's StorageBackend \<Rightarrow> code \<Rightarrow> 's config \<Rightarrow> nat \<Rightarrow> ('a, 's) vm_result \<Rightarrow> bool" where
  "yields E dbg B P c pc r \<longleftrightarrow> gives E dbg B P c pc r \<and> unlogged (snd r)"

lemma yields_obind:
  assumes "obind m f = Some r"
    "\<And>x. m = Some x \<Longrightarrow> yields E dbg B P c k x"
    "\<And>a vm. m = Some (Inr a, vm) \<Longrightarrow> unlogged vm \<Longrightarrow> f a vm = Some r \<Longrightarrow> yields E dbg B P (k, vm) pc r"
  shows "yields E dbg B P c pc r"
proof -
  have "gives E dbg B P c pc r"
    using assms(1) by (rule gives_obind) (use assms(2,3) in \<open>fastforce simp: yields_def\<close>)+
  moreover have "unlogged (snd r)"
    using assms by (cases r) (fastforce simp: obind_Some_iff yields_def)
  ultimately show ?thesis by (simp add: yields_def)
qed

lemma yields_step:
  "steps_to E dbg B P c c' \<Longrightarrow> yields E dbg B P c' pc r \<Longrightarrow> yields E dbg B P c pc r"
  by (auto simp: yields_def intro: gives_steps)

lemma yields_here: "unlogged vm \<Longrightarrow> yields E dbg B P (pc, vm) pc (Inr a, vm)"
  by (simp add: yields_def)

lemma yields_branch:
  assumes "obind (Some (pop_one s vm)) f = Some r" "code_at P n [BJumpIfZero a]" "unlogged vm"
    "\<And>v vm'. unlogged vm' \<Longrightarrow> f v vm' = Some r \<Longrightarrow> yields E dbg B P (if is_falsey v then a else Suc n, vm') pc r"
  shows "yields E dbg B P (n, vm) pc r"
proof (cases "pop_one s vm")
  case (Pair q vm')
  have u: "unlogged vm'" using Pair assms(3) by (simp add: unlogged_pop)
  note br = gives_branch [OF assms(2) Pair, of E dbg B]
  show ?thesis
  proof (cases q)
    case (Inl e)
    then show ?thesis using assms(1) Pair u br by (auto simp: yields_def simp del: split_paired_Ex)
  next
    case (Inr v)
    with assms(1) Pair have "f v vm' = Some r" by simp
    then show ?thesis using Inr br assms(4) [OF u] by (auto intro: yields_step)
  qed
qed

lemma yields_then_jump:
  assumes "yields E dbg B P c k r" "code_at P k [BJump a]"
  shows "yields E dbg B P c a r"
proof (cases r)
  case (Pair q vm)
  show ?thesis
  proof (cases q)
    case (Inr u)
    then have "(steps_to E dbg B P)\<^sup>*\<^sup>* c (k, vm)" using assms(1) Pair by (simp add: yields_def)
    then have "(steps_to E dbg B P)\<^sup>*\<^sup>* c (a, vm)" using gives_jump [OF assms(2)] by (rule rtranclp.rtrancl_into_rtrancl)
    then show ?thesis using assms(1) Pair Inr by (simp add: yields_def)
  qed (use assms(1) Pair in \<open>simp add: yields_def\<close>)
qed

lemma exec_while_lc: "exec_while inner c b n LC_None vm = Some (Inr lc, vm') \<Longrightarrow> lc = LC_None"
  by (induction n arbitrary: vm) (auto simp: obind_Some_iff split: if_splits)

lemma exec_loop_lc: "exec_loop inner b n LC_None vm = Some (Inr lc, vm') \<Longrightarrow> lc = LC_None"
  by (induction n arbitrary: vm) (auto simp: obind_Some_iff)

definition sim_block :: "venv \<Rightarrow> (BytecodeOp \<Rightarrow> string) \<Rightarrow> 's StorageBackend \<Rightarrow> 's block_runner \<Rightarrow> bool" where
  "sim_block E dbg B inner \<longleftrightarrow>
     (\<forall>ops vm r P k. inner ops vm = Some r \<longrightarrow> compilables ops \<longrightarrow> unlogged vm \<longrightarrow> code_at P k (code_ops ops k) \<longrightarrow>
        yields E dbg B P (k, vm) (k + length (code_ops ops k)) r)"

lemma sim_blockD:
  "sim_block E dbg B inner \<Longrightarrow> inner ops vm = Some r \<Longrightarrow> compilables ops \<Longrightarrow> unlogged vm \<Longrightarrow>
     code_at P k (code_ops ops k) \<Longrightarrow> pc = k + length (code_ops ops k) \<Longrightarrow> yields E dbg B P (k, vm) pc r"
  unfolding sim_block_def by blast

lemma exec_if_sim:
  assumes sim: "sim_block E dbg B inner" and run: "exec_if inner c t e vm = Some r"
    and ok: "compilable (OpIf c t e)" "unlogged vm" and at: "code_at P k (code_op (OpIf c t e) k)"
  shows "yields E dbg B P (k, vm) (k + length (code_op (OpIf c t e) k)) r"
proof -
  let ?cc = "code_ops c k" let ?m = "k + length ?cc + 1"
  let ?ct = "code_ops t ?m" let ?k = "?m + length ?ct + 1"
  let ?pc = "k + length (code_op (OpIf c t e) k)"
  let ?a = "if e = None then ?m + length ?ct else ?k"
  have cc: "code_at P k ?cc" and jz: "code_at P (k + length ?cc) [BJumpIfZero ?a]" and ct: "code_at P ?m ?ct"
    using at by (cases e; simp add: Let_def)+
  show ?thesis using run unfolding exec_if_def
  proof (rule yields_obind [where k = "k + length ?cc"], goal_cases)
    case (1 x)
    then show ?case using sim ok cc by (auto elim!: sim_blockD)
  next
    case (2 a vm1)
    from 2(3) jz 2(2) show ?case
    proof (rule yields_branch, goal_cases)
      case (1 v vm2)
      show ?case
      proof (cases "is_falsey v")
        case True
        show ?thesis
        proof (cases e)
          case None
          then show ?thesis using True 1 by (auto simp: Let_def add.assoc intro!: yields_here)
        next
          case (Some b)
          have "inner b vm2 = Some r" "compilables b" "code_at P ?k (code_ops b ?k)"
            using True 1 ok at Some by (simp_all add: Let_def add.assoc)
          from sim_blockD [OF sim this(1,2) 1(1) this(3) refl] show ?thesis
            using True Some by (simp add: Let_def add.assoc)
        qed
      next
        case False
        with 1 have "inner t vm2 = Some r" by simp
        then have "yields E dbg B P (?m, vm2) (?m + length ?ct) r" by (rule sim_blockD [OF sim]) (use ok 1 ct in auto)
        moreover have "code_at P (?m + length ?ct) [BJump ?pc]" if "e \<noteq> None"
          using at that by (auto simp: Let_def add.assoc)
        moreover have "?m + length ?ct = ?pc" if "e = None"
          using that by (simp add: Let_def add.assoc)
        ultimately have "yields E dbg B P (?m, vm2) ?pc r"
          by (cases "e = None") (metis, metis yields_then_jump)
        then show ?thesis using False by simp
      qed
    qed
  qed
qed

lemma exec_while_sim:
  assumes sim: "sim_block E dbg B inner" and run: "exec_while inner c b n LC_None vm = Some r"
    and ok: "compilable (OpWhile c b)" "unlogged vm" and at: "code_at P k (code_op (OpWhile c b) k)"
  shows "yields E dbg B P (k, vm) (k + length (code_op (OpWhile c b) k)) r"
  using run ok(2)
proof (induction n arbitrary: vm r)
  case (Suc n)
  let ?cc = "code_ops c k" let ?m = "k + length ?cc + 1" let ?cb = "code_ops b ?m"
  let ?pc = "k + length (code_op (OpWhile c b) k)"
  have cc: "code_at P k ?cc" and jz: "code_at P (k + length ?cc) [BJumpIfZero ?pc]" and cb: "code_at P ?m ?cb"
    and j: "code_at P (?m + length ?cb) [BJump k]"
    using at by (simp_all add: Let_def add.assoc)
  show ?case
    using Suc.prems(1) unfolding exec_while.simps
  proof (rule yields_obind [where k = "k + length ?cc"], goal_cases)
    case (1 x)
    then show ?case using sim ok(1) Suc.prems(2) cc by (auto elim!: sim_blockD)
  next
    case (2 a vm1)
    from 2(3) jz 2(2) show ?case
    proof (rule yields_branch, goal_cases)
      case (1 v vm2)
      show ?case
      proof (cases "is_falsey v")
        case True
        then show ?thesis using 1 by (auto intro!: yields_here)
      next
        case False
        with 1 have "obind (inner b vm2) (\<lambda>_. exec_while inner c b n LC_None) = Some r" by simp
        then have "yields E dbg B P (?m, vm2) ?pc r"
        proof (rule yields_obind [where k = "?m + length ?cb"], goal_cases)
          case (1 x)
          then show ?case using ok(1) cb sim \<open>unlogged vm2\<close> by (auto elim!: sim_blockD)
        next
          case (2 a vm3)
          then show ?case using Suc.IH gives_jump [OF j] by (blast intro: yields_step)
        qed
        then show ?thesis using False by simp
      qed
    qed
  qed
qed simp

lemma exec_loop_sim:
  assumes sim: "sim_block E dbg B inner" and run: "exec_loop inner b n LC_None vm = Some r"
    and ok: "compilables b" "unlogged vm" and at: "code_at P k (code_ops (concat (replicate n b)) k)"
  shows "yields E dbg B P (k, vm) (k + length (code_ops (concat (replicate n b)) k)) r"
  using run ok(2) at
proof (induction n arbitrary: vm k)
  case 0
  then show ?case by (auto intro: yields_here)
next
  case (Suc n)
  let ?k = "k + length (code_ops b k)"
  have at: "code_at P k (code_ops b k)" "code_at P ?k (code_ops (concat (replicate n b)) ?k)"
    using Suc.prems(3) by (simp_all add: code_seq_append)
  show ?case using Suc.prems(1) unfolding exec_loop.simps
  proof (rule yields_obind [where k = ?k], goal_cases)
    case (1 x)
    then show ?case by (rule sim_blockD [OF sim]) (use ok(1) Suc.prems(2) at in auto)
  next
    case (2 a vm1)
    then have "exec_loop inner b n LC_None vm1 = Some r" by simp
    from Suc.IH [OF this 2(2) at(2)] show ?case by (simp add: code_seq_append add.assoc)
  qed
qed

lemma yields_Go:
  assumes "obind m (\<lambda>lc vm. Some (Inr (Go (f lc)), vm)) = Some r" "\<And>x. m = Some x \<Longrightarrow> yields E dbg B P c pc x"
  shows "yields E dbg B P c pc r"
  using assms(1) by (rule yields_obind) (use assms(2) in \<open>auto intro: yields_here\<close>)

lemma compilable_dispatch:
  assumes "compilable op"
  obtains (basic) "plain_op op" "dispatch op = D_Basic" "code_op op = (\<lambda>n. [simple_code op])"
  | (if') c t e where "op = OpIf c t e"
  | (while) c b where "op = OpWhile c b"
  | (loop) n b where "op = OpLoop n b"
proof (cases "plain_op op")
  case True
  then have "dispatch op = D_Basic" "code_op op = (\<lambda>n. [simple_code op])"
    by (cases op; simp add: plain_op_def dispatch_def fun_eq_iff)+
  then show ?thesis using True by (rule that(1) [rotated 1])
next
  case False
  then show ?thesis using assms that by (cases op) simp_all
qed

lemma exec_op_sim:
  assumes sim: "sim_block E dbg B inner" and run: "exec_op E B inner n op LC_None vm = Some r"
    and ok: "compilable op" "unlogged vm" and at: "code_at P k (code_op op k)"
  shows "yields E dbg B P (k, vm) (k + length (code_op op k)) r \<and> (\<forall>fl. fst r = Inr fl \<longrightarrow> fl = Go LC_None)"
  using ok(1)
proof (cases rule: compilable_dispatch)
  case basic
  then have run': "obind (Some (exec_basic E B op vm)) (\<lambda>_ vm. Some (Inr (Go LC_None), vm)) = Some r"
    using run ok(2) by (simp add: exec_op_def Let_def going_def unlogged_def [of vm])
  have "yields E dbg B P (k, vm) (Suc k) (exec_basic E B op vm)"
    unfolding yields_def
    using gives_basic [OF basic(1) ok(2), of P k E dbg B] at basic exec_basic_unlogged [OF _ basic(1) ok(2)]
    by (metis prod.collapse)
  with yields_Go [OF run'] show ?thesis using basic run' by (cases r) (auto simp: obind_Some_iff)
next
  case (if' c t e)
  then have run': "obind (exec_if inner c t e vm) (\<lambda>_ vm. Some (Inr (Go LC_None), vm)) = Some r"
    using run ok(2) by (simp add: exec_op_def Let_def going_def unlogged_def [of vm] dispatch_def simulated_def)
  from yields_Go [OF run' exec_if_sim [OF sim _ ok(1) [unfolded if'] ok(2) at [unfolded if']]]
  show ?thesis using if' run' by (cases r) (auto simp: obind_Some_iff)
next
  case (while c b)
  then have run': "obind (exec_while inner c b n LC_None vm) (\<lambda>lc vm. Some (Inr (Go lc), vm)) = Some r"
    using run ok(2) by (simp add: exec_op_def Let_def unlogged_def [of vm] dispatch_def simulated_def)
  from yields_Go [OF run' exec_while_sim [OF sim _ ok(1) [unfolded while] ok(2) at [unfolded while]]]
  show ?thesis using while run' by (cases r) (auto simp: obind_Some_iff dest: exec_while_lc)
next
  case (loop m b)
  then have run': "obind (exec_loop inner b m LC_None vm) (\<lambda>lc vm. Some (Inr (Go lc), vm)) = Some r"
    using run ok(2) by (simp add: exec_op_def Let_def unlogged_def [of vm] dispatch_def simulated_def)
  have "compilables b" "code_at P k (code_ops (concat (replicate m b)) k)" using loop ok(1) at by simp_all
  from yields_Go [OF run' exec_loop_sim [OF sim _ this(1) ok(2) this(2)]]
  show ?thesis using loop run' by (cases r) (auto simp: obind_Some_iff dest: exec_loop_lc)
qed

lemma exec_ops_sim:
  assumes sim: "sim_block E dbg B inner" and run: "exec_ops E B inner n ops LC_None vm = Some r"
    and ok: "compilables ops" "unlogged vm" and at: "code_at P k (code_ops ops k)"
  shows "yields E dbg B P (k, vm) (k + length (code_ops ops k)) r"
  using run ok at
proof (induction ops arbitrary: vm k)
  case Nil
  then show ?case by (auto intro: yields_here)
next
  case (Cons op ops)
  have at: "code_at P k (code_op op k)" "code_at P (k + length (code_op op k)) (code_ops ops (k + length (code_op op k)))"
    using Cons.prems(4) by simp_all
  show ?case using Cons.prems(1) unfolding exec_ops.simps
  proof (rule yields_obind [where k = "k + length (code_op op k)"], goal_cases)
    case (1 x)
    then show ?case using exec_op_sim [OF sim _ _ Cons.prems(3) at(1)] Cons.prems(2) by simp
  next
    case (2 fl vm1)
    have "fl = Go LC_None" using exec_op_sim [OF sim 2(1) _ Cons.prems(3) at(1)] Cons.prems(2) by simp
    then show ?case using 2 Cons.IH [OF _ _ 2(2) at(2)] Cons.prems(2) by (simp add: add.assoc)
  qed
qed

lemma execute_inner_sim: "sim_block E dbg B (execute_inner E B n)"
proof (induction n)
  case (Suc n)
  show ?case unfolding sim_block_def using exec_ops_sim [OF Suc.IH] by (metis execute_inner.simps(2))
qed (simp add: sim_block_def)

section \<open>Runs of the bytecode interpreter\<close>

lemma run_mono: "run E dbg B n b = Some r \<Longrightarrow> n \<le> m \<Longrightarrow> run E dbg B m b = Some r"
proof (induction n arbitrary: m b r)
  case (Suc n)
  obtain m' where m: "m = Suc m'" "n \<le> m'" using Suc.prems(2) by (cases m) auto
  show ?case
  proof (cases "bi_pc b < length (bi_program b)")
    case True
    with Suc.prems(1) have "obind (Some (execute_instruction E dbg B (bi_program b ! bi_pc b) b)) (\<lambda>_. run E dbg B n) = Some r"
      by simp
    then show ?thesis unfolding m(1) run.simps using True Suc.IH m(2) by (simp only: if_True) (erule obind_mono, blast+)
  qed (use Suc.prems m in simp)
qed simp

lemma run_step:
  assumes "steps_to E dbg B P c c'" "run E dbg B n (interp P c') = Some r"
  shows "run E dbg B (Suc n) (interp P c) = Some r"
  using assms by (simp add: steps_to_def) (simp add: interp_def)

lemma run_steps:
  assumes "(steps_to E dbg B P)\<^sup>*\<^sup>* c c'" "run E dbg B n (interp P c') = Some r"
  shows "\<exists>m. run E dbg B m (interp P c) = Some r"
  using assms
proof (induction rule: converse_rtranclp_induct)
  case (step y z)
  then show ?case using run_step by blast
qed blast

lemma run_gives:
  assumes "gives E dbg B P c (length P) r"
  shows "\<exists>m b. run E dbg B m (interp P c) = Some (map_sum id (\<lambda>_. ()) (fst r), b) \<and> bi_vm b = snd r"
proof (cases r)
  case (Pair q vm)
  show ?thesis
  proof (cases q)
    case (Inl e)
    then obtain c' where c: "(steps_to E dbg B P)\<^sup>*\<^sup>* c c'" "fails_with E dbg B P c' e vm" using assms Pair by auto
    then obtain b where "run E dbg B (Suc 0) (interp P c') = Some (Inl e, b)" "bi_vm b = vm"
      by (auto simp: fails_with_def interp_def)
    then show ?thesis using run_steps [OF c(1)] Pair Inl by fastforce
  next
    case (Inr u)
    then have "(steps_to E dbg B P)\<^sup>*\<^sup>* c (length P, vm)" using assms Pair by simp
    moreover have "run E dbg B (Suc 0) (interp P (length P, vm)) = Some (Inr (), interp P (length P, vm))"
      by (simp add: interp_def)
    ultimately have "\<exists>m. run E dbg B m (interp P c) = Some (Inr (), interp P (length P, vm))" by (rule run_steps)
    moreover have "bi_vm (interp P (length P, vm)) = vm" by (simp add: interp_def)
    ultimately show ?thesis using Pair Inr by fastforce
  qed
qed

lemma compiler_correct:
  assumes "compilables ops" "unlogged vm" "execute E B n ops vm = Some (r, vm')"
  shows "\<exists>m b. (\<forall>k \<ge> m. bytecode_execute E dbg B k (interpreter_new vm (compile ops)) = Some (r, b)) \<and> bi_vm b = vm'"
proof -
  let ?P = "bp_instructions (compile ops)"
  have "code_at ?P 0 (code_ops ops 0)" using compile_code [OF assms(1)] by (simp add: code_at_def)
  from sim_blockD [OF execute_inner_sim _ assms(1,2) this refl] assms(3)
  have "gives E dbg B ?P (0, vm) (length ?P) (r, vm')"
    by (simp add: execute_def compile_code [OF assms(1)] yields_def)
  then obtain m b where "run E dbg B m (interp ?P (0, vm)) = Some (r, b)" "bi_vm b = vm'"
    using run_gives [of E dbg B ?P "(0, vm)" "(r, vm')"] by (cases r) auto
  moreover have "(interpreter_new vm (compile ops))\<lparr>bi_pc := 0\<rparr> = interp ?P (0, vm)"
    by (simp add: interpreter_new_def interp_def)
  ultimately show ?thesis unfolding bytecode_execute_def using run_mono by metis
qed

end
