(* ===== verification/Text.thy ===== *)
theory Text
  imports Execution "HOL-Library.Sublist"
begin

text \<open>
  The operations of Rust's \<^verbatim>\<open>str\<close> that the text parsers and the line-based files use, on byte strings:
  white space (all of Unicode's, by its UTF-8 bytes), trimming, words, lines, searching, splitting and
  slicing. A slice outside the string or inside a character panics.
\<close>

section \<open>White space\<close>

definition ascii_ws :: string where
  "ascii_ws = [CHR 0x20, CHR 0x09, CHR 0x0A, CHR 0x0B, CHR 0x0C, CHR 0x0D]"

definition wide_ws :: "string list" where
  "wide_ws =
     [[CHR 0xC2, CHR 0x85], [CHR 0xC2, CHR 0xA0], [CHR 0xE1, CHR 0x9A, CHR 0x80]] @
     map (\<lambda>c. [CHR 0xE2, CHR 0x80, c])
       [CHR 0x80, CHR 0x81, CHR 0x82, CHR 0x83, CHR 0x84, CHR 0x85, CHR 0x86, CHR 0x87, CHR 0x88,
        CHR 0x89, CHR 0x8A, CHR 0xA8, CHR 0xA9, CHR 0xAF] @
     [[CHR 0xE2, CHR 0x81, CHR 0x9F], [CHR 0xE3, CHR 0x80, CHR 0x80]]"

text \<open>The number of bytes of the white-space character a string starts with, or zero.\<close>

definition ws_width :: "string \<Rightarrow> nat" where
  "ws_width s = (case s of
     [] \<Rightarrow> 0
   | c # _ \<Rightarrow>
       if c \<in> set ascii_ws then 1
       else if \<not> digit7 c then 0
       else case List.find (\<lambda>w. prefix w s) wide_ws of Some w \<Rightarrow> length w | None \<Rightarrow> 0)"

text \<open>The same at the end of a string, which is given reversed.\<close>

definition ws_width_rev :: "string \<Rightarrow> nat" where
  "ws_width_rev r = (case r of
     [] \<Rightarrow> 0
   | c # _ \<Rightarrow>
       if c \<in> set ascii_ws then 1
       else if \<not> digit7 c then 0
       else case List.find (\<lambda>w. prefix (rev w) r) wide_ws of Some w \<Rightarrow> length w | None \<Rightarrow> 0)"

lemma ws_width_Nil [simp]: "ws_width [] = 0" "ws_width_rev [] = 0"
  by (simp_all add: ws_width_def ws_width_rev_def)

lemma drop_ws_shorter:
  "0 < ws_width s \<Longrightarrow> length s - ws_width s < length s"
  "0 < ws_width_rev s \<Longrightarrow> length s - ws_width_rev s < length s"
  by (cases s; simp)+

function trim_start :: "string \<Rightarrow> string" where
  "trim_start s = (if ws_width s = 0 then s else trim_start (drop (ws_width s) s))"
  by pat_completeness auto
termination by (relation "measure length") (auto intro: drop_ws_shorter)

function trim_start_rev :: "string \<Rightarrow> string" where
  "trim_start_rev r = (if ws_width_rev r = 0 then r else trim_start_rev (drop (ws_width_rev r) r))"
  by pat_completeness auto
termination by (relation "measure length") (auto intro: drop_ws_shorter)

declare trim_start.simps [simp del] trim_start_rev.simps [simp del]

definition trim_end :: "string \<Rightarrow> string" where
  "trim_end s = rev (trim_start_rev (rev s))"

definition trim :: "string \<Rightarrow> string" where
  "trim s = trim_end (trim_start s)"

text \<open>\<^verbatim>\<open>split_whitespace\<close>, with the word read so far, reversed.\<close>

function words_from :: "string \<Rightarrow> string \<Rightarrow> string list" where
  "words_from acc s =
     (let flush = (if acc = [] then [] else [rev acc]) in
      case s of
        [] \<Rightarrow> flush
      | c # cs \<Rightarrow>
          if ws_width s = 0 then words_from (c # acc) cs
          else flush @ words_from [] (drop (ws_width s) s))"
  by pat_completeness auto
termination by (relation "measure (length \<circ> snd)") auto

declare words_from.simps [simp del]

definition split_whitespace :: "string \<Rightarrow> string list" where
  "split_whitespace s = words_from [] s"

section \<open>Lines\<close>

abbreviation newline :: char where
  "newline \<equiv> CHR 0x0A"

text \<open>\<^verbatim>\<open>str::lines\<close> and \<^verbatim>\<open>BufRead::lines\<close>: a carriage return before the line feed belongs to the line end.\<close>

definition strip_cr :: "string \<Rightarrow> string" where
  "strip_cr l = (if l \<noteq> [] \<and> last l = CHR 0x0D then butlast l else l)"

function str_lines :: "string \<Rightarrow> string list" where
  "str_lines s =
     (if s = [] then []
      else case dropWhile (\<lambda>c. c \<noteq> newline) s of
             [] \<Rightarrow> [s]
           | _ # r \<Rightarrow> strip_cr (takeWhile (\<lambda>c. c \<noteq> newline) s) # str_lines r)"
  by pat_completeness auto
termination
proof (relation "measure length", goal_cases)
  case (2 s x xs)
  then have "length (x # xs) \<le> length s" by (metis length_dropWhile_le)
  then show ?case by simp
qed simp

declare str_lines.simps [simp del]

section \<open>Searching, splitting and slicing\<close>

definition ends_with :: "string \<Rightarrow> string \<Rightarrow> bool" where
  "ends_with p s = prefix (rev p) (rev s)"

primrec find_str :: "string \<Rightarrow> string \<Rightarrow> nat option" where
  "find_str p [] = (if p = [] then Some 0 else None)"
| "find_str p (c # cs) = (if prefix p (c # cs) then Some 0 else map_option Suc (find_str p cs))"

definition rfind_char :: "char \<Rightarrow> string \<Rightarrow> nat option" where
  "rfind_char c s = map_option (\<lambda>i. length s - Suc i) (find_str [c] (rev s))"

primrec split_char :: "char \<Rightarrow> string \<Rightarrow> string list" where
  "split_char c [] = [[]]"
| "split_char c (x # xs) =
     (case split_char c xs of
        [] \<Rightarrow> []
      | p # ps \<Rightarrow> if x = c then [] # p # ps else (x # p) # ps)"

text \<open>\<^verbatim>\<open>splitn(2, c)\<close>.\<close>

definition splitn2 :: "char \<Rightarrow> string \<Rightarrow> string list" where
  "splitn2 c s = (case dropWhile (\<lambda>x. x \<noteq> c) s of
     [] \<Rightarrow> [s]
   | _ # r \<Rightarrow> [takeWhile (\<lambda>x. x \<noteq> c) s, r])"

definition trim_end_char :: "char \<Rightarrow> string \<Rightarrow> string" where
  "trim_end_char c s = rev (dropWhile (\<lambda>x. x = c) (rev s))"

definition trim_char :: "char \<Rightarrow> string \<Rightarrow> string" where
  "trim_char c s = trim_end_char c (dropWhile (\<lambda>x. x = c) s)"

text \<open>A byte that continues a UTF-8 character has the bits 10 at its top.\<close>

definition char_boundary :: "string \<Rightarrow> nat \<Rightarrow> bool" where
  "char_boundary s i =
     (i = 0 \<or> i = length s \<or> (i < length s \<and> \<not> (digit7 (s ! i) \<and> \<not> digit6 (s ! i))))"

definition slice :: "string \<Rightarrow> nat \<Rightarrow> nat \<Rightarrow> 'e fault + string" where
  "slice s a b =
     (if a \<le> b \<and> b \<le> length s \<and> char_boundary s a \<and> char_boundary s b
      then Inr (take (b - a) (drop a s)) else Inl Panic)"

definition eq_ignore_ascii_case :: "string \<Rightarrow> string \<Rightarrow> bool" where
  "eq_ignore_ascii_case s t = (map ascii_lower s = map ascii_lower t)"

definition replace_char :: "char \<Rightarrow> string \<Rightarrow> string \<Rightarrow> string" where
  "replace_char c r s = concat (map (\<lambda>x. if x = c then r else [x]) s)"

text \<open>\<^verbatim>\<open>str::parse::<i64>\<close> and \<^verbatim>\<open>str::parse::<usize>\<close>, which has the width of a \<^verbatim>\<open>u64\<close>.\<close>

definition parse_i64 :: "string \<Rightarrow> int option" where
  "parse_i64 s =
     (let neg = (case s of c # _ \<Rightarrow> c = CHR ''-'' | [] \<Rightarrow> False);
          ds = (case s of c # cs \<Rightarrow> if c = CHR ''-'' \<or> c = CHR ''+'' then cs else s | [] \<Rightarrow> s)
      in if ds = [] then None
         else case digits_val 0 ds of
                None \<Rightarrow> None
              | Some n \<Rightarrow>
                  let i = (if neg then - int n else int n)
                  in if - 9223372036854775808 \<le> i \<and> i \<le> 9223372036854775807 then Some i else None)"

definition parse_usize :: "string \<Rightarrow> nat option" where
  "parse_usize s = map_option unat (parse_u64 s)"

section \<open>Plain words\<close>

text \<open>Printable ASCII characters other than the space, and the lines made of them.\<close>

definition plain_char :: "char \<Rightarrow> bool" where
  "plain_char c = (\<not> digit7 c \<and> c \<notin> set ascii_ws)"

definition plain_word :: "string \<Rightarrow> bool" where
  "plain_word w = (w \<noteq> [] \<and> list_all plain_char w)"

abbreviation spaces :: "nat \<Rightarrow> string" where
  "spaces n \<equiv> replicate n (CHR '' '')"

lemma ws_width_plain [simp]: "plain_char c \<Longrightarrow> ws_width (c # s) = 0" "plain_char c \<Longrightarrow> ws_width_rev (c # s) = 0"
  by (simp_all add: ws_width_def ws_width_rev_def plain_char_def)

lemma ws_width_space [simp]: "ws_width (CHR '' '' # s) = 1" "ws_width_rev (CHR '' '' # s) = 1"
  by (simp_all add: ws_width_def ws_width_rev_def ascii_ws_def)

lemma trim_start_plain [simp]: "plain_char c \<Longrightarrow> trim_start (c # s) = c # s"
  by (subst trim_start.simps) simp

lemma trim_start_spaces: "trim_start (spaces n @ s) = trim_start s"
proof (induction n)
  case (Suc n)
  then show ?case by (subst trim_start.simps) simp
qed simp

lemma trim_start_rev_plain [simp]: "plain_char c \<Longrightarrow> trim_start_rev (c # s) = c # s"
  by (subst trim_start_rev.simps) simp

lemma trim_end_plain: "s \<noteq> [] \<Longrightarrow> plain_char (last s) \<Longrightarrow> trim_end s = s"
  by (cases s rule: rev_exhaust) (simp_all add: trim_end_def)

text \<open>A text that starts and ends with a plain character, possibly indented.\<close>

definition tight :: "string \<Rightarrow> bool" where
  "tight s = (s \<noteq> [] \<and> plain_char (hd s) \<and> plain_char (last s))"

lemma trim_indented: "tight s \<Longrightarrow> trim (spaces n @ s) = s"
  by (cases s) (simp_all add: trim_def tight_def trim_start_spaces trim_end_plain)

lemma trim_tight [simp]: "tight s \<Longrightarrow> trim s = s"
  using trim_indented [of s 0] by simp

lemma words_from_spaces: "words_from [] (spaces n @ s) = words_from [] s"
proof (induction n)
  case (Suc n)
  then show ?case by (subst words_from.simps) (simp add: Let_def)
qed simp

lemma words_from_plain:
  "list_all plain_char w \<Longrightarrow> words_from acc (w @ s) = words_from (rev w @ acc) s"
proof (induction w arbitrary: acc)
  case (Cons c w)
  then show ?case by (subst words_from.simps) (simp add: Let_def)
qed simp

lemma words_from_end: "words_from acc [] = (if acc = [] then [] else [rev acc])"
  by (subst words_from.simps) (simp add: Let_def)

lemma words_from_space:
  "words_from acc (CHR '' '' # s) = (if acc = [] then [] else [rev acc]) @ words_from [] s"
  by (subst words_from.simps) (simp add: Let_def)

lemma split_whitespace_indented: "split_whitespace (spaces n @ s) = split_whitespace s"
  by (simp add: split_whitespace_def words_from_spaces)

lemma split_whitespace_word: "plain_word w \<Longrightarrow> split_whitespace w = [w]"
  using words_from_plain [of w "[]" "[]"] by (simp add: split_whitespace_def plain_word_def words_from_end)

lemma split_whitespace_Cons:
  "plain_word w \<Longrightarrow> split_whitespace (w @ CHR '' '' # s) = w # split_whitespace s"
  by (simp add: split_whitespace_def plain_word_def words_from_plain words_from_space)

lemma split_whitespace_join: "list_all plain_word ws \<Longrightarrow> split_whitespace (join '' '' ws) = ws"
proof (induction ws rule: induct_list012)
  case 1
  show ?case by (simp add: split_whitespace_def words_from_end)
next
  case (2 w)
  then show ?case by (simp add: split_whitespace_word)
next
  case (3 v w ws)
  then show ?case by (simp add: split_whitespace_Cons)
qed

lemma plain_word_tight: "plain_word w \<Longrightarrow> tight w"
  unfolding plain_word_def tight_def list_all_iff by (metis hd_in_set last_in_set)

lemma tight_append: "tight v \<Longrightarrow> tight w \<Longrightarrow> tight (v @ s @ w)"
  by (auto simp: tight_def)

section \<open>Files of lines\<close>

text \<open>A file of lines, each ended by a line feed, reads back line by line.\<close>

lemma str_lines_unlines:
  assumes "newline \<notin> set l" "l = [] \<or> last l \<noteq> CHR 0x0D"
  shows "str_lines (l @ newline # s) = l # str_lines s"
proof -
  have d: "dropWhile (\<lambda>c. c \<noteq> newline) (l @ newline # s) = newline # s"
    using assms(1) by (induction l) auto
  have t: "takeWhile (\<lambda>c. c \<noteq> newline) (l @ newline # s) = l"
    using assms(1) by (induction l) auto
  show ?thesis using assms(2) by (subst str_lines.simps) (auto simp: d t strip_cr_def)
qed

lemma split_char_absent: "c \<notin> set a \<Longrightarrow> split_char c a = [a]"
  by (induction a) auto

lemma split_char_nonempty: "split_char c s \<noteq> []"
  by (induction s) (auto split: list.splits)

lemma split_char_at: "c \<notin> set a \<Longrightarrow> split_char c (a @ c # b) = a # split_char c b"
proof (induction a)
  case Nil
  then show ?case using split_char_nonempty [of c b] by (cases "split_char c b") auto
qed auto

end
