(* ===== verification/Ledger.thy ===== *)
theory Ledger
  imports Text
begin

text \<open>
  The ledger of proposal events (\<^verbatim>\<open>icn-ledger/src/lib.rs\<close>): nodes that name their parents, kept in the order
  they were appended, persisted as one JSON text per line. The JSON texts, the hash and the \<^verbatim>\<open>Debug\<close> text of
  a node are parameters (\<open>ledger_env\<close>); so is the operating system (\<open>os_env\<close>): which directories can be made,
  which files can be opened and created, and how many bytes of a write are accepted. The files are a map from
  paths to contents that the operations return updated, in errors too.

  The search functions walk the parents with a set of visited ids. They are total: the set of known ids not
  yet visited shrinks. \<open>export_selected\<close> is shown to return exactly the known nodes reachable from the start
  ids, each once, and \<open>trace\<close> to fail exactly when an ancestor is missing.
\<close>

section \<open>Nodes\<close>

datatype NodeData =
    ProposalCreated string string             \<comment> \<open>proposal\_id, title\<close>
  | VoteCast string string f64                \<comment> \<open>proposal\_id, voter, vote\<close>
  | ProposalExecuted string bool              \<comment> \<open>proposal\_id, success\<close>
  | TokenMinted string string f64             \<comment> \<open>resource, recipient, amount\<close>

record DagNode =
  dn_id :: string
  dn_parent_ids :: "string list"
  dn_timestamp :: u64
  dn_namespace :: string
  dn_data :: NodeData

record ledger_env =
  node_json :: "DagNode \<Rightarrow> string"
  node_of_json :: "string \<Rightarrow> DagNode option"
  nodes_json_pretty :: "DagNode list \<Rightarrow> string"
  sha256_hex :: "string \<Rightarrow> string"
  dbg_node :: "DagNode \<Rightarrow> string"

definition compute_id :: "ledger_env \<Rightarrow> DagNode \<Rightarrow> string" where
  "compute_id E n = sha256_hex E (node_json E n)"

definition with_namespace :: "string list \<Rightarrow> NodeData \<Rightarrow> u64 \<Rightarrow> string \<Rightarrow> DagNode" where
  "with_namespace parents d t ns =
     \<lparr>dn_id = '''', dn_parent_ids = parents, dn_timestamp = t, dn_namespace = ns, dn_data = d\<rparr>"

definition with_default_namespace :: "string list \<Rightarrow> NodeData \<Rightarrow> u64 \<Rightarrow> DagNode" where
  "with_default_namespace parents d t =
     \<lparr>dn_id = '''', dn_parent_ids = parents, dn_timestamp = t, dn_namespace = ''default'', dn_data = d\<rparr>"

section \<open>The ledger and its queries\<close>

record DagLedger =
  dl_nodes :: "DagNode list"
  dl_file_path :: "string option"

record DagDiff =
  dd_added :: "DagNode list"
  dd_removed :: "DagNode list"
  dd_common :: "string list"

definition ledger_new :: DagLedger where
  "ledger_new = \<lparr>dl_nodes = [], dl_file_path = None\<rparr>"

definition set_path :: "string \<Rightarrow> DagLedger \<Rightarrow> DagLedger" where
  "set_path p L = L\<lparr>dl_file_path := Some p\<rparr>"

definition append_node :: "ledger_env \<Rightarrow> DagNode \<Rightarrow> DagLedger \<Rightarrow> string \<times> DagLedger" where
  "append_node E n L =
     (let n' = n\<lparr>dn_id := compute_id E n\<rparr> in (dn_id n', L\<lparr>dl_nodes := dl_nodes L @ [n']\<rparr>))"

definition find_by_id :: "string \<Rightarrow> DagLedger \<Rightarrow> DagNode option" where
  "find_by_id i L = List.find (\<lambda>n. dn_id n = i) (dl_nodes L)"

definition nodes_by_namespace :: "string \<Rightarrow> DagLedger \<Rightarrow> DagNode list" where
  "nodes_by_namespace ns L = filter (\<lambda>n. dn_namespace n = ns) (dl_nodes L)"

definition find_proposal_node_id :: "string \<Rightarrow> DagLedger \<Rightarrow> string option" where
  "find_proposal_node_id p L =
     map_option dn_id
       (List.find (\<lambda>n. case dn_data n of ProposalCreated i _ \<Rightarrow> i = p | _ \<Rightarrow> False) (dl_nodes L))"

definition find_vote_nodes_for :: "string \<Rightarrow> DagLedger \<Rightarrow> DagNode list" where
  "find_vote_nodes_for p L =
     filter (\<lambda>n. case dn_data n of VoteCast i _ _ \<Rightarrow> i = p | _ \<Rightarrow> False) (dl_nodes L)"

definition find_proposal_related_nodes :: "string \<Rightarrow> DagLedger \<Rightarrow> DagNode list" where
  "find_proposal_related_nodes p L =
     filter (\<lambda>n. case dn_data n of
                    ProposalCreated i _ \<Rightarrow> i = p
                  | VoteCast i _ _ \<Rightarrow> i = p
                  | ProposalExecuted i _ \<Rightarrow> i = p
                  | _ \<Rightarrow> False) (dl_nodes L)"

definition node_type_name :: "NodeData \<Rightarrow> string" where
  "node_type_name d = (case d of
     ProposalCreated _ _ \<Rightarrow> ''ProposalCreated''
   | VoteCast _ _ _ \<Rightarrow> ''VoteCast''
   | ProposalExecuted _ _ \<Rightarrow> ''ProposalExecuted''
   | TokenMinted _ _ _ \<Rightarrow> ''TokenMinted'')"

definition get_node_type_summary :: "DagLedger \<Rightarrow> (string, nat) fmap" where
  "get_node_type_summary L =
     fold (\<lambda>n m. let k = node_type_name (dn_data n) in
             fmupd k ((case fmlookup m k of Some c \<Rightarrow> c | None \<Rightarrow> 0) + 1) m) (dl_nodes L) fmempty"

definition export_nodes :: "string list \<Rightarrow> DagLedger \<Rightarrow> DagNode list" where
  "export_nodes ids L = filter (\<lambda>n. dn_id n \<in> set ids) (dl_nodes L)"

definition all_node_ids :: "DagLedger \<Rightarrow> string list" where
  "all_node_ids L = map dn_id (dl_nodes L)"

definition diff_with :: "DagLedger \<Rightarrow> DagLedger \<Rightarrow> DagDiff" where
  "diff_with L other =
     (let this_ids = set (map dn_id (dl_nodes L)); other_ids = set (map dn_id (dl_nodes other)) in
      \<lparr>dd_added = filter (\<lambda>n. dn_id n \<notin> other_ids) (dl_nodes L),
       dd_removed = filter (\<lambda>n. dn_id n \<notin> this_ids) (dl_nodes other),
       dd_common = filter (\<lambda>i. i \<in> other_ids) (sort (remdups (map dn_id (dl_nodes L))))\<rparr>)"

section \<open>Walking the parents\<close>

text \<open>The ids a search has not seen yet, which bounds it.\<close>

definition unseen :: "DagLedger \<Rightarrow> string set \<Rightarrow> string set" where
  "unseen L vis = set (map dn_id (dl_nodes L)) - vis"

lemma finite_unseen [simp]: "finite (unseen L vis)"
  by (simp add: unseen_def)

lemma find_by_id_Some: "find_by_id i L = Some n \<Longrightarrow> dn_id n = i \<and> n \<in> set (dl_nodes L)"
  by (auto simp: find_by_id_def find_Some_iff)

lemma find_by_id_None: "find_by_id i L = None \<longleftrightarrow> i \<notin> dn_id ` set (dl_nodes L)"
  by (auto simp: find_by_id_def find_None_iff)

lemma unseen_insert: "find_by_id i L = Some n \<Longrightarrow> i \<notin> vis \<Longrightarrow> unseen L (insert i vis) \<subset> unseen L vis"
  using find_by_id_Some by (fastforce simp: unseen_def)

text \<open>\<^verbatim>\<open>export_recursive\<close> on each id of a list, with the result and the visited ids so far.\<close>

function export_ids :: "DagLedger \<Rightarrow> string list \<Rightarrow> DagNode list \<times> string set \<Rightarrow> DagNode list \<times> string set" where
  "export_ids L [] s = s"
| "export_ids L (i # ids) s =
     export_ids L ids
       (if i \<in> snd s then s
        else case find_by_id i L of
               None \<Rightarrow> (fst s, insert i (snd s))
             | Some n \<Rightarrow> export_ids L (dn_parent_ids n) (fst s @ [n], insert i (snd s)))"
  by pat_completeness auto

termination
proof -
  have visited: "snd s \<subseteq> snd (export_ids L ids s)" if "export_ids_dom (L, ids, s)" for L ids s
    using that
  proof (induction rule: export_ids.pinduct)
    case (2 L i ids s)
    then show ?case
      by (cases "i \<in> snd s"; cases "find_by_id i L") (auto simp: export_ids.psimps)
  qed (simp add: export_ids.psimps)
  show ?thesis
  proof (relation "inv_image (finite_psubset <*lex*> less_than) (\<lambda>(L, ids, s). (unseen L (snd s), length ids))",
      goal_cases)
    case 1
    show ?case by (intro wf_inv_image wf_lex_prod wf_finite_psubset wf_less_than)
  next
    case (2 L i ids s n)
    then show ?case using unseen_insert [of i L n] by simp
  next
    case (3 L i ids s)
    then have *: "export_ids_dom (L, dn_parent_ids n, fst s @ [n], insert i (snd s))"
      if "i \<notin> snd s" "find_by_id i L = Some n" for n
      using that by blast
    show ?case
      using visited [OF *] by (cases "i \<in> snd s"; cases "find_by_id i L") (auto simp: unseen_def)
  qed
qed

definition export_recursive :: "DagLedger \<Rightarrow> string \<Rightarrow> DagNode list \<times> string set \<Rightarrow> DagNode list \<times> string set" where
  "export_recursive L i s = export_ids L [i] s"

definition export_selected :: "string list \<Rightarrow> DagLedger \<Rightarrow> DagNode list" where
  "export_selected start_ids L = fst (export_ids L start_ids ([], {}))"

text \<open>
  \<^verbatim>\<open>trace_recursive\<close>: the node's text, then the parents in order, up to the first that is missing. The state is
  the text and the visited ids.
\<close>

definition missing_parent :: "string \<Rightarrow> string" where
  "missing_parent i = ''Parent node '' @ i @ '' not found''"

definition visit :: "ledger_env \<Rightarrow> DagNode \<Rightarrow> string \<times> string set \<Rightarrow> string \<times> string set" where
  "visit E n s = (fst s @ dbg_node E n @ [newline], insert (dn_id n) (snd s))"

lemma snd_visit [simp]: "snd (visit E n s) = insert (dn_id n) (snd s)"
  by (simp add: visit_def)

function trace_parents ::
  "ledger_env \<Rightarrow> DagLedger \<Rightarrow> string list \<Rightarrow> string \<times> string set \<Rightarrow> (string, unit, string \<times> string set) outcome" where
  "trace_parents E L [] s = (Inr (), s)"
| "trace_parents E L (i # ids) s =
     (case find_by_id i L of
        None \<Rightarrow> (Inl (missing_parent i), s)
      | Some n \<Rightarrow>
          bindE (if dn_id n \<in> snd s then (Inr (), s)
                 else trace_parents E L (dn_parent_ids n) (visit E n s))
            (\<lambda>_ s'. trace_parents E L ids s'))"
  by pat_completeness auto

termination
proof -
  have visited: "snd s \<subseteq> snd (snd (trace_parents E L ids s))" if "trace_parents_dom (E, L, ids, s)" for E L ids s
    using that
  proof (induction rule: trace_parents.pinduct)
    case (2 E L i ids s)
    show ?case
    proof (cases "find_by_id i L")
      case (Some n)
      show ?thesis
      proof (cases "dn_id n \<in> snd s")
        case True
        then show ?thesis using 2 Some by (simp add: trace_parents.psimps)
      next
        case False
        obtain r s' where r: "trace_parents E L (dn_parent_ids n) (visit E n s) = (r, s')" by (rule prod.exhaust)
        have "snd s \<subseteq> snd s'" using "2.IH"(1) [OF Some False] r by auto
        then show ?thesis
          using "2.IH"(2) [OF Some, of "()" s'] "2.hyps" Some False r
          by (cases r) (auto simp: trace_parents.psimps)
      qed
    qed (use 2 in \<open>simp add: trace_parents.psimps\<close>)
  qed (simp add: trace_parents.psimps)
  show ?thesis
  proof (relation "inv_image (finite_psubset <*lex*> less_than)
        (\<lambda>(E, L, ids, s). (unseen L (snd s), length ids))", goal_cases)
    case 1
    show ?case by (intro wf_inv_image wf_lex_prod wf_finite_psubset wf_less_than)
  next
    case (2 E L i ids s n)
    then show ?case using unseen_insert [of i L n] find_by_id_Some [of i L n] by simp
  next
    case (3 E L i ids s n u s')
    then show ?case
      using visited [of E L "dn_parent_ids n" "visit E n s"]
      by (cases "dn_id n \<in> snd s") (fastforce simp: unseen_def)+
  qed
qed

definition trace_recursive ::
  "ledger_env \<Rightarrow> DagLedger \<Rightarrow> DagNode \<Rightarrow> string \<times> string set \<Rightarrow> (string, unit, string \<times> string set) outcome" where
  "trace_recursive E L n s =
     (if dn_id n \<in> snd s then (Inr (), s) else trace_parents E L (dn_parent_ids n) (visit E n s))"

definition trace :: "ledger_env \<Rightarrow> DagNode \<Rightarrow> DagLedger \<Rightarrow> string + string" where
  "trace E n L = (case trace_recursive E L n ('''', {}) of (Inl e, _) \<Rightarrow> Inl e | (Inr _, s) \<Rightarrow> Inr (fst s))"

fun trace_list :: "ledger_env \<Rightarrow> DagLedger \<Rightarrow> DagNode list \<Rightarrow> string \<Rightarrow> string + string" where
  "trace_list E L [] acc = Inr acc"
| "trace_list E L (n # ns) acc = bindR (trace E n L) (\<lambda>t. trace_list E L ns (acc @ t @ [newline]))"

definition trace_all :: "ledger_env \<Rightarrow> DagLedger \<Rightarrow> string + string" where
  "trace_all E L = trace_list E L (dl_nodes L) ''''"

definition trace_namespace :: "ledger_env \<Rightarrow> string \<Rightarrow> DagLedger \<Rightarrow> string + string" where
  "trace_namespace E ns L = trace_list E L (nodes_by_namespace ns L) ''''"

section \<open>Files\<close>

type_synonym files = "(string, bytes) fmap"

text \<open>
  The operating system: the error, if any, of making the directories above a path, of opening and of creating
  a file, the number of bytes it accepts of a write of the given length at the given position, and the error
  text of a short write.
\<close>

record os_env =
  os_mkdir :: "string \<Rightarrow> string option"
  os_open :: "string \<Rightarrow> string option"
  os_create :: "string \<Rightarrow> string option"
  os_accept :: "string \<Rightarrow> nat \<Rightarrow> nat \<Rightarrow> nat"
  os_write_error :: "string \<Rightarrow> string"

definition contents :: "string \<Rightarrow> files \<Rightarrow> bytes" where
  "contents p fs = (case fmlookup fs p of Some c \<Rightarrow> c | None \<Rightarrow> [])"

definition write_all :: "os_env \<Rightarrow> string \<Rightarrow> bytes \<Rightarrow> files \<Rightarrow> (string, unit, files) outcome" where
  "write_all os p d fs =
     (let old = contents p fs; k = min (length d) (os_accept os p (length old) (length d)) in
      (if k = length d then Inr () else Inl (os_write_error os p), fmupd p (old @ take k d) fs))"

fun write_nodes :: "os_env \<Rightarrow> ledger_env \<Rightarrow> string \<Rightarrow> DagNode list \<Rightarrow> files \<Rightarrow> (string, unit, files) outcome" where
  "write_nodes os E p [] fs = (Inr (), fs)"
| "write_nodes os E p (n # ns) fs =
     bindE (write_all os p (node_json E n) fs) (\<lambda>_ fs1.
     bindE (write_all os p [newline] fs1) (\<lambda>_ fs2. write_nodes os E p ns fs2))"

definition create_and_write :: "os_env \<Rightarrow> ledger_env \<Rightarrow> string \<Rightarrow> DagNode list \<Rightarrow> files \<Rightarrow> (string, unit, files) outcome" where
  "create_and_write os E p ns fs =
     (case os_create os p of Some e \<Rightarrow> (Inl e, fs) | None \<Rightarrow> write_nodes os E p ns (fmupd p [] fs))"

definition export_to_file :: "os_env \<Rightarrow> ledger_env \<Rightarrow> DagLedger \<Rightarrow> files \<Rightarrow> (string, unit, files) outcome" where
  "export_to_file os E L fs =
     (case dl_file_path L of
        Some p \<Rightarrow> create_and_write os E p (dl_nodes L) fs
      | None \<Rightarrow> (Inl ''File path is not set'', fs))"

definition append_and_persist ::
  "os_env \<Rightarrow> ledger_env \<Rightarrow> DagNode \<Rightarrow> DagLedger \<times> files \<Rightarrow> (string, string, DagLedger \<times> files) outcome" where
  "append_and_persist os E n s =
     (case s of (L, fs) \<Rightarrow>
        if dl_file_path L = None then (Inl ''File path is not set'', s)
        else
          let (i, L') = append_node E n L in
          case export_to_file os E L' fs of
            (Inl e, fs') \<Rightarrow> (Inl e, (L', fs'))
          | (Inr _, fs') \<Rightarrow> (Inr i, (L', fs')))"

definition export_selected_to_file ::
  "os_env \<Rightarrow> ledger_env \<Rightarrow> string list \<Rightarrow> string \<Rightarrow> DagLedger \<Rightarrow> files \<Rightarrow> (string, nat, files) outcome" where
  "export_selected_to_file os E start_ids p L fs =
     (case os_mkdir os p of
        Some e \<Rightarrow> (Inl e, fs)
      | None \<Rightarrow>
          let ns = export_selected start_ids L
          in bindE (create_and_write os E p ns fs) (\<lambda>_ fs'. (Inr (length ns), fs')))"

definition export_diff_to_file ::
  "os_env \<Rightarrow> ledger_env \<Rightarrow> DagDiff \<Rightarrow> string \<Rightarrow> files \<Rightarrow> (string, unit, files) outcome" where
  "export_diff_to_file os E d p fs =
     (case os_mkdir os p of
        Some e \<Rightarrow> (Inl e, fs)
      | None \<Rightarrow> create_and_write os E p (dd_added d) fs)"

text \<open>Reading a file line by line; lines that are blank or no node are skipped.\<close>

definition utf8_error :: string where
  "utf8_error = ''stream did not contain valid UTF-8''"

fun load_lines :: "ledger_env \<Rightarrow> string list \<Rightarrow> DagNode list \<Rightarrow> string + DagNode list" where
  "load_lines E [] ns = Inr ns"
| "load_lines E (l # ls) ns =
     (if \<not> valid_utf8 l then Inl utf8_error
      else if trim l = [] then load_lines E ls ns
      else case node_of_json E l of
             Some n \<Rightarrow> load_lines E ls (ns @ [n])
           | None \<Rightarrow> load_lines E ls ns)"

definition load_from_file :: "os_env \<Rightarrow> ledger_env \<Rightarrow> string \<Rightarrow> files \<Rightarrow> string + DagLedger" where
  "load_from_file os E p fs =
     (case os_mkdir os p of
        Some e \<Rightarrow> Inl e
      | None \<Rightarrow>
          case fmlookup fs p of
            None \<Rightarrow> Inr ledger_new
          | Some c \<Rightarrow>
              case os_open os p of
                Some e \<Rightarrow> Inl e
              | None \<Rightarrow> bindR (load_lines E (str_lines c) []) (\<lambda>ns. Inr (ledger_new\<lparr>dl_nodes := ns\<rparr>)))"

definition with_path :: "os_env \<Rightarrow> ledger_env \<Rightarrow> string \<Rightarrow> files \<Rightarrow> DagLedger" where
  "with_path os E p fs =
     (case load_from_file os E p fs of
        Inr L \<Rightarrow> L\<lparr>dl_file_path := Some p\<rparr>
      | Inl _ \<Rightarrow> \<lparr>dl_nodes = [], dl_file_path = Some p\<rparr>)"

definition diff_with_file :: "os_env \<Rightarrow> ledger_env \<Rightarrow> string \<Rightarrow> files \<Rightarrow> DagLedger \<Rightarrow> string + DagDiff" where
  "diff_with_file os E p fs L = bindR (load_from_file os E p fs) (\<lambda>other. Inr (diff_with L other))"

fun import_lines :: "ledger_env \<Rightarrow> string list \<Rightarrow> nat \<Rightarrow> DagLedger \<Rightarrow> (string, nat, DagLedger) outcome" where
  "import_lines E [] added L = (Inr added, L)"
| "import_lines E (l # ls) added L =
     (if \<not> valid_utf8 l then (Inl utf8_error, L)
      else if trim l = [] then import_lines E ls added L
      else case node_of_json E l of
             Some n \<Rightarrow>
               if \<not> list_ex (\<lambda>existing. dn_id existing = dn_id n) (dl_nodes L)
               then import_lines E ls (added + 1) (L\<lparr>dl_nodes := dl_nodes L @ [n]\<rparr>)
               else import_lines E ls added L
           | None \<Rightarrow> import_lines E ls added L)"

definition import_from_file ::
  "os_env \<Rightarrow> ledger_env \<Rightarrow> string \<Rightarrow> files \<Rightarrow> DagLedger \<Rightarrow> (string, nat, DagLedger) outcome" where
  "import_from_file os E p fs L =
     (case fmlookup fs p of
        None \<Rightarrow> (Inr 0, L)
      | Some c \<Rightarrow>
          case os_open os p of
            Some e \<Rightarrow> (Inl e, L)
          | None \<Rightarrow> import_lines E (str_lines c) 0 L)"

section \<open>Files per namespace\<close>

text \<open>The last component of a path and the path above it, with trailing separators and dots removed.\<close>

fun strip_back :: "string \<Rightarrow> string" where
  "strip_back [] = []"
| "strip_back (c # cs) =
     (if c = CHR ''/'' \<or> (c = CHR ''.'' \<and> cs \<noteq> [] \<and> hd cs = CHR ''/'') then strip_back cs else c # cs)"

definition last_component :: "string \<Rightarrow> string" where
  "last_component p = rev (takeWhile (\<lambda>c. c \<noteq> CHR ''/'') (strip_back (rev p)))"

definition path_file_name :: "string \<Rightarrow> string option" where
  "path_file_name p = (let n = last_component p in if n \<in> {'''', ''.'', ''..''} then None else Some n)"

definition path_parent :: "string \<Rightarrow> string" where
  "path_parent p =
     (let rest = dropWhile (\<lambda>c. c \<noteq> CHR ''/'') (strip_back (rev p)); up = strip_back rest
      in if rest \<noteq> [] \<and> up = [] then ''/'' else rev up)"

definition file_stem_and_extension :: "string \<Rightarrow> string \<times> string" where
  "file_stem_and_extension n =
     (case dropWhile (\<lambda>c. c \<noteq> CHR ''.'') (rev n) of
        [] \<Rightarrow> (n, '''')
      | _ # before \<Rightarrow>
          if before = [] then (n, '''')
          else (rev before, rev (takeWhile (\<lambda>c. c \<noteq> CHR ''.'') (rev n))))"

definition path_join :: "string \<Rightarrow> string \<Rightarrow> string" where
  "path_join dir n =
     (if dir = '''' then n else if last dir = CHR ''/'' then dir @ n else dir @ ''/'' @ n)"

definition get_namespaced_file_path :: "string \<Rightarrow> DagLedger \<Rightarrow> string + string" where
  "get_namespaced_file_path ns L =
     (case dl_file_path L of
        None \<Rightarrow> Inl ''File path is not set''
      | Some p \<Rightarrow>
          case path_file_name p of
            None \<Rightarrow> Inl ''Invalid file path''
          | Some file_name \<Rightarrow>
              let (stem, ext) = file_stem_and_extension file_name;
                  new_file_name = stem @ ''_'' @ ns @ (if ext = '''' then '''' else ''.'' @ ext)
              in Inr (path_join (path_parent p) new_file_name))"

definition export_namespace_to_file ::
  "os_env \<Rightarrow> ledger_env \<Rightarrow> string \<Rightarrow> DagLedger \<Rightarrow> files \<Rightarrow> (string, unit, files) outcome" where
  "export_namespace_to_file os E ns L fs =
     (case get_namespaced_file_path ns L of
        Inl e \<Rightarrow> (Inl e, fs)
      | Inr p \<Rightarrow>
          let json = nodes_json_pretty E (nodes_by_namespace ns L) in
          case (case os_create os p of
                  Some e \<Rightarrow> (Inl e, fs)
                | None \<Rightarrow> write_all os p json (fmupd p [] fs)) of
            (Inl e, fs') \<Rightarrow> (Inl (''Failed to write to '' @ p @ '': '' @ e), fs')
          | (Inr u, fs') \<Rightarrow> (Inr u, fs'))"

section \<open>Reachability\<close>

definition parent_of :: "DagLedger \<Rightarrow> string \<Rightarrow> string \<Rightarrow> bool" where
  "parent_of L i j = (case find_by_id i L of None \<Rightarrow> False | Some n \<Rightarrow> j \<in> set (dn_parent_ids n))"

abbreviation ancestor_of :: "DagLedger \<Rightarrow> string \<Rightarrow> string \<Rightarrow> bool" where
  "ancestor_of L \<equiv> rtranclp (parent_of L)"

text \<open>What a walk has done: it saw the ids it was given, nothing that is not an ancestor of one, and the parents of all it saw.\<close>

lemma export_ids_sees:
  "snd s \<subseteq> snd (export_ids L ids s) \<and> set ids \<subseteq> snd (export_ids L ids s)"
proof (induction L ids s rule: export_ids.induct)
  case (2 L i ids s)
  then show ?case by (cases "i \<in> snd s"; cases "find_by_id i L") auto
qed simp

lemma export_ids_only_ancestors:
  "j \<in> snd (export_ids L ids s) \<Longrightarrow> j \<in> snd s \<or> (\<exists>i \<in> set ids. ancestor_of L i j)"
proof (induction L ids s rule: export_ids.induct)
  case (2 L i ids s)
  show ?case
  proof (cases "i \<in> snd s \<or> find_by_id i L = None")
    case True
    then show ?thesis using 2 by (auto split: if_splits)
  next
    case False
    then obtain n where n: "find_by_id i L = Some n" "i \<notin> snd s" by auto
    have "ancestor_of L i j" if "p \<in> set (dn_parent_ids n)" "ancestor_of L p j" for p
      using that n(1) by (auto simp: parent_of_def intro: converse_rtranclp_into_rtranclp)
    then show ?thesis using 2 n by fastforce
  qed
qed simp

lemma export_ids_closed:
  "j \<in> snd (export_ids L ids s) \<Longrightarrow> j \<notin> snd s \<Longrightarrow> parent_of L j k \<Longrightarrow> k \<in> snd (export_ids L ids s)"
proof (induction L ids s rule: export_ids.induct)
  case (2 L i ids s)
  show ?case
  proof (cases "i \<in> snd s")
    case True
    then show ?thesis using 2 by simp
  next
    case new: False
    let ?s1 = "case find_by_id i L of None \<Rightarrow> (fst s, insert i (snd s))
               | Some n \<Rightarrow> export_ids L (dn_parent_ids n) (fst s @ [n], insert i (snd s))"
    have step: "export_ids L (i # ids) s = export_ids L ids ?s1" using new by simp
    have sub: "snd ?s1 \<subseteq> snd (export_ids L ids ?s1)" using export_ids_sees by blast
    show ?thesis
    proof (cases "j \<in> snd ?s1")
      case False
      then show ?thesis using "2.IH"(2) "2.prems" new step by auto
    next
      case True
      then have "k \<in> snd ?s1"
      proof (cases "find_by_id i L")
        case (Some n)
        have "set (dn_parent_ids n) \<subseteq> snd ?s1" using Some export_ids_sees by fastforce
        moreover have "k \<in> snd ?s1" if "j \<noteq> i"
          using True Some "2.IH"(1) [OF new Some] "2.prems" that by simp
        ultimately show ?thesis using "2.prems"(3) Some by (cases "j = i") (auto simp: parent_of_def)
      qed (use "2.prems" in \<open>auto simp: parent_of_def\<close>)
      then show ?thesis using sub step by auto
    qed
  qed
qed simp

text \<open>The exported nodes are those of the seen ids that the ledger has, each once.\<close>

definition exported :: "DagLedger \<Rightarrow> DagNode list \<times> string set \<Rightarrow> bool" where
  "exported L s \<longleftrightarrow>
     distinct (map dn_id (fst s)) \<and>
     set (fst s) = {n. dn_id n \<in> snd s \<and> find_by_id (dn_id n) L = Some n}"

lemma exported_keep: "exported L s \<Longrightarrow> find_by_id i L = None \<Longrightarrow> exported L (fst s, insert i (snd s))"
  by (auto simp: exported_def)

lemma exported_add:
  assumes "exported L s" "find_by_id i L = Some n" "i \<notin> snd s"
  shows "exported L (fst s @ [n], insert i (snd s))"
proof -
  have "dn_id n = i" using find_by_id_Some [OF assms(2)] by simp
  moreover have "i \<notin> dn_id ` set (fst s)" using assms(1,3) by (auto simp: exported_def)
  moreover have "m = n" if "dn_id m = i" "find_by_id (dn_id m) L = Some m" for m
    using that assms(2) by simp
  ultimately show ?thesis using assms(1,2) unfolding exported_def by (auto simp: Collect_conv_if)
qed

lemma export_ids_exported: "exported L s \<Longrightarrow> exported L (export_ids L ids s)"
proof (induction L ids s rule: export_ids.induct)
  case (2 L i ids s)
  then show ?case
    by (cases "i \<in> snd s"; cases "find_by_id i L") (simp_all add: exported_keep exported_add)
qed simp

lemma export_seen_iff:
  "j \<in> snd (export_ids L ids ([], {})) \<longleftrightarrow> (\<exists>i \<in> set ids. ancestor_of L i j)"
proof
  show "j \<in> snd (export_ids L ids ([], {})) \<Longrightarrow> \<exists>i \<in> set ids. ancestor_of L i j"
    using export_ids_only_ancestors [of j L ids "([], {})"] by simp
next
  assume "\<exists>i \<in> set ids. ancestor_of L i j"
  then obtain i where i: "i \<in> set ids" "ancestor_of L i j" by blast
  from i(2) show "j \<in> snd (export_ids L ids ([], {}))"
  proof induction
    case base
    then show ?case using i(1) export_ids_sees by blast
  next
    case (step j k)
    then show ?case using export_ids_closed [of j L ids "([], {})" k] by simp
  qed
qed

lemma export_selected_spec:
  "distinct (map dn_id (export_selected ids L)) \<and>
   set (export_selected ids L) =
     {n. find_by_id (dn_id n) L = Some n \<and> (\<exists>i \<in> set ids. ancestor_of L i (dn_id n))}"
proof -
  have "exported L (export_ids L ids ([], {}))" by (rule export_ids_exported) (simp add: exported_def)
  then show ?thesis by (auto simp: exported_def export_selected_def export_seen_iff)
qed

section \<open>Tracing\<close>

definition trace_text :: "ledger_env \<Rightarrow> DagNode list \<Rightarrow> string" where
  "trace_text E ns = concat (map (\<lambda>n. dbg_node E n @ [newline]) ns)"

lemma trace_text_simps [simp]:
  "trace_text E [] = []" "trace_text E (n # ns) = dbg_node E n @ newline # trace_text E ns"
  "trace_text E (ms @ ns) = trace_text E ms @ trace_text E ns"
  by (simp_all add: trace_text_def)

lemma ancestor_via_parent:
  "find_by_id i L = Some n \<Longrightarrow> p \<in> set (dn_parent_ids n) \<Longrightarrow> ancestor_of L p j \<Longrightarrow> ancestor_of L i j"
  by (auto simp: parent_of_def intro: converse_rtranclp_into_rtranclp)

lemma trace_parents_error:
  "trace_parents E L ids s = (Inl e, s') \<Longrightarrow>
     \<exists>i \<in> set ids. \<exists>j. ancestor_of L i j \<and> find_by_id j L = None \<and> e = missing_parent j"
proof (induction E L ids s arbitrary: s' rule: trace_parents.induct)
  case (2 E L i ids s)
  show ?case
  proof (cases "find_by_id i L")
    case None
    then show ?thesis using "2.prems" by auto
  next
    case (Some n)
    consider (seen) t where "trace_parents E L ids t = (Inl e, s')"
        "(if dn_id n \<in> snd s then (Inr (), s) else trace_parents E L (dn_parent_ids n) (visit E n s)) = (Inr (), t)"
      | (parents) "dn_id n \<notin> snd s" "trace_parents E L (dn_parent_ids n) (visit E n s) = (Inl e, s')"
      using "2.prems" Some by (auto simp: bindE_Inl_iff split: if_splits)
    then show ?thesis
    proof cases
      case seen
      then show ?thesis using "2.IH"(2) [OF Some seen(2,1)] by auto
    next
      case parents
      then show ?thesis using "2.IH"(1) [OF Some parents] ancestor_via_parent [OF Some] by auto
    qed
  qed
qed simp

lemma trace_parents_export:
  "trace_parents E L ids s = (Inr (), s') \<Longrightarrow>
     \<exists>ns. export_ids L ids (res, snd s) = (res @ ns, snd s') \<and> fst s' = fst s @ trace_text E ns"
proof (induction E L ids s arbitrary: s' res rule: trace_parents.induct)
  case (2 E L i ids s)
  obtain n where Some: "find_by_id i L = Some n" using "2.prems" by (cases "find_by_id i L") auto
  then have i: "dn_id n = i" using find_by_id_Some by blast
  obtain t where t: "(if dn_id n \<in> snd s then (Inr (), s) else trace_parents E L (dn_parent_ids n) (visit E n s)) = (Inr (), t)"
    and rest: "trace_parents E L ids t = (Inr (), s')"
    using "2.prems" Some by (auto simp: bindE_Inr_iff)
  have ih: "\<exists>ns. export_ids L ids (res', snd t) = (res' @ ns, snd s') \<and> fst s' = fst t @ trace_text E ns" for res'
    using "2.IH"(2) [OF Some t rest] .
  show ?case
  proof (cases "dn_id n \<in> snd s")
    case True
    then show ?thesis using ih [of res] t i by auto
  next
    case False
    then have "trace_parents E L (dn_parent_ids n) (visit E n s) = (Inr (), t)" using t by simp
    from "2.IH"(1) [OF Some False this, of "res @ [n]"]
    obtain ms where ms: "export_ids L (dn_parent_ids n) (res @ [n], insert i (snd s)) = ((res @ [n]) @ ms, snd t)"
      "fst t = fst s @ trace_text E (n # ms)" by (auto simp: visit_def i)
    from ih [of "(res @ [n]) @ ms"] obtain ns where
      "export_ids L ids ((res @ [n]) @ ms, snd t) = (((res @ [n]) @ ms) @ ns, snd s')"
      "fst s' = fst t @ trace_text E ns" by blast
    then have "export_ids L (i # ids) (res, snd s) = (res @ (n # ms @ ns), snd s') \<and> fst s' = fst s @ trace_text E (n # ms @ ns)"
      using False Some i ms by simp
    then show ?thesis by blast
  qed
qed simp

lemma trace_parents_found:
  "trace_parents E L ids s = (Inr (), s') \<Longrightarrow> j \<in> snd s' \<Longrightarrow> j \<in> snd s \<or> find_by_id j L \<noteq> None"
proof (induction E L ids s arbitrary: s' rule: trace_parents.induct)
  case (2 E L i ids s)
  obtain n where Some: "find_by_id i L = Some n" using "2.prems" by (cases "find_by_id i L") auto
  then have i: "dn_id n = i" using find_by_id_Some by blast
  obtain t where t: "(if dn_id n \<in> snd s then (Inr (), s) else trace_parents E L (dn_parent_ids n) (visit E n s)) = (Inr (), t)"
    and rest: "trace_parents E L ids t = (Inr (), s')"
    using "2.prems" Some by (auto simp: bindE_Inr_iff)
  have "j \<in> snd t \<or> find_by_id j L \<noteq> None"
    using "2.IH"(2) [OF Some t rest "2.prems"(2)] .
  then show ?case
    using "2.IH"(1) [OF Some, of t] t Some i by (cases "dn_id n \<in> snd s") auto
qed simp

lemma trace_ok:
  assumes n: "find_by_id (dn_id n) L = Some n" and ok: "trace E n L = Inr t"
  shows "t = trace_text E (export_selected [dn_id n] L) \<and> (\<forall>j. ancestor_of L (dn_id n) j \<longrightarrow> find_by_id j L \<noteq> None)"
proof -
  obtain s' where tr: "trace_parents E L (dn_parent_ids n) (visit E n ('''', {})) = (Inr (), s')" and t: "t = fst s'"
    using ok by (auto simp: trace_def trace_recursive_def split: prod.splits sum.splits)
  obtain ns where ns: "export_ids L (dn_parent_ids n) ([n], {dn_id n}) = ([n] @ ns, snd s')"
    "fst s' = trace_text E (n # ns)"
    using trace_parents_export [OF tr, of "[n]"] by (auto simp: visit_def)
  have ex: "export_ids L [dn_id n] ([], {}) = (n # ns, snd s')" using n ns(1) by simp
  moreover have "find_by_id j L \<noteq> None" if "ancestor_of L (dn_id n) j" for j
  proof -
    have "j \<in> snd s'" using that export_seen_iff [of j L "[dn_id n]"] ex by simp
    then show ?thesis using trace_parents_found [OF tr, of j] n by auto
  qed
  ultimately show ?thesis using t ns(2) by (simp add: export_selected_def)
qed

lemma trace_error:
  assumes n: "find_by_id (dn_id n) L = Some n" and e: "trace E n L = Inl e"
  shows "\<exists>j. ancestor_of L (dn_id n) j \<and> find_by_id j L = None \<and> e = missing_parent j"
proof -
  obtain s' where "trace_parents E L (dn_parent_ids n) (visit E n ('''', {})) = (Inl e, s')"
    using e by (auto simp: trace_def trace_recursive_def split: prod.splits sum.splits)
  from trace_parents_error [OF this] show ?thesis using ancestor_via_parent [OF n] by blast
qed

section \<open>Writing and reading back\<close>

text \<open>What the ledger relies on of the JSON library for a node: its text is one non-blank line and reads back.\<close>

definition jsonl_node :: "ledger_env \<Rightarrow> DagNode \<Rightarrow> bool" where
  "jsonl_node E n \<longleftrightarrow>
     node_of_json E (node_json E n) = Some n \<and> valid_utf8 (node_json E n) \<and> trim (node_json E n) \<noteq> [] \<and>
     newline \<notin> set (node_json E n) \<and> last (node_json E n) \<noteq> CHR 0x0D"

definition nodes_text :: "ledger_env \<Rightarrow> DagNode list \<Rightarrow> string" where
  "nodes_text E ns = concat (map (\<lambda>n. node_json E n @ [newline]) ns)"

lemma nodes_text_simps [simp]:
  "nodes_text E [] = []" "nodes_text E (n # ns) = node_json E n @ newline # nodes_text E ns"
  by (simp_all add: nodes_text_def)

lemma str_lines_nodes_text:
  "\<forall>n \<in> set ns. jsonl_node E n \<Longrightarrow> str_lines (nodes_text E ns) = map (node_json E) ns"
proof (induction ns)
  case Nil
  then show ?case by (simp add: str_lines.simps)
next
  case (Cons n ns)
  then show ?case by (simp add: str_lines_unlines jsonl_node_def)
qed

lemma load_lines_nodes:
  "\<forall>n \<in> set ns. jsonl_node E n \<Longrightarrow> load_lines E (map (node_json E) ns) acc = Inr (acc @ ns)"
  by (induction ns arbitrary: acc) (auto simp: jsonl_node_def)

lemma fmupd_twice [simp]: "fmupd p a (fmupd p b fs) = fmupd p a fs"
  by (rule fmap_ext) simp

lemma contents_Some [simp]: "fmlookup fs p = Some c \<Longrightarrow> contents p fs = c"
  by (simp add: contents_def)

lemma write_all_result:
  assumes "fmlookup fs p = Some c"
  shows "case write_all os p d fs of
      (Inr _, fs') \<Rightarrow> fs' = fmupd p (c @ d) fs
    | (Inl _, fs') \<Rightarrow> \<exists>k < length d. fs' = fmupd p (c @ take k d) fs"
  using assms by (auto simp: write_all_def Let_def min_def not_le intro!: exI [of _ "os_accept os p (length c) (length d)"])

lemma write_nodes_result:
  "fmlookup fs p = Some c \<Longrightarrow>
   (case write_nodes os E p ns fs of
      (Inr _, fs') \<Rightarrow> fs' = fmupd p (c @ nodes_text E ns) fs
    | (Inl _, fs') \<Rightarrow> \<exists>k < length (nodes_text E ns). fs' = fmupd p (c @ take k (nodes_text E ns)) fs)"
proof (induction ns arbitrary: fs c)
  case Nil
  then have "fmupd p c fs = fs" by (intro fmap_ext) auto
  then show ?case by simp
next
  case (Cons n ns)
  let ?j = "node_json E n"
  obtain r1 fs1 where w1: "write_all os p ?j fs = (r1, fs1)" by (rule prod.exhaust)
  show ?case
  proof (cases r1)
    case (Inl e)
    then obtain k where "k < length ?j" "fs1 = fmupd p (c @ take k ?j) fs"
      using write_all_result [OF Cons.prems, where os = os and d = ?j] w1 by auto
    then show ?thesis using w1 Inl by (auto intro!: exI [of _ k])
  next
    case Inr1: (Inr u)
    then have fs1: "fs1 = fmupd p (c @ ?j) fs" using write_all_result [OF Cons.prems, where os = os and d = ?j] w1 by simp
    obtain r2 fs2 where w2: "write_all os p [newline] fs1 = (r2, fs2)" by (rule prod.exhaust)
    have c1: "fmlookup fs1 p = Some (c @ ?j)" by (simp add: fs1)
    show ?thesis
    proof (cases r2)
      case (Inl e)
      then have "fs2 = fmupd p (c @ take (length ?j) (nodes_text E (n # ns))) fs"
        using write_all_result [OF c1, where os = os and d = "[newline]"] w2 by (auto simp: fs1)
      then show ?thesis using w1 w2 Inr1 Inl by (auto intro!: exI [of _ "length ?j"])
    next
      case (Inr v)
      then have fs2: "fs2 = fmupd p (c @ ?j @ [newline]) fs"
        using write_all_result [OF c1, where os = os and d = "[newline]"] w2 by (simp add: fs1)
      then have "fmlookup fs2 p = Some (c @ ?j @ [newline])" by simp
      note ih = Cons.IH [OF this]
      obtain r3 fs3 where w3: "write_nodes os E p ns fs2 = (r3, fs3)" by (rule prod.exhaust)
      show ?thesis
      proof (cases r3)
        case (Inl e)
        then obtain k where "k < length (nodes_text E ns)" "fs3 = fmupd p ((c @ ?j @ [newline]) @ take k (nodes_text E ns)) fs"
          using ih w3 fs2 by auto
        then show ?thesis using w1 w2 w3 Inr1 Inr Inl by (auto intro!: exI [of _ "length ?j + 1 + k"])
      next
        case (Inr w)
        then show ?thesis using ih w1 w2 w3 Inr1 \<open>r2 = Inr v\<close> fs2 by simp
      qed
    qed
  qed
qed

lemma create_and_write_result:
  "case create_and_write os E p ns fs of
     (Inr _, fs') \<Rightarrow> fs' = fmupd p (nodes_text E ns) fs
   | (Inl _, fs') \<Rightarrow>
       os_create os p \<noteq> None \<and> fs' = fs \<or>
       (\<exists>k < length (nodes_text E ns). fs' = fmupd p (take k (nodes_text E ns)) fs)"
  using write_nodes_result [where fs = "fmupd p [] fs" and c = "[]" and p = p and os = os and E = E and ns = ns]
  by (auto simp: create_and_write_def split: option.split sum.splits)

lemma load_written:
  assumes "\<forall>n \<in> set ns. jsonl_node E n" "os_mkdir os p = None" "os_open os p = None"
  shows "load_from_file os E p (fmupd p (nodes_text E ns) fs) = Inr (ledger_new\<lparr>dl_nodes := ns\<rparr>)"
  using assms by (simp add: load_from_file_def str_lines_nodes_text load_lines_nodes)

section \<open>Importing\<close>

lemma list_ex_id: "list_ex (\<lambda>m. dn_id m = i) ns \<longleftrightarrow> i \<in> dn_id ` set ns"
  by (auto simp: list_ex_iff)

lemma import_lines_result:
  "import_lines E ls a L = (r, L') \<Longrightarrow>
     \<exists>new. dl_nodes L' = dl_nodes L @ new \<and> dl_file_path L' = dl_file_path L \<and> distinct (map dn_id new) \<and>
       dn_id ` set new \<inter> dn_id ` set (dl_nodes L) = {} \<and> (\<forall>k. r = Inr k \<longrightarrow> k = a + length new)"
proof (induction E ls a L rule: import_lines.induct)
  case (2 E l ls a L)
  show ?case
  proof (cases "node_of_json E l")
    case None
    then show ?thesis using 2 by (auto split: if_splits)
  next
    case (Some n)
    show ?thesis
    proof (cases "\<not> valid_utf8 l \<or> trim l = [] \<or> list_ex (\<lambda>m. dn_id m = dn_id n) (dl_nodes L)")
      case True
      then show ?thesis using 2 Some by (auto split: if_splits)
    next
      case False
      then have "import_lines E ls (a + 1) (L\<lparr>dl_nodes := dl_nodes L @ [n]\<rparr>) = (r, L')"
        using "2.prems" Some by simp
      from "2.IH"(3) [OF _ _ Some _ this] False obtain new where
        "dl_nodes L' = dl_nodes L @ n # new" "dl_file_path L' = dl_file_path L" "distinct (map dn_id new)"
        "dn_id ` set new \<inter> insert (dn_id n) (dn_id ` set (dl_nodes L)) = {}" "\<forall>k. r = Inr k \<longrightarrow> k = a + 1 + length new"
        by auto
      then show ?thesis using False by (intro exI [of _ "n # new"]) (auto simp: list_ex_id)
    qed
  qed
qed auto

lemma import_lines_known:
  "import_lines E ls a L = (Inr k, L') \<Longrightarrow> dn_id ` set (dl_nodes L') \<subseteq> dn_id ` set (dl_nodes M) \<Longrightarrow>
     import_lines E ls b M = (Inr b, M)"
proof (induction E ls a L rule: import_lines.induct)
  case (2 E l ls a L)
  show ?case
  proof (cases "node_of_json E l")
    case None
    then show ?thesis using 2 by (auto split: if_splits)
  next
    case (Some n)
    have keep: "dn_id n \<in> dn_id ` set (dl_nodes M)" if "\<not> \<not> valid_utf8 l" "trim l \<noteq> []"
    proof (cases "list_ex (\<lambda>m. dn_id m = dn_id n) (dl_nodes L)")
      case True
      then have "dn_id n \<in> dn_id ` set (dl_nodes L)" by (simp add: list_ex_id)
      then show ?thesis using import_lines_result [OF "2.prems"(1)] "2.prems"(2) by auto
    next
      case False
      then have "import_lines E ls (a + 1) (L\<lparr>dl_nodes := dl_nodes L @ [n]\<rparr>) = (Inr k, L')"
        using "2.prems" Some that by simp
      from import_lines_result [OF this] show ?thesis using "2.prems"(2) by auto
    qed
    then have "list_ex (\<lambda>m. dn_id m = dn_id n) (dl_nodes M)" if "valid_utf8 l" "trim l \<noteq> []"
      using that by (simp add: list_ex_id)
    then show ?thesis using 2 Some by (auto split: if_splits)
  qed
qed simp

lemma import_nodes_ok:
  assumes "\<forall>n \<in> set ns. jsonl_node E n"
  shows "\<exists>k L'. import_lines E (map (node_json E) ns) a L = (Inr k, L') \<and>
    dn_id ` set (dl_nodes L') = dn_id ` set (dl_nodes L) \<union> dn_id ` set ns"
  using assms
proof (induction ns arbitrary: a L)
  case (Cons n ns)
  then have n: "jsonl_node E n" by simp
  show ?case
  proof (cases "list_ex (\<lambda>m. dn_id m = dn_id n) (dl_nodes L)")
    case True
    then have "dn_id n \<in> dn_id ` set (dl_nodes L)" by (simp add: list_ex_id)
    then show ?thesis using Cons.IH [of a L] Cons.prems n True by (auto simp: jsonl_node_def)
  next
    case False
    then show ?thesis using Cons.IH [of "a + 1" "L\<lparr>dl_nodes := dl_nodes L @ [n]\<rparr>"] Cons.prems n by (auto simp: jsonl_node_def)
  qed
qed simp

section \<open>A ledger for the witnesses\<close>

text \<open>A genesis node, two votes on it, and an execution that cites both; the texts stand for the JSON.\<close>

definition demo_node :: "string \<Rightarrow> string list \<Rightarrow> NodeData \<Rightarrow> DagNode" where
  "demo_node i ps d = (with_default_namespace ps d 7)\<lparr>dn_id := i\<rparr>"

definition demo_nodes :: "DagNode list" where
  "demo_nodes =
     [demo_node ''a'' [] (ProposalCreated ''p1'' ''roof''),
      demo_node ''b'' [''a''] (VoteCast ''p1'' ''ann'' f64_one),
      demo_node ''c'' [''a''] (VoteCast ''p1'' ''bob'' f64_zero),
      demo_node ''d'' [''b'', ''c''] (ProposalExecuted ''p1'' True)]"

definition demo_ledger_env :: ledger_env where
  "demo_ledger_env =
     \<lparr>node_json = (\<lambda>n. ''#'' @ dn_id n),
      node_of_json = (\<lambda>s. List.find (\<lambda>n. s = ''#'' @ dn_id n) demo_nodes),
      nodes_json_pretty = (\<lambda>ns. concat (map dn_id ns)),
      sha256_hex = (\<lambda>_. ''d''), dbg_node = dn_id\<rparr>"

definition demo_os :: os_env where
  "demo_os = \<lparr>os_mkdir = (\<lambda>_. None), os_open = (\<lambda>_. None), os_create = (\<lambda>_. None), os_accept = (\<lambda>_ _ n. n),
     os_write_error = (\<lambda>_. ''disk full'')\<rparr>"

definition demo_ledger :: DagLedger where
  "demo_ledger = \<lparr>dl_nodes = demo_nodes, dl_file_path = Some ''dag.jsonl''\<rparr>"

lemma demo_jsonl: "\<forall>n \<in> set demo_nodes. jsonl_node demo_ledger_env n"
  by code_simp

section \<open>Properties\<close>

text \<open>
  C12: export of selected nodes. \<^verbatim>\<open>export_selected\<close> returns, each once, exactly the nodes of the ledger that are
  reachable from the start ids over parent links, whatever links are missing or cyclic.
\<close>

theorem export_selected_exact:
  "distinct (map dn_id (export_selected ids L)) \<and>
   set (export_selected ids L) =
     {n. find_by_id (dn_id n) L = Some n \<and> (\<exists>i \<in> set ids. ancestor_of L i (dn_id n))}"
  by (rule export_selected_spec)

theorem export_selected_exact_witness:
  "map dn_id (export_selected [''d''] demo_ledger) = [''d'', ''b'', ''a'', ''c''] \<and>
   ancestor_of demo_ledger ''d'' ''a''"
proof -
  have *: "map dn_id (export_selected [''d''] demo_ledger) = [''d'', ''b'', ''a'', ''c'']" by code_simp
  then have "''a'' \<in> dn_id ` set (export_selected [''d''] demo_ledger)" by (metis list.set_map list.set_intros)
  then show ?thesis using * export_selected_exact [of "[''d'']" demo_ledger] by auto
qed

text \<open>
  C13: tracing. For a node of the ledger, \<^verbatim>\<open>trace\<close> succeeds exactly when every ancestor is in the ledger, and
  then its text lists the node and its ancestors, each once; otherwise it reports an ancestor that is missing.
\<close>

theorem trace_exact:
  assumes "find_by_id (dn_id n) L = Some n"
  shows "case trace E n L of
      Inr t \<Rightarrow> t = trace_text E (export_selected [dn_id n] L) \<and>
        (\<forall>j. ancestor_of L (dn_id n) j \<longrightarrow> find_by_id j L \<noteq> None)
    | Inl e \<Rightarrow> \<exists>j. ancestor_of L (dn_id n) j \<and> find_by_id j L = None \<and> e = missing_parent j"
  using trace_ok [OF assms] trace_error [OF assms] by (auto split: sum.split)

theorem trace_exact_witness:
  "trace demo_ledger_env (demo_nodes ! 3) demo_ledger = Inr ''d\<newline>b\<newline>a\<newline>c\<newline>'' \<and>
   {j. ancestor_of demo_ledger ''d'' j} \<subseteq> {j. find_by_id j demo_ledger \<noteq> None}"
proof -
  have "find_by_id (dn_id (demo_nodes ! 3)) demo_ledger = Some (demo_nodes ! 3)"
    "trace demo_ledger_env (demo_nodes ! 3) demo_ledger = Inr ''d\<newline>b\<newline>a\<newline>c\<newline>''"
    "dn_id (demo_nodes ! 3) = ''d''" by code_simp+
  then show ?thesis using trace_exact [of "demo_nodes ! 3" demo_ledger demo_ledger_env] by auto
qed

text \<open>
  C14: durability. When \<^verbatim>\<open>append_and_persist\<close> succeeds, opening the file again gives the same ledger with the new
  node. When it fails, the node is in memory all the same, and the file is untouched only if it could not be
  created: after a failed write it holds a proper prefix of the new text, so nodes persisted before can be lost.
\<close>

theorem persist_durable:
  assumes "\<forall>m \<in> set (dl_nodes L). jsonl_node E m" "jsonl_node E (n\<lparr>dn_id := compute_id E n\<rparr>)"
    "dl_file_path L = Some p" "os_mkdir os p = None" "os_open os p = None"
  shows "case append_and_persist os E n (L, fs) of
      (Inr i, (L', fs')) \<Rightarrow> i = compute_id E n \<and> dl_nodes L' = dl_nodes L @ [n\<lparr>dn_id := i\<rparr>] \<and> with_path os E p fs' = L'
    | (Inl _, (L', fs')) \<Rightarrow> dl_nodes L' = dl_nodes L @ [n\<lparr>dn_id := compute_id E n\<rparr>] \<and>
        (os_create os p \<noteq> None \<and> fs' = fs \<or>
         (\<exists>k < length (nodes_text E (dl_nodes L')). fs' = fmupd p (take k (nodes_text E (dl_nodes L'))) fs))"
proof -
  define L1 where "L1 = L\<lparr>dl_nodes := dl_nodes L @ [n\<lparr>dn_id := compute_id E n\<rparr>]\<rparr>"
  have a: "append_node E n L = (compute_id E n, L1)" by (simp add: append_node_def Let_def L1_def)
  have p1: "dl_file_path L1 = Some p" using assms(3) by (simp add: L1_def)
  have j: "\<forall>m \<in> set (dl_nodes L1). jsonl_node E m" using assms(1,2) by (simp add: L1_def)
  have reload: "with_path os E p (fmupd p (nodes_text E (dl_nodes L1)) fs) = L1"
    using load_written [OF j assms(4,5)] p1 by (simp add: with_path_def ledger_new_def)
  have n1: "dl_nodes L1 = dl_nodes L @ [n\<lparr>dn_id := compute_id E n\<rparr>]" by (simp add: L1_def)
  obtain r fs' where w: "create_and_write os E p (dl_nodes L1) fs = (r, fs')" by (rule prod.exhaust)
  note result = create_and_write_result [where os = os and E = E and p = p and ns = "dl_nodes L1" and fs = fs, unfolded w]
  show ?thesis
  proof (cases r)
    case (Inl e)
    then have "append_and_persist os E n (L, fs) = (Inl e, (L1, fs'))"
      using assms(3) w by (simp add: append_and_persist_def a export_to_file_def p1)
    then show ?thesis using result Inl n1 by simp
  next
    case (Inr u)
    then have "append_and_persist os E n (L, fs) = (Inr (compute_id E n), (L1, fs'))"
      using assms(3) w by (simp add: append_and_persist_def a export_to_file_def p1)
    then show ?thesis using result Inr n1 reload by simp
  qed
qed

definition demo_full_disk :: os_env where
  "demo_full_disk = demo_os\<lparr>os_accept := (\<lambda>_ pos n. min n (7 - pos))\<rparr>"

theorem persist_durable_witness:
  "(let L = demo_ledger\<lparr>dl_nodes := take 3 demo_nodes\<rparr>; n = (demo_nodes ! 3)\<lparr>dn_id := []\<rparr> in
     (case append_and_persist demo_os demo_ledger_env n (L, fmempty) of
        (Inr i, (L', fs')) \<Rightarrow> i = ''d'' \<and> with_path demo_os demo_ledger_env ''dag.jsonl'' fs' = L' | _ \<Rightarrow> False) \<and>
     (case append_and_persist demo_full_disk demo_ledger_env n (L, fmempty) of
        (Inl e, (L', fs')) \<Rightarrow> fmlookup fs' ''dag.jsonl'' = Some ''#a\<newline>#b\<newline>#'' | _ \<Rightarrow> False))"
proof -
  let ?L = "demo_ledger\<lparr>dl_nodes := take 3 demo_nodes\<rparr>" and ?n = "(demo_nodes ! 3)\<lparr>dn_id := []\<rparr>"
  have h: "\<forall>m \<in> set (dl_nodes ?L). jsonl_node demo_ledger_env m"
    "jsonl_node demo_ledger_env (?n\<lparr>dn_id := compute_id demo_ledger_env ?n\<rparr>)"
    "dl_file_path ?L = Some ''dag.jsonl''" "os_mkdir demo_os ''dag.jsonl'' = None" "os_open demo_os ''dag.jsonl'' = None"
    "is_ok (fst (append_and_persist demo_os demo_ledger_env ?n (?L, fmempty)))"
    "compute_id demo_ledger_env ?n = ''d''"
    by code_simp+
  have "case append_and_persist demo_full_disk demo_ledger_env ?n (?L, fmempty) of
      (Inl e, (L', fs')) \<Rightarrow> fmlookup fs' ''dag.jsonl'' = Some ''#a\<newline>#b\<newline>#'' | _ \<Rightarrow> False" by code_simp
  then show ?thesis
    using persist_durable [OF h(1-5), of fmempty] h(6,7) by (auto simp: Let_def split: sum.splits prod.splits)
qed

text \<open>
  importing a file only appends. The nodes it adds have new, pairwise different ids; the count it returns is
  their number, also when it stops at a line that is not valid UTF-8 it keeps what it added before; and
  importing the same file again adds nothing.
\<close>

theorem import_appends_new:
  "case import_from_file os E p fs L of
     (r, L') \<Rightarrow>
       (\<exists>new. dl_nodes L' = dl_nodes L @ new \<and> distinct (map dn_id new) \<and>
          dn_id ` set new \<inter> dn_id ` set (dl_nodes L) = {} \<and>
          (case r of Inr k \<Rightarrow> k = length new | Inl _ \<Rightarrow> True)) \<and>
       dl_file_path L' = dl_file_path L \<and>
       (case r of Inr _ \<Rightarrow> import_from_file os E p fs L' = (Inr 0, L') | Inl _ \<Rightarrow> True)"
proof (cases "fmlookup fs p = None \<or> os_open os p \<noteq> None")
  case False
  then obtain c where c: "fmlookup fs p = Some c" "os_open os p = None" by auto
  obtain r L' where i: "import_lines E (str_lines c) 0 L = (r, L')" by (rule prod.exhaust)
  have "import_lines E (str_lines c) 0 L' = (Inr 0, L')" if "r = Inr k" for k
    using import_lines_known [of E "str_lines c" 0 L k L' L' 0] i that by simp
  then show ?thesis
    using import_lines_result [OF i] c i by (auto simp: import_from_file_def split: sum.split)
qed (auto simp: import_from_file_def split: option.splits)

text \<open>
  C15: synchronisation. Exporting the difference of a ledger to another one and importing that file into the
  other gives it the ids of both, and the difference is then empty.
\<close>

theorem sync_converges:
  assumes "\<forall>n \<in> set (dl_nodes A). jsonl_node E n" "export_diff_to_file os E (diff_with A B) p fs = (Inr u, fs')"
    "os_open os p = None"
  shows "case import_from_file os E p fs' B of
      (r, B') \<Rightarrow> is_ok r \<and> set (all_node_ids B') = set (all_node_ids A) \<union> set (all_node_ids B) \<and>
        dd_added (diff_with A B') = []"
proof -
  let ?ns = "dd_added (diff_with A B)"
  have ns: "\<forall>n \<in> set ?ns. jsonl_node E n" using assms(1) by (simp add: diff_with_def)
  have "fs' = fmupd p (nodes_text E ?ns) fs"
    using assms(2) create_and_write_result [where os = os and E = E and p = p and ns = ?ns and fs = fs] by (auto simp: export_diff_to_file_def split: option.splits)
  then have "import_from_file os E p fs' B = import_lines E (map (node_json E) ?ns) 0 B"
    using assms(3) by (simp add: import_from_file_def str_lines_nodes_text [OF ns])
  moreover obtain k B' where "import_lines E (map (node_json E) ?ns) 0 B = (Inr k, B')"
    "dn_id ` set (dl_nodes B') = dn_id ` set (dl_nodes B) \<union> dn_id ` set ?ns"
    using import_nodes_ok [OF ns] by blast
  ultimately show ?thesis by (auto simp: all_node_ids_def diff_with_def filter_empty_conv Let_def)
qed

theorem sync_converges_witness:
  "(let B = demo_ledger\<lparr>dl_nodes := take 2 demo_nodes\<rparr>;
        fs = snd (export_diff_to_file demo_os demo_ledger_env (diff_with demo_ledger B) ''sync.jsonl'' fmempty)
    in case import_from_file demo_os demo_ledger_env ''sync.jsonl'' fs B of
         (r, B') \<Rightarrow> r = Inr 2 \<and> dd_added (diff_with demo_ledger B') = [])"
proof -
  let ?B = "demo_ledger\<lparr>dl_nodes := take 2 demo_nodes\<rparr>"
  let ?x = "export_diff_to_file demo_os demo_ledger_env (diff_with demo_ledger ?B) ''sync.jsonl'' fmempty"
  have h: "\<forall>n \<in> set (dl_nodes demo_ledger). jsonl_node demo_ledger_env n" "?x = (Inr (), snd ?x)"
    "os_open demo_os ''sync.jsonl'' = None"
    by code_simp+
  have "fst (import_from_file demo_os demo_ledger_env ''sync.jsonl'' (snd ?x) ?B) = Inr 2" by code_simp
  then show ?thesis using sync_converges [OF h] by (auto simp: Let_def split: prod.splits)
qed

end
