(* ===== verification/Dsl_Line.thy ===== *)
theory Dsl_Line
  imports Text
begin

text \<open>
  The text language, one line at a time: the errors and positions of \<^verbatim>\<open>compiler/mod.rs\<close>, the helpers of
  \<^verbatim>\<open>compiler/common.rs\<close> and \<^verbatim>\<open>parse_line\<close> of \<^verbatim>\<open>compiler/line_parser.rs\<close>. A command's arguments are the
  remaining words of the line; each command is a definition of its own. Slicing between quotes can panic, so
  results are of type \<open>CompilerError fault + 'a\<close>.
\<close>

section \<open>Errors and positions\<close>

datatype (plugins only: code) CompilerError =
    CE_UnknownCommand string nat nat
  | CE_UnknownBlockType string nat nat
  | CE_InvalidFunctionDefinition string nat nat
  | CE_InvalidFunctionFormat string nat nat
  | CE_InvalidFunctionStart string nat nat
  | CE_MissingPushValue nat nat
  | CE_InvalidPushValue string nat nat
  | CE_MissingEmitQuotes nat nat
  | CE_InvalidEmitEventFormat nat nat
  | CE_MissingVariable string nat nat
  | CE_MissingFunctionName nat nat
  | CE_MissingAssertDepth nat nat
  | CE_InvalidAssertDepth string nat nat
  | CE_InsufficientAssertDepth nat nat
  | CE_InvalidCaseValue string nat nat
  | CE_MissingMatchValue nat nat
  | CE_InvalidLoopFormat string nat nat
  | CE_InvalidLoopCount string nat nat
  | CE_UnexpectedEOF nat
  | CE_InvalidIndentation nat
  | CE_SyntaxError string
  | CE_MissingProposalId nat nat
  | CE_InvalidQuorumValue nat nat
  | CE_InvalidThresholdValue nat nat
  | CE_DuplicateIfPassedBlock nat nat
  | CE_DuplicateElseBlock nat nat
  | CE_ElseWithoutIfPassed nat nat
  | CE_MissingParameter string nat nat
  | CE_InvalidParameterValue string nat nat

record SourcePosition =
  sp_line :: nat
  sp_column :: nat

definition position :: "nat \<Rightarrow> nat \<Rightarrow> SourcePosition" where
  "position l c = \<lparr>sp_line = l, sp_column = c\<rparr>"

lemma position_simps [simp]: "sp_line (position l c) = l" "sp_column (position l c) = c"
  by (simp_all add: position_def)

type_synonym 'a parsed = "CompilerError fault + 'a"

definition at_pos :: "(nat \<Rightarrow> nat \<Rightarrow> CompilerError) \<Rightarrow> SourcePosition \<Rightarrow> 'a parsed" where
  "at_pos e pos = Inl (Err (e (sp_line pos) (sp_column pos)))"

section \<open>Helpers\<close>

function get_indent :: "string \<Rightarrow> nat" where
  "get_indent s = (if ws_width s = 0 then 0 else Suc (get_indent (drop (ws_width s) s)))"
  by pat_completeness auto
termination by (relation "measure length") (auto intro: drop_ws_shorter)

declare get_indent.simps [simp del]

definition is_indented_block :: "string \<Rightarrow> nat \<Rightarrow> bool" where
  "is_indented_block line base_indent = (get_indent line > base_indent)"

abbreviation dquote :: char where
  "dquote \<equiv> CHR 0x22"

definition extract_quoted_text :: "string \<Rightarrow> (string \<times> string) option" where
  "extract_quoted_text line =
     (let parts = split_char dquote line in
      if length parts \<ge> 3 then Some (parts ! 1, parts ! (length parts - 2))
      else if length parts \<ge> 2 then Some (parts ! 1, '''')
      else None)"

definition adjusted_position :: "SourcePosition \<Rightarrow> string \<Rightarrow> string \<Rightarrow> SourcePosition" where
  "adjusted_position pos line part =
     (case find_str part line of
        Some idx \<Rightarrow> position (sp_line pos) (sp_column pos + idx)
      | None \<Rightarrow> pos)"

definition collect_block_lines :: "string list \<Rightarrow> nat \<Rightarrow> nat \<Rightarrow> string list" where
  "collect_block_lines lines start base_indent =
     takeWhile (\<lambda>l. get_indent l > base_indent) (drop start lines)"

definition find_block_end :: "string list \<Rightarrow> nat \<Rightarrow> nat \<Rightarrow> nat" where
  "find_block_end lines start base_indent = start + length (collect_block_lines lines start base_indent)"

section \<open>Commands\<close>

text \<open>\<^verbatim>\<open>parts.next().ok_or(e)?\<close> and \<^verbatim>\<open>parse().map_err(e)?\<close>.\<close>

definition next_part :: "'a parsed \<Rightarrow> string list \<Rightarrow> (string \<Rightarrow> string list \<Rightarrow> 'a parsed) \<Rightarrow> 'a parsed" where
  "next_part err parts f = (case parts of [] \<Rightarrow> err | p # ps \<Rightarrow> f p ps)"

definition or_err :: "'a parsed \<Rightarrow> 'v option \<Rightarrow> ('v \<Rightarrow> 'a parsed) \<Rightarrow> 'a parsed" where
  "or_err err v f = (case v of None \<Rightarrow> err | Some x \<Rightarrow> f x)"

lemma next_part_simps [simp]: "next_part err [] f = err" "next_part err (p # ps) f = f p ps"
  by (simp_all add: next_part_def)

lemma or_err_simps [simp]: "or_err err None f = err" "or_err err (Some x) f = f x"
  by (simp_all add: or_err_def)

lemma or_err_cong [fundef_cong]:
  assumes "err = err'" "v = v'" "\<And>x. v' = Some x \<Longrightarrow> f x = g x"
  shows "or_err err v f = or_err err' v' g"
  using assms by (auto simp: or_err_def split: option.split)

lemma bindR_cong [fundef_cong]:
  assumes "r = r'" "\<And>a. r' = Inr a \<Longrightarrow> f a = g a"
  shows "bindR r f = bindR r' g"
  using assms by (cases r') auto

definition quoted_word :: "string \<Rightarrow> bool" where
  "quoted_word w = (starts_with [dquote] w \<and> ends_with [dquote] w)"

definition strip_quotes :: "string \<Rightarrow> string parsed" where
  "strip_quotes w = slice w 1 (length w - 1)"

definition parse_push_value :: "string \<Rightarrow> TypedValue parsed" where
  "parse_push_value val =
     (if val = ''true'' then Inr (Boolean True)
      else if val = ''false'' then Inr (Boolean False)
      else if val = ''null'' then Inr Null
      else if quoted_word val then bindR (strip_quotes val) (\<lambda>s. Inr (Str s))
      else case parse_f64 val of Some n \<Rightarrow> Inr (Number n) | None \<Rightarrow> Inr (Str val))"

definition parse_push :: "string list \<Rightarrow> SourcePosition \<Rightarrow> Op parsed" where
  "parse_push parts pos =
     next_part (at_pos CE_MissingPushValue pos) parts (\<lambda>val _.
       bindR (parse_push_value val) (\<lambda>v. Inr (OpPush v)))"

text \<open>The text between the first and the last quote of the line.\<close>

definition between_quotes :: "string \<Rightarrow> nat \<Rightarrow> string parsed" where
  "between_quotes line i =
     slice line (i + 1) (case rfind_char dquote line of Some j \<Rightarrow> j | None \<Rightarrow> length line)"

definition parse_emit :: "string \<Rightarrow> SourcePosition \<Rightarrow> Op parsed" where
  "parse_emit line pos =
     (case find_str [dquote] line of
        Some i \<Rightarrow> bindR (between_quotes line i) (\<lambda>s. Inr (OpEmit s))
      | None \<Rightarrow> at_pos CE_MissingEmitQuotes pos)"

definition parse_emitevent :: "string \<Rightarrow> SourcePosition \<Rightarrow> Op parsed" where
  "parse_emitevent line pos =
     (let parts = split_char dquote line in
      if length parts < 5 then at_pos CE_InvalidEmitEventFormat pos
      else Inr (OpEmitEvent (trim (parts ! 1)) (trim (parts ! 3))))"

definition parse_assertequalstack :: "string \<Rightarrow> string list \<Rightarrow> SourcePosition \<Rightarrow> Op parsed" where
  "parse_assertequalstack line parts pos =
     next_part (at_pos CE_MissingAssertDepth pos) parts (\<lambda>depth_str _.
       or_err (Inl (Err (CE_InvalidAssertDepth depth_str (sp_line pos) (sp_column (adjusted_position pos line depth_str)))))
         (parse_usize depth_str) (\<lambda>depth.
           if depth < 2 then at_pos CE_InsufficientAssertDepth pos else Inr (OpAssertEqualStack depth)))"

text \<open>The commands with one name as argument: \<^verbatim>\<open>load\<close>, \<^verbatim>\<open>store\<close>, \<^verbatim>\<open>storep\<close>, \<^verbatim>\<open>loadp\<close>, \<^verbatim>\<open>createresource\<close>.\<close>

definition parse_name :: "(string \<Rightarrow> Op) \<Rightarrow> string \<Rightarrow> string list \<Rightarrow> SourcePosition \<Rightarrow> Op parsed" where
  "parse_name c name parts pos = next_part (at_pos (CE_MissingVariable name) pos) parts (\<lambda>v _. Inr (c v))"

fun reputation_params ::
  "string \<Rightarrow> SourcePosition \<Rightarrow> string list \<Rightarrow> f64 option \<Rightarrow> string option \<Rightarrow> (f64 option \<times> string option) parsed" where
  "reputation_params line pos [] amount reason = Inr (amount, reason)"
| "reputation_params line pos (param # parts) amount reason =
     (if starts_with ''amount='' param then
        let value_str = trim_start_matches ''amount='' param in
        or_err (Inl (Err (CE_InvalidParameterValue ''amount'' (sp_line pos) (sp_column (adjusted_position pos line value_str)))))
          (parse_f64 value_str) (\<lambda>a. reputation_params line pos parts (Some a) reason)
      else if starts_with ''reason='' param then
        reputation_params line pos parts amount (Some (trim_start_matches ''reason='' param))
      else reputation_params line pos parts amount reason)"

definition parse_increment_reputation :: "string \<Rightarrow> string list \<Rightarrow> SourcePosition \<Rightarrow> Op parsed" where
  "parse_increment_reputation line parts pos =
     next_part (at_pos (CE_MissingParameter ''increment_reputation'') pos) parts (\<lambda>identity_id ps.
       bindR (reputation_params line pos ps None None) (\<lambda>(amount, reason).
         Inr (OpIncrementReputation identity_id amount reason)))"

definition format_error :: "string \<Rightarrow> SourcePosition \<Rightarrow> 'a parsed" where
  "format_error msg pos = at_pos (CE_InvalidFunctionFormat msg) pos"

definition parse_rankedvote :: "string list \<Rightarrow> SourcePosition \<Rightarrow> Op parsed" where
  "parse_rankedvote parts pos =
     next_part (format_error (''rankedvote requires '' @ quoted ''candidates'' @ '' parameter'') pos) parts (\<lambda>candidates_str ps.
     next_part (format_error (''rankedvote requires '' @ quoted ''ballots'' @ '' parameter'') pos) ps (\<lambda>ballots_str _.
     or_err (format_error (''Invalid candidates count: '' @ candidates_str) pos) (parse_usize candidates_str) (\<lambda>candidates.
     or_err (format_error (''Invalid ballots count: '' @ ballots_str) pos) (parse_usize ballots_str) (\<lambda>ballots.
       Inr (OpRankedVote candidates ballots)))))"

text \<open>\<^verbatim>\<open>liquiddelegate\<close>, \<^verbatim>\<open>checkmembership\<close> and \<^verbatim>\<open>checkdelegation\<close>: two names.\<close>

definition parse_two_names :: "(string \<Rightarrow> string \<Rightarrow> Op) \<Rightarrow> string \<Rightarrow> string \<Rightarrow> string list \<Rightarrow> SourcePosition \<Rightarrow> Op parsed" where
  "parse_two_names c missing1 missing2 parts pos =
     next_part (format_error missing1 pos) parts (\<lambda>a ps.
     next_part (format_error missing2 pos) ps (\<lambda>b _. Inr (c a b)))"

definition parse_threshold :: "(f64 \<Rightarrow> Op) \<Rightarrow> string \<Rightarrow> string list \<Rightarrow> SourcePosition \<Rightarrow> Op parsed" where
  "parse_threshold c name parts pos =
     next_part (format_error (name @ '' requires threshold parameter'') pos) parts (\<lambda>threshold_str _.
     or_err (format_error (''Invalid threshold value: '' @ threshold_str) pos) (parse_f64 threshold_str) (\<lambda>t. Inr (c t)))"

definition parse_loadversionp :: "string list \<Rightarrow> SourcePosition \<Rightarrow> Op parsed" where
  "parse_loadversionp parts pos =
     next_part (format_error ''loadversionp requires key parameter'' pos) parts (\<lambda>key ps.
     next_part (format_error ''loadversionp requires version parameter'' pos) ps (\<lambda>version_str _.
     or_err (format_error (''Version must be a positive integer, got: '' @ version_str) pos) (parse_u64 version_str) (\<lambda>v.
       Inr (OpLoadVersionP key v))))"

definition parse_diffversionsp :: "string list \<Rightarrow> SourcePosition \<Rightarrow> Op parsed" where
  "parse_diffversionsp parts pos =
     next_part (format_error ''diffversionsp requires key parameter'' pos) parts (\<lambda>key ps.
     next_part (format_error ''diffversionsp requires first version parameter'' pos) ps (\<lambda>v1_str ps2.
     next_part (format_error ''diffversionsp requires second version parameter'' pos) ps2 (\<lambda>v2_str _.
     or_err (format_error (''First version must be a positive integer, got: '' @ v1_str) pos) (parse_u64 v1_str) (\<lambda>v1.
     or_err (format_error (''Second version must be a positive integer, got: '' @ v2_str) pos) (parse_u64 v2_str) (\<lambda>v2.
       Inr (OpDiffVersionsP key v1 v2))))))"

text \<open>The next quoted text of a string and what follows it.\<close>

definition next_quoted :: "string \<Rightarrow> (string \<times> string) option" where
  "next_quoted s =
     (case find_str [dquote] s of
        None \<Rightarrow> None
      | Some a \<Rightarrow>
          case find_str [dquote] (drop (a + 1) s) of
            None \<Rightarrow> None
          | Some b \<Rightarrow> Some (take b (drop (a + 1) s), drop (a + 1 + b + 1) s))"

definition parse_verifyidentity :: "string \<Rightarrow> string list \<Rightarrow> SourcePosition \<Rightarrow> Op parsed" where
  "parse_verifyidentity line parts pos =
     next_part (format_error ''verifyidentity requires identity_id parameter'' pos) parts (\<lambda>identity_id _.
     or_err (format_error (''Cannot find identity_id '' @ quoted identity_id @ '' in line'') pos) (find_str identity_id line) (\<lambda>i.
       let rest_of_line = trim (drop (i + length identity_id) line);
           failed = format_error ''verifyidentity requires quoted message and signature parameters'' pos
       in case next_quoted rest_of_line of
            None \<Rightarrow> failed
          | Some (message, rest) \<Rightarrow>
              case next_quoted rest of
                None \<Rightarrow> failed
              | Some (signature, _) \<Rightarrow> Inr (OpVerifyIdentity identity_id message signature)))"

definition parse_reason :: "string \<Rightarrow> string option parsed" where
  "parse_reason line =
     (case find_str [dquote] line of
        Some i \<Rightarrow> bindR (between_quotes line i) (\<lambda>s. Inr (Some s))
      | None \<Rightarrow> Inr None)"

text \<open>\<^verbatim>\<open>mint\<close> and \<^verbatim>\<open>burn\<close>.\<close>

definition parse_supply ::
  "(string \<Rightarrow> string \<Rightarrow> f64 \<Rightarrow> string option \<Rightarrow> Op) \<Rightarrow> string \<Rightarrow> string \<Rightarrow> string list \<Rightarrow> SourcePosition \<Rightarrow> Op parsed" where
  "parse_supply c name line parts pos =
     next_part (at_pos (CE_MissingVariable (name @ '' (resource)'')) pos) parts (\<lambda>resource ps.
     next_part (at_pos (CE_MissingVariable (name @ '' (account)'')) pos) ps (\<lambda>account ps2.
     next_part (at_pos (CE_MissingVariable (name @ '' (amount)'')) pos) ps2 (\<lambda>amount_str _.
     or_err (format_error (''Invalid '' @ name @ '' amount: '' @ amount_str) pos) (parse_f64 amount_str) (\<lambda>amount.
     bindR (parse_reason line) (\<lambda>reason. Inr (c resource account amount reason))))))"

definition parse_transfer :: "string \<Rightarrow> string list \<Rightarrow> SourcePosition \<Rightarrow> Op parsed" where
  "parse_transfer line parts pos =
     next_part (at_pos (CE_MissingVariable ''transfer (resource)'') pos) parts (\<lambda>resource ps.
     next_part (at_pos (CE_MissingVariable ''transfer (from)'') pos) ps (\<lambda>from_acc ps2.
     next_part (at_pos (CE_MissingVariable ''transfer (to)'') pos) ps2 (\<lambda>to_acc ps3.
     next_part (at_pos (CE_MissingVariable ''transfer (amount)'') pos) ps3 (\<lambda>amount_str _.
     or_err (format_error (''Invalid transfer amount: '' @ amount_str) pos) (parse_f64 amount_str) (\<lambda>amount.
     bindR (parse_reason line) (\<lambda>reason. Inr (OpTransfer resource from_acc to_acc amount reason)))))))"

definition parse_balance :: "string list \<Rightarrow> SourcePosition \<Rightarrow> Op parsed" where
  "parse_balance parts pos =
     next_part (at_pos (CE_MissingVariable ''balance (resource)'') pos) parts (\<lambda>resource ps.
     next_part (at_pos (CE_MissingVariable ''balance (account)'') pos) ps (\<lambda>account _. Inr (OpBalance resource account)))"

text \<open>
  The parameters of \<^verbatim>\<open>proposal_lifecycle\<close>: quorum, threshold, title and author. The code builds a
  \<^verbatim>\<open>ProposalLifecycleMacro\<close> of them and drops it: only an error of theirs is seen.
\<close>

record macro_params =
  mp_quorum :: f64
  mp_threshold :: f64
  mp_title :: string
  mp_created_by :: string

fun lifecycle_params :: "SourcePosition \<Rightarrow> string list \<Rightarrow> macro_params \<Rightarrow> macro_params parsed" where
  "lifecycle_params pos [] m = Inr m"
| "lifecycle_params pos (param # parts) m =
     (if starts_with ''quorum='' param then
        or_err (at_pos CE_InvalidQuorumValue pos) (parse_f64 (trim_start_matches ''quorum='' param))
          (\<lambda>q. lifecycle_params pos parts (m\<lparr>mp_quorum := q\<rparr>))
      else if starts_with ''threshold='' param then
        or_err (at_pos CE_InvalidThresholdValue pos) (parse_f64 (trim_start_matches ''threshold='' param))
          (\<lambda>t. lifecycle_params pos parts (m\<lparr>mp_threshold := t\<rparr>))
      else if starts_with ''title='' param then
        lifecycle_params pos parts (m\<lparr>mp_title := trim_char dquote (trim_start_matches ''title='' param)\<rparr>)
      else if starts_with ''author='' param then
        lifecycle_params pos parts (m\<lparr>mp_created_by := trim_char dquote (trim_start_matches ''author='' param)\<rparr>)
      else lifecycle_params pos parts m)"

definition default_params :: macro_params where
  "default_params = \<lparr>mp_quorum = round_f64 False (6 / 10), mp_threshold = round_f64 False (1 / 2),
     mp_title = ''Untitled Proposal'', mp_created_by = ''anonymous''\<rparr>"

definition parse_proposal_lifecycle :: "string list \<Rightarrow> SourcePosition \<Rightarrow> Op parsed" where
  "parse_proposal_lifecycle parts pos =
     next_part (at_pos CE_MissingProposalId pos) parts (\<lambda>_ ps.
       bindR (lifecycle_params pos ps default_params) (\<lambda>_. Inr (OpMacro ''proposal_lifecycle'')))"

section \<open>A line\<close>

text \<open>The commands without arguments.\<close>

definition plain_commands :: "(string \<times> Op) list" where
  "plain_commands =
     [(''break'', OpBreak), (''continue'', OpContinue), (''add'', OpAdd), (''sub'', OpSub), (''mul'', OpMul),
      (''div'', OpDiv), (''mod'', OpMod), (''eq'', OpEq), (''gt'', OpGt), (''lt'', OpLt), (''not'', OpNot),
      (''and'', OpAnd), (''or'', OpOr), (''negate'', OpNegate), (''dup'', OpDup), (''swap'', OpSwap),
      (''over'', OpOver), (''pop'', OpPop), (''return'', OpReturn), (''dumpstack'', OpDumpStack),
      (''dumpmemory'', OpDumpMemory), (''dumpstate'', OpDumpState)]"

definition parse_command :: "string \<Rightarrow> string list \<Rightarrow> string \<Rightarrow> SourcePosition \<Rightarrow> Op parsed" where
  "parse_command command parts line pos =
     (case map_of plain_commands command of
        Some op \<Rightarrow> Inr op
      | None \<Rightarrow>
      if command = ''push'' then parse_push parts pos
      else if command = ''emit'' then parse_emit line pos
      else if command = ''emitevent'' then parse_emitevent line pos
      else if command = ''assertequalstack'' then parse_assertequalstack line parts pos
      else if command = ''load'' then parse_name OpLoad ''load'' parts pos
      else if command = ''store'' then parse_name OpStore ''store'' parts pos
      else if command = ''increment_reputation'' then parse_increment_reputation line parts pos
      else if command = ''call'' then
        next_part (at_pos CE_MissingFunctionName pos) parts (\<lambda>fn_name _. Inr (OpCall fn_name))
      else if command = ''rankedvote'' then parse_rankedvote parts pos
      else if command = ''liquiddelegate'' then
        parse_two_names OpLiquidDelegate (''liquiddelegate requires '' @ quoted ''from'' @ '' parameter'')
          (''liquiddelegate requires '' @ quoted ''to'' @ '' parameter'') parts pos
      else if command = ''votethreshold'' then parse_threshold OpVoteThreshold ''votethreshold'' parts pos
      else if command = ''quorumthreshold'' then parse_threshold OpQuorumThreshold ''quorumthreshold'' parts pos
      else if command = ''storep'' then parse_name OpStoreP ''storep'' parts pos
      else if command = ''loadp'' then parse_name OpLoadP ''loadp'' parts pos
      else if command = ''loadversionp'' then parse_loadversionp parts pos
      else if command = ''listversionsP'' then
        next_part (format_error ''listversionsP requires key parameter'' pos) parts (\<lambda>key _. Inr (OpListVersionsP key))
      else if command = ''diffversionsp'' then parse_diffversionsp parts pos
      else if command = ''verifyidentity'' then parse_verifyidentity line parts pos
      else if command = ''checkmembership'' then
        parse_two_names OpCheckMembership ''checkmembership requires identity_id parameter''
          ''checkmembership requires namespace parameter'' parts pos
      else if command = ''checkdelegation'' then
        parse_two_names OpCheckDelegation ''checkdelegation requires delegator_id parameter''
          ''checkdelegation requires delegate_id parameter'' parts pos
      else if command = ''createresource'' then parse_name OpCreateResource ''createresource'' parts pos
      else if command = ''mint'' then parse_supply OpMint ''mint'' line parts pos
      else if command = ''transfer'' then parse_transfer line parts pos
      else if command = ''burn'' then parse_supply OpBurn ''burn'' line parts pos
      else if command = ''balance'' then parse_balance parts pos
      else if command = ''proposal_lifecycle'' then parse_proposal_lifecycle parts pos
      else at_pos (CE_UnknownCommand command) pos)"

definition parse_line :: "string \<Rightarrow> SourcePosition \<Rightarrow> Op parsed" where
  "parse_line line pos =
     (if starts_with ''#'' (trim line) then Inr OpNop
      else case split_whitespace line of
             [] \<Rightarrow> Inr OpNop
           | command # parts \<Rightarrow> parse_command command parts line pos)"

text \<open>\<^verbatim>\<open>parse_quoted_string\<close>, for single and double quotes.\<close>

definition parse_quoted_string :: "string \<Rightarrow> string parsed" where
  "parse_quoted_string input =
     (let trimmed = trim input; q = CHR 0x27 in
      if quoted_word trimmed \<or> (starts_with [q] trimmed \<and> ends_with [q] trimmed)
      then slice trimmed 1 (length trimmed - 1)
      else Inl (Err (CE_SyntaxError (''Expected a quoted string, got: '' @ quoted input))))"

end
