(* ===== verification/Dsl_Block.thy ===== *)
theory Dsl_Block
  imports Dsl_Line
begin

text \<open>
  The block parsers of the text language (\<^verbatim>\<open>parse_block\<close> of \<^verbatim>\<open>line_parser.rs\<close>, \<^verbatim>\<open>if_block.rs\<close>,
  \<^verbatim>\<open>loop_block.rs\<close>, \<^verbatim>\<open>while_block.rs\<close>, \<^verbatim>\<open>match_block.rs\<close>, \<^verbatim>\<open>function_block.rs\<close>, \<^verbatim>\<open>proposal_block.rs\<close>).
  A parser is given the lines and the index of the current line and returns the operations and the next
  index. The parsers call each other, so those that do not loop take \<open>pb\<close>, the parser of a block, as an
  argument. \<open>resume\<close> continues at the index a parser returned; it insists that the index has advanced, which
  makes the recursion well founded, and \<open>parse_block_advances\<close> and its companions show that it always has.
\<close>

section \<open>Continuing after a nested block\<close>

definition resume :: "nat \<Rightarrow> ('a \<times> nat) parsed \<Rightarrow> ('a \<Rightarrow> nat \<Rightarrow> 'b parsed) \<Rightarrow> 'b parsed" where
  "resume lo r f = (case r of Inl e \<Rightarrow> Inl e | Inr (a, j) \<Rightarrow> if lo \<le> j then f a j else Inl Panic)"

lemma resume_cong [fundef_cong]:
  assumes "lo = lo'" "r = r'" "\<And>a j. r' = Inr (a, j) \<Longrightarrow> lo' \<le> j \<Longrightarrow> f a j = g a j"
  shows "resume lo r f = resume lo' r' g"
  using assms by (auto simp: resume_def split: sum.split prod.split)

lemma resume_simps [simp]:
  "resume lo (Inl e) f = Inl e" "lo \<le> j \<Longrightarrow> resume lo (Inr (a, j)) f = f a j"
  by (simp_all add: resume_def)

lemma resume_Inr_iff: "resume lo r f = Inr b \<longleftrightarrow> (\<exists>a j. r = Inr (a, j) \<and> lo \<le> j \<and> f a j = Inr b)"
  by (auto simp: resume_def split: sum.split prod.split)

type_synonym block_parser = "string list \<Rightarrow> nat \<Rightarrow> nat \<Rightarrow> SourcePosition \<Rightarrow> (Op list \<times> nat) parsed"

definition keep_op :: "Op \<Rightarrow> Op list \<Rightarrow> Op list" where
  "keep_op op ops = (case op of OpNop \<Rightarrow> ops | _ \<Rightarrow> op # ops)"

section \<open>Blocks with a header\<close>

definition parse_else ::
  "block_parser \<Rightarrow> string list \<Rightarrow> nat \<Rightarrow> SourcePosition \<Rightarrow> Op list \<Rightarrow> nat \<Rightarrow> (Op \<times> nat) parsed" where
  "parse_else pb lines current_indent pos then_block j =
     (if j < length lines \<and> trim (lines ! j) = ''else:'' then
        let else_pos = position (sp_line pos + j) (get_indent (lines ! j) + 1) in
        resume (j + 1) (pb lines (j + 1) current_indent else_pos) (\<lambda>else_ops k.
          Inr (OpIf [] then_block (Some else_ops), k))
      else Inr (OpIf [] then_block None, j))"

definition parse_if_block :: "block_parser \<Rightarrow> string list \<Rightarrow> nat \<Rightarrow> SourcePosition \<Rightarrow> (Op \<times> nat) parsed" where
  "parse_if_block pb lines i pos =
     (if i < length lines then
        let current_indent = get_indent (lines ! i) in
        resume (i + 1) (pb lines (i + 1) current_indent pos) (\<lambda>then_block j.
          parse_else pb lines current_indent pos then_block j)
      else Inl Panic)"

definition parse_loop_block :: "block_parser \<Rightarrow> string list \<Rightarrow> nat \<Rightarrow> SourcePosition \<Rightarrow> (Op \<times> nat) parsed" where
  "parse_loop_block pb lines i pos =
     (if i < length lines then
        let line = lines ! i; parts = splitn2 (CHR '' '') (trim line) in
        if length parts \<noteq> 2 \<or> \<not> eq_ignore_ascii_case (parts ! 0) ''loop''
        then at_pos (CE_InvalidLoopFormat (trim line)) pos
        else
          let count_str = trim_end_char (CHR '':'') (parts ! 1) in
          or_err (Inl (Err (CE_InvalidLoopCount count_str (sp_line pos) (sp_column (adjusted_position pos line count_str)))))
            (parse_usize count_str) (\<lambda>count.
              resume (i + 1) (pb lines (i + 1) (get_indent line) pos) (\<lambda>body j. Inr (OpLoop count body, j)))
      else Inl Panic)"

definition parse_function_signature :: "string \<Rightarrow> SourcePosition \<Rightarrow> (string \<times> string list) parsed" where
  "parse_function_signature line pos =
     (let parts = splitn2 (CHR ''('') (trim_end_char (CHR '':'') line) in
      if length parts \<noteq> 2 then at_pos (CE_InvalidFunctionDefinition line) pos
      else
        let name_part = trim (parts ! 0) in
        if \<not> starts_with ''def '' name_part then at_pos (CE_InvalidFunctionStart line) pos
        else
          Inr (trim (drop 4 name_part),
               filter (\<lambda>s. s \<noteq> []) (map trim (split_char (CHR '','') (trim_end_char (CHR '')'') (parts ! 1))))))"

definition parse_function_block :: "block_parser \<Rightarrow> string list \<Rightarrow> nat \<Rightarrow> SourcePosition \<Rightarrow> (Op \<times> nat) parsed" where
  "parse_function_block pb lines i pos =
     (if i < length lines then
        let line = lines ! i in
        if CHR ''('' \<notin> set line \<or> CHR '')'' \<notin> set line then at_pos (CE_InvalidFunctionFormat line) pos
        else
          bindR (parse_function_signature line pos) (\<lambda>(name, params).
            resume (i + 1) (pb lines (i + 1) (get_indent line) pos) (\<lambda>body j. Inr (OpDef name params body, j)))
      else Inl Panic)"

text \<open>The loops over the lines of \<^verbatim>\<open>while:\<close> and \<^verbatim>\<open>match:\<close> carry what they have read.\<close>

type_synonym while_state = "Op list \<times> Op list \<times> bool"
type_synonym match_state = "Op list \<times> (TypedValue \<times> Op list) list \<times> Op list option"

type_synonym 'a loop_parser = "string list \<Rightarrow> nat \<Rightarrow> nat \<Rightarrow> SourcePosition \<Rightarrow> 'a \<Rightarrow> ('a \<times> nat) parsed"

definition parse_while_block :: "while_state loop_parser \<Rightarrow> string list \<Rightarrow> nat \<Rightarrow> SourcePosition \<Rightarrow> (Op \<times> nat) parsed" where
  "parse_while_block wl lines i pos =
     (if i < length lines then
        resume (i + 1) (wl lines (i + 1) (get_indent (lines ! i)) pos ([], [], False)) (\<lambda>(condition, body, explicit) j.
          if \<not> explicit \<and> body \<noteq> [] then Inr (OpWhile [hd body] (tl body), j)
          else Inr (OpWhile condition body, j))
      else Inl Panic)"

definition parse_match_block :: "match_state loop_parser \<Rightarrow> string list \<Rightarrow> nat \<Rightarrow> SourcePosition \<Rightarrow> (Op \<times> nat) parsed" where
  "parse_match_block ml lines i pos =
     (if i < length lines then
        resume (i + 1) (ml lines (i + 1) (get_indent (lines ! i)) pos ([], [], None)) (\<lambda>(value_ops, cases, default_ops) j.
          if value_ops = [] then at_pos CE_MissingMatchValue pos
          else Inr (OpMatch value_ops cases default_ops, j))
      else Inl Panic)"

text \<open>
  The lines below \<^verbatim>\<open>if passed:\<close> and \<^verbatim>\<open>else:\<close>: all lines up to the first non-blank one that is not indented
  beyond the base, blank ones left out, and the number of lines passed.
\<close>

fun gather :: "nat \<Rightarrow> string list \<Rightarrow> string list \<times> nat" where
  "gather base [] = ([], 0)"
| "gather base (l # ls) =
     (if trim l \<noteq> [] \<and> get_indent l \<le> base then ([], 0)
      else
        let (sub, k) = gather base ls in
        if trim l = [] then (sub, k + 1) else (l # sub, k + 1))"

lemma gather_length: "length (fst (gather base ls)) \<le> snd (gather base ls) \<and> snd (gather base ls) \<le> length ls"
  by (induction ls) (auto split: prod.splits)

section \<open>Congruence rules\<close>

text \<open>The block parsers use \<open>pb\<close> only at later indices, so the recursion below is well founded.\<close>

lemma parse_if_block_cong [fundef_cong]:
  assumes "lines = lines'" "i = i'" "pos = pos'"
    "\<And>j b p. i' < length lines' \<Longrightarrow> i' < j \<Longrightarrow> pb lines' j b p = pb' lines' j b p"
  shows "parse_if_block pb lines i pos = parse_if_block pb' lines' i' pos'"
  unfolding assms(1-3) parse_if_block_def parse_else_def using assms(4)
  by (auto simp: Let_def intro!: resume_cong)

lemma parse_loop_block_cong [fundef_cong]:
  assumes "lines = lines'" "i = i'" "pos = pos'"
    "\<And>j b p. i' < length lines' \<Longrightarrow> i' < j \<Longrightarrow> pb lines' j b p = pb' lines' j b p"
  shows "parse_loop_block pb lines i pos = parse_loop_block pb' lines' i' pos'"
  unfolding assms(1-3) parse_loop_block_def using assms(4) by (simp add: Let_def)

lemma parse_function_block_cong [fundef_cong]:
  assumes "lines = lines'" "i = i'" "pos = pos'"
    "\<And>j b p. i' < length lines' \<Longrightarrow> i' < j \<Longrightarrow> pb lines' j b p = pb' lines' j b p"
  shows "parse_function_block pb lines i pos = parse_function_block pb' lines' i' pos'"
  unfolding assms(1-3) parse_function_block_def using assms(4) by (simp add: Let_def)

lemma parse_while_block_cong [fundef_cong]:
  assumes "lines = lines'" "i = i'" "pos = pos'"
    "\<And>j b p s. i' < length lines' \<Longrightarrow> i' < j \<Longrightarrow> wl lines' j b p s = wl' lines' j b p s"
  shows "parse_while_block wl lines i pos = parse_while_block wl' lines' i' pos'"
  unfolding assms(1-3) parse_while_block_def using assms(4) by simp

lemma parse_match_block_cong [fundef_cong]:
  assumes "lines = lines'" "i = i'" "pos = pos'"
    "\<And>j b p s. i' < length lines' \<Longrightarrow> i' < j \<Longrightarrow> ml lines' j b p s = ml' lines' j b p s"
  shows "parse_match_block ml lines i pos = parse_match_block ml' lines' i' pos'"
  unfolding assms(1-3) parse_match_block_def using assms(4) by simp

section \<open>Blocks\<close>

definition block_header :: "string \<Rightarrow> bool" where
  "block_header line = ends_with '':'' (trim line)"

definition case_value_text :: "string \<Rightarrow> string" where
  "case_value_text line = trim_end_char (CHR '':'') (trim (drop 5 (trim line)))"

definition lines_left :: "string list \<Rightarrow> nat \<Rightarrow> nat" where
  "lines_left lines i = length lines - i"

lemma lines_left_less: "i < length lines \<Longrightarrow> i < j \<Longrightarrow> lines_left lines j < lines_left lines i"
  by (simp add: lines_left_def)

lemma lines_left_gather:
  "i < length lines \<Longrightarrow> lines_left (fst (gather base (drop (i + 1) lines))) 0 < lines_left lines i"
  using gather_length [of base "drop (i + 1) lines"] by (simp add: lines_left_def) linarith

function parse_block :: block_parser
  and while_loop :: "while_state loop_parser"
  and match_loop :: "match_state loop_parser"
where
  "parse_block lines i base pos =
     (if i < length lines then
        let line = lines ! i; indent = get_indent line; t = trim line;
            current_pos = position (sp_line pos + i) (indent + 1)
        in if t \<noteq> [] \<and> indent \<le> base then Inr ([], i)
           else if t = [] then parse_block lines (i + 1) base pos
           else if block_header line then
             resume (i + 1)
               (if t = ''if:'' then parse_if_block parse_block lines i current_pos
                else if t = ''while:'' then parse_while_block while_loop lines i current_pos
                else if starts_with ''def '' t then parse_function_block parse_block lines i current_pos
                else if t = ''match:'' then parse_match_block match_loop lines i current_pos
                else if starts_with ''loop '' t then parse_loop_block parse_block lines i current_pos
                else if t = ''if passed:'' then
                  bindR (parse_block (fst (gather base (drop (i + 1) lines))) 0 (base + 1) current_pos) (\<lambda>(ops, _).
                    Inr (OpIfPassed ops, i + 1 + snd (gather base (drop (i + 1) lines))))
                else if t = ''else:'' then
                  bindR (parse_block (fst (gather base (drop (i + 1) lines))) 0 (base + 1) current_pos) (\<lambda>(ops, _).
                    Inr (OpElse ops, i + 1 + snd (gather base (drop (i + 1) lines))))
                else at_pos (CE_UnknownBlockType t) current_pos)
               (\<lambda>op j. bindR (parse_block lines j base pos) (\<lambda>(ops, k). Inr (keep_op op ops, k)))
           else
             bindR (parse_line line current_pos) (\<lambda>op.
               bindR (parse_block lines (i + 1) base pos) (\<lambda>(ops, k). Inr (keep_op op ops, k)))
      else Inr ([], i))"
| "while_loop lines i current_indent pos s =
     (if i < length lines then
        let line = lines ! i; indent = get_indent line; t = trim line;
            line_pos = position (sp_line pos + i) (indent + 1);
            (condition, body, explicit) = s
        in if indent \<le> current_indent then Inr (s, i)
           else if t = ''condition:'' then
             resume (i + 1) (parse_block lines (i + 1) indent line_pos) (\<lambda>cond j.
               while_loop lines j current_indent pos (cond, body, True))
           else if block_header line then
             resume (i + 1)
               (if t = ''if:'' then parse_if_block parse_block lines i line_pos
                else if t = ''while:'' then parse_while_block while_loop lines i line_pos
                else if starts_with ''loop '' t then parse_loop_block parse_block lines i line_pos
                else if t = ''match:'' then parse_match_block match_loop lines i line_pos
                else at_pos (CE_UnknownBlockType t) line_pos)
               (\<lambda>op j. while_loop lines j current_indent pos (condition, body @ [op], explicit))
           else
             bindR (parse_line line line_pos) (\<lambda>op.
               while_loop lines (i + 1) current_indent pos (condition, body @ keep_op op [], explicit))
      else Inr (s, i))"
| "match_loop lines i current_indent pos s =
     (if i < length lines then
        let line = lines ! i; indent = get_indent line; t = trim line;
            line_pos = position (sp_line pos + i) (indent + 1);
            block_pos = position (sp_line line_pos + 1) (indent + 1);
            (value_ops, cases, default_ops) = s
        in if indent \<le> current_indent then Inr (s, i)
           else if t = ''value:'' then
             resume (i + 1) (parse_block lines (i + 1) indent block_pos) (\<lambda>ops j.
               match_loop lines j current_indent pos (ops, cases, default_ops))
           else if starts_with ''case '' t then
             let case_value_str = case_value_text line in
             or_err (Inl (Err (CE_InvalidCaseValue case_value_str (sp_line line_pos)
                        (sp_column (adjusted_position line_pos line case_value_str)))))
               (parse_f64 case_value_str) (\<lambda>case_value.
                 resume (i + 1) (parse_block lines (i + 1) indent block_pos) (\<lambda>ops j.
                   match_loop lines j current_indent pos (value_ops, cases @ [(Number case_value, ops)], default_ops)))
           else if t = ''default:'' then
             resume (i + 1) (parse_block lines (i + 1) indent block_pos) (\<lambda>ops j.
               match_loop lines j current_indent pos (value_ops, cases, Some ops))
           else
             bindR (parse_line line line_pos) (\<lambda>op.
               match_loop lines (i + 1) current_indent pos (value_ops @ keep_op op [], cases, default_ops))
      else Inr (s, i))"
  by pat_completeness auto

termination
  by (relation "measure (\<lambda>x. case x of
        Inl (lines, i, _) \<Rightarrow> lines_left lines i
      | Inr (Inl (lines, i, _)) \<Rightarrow> lines_left lines i
      | Inr (Inr (lines, i, _)) \<Rightarrow> lines_left lines i)")
    (simp_all add: lines_left_less lines_left_gather [simplified])

declare parse_block.simps [simp del] while_loop.simps [simp del] match_loop.simps [simp del]

section \<open>Where the parsers stop\<close>

text \<open>A header parser ends after its header and within the lines when the parsers it uses do.\<close>

lemma parse_else_ends:
  assumes "parse_else pb lines ind pos ops j = Inr (op, k)" "i < j" "j \<le> length lines"
    "\<And>j b p ops k. i < j \<Longrightarrow> j \<le> length lines \<Longrightarrow> pb lines j b p = Inr (ops, k) \<Longrightarrow> k \<le> length lines"
  shows "i < k \<and> k \<le> length lines"
  using assms(1-3) assms(4) [of "Suc j"] by (auto simp: parse_else_def Let_def resume_Inr_iff split: if_splits)

lemma parse_if_block_ends:
  assumes "parse_if_block pb lines i pos = Inr (op, k)"
    and pb: "\<And>j b p ops k. i < j \<Longrightarrow> j \<le> length lines \<Longrightarrow> pb lines j b p = Inr (ops, k) \<Longrightarrow> k \<le> length lines"
  shows "i < k \<and> k \<le> length lines"
proof -
  obtain ops j where j: "i < length lines" "pb lines (Suc i) (get_indent (lines ! i)) pos = Inr (ops, j)" "Suc i \<le> j"
    "parse_else pb lines (get_indent (lines ! i)) pos ops j = Inr (op, k)"
    using assms(1) by (auto simp: parse_if_block_def Let_def resume_Inr_iff split: if_splits)
  have "j \<le> length lines" using pb [OF _ _ j(2)] j(1) by simp
  moreover have "i < j" using j(3) by simp
  ultimately show ?thesis using parse_else_ends [OF j(4)] pb by blast
qed

lemma parse_loop_block_ends:
  assumes "parse_loop_block pb lines i pos = Inr (op, k)"
    "\<And>j b p ops k. i < j \<Longrightarrow> j \<le> length lines \<Longrightarrow> pb lines j b p = Inr (ops, k) \<Longrightarrow> k \<le> length lines"
  shows "i < k \<and> k \<le> length lines"
  using assms(1) assms(2) [of "Suc i"]
  by (force simp: parse_loop_block_def Let_def resume_Inr_iff at_pos_def or_err_def split: if_splits option.splits)

lemma parse_function_block_ends:
  assumes "parse_function_block pb lines i pos = Inr (op, k)"
    "\<And>j b p ops k. i < j \<Longrightarrow> j \<le> length lines \<Longrightarrow> pb lines j b p = Inr (ops, k) \<Longrightarrow> k \<le> length lines"
  shows "i < k \<and> k \<le> length lines"
  using assms(1) assms(2) [of "Suc i"]
  by (force simp: parse_function_block_def Let_def resume_Inr_iff at_pos_def bindR_Inr_iff split: if_splits prod.splits)

lemma parse_while_block_ends:
  assumes "parse_while_block wl lines i pos = Inr (op, k)"
    "\<And>j b p s s' k. i < j \<Longrightarrow> j \<le> length lines \<Longrightarrow> wl lines j b p s = Inr (s', k) \<Longrightarrow> k \<le> length lines"
  shows "i < k \<and> k \<le> length lines"
  using assms(1) assms(2) [of "Suc i"]
  by (force simp: parse_while_block_def resume_Inr_iff split: if_splits prod.splits)

lemma parse_match_block_ends:
  assumes "parse_match_block ml lines i pos = Inr (op, k)"
    "\<And>j b p s s' k. i < j \<Longrightarrow> j \<le> length lines \<Longrightarrow> ml lines j b p s = Inr (s', k) \<Longrightarrow> k \<le> length lines"
  shows "i < k \<and> k \<le> length lines"
  using assms(1) assms(2) [of "Suc i"]
  by (force simp: parse_match_block_def resume_Inr_iff at_pos_def split: if_splits prod.splits)

lemmas header_ends = parse_if_block_ends parse_loop_block_ends parse_function_block_ends
  parse_while_block_ends parse_match_block_ends

text \<open>
  \<open>parse_block\<close> stops at the end of the lines or at a non-blank line that is not indented beyond the base; the
  loops of \<^verbatim>\<open>while:\<close> and \<^verbatim>\<open>match:\<close> stop at the first line that is not, blank or not.
\<close>

definition stops_at :: "string list \<Rightarrow> nat \<Rightarrow> nat \<Rightarrow> bool" where
  "stops_at lines base k \<longleftrightarrow> k < length lines \<longrightarrow> get_indent (lines ! k) \<le> base"

lemma stops_at_end [simp]: "\<not> k < length lines \<Longrightarrow> stops_at lines base k"
  by (simp add: stops_at_def)

definition ends_from :: "string list \<Rightarrow> nat \<Rightarrow> bool" where
  "ends_from lines i \<longleftrightarrow>
     (\<forall>base pos ops k. parse_block lines i base pos = Inr (ops, k) \<longrightarrow> i \<le> k \<and> k \<le> length lines \<and> stops_at lines base k) \<and>
     (\<forall>base pos s s' k. while_loop lines i base pos s = Inr (s', k) \<longrightarrow> i \<le> k \<and> k \<le> length lines \<and> stops_at lines base k) \<and>
     (\<forall>base pos t t' k. match_loop lines i base pos t = Inr (t', k) \<longrightarrow> i \<le> k \<and> k \<le> length lines \<and> stops_at lines base k)"

lemma ends_from_end: "ends_from lines (length lines)"
  unfolding ends_from_def by (simp add: parse_block.simps while_loop.simps match_loop.simps)

lemma ends_from_step:
  assumes i: "i < length lines" and later: "\<And>j. i < j \<Longrightarrow> j \<le> length lines \<Longrightarrow> ends_from lines j"
  shows "ends_from lines i"
proof -
  have pb: "j \<le> k \<and> k \<le> length lines \<and> stops_at lines base k"
    if "i < j" "j \<le> length lines" "parse_block lines j base pos = Inr (ops, k)" for j base pos ops k
    using later [OF that(1,2)] that(3) unfolding ends_from_def by blast
  have wl: "j \<le> k \<and> k \<le> length lines \<and> stops_at lines base k"
    if "i < j" "j \<le> length lines" "while_loop lines j base pos s = Inr (s', k)" for j base pos s s' k
    using later [OF that(1,2)] that(3) unfolding ends_from_def by blast
  have ml: "j \<le> k \<and> k \<le> length lines \<and> stops_at lines base k"
    if "i < j" "j \<le> length lines" "match_loop lines j base pos s = Inr (s', k)" for j base pos s s' k
    using later [OF that(1,2)] that(3) unfolding ends_from_def by blast
  have headers:
    "parse_if_block parse_block lines i p = Inr (op, j) \<Longrightarrow> i < j \<and> j \<le> length lines"
    "parse_loop_block parse_block lines i p = Inr (op, j) \<Longrightarrow> i < j \<and> j \<le> length lines"
    "parse_function_block parse_block lines i p = Inr (op, j) \<Longrightarrow> i < j \<and> j \<le> length lines"
    "parse_while_block while_loop lines i p = Inr (op, j) \<Longrightarrow> i < j \<and> j \<le> length lines"
    "parse_match_block match_loop lines i p = Inr (op, j) \<Longrightarrow> i < j \<and> j \<le> length lines" for p op j
    using pb wl ml by (blast dest: header_ends)+
  have g: "i + 1 + snd (gather base (drop (i + 1) lines)) \<le> length lines" for base
    using gather_length [of base "drop (i + 1) lines"] i by (simp add: le_diff_conv2)
  have pb_next: "parse_block lines (Suc i) b p = Inr (ops, k) \<Longrightarrow> k \<le> length lines" for b p ops k
    using pb [of "Suc i"] i by auto
  have skipped: "\<exists>j > i. j \<le> length lines \<and> (\<exists>ops'. parse_block lines j base pos = Inr (ops', k))"
    if "parse_block lines (Suc (i + snd (gather base (drop (Suc i) lines)))) base pos = Inr (ops', k)" for base pos ops' k
    using that g [of base] by (intro exI [of _ "Suc (i + snd (gather base (drop (Suc i) lines)))"]) auto
  have "i \<le> k \<and> k \<le> length lines \<and> stops_at lines base k"
    if "parse_block lines i base pos = Inr (ops, k)" for base pos ops k
  proof -
    have "k = i \<and> get_indent (lines ! i) \<le> base \<or>
        (\<exists>j ops'. i < j \<and> j \<le> length lines \<and> parse_block lines j base pos = Inr (ops', k))"
    proof (cases "trim (lines ! i) = [] \<or> get_indent (lines ! i) \<le> base \<or> \<not> block_header (lines ! i)")
      case True
      then show ?thesis
        using that i
        by (subst (asm) parse_block.simps) (force simp: Let_def bindR_Inr_iff split: if_splits)
    next
      case False
      then show ?thesis
        using that i
        by (subst (asm) parse_block.simps)
          (auto simp: Let_def resume_Inr_iff bindR_Inr_iff at_pos_def split: if_splits dest: headers skipped)
    qed
    then show ?thesis
    proof
      assume "k = i \<and> get_indent (lines ! i) \<le> base"
      then show ?thesis using i by (simp add: stops_at_def)
    next
      assume "\<exists>j ops'. i < j \<and> j \<le> length lines \<and> parse_block lines j base pos = Inr (ops', k)"
      then show ?thesis using pb by (meson le_trans less_imp_le)
    qed
  qed
  moreover have "i \<le> k \<and> k \<le> length lines \<and> stops_at lines base k"
    if "while_loop lines i base pos s = Inr (s', k)" for base pos s s' k
  proof -
    define W where "W \<longleftrightarrow> (\<exists>j s1. i < j \<and> j \<le> length lines \<and> while_loop lines j base pos s1 = Inr (s', k))"
    have WI: "Suc i \<le> j \<Longrightarrow> j \<le> length lines \<Longrightarrow> while_loop lines j base pos s1 = Inr (s', k) \<Longrightarrow> W" for j s1
      unfolding W_def Suc_le_eq by blast
    have "k = i \<and> get_indent (lines ! i) \<le> base \<or> W"
      using that i
      by (subst (asm) while_loop.simps)
        (auto simp: Let_def resume_Inr_iff bindR_Inr_iff at_pos_def or_err_def
          split: if_splits prod.splits option.splits dest: headers pb_next intro: WI)
    then show ?thesis
    proof
      assume "k = i \<and> get_indent (lines ! i) \<le> base"
      then show ?thesis using i by (simp add: stops_at_def)
    next
      assume W
      then show ?thesis using wl unfolding W_def by (meson le_trans less_imp_le)
    qed
  qed
  moreover have "i \<le> k \<and> k \<le> length lines \<and> stops_at lines base k"
    if "match_loop lines i base pos s = Inr (s', k)" for base pos s s' k
  proof -
    define W where "W \<longleftrightarrow> (\<exists>j s1. i < j \<and> j \<le> length lines \<and> match_loop lines j base pos s1 = Inr (s', k))"
    have WI: "Suc i \<le> j \<Longrightarrow> j \<le> length lines \<Longrightarrow> match_loop lines j base pos s1 = Inr (s', k) \<Longrightarrow> W" for j s1
      unfolding W_def Suc_le_eq by blast
    have "k = i \<and> get_indent (lines ! i) \<le> base \<or> W"
      using that i
      by (subst (asm) match_loop.simps)
        (auto simp: Let_def resume_Inr_iff bindR_Inr_iff at_pos_def or_err_def
          split: if_splits prod.splits option.splits dest: headers pb_next intro: WI)
    then show ?thesis
    proof
      assume "k = i \<and> get_indent (lines ! i) \<le> base"
      then show ?thesis using i by (simp add: stops_at_def)
    next
      assume W
      then show ?thesis using ml unfolding W_def by (meson le_trans less_imp_le)
    qed
  qed
  ultimately show ?thesis unfolding ends_from_def by blast
qed

theorem parsers_end: "i \<le> length lines \<Longrightarrow> ends_from lines i"
proof (induction "length lines - i" arbitrary: i rule: less_induct)
  case less
  show ?case
  proof (cases "i = length lines")
    case False
    then have i: "i < length lines" using less.prems by simp
    show ?thesis
    proof (rule ends_from_step [OF i])
      fix j
      assume "i < j" "j \<le> length lines"
      then show "ends_from lines j" using i by (intro less.hyps) auto
    qed
  qed (simp add: ends_from_end)
qed

lemmas parse_block_ends = parsers_end [unfolded ends_from_def, THEN conjunct1, rule_format]
lemmas while_loop_ends = parsers_end [unfolded ends_from_def, THEN conjunct2, THEN conjunct1, rule_format]
lemmas match_loop_ends = parsers_end [unfolded ends_from_def, THEN conjunct2, THEN conjunct2, rule_format]

lemma header_parsers_advance:
  assumes "i < length lines"
  shows
    "parse_if_block parse_block lines i p = Inr (op, j) \<Longrightarrow> i < j \<and> j \<le> length lines"
    "parse_loop_block parse_block lines i p = Inr (op, j) \<Longrightarrow> i < j \<and> j \<le> length lines"
    "parse_function_block parse_block lines i p = Inr (op, j) \<Longrightarrow> i < j \<and> j \<le> length lines"
    "parse_while_block while_loop lines i p = Inr (op, j) \<Longrightarrow> i < j \<and> j \<le> length lines"
    "parse_match_block match_loop lines i p = Inr (op, j) \<Longrightarrow> i < j \<and> j \<le> length lines"
  subgoal by (erule parse_if_block_ends) (use parse_block_ends in blast)
  subgoal by (erule parse_loop_block_ends) (use parse_block_ends in blast)
  subgoal by (erule parse_function_block_ends) (use parse_block_ends in blast)
  subgoal by (erule parse_while_block_ends) (use while_loop_ends in blast)
  subgoal by (erule parse_match_block_ends) (use match_loop_ends in blast)
  done

text \<open>So \<open>resume\<close> never refuses: it only continues with the operations and the index of a nested parser.\<close>

lemma resume_block [simp]:
  "i \<le> length lines \<Longrightarrow>
     resume i (parse_block lines i base pos) f = bindR (parse_block lines i base pos) (\<lambda>(a, j). f a j)"
  by (cases "parse_block lines i base pos") (auto dest: parse_block_ends)

lemma resume_loops [simp]:
  "i \<le> length lines \<Longrightarrow>
     resume i (while_loop lines i base pos s) f = bindR (while_loop lines i base pos s) (\<lambda>(a, j). f a j)"
  "i \<le> length lines \<Longrightarrow>
     resume i (match_loop lines i base pos t) g = bindR (match_loop lines i base pos t) (\<lambda>(a, j). g a j)"
  subgoal by (cases "while_loop lines i base pos s") (auto dest: while_loop_ends)
  subgoal by (cases "match_loop lines i base pos t") (auto dest: match_loop_ends)
  done

lemma resume_header [simp]:
  assumes "i < length lines"
  shows
    "resume (Suc i) (parse_if_block parse_block lines i p) f = bindR (parse_if_block parse_block lines i p) (\<lambda>(a, j). f a j)"
    "resume (Suc i) (parse_loop_block parse_block lines i p) f = bindR (parse_loop_block parse_block lines i p) (\<lambda>(a, j). f a j)"
    "resume (Suc i) (parse_function_block parse_block lines i p) f = bindR (parse_function_block parse_block lines i p) (\<lambda>(a, j). f a j)"
    "resume (Suc i) (parse_while_block while_loop lines i p) f = bindR (parse_while_block while_loop lines i p) (\<lambda>(a, j). f a j)"
    "resume (Suc i) (parse_match_block match_loop lines i p) f = bindR (parse_match_block match_loop lines i p) (\<lambda>(a, j). f a j)"
  subgoal using header_parsers_advance(1) [OF assms] by (cases "parse_if_block parse_block lines i p") (auto simp: Suc_le_eq)
  subgoal using header_parsers_advance(2) [OF assms] by (cases "parse_loop_block parse_block lines i p") (auto simp: Suc_le_eq)
  subgoal using header_parsers_advance(3) [OF assms] by (cases "parse_function_block parse_block lines i p") (auto simp: Suc_le_eq)
  subgoal using header_parsers_advance(4) [OF assms] by (cases "parse_while_block while_loop lines i p") (auto simp: Suc_le_eq)
  subgoal using header_parsers_advance(5) [OF assms] by (cases "parse_match_block match_loop lines i p") (auto simp: Suc_le_eq)
  done

section \<open>The proposal block\<close>

text \<open>\<^verbatim>\<open>parse_proposal_block\<close> of \<^verbatim>\<open>proposal_block.rs\<close>, after the line that opens the block.\<close>

type_synonym proposal_parts = "string list \<times> string list \<times> string list option"

function proposal_lines ::
  "string list \<Rightarrow> nat \<Rightarrow> nat \<Rightarrow> SourcePosition \<Rightarrow> bool \<Rightarrow> bool \<Rightarrow> proposal_parts \<Rightarrow> (proposal_parts \<times> nat) parsed" where
  "proposal_lines lines i current_indent pos found_if_passed found_else parts =
     (if i < length lines then
        let line = lines ! i; indent = get_indent line;
            current_pos = position (sp_line pos + i) (indent + 1);
            (execution_block, passed_block, failed_block) = parts;
            (sub, k) = gather current_indent (drop (i + 1) lines)
        in if trim line \<noteq> [] \<and> indent \<le> current_indent then Inr (parts, i)
           else if trim line = [] then
             proposal_lines lines (i + 1) current_indent pos found_if_passed found_else parts
           else if trim line = ''if passed:'' then
             if found_if_passed then at_pos CE_DuplicateIfPassedBlock current_pos
             else proposal_lines lines (i + 1 + k) current_indent pos True found_else (execution_block, sub, failed_block)
           else if trim line = ''else:'' then
             if found_else then at_pos CE_DuplicateElseBlock current_pos
             else if \<not> found_if_passed then at_pos CE_ElseWithoutIfPassed current_pos
             else proposal_lines lines (i + 1 + k) current_indent pos found_if_passed True (execution_block, passed_block, Some sub)
           else
             proposal_lines lines (i + 1) current_indent pos found_if_passed found_else
               (execution_block @ [line], passed_block, failed_block)
      else Inr (parts, i))"
  by pat_completeness auto
termination by (relation "measure (\<lambda>(lines, i, _). lines_left lines i)") (auto simp: lines_left_less)

declare proposal_lines.simps [simp del]

definition parse_proposal_block :: "string list \<Rightarrow> nat \<Rightarrow> SourcePosition \<Rightarrow> (proposal_parts \<times> nat) parsed" where
  "parse_proposal_block lines i pos =
     (if i < length lines
      then proposal_lines lines (i + 1) (get_indent (lines ! i)) pos False False ([], [], None)
      else Inl Panic)"

end
