(* ===== verification/Dsl.thy ===== *)
theory Dsl
  imports Dsl_Block
begin

text \<open>
  Whole programs of the text language: governance blocks and templates, durations and the driver of
  \<^verbatim>\<open>compiler/parse_dsl.rs\<close>, the driver of \<^verbatim>\<open>compiler/mod.rs\<close> and the standard library of
  \<^verbatim>\<open>compiler/stdlib.rs\<close>.
\<close>

section \<open>Lifecycle settings\<close>

record LifecycleConfig =
  lc_quorum :: "f64 option"
  lc_threshold :: "f64 option"
  lc_min_deliberation :: "duration option"
  lc_expires_in :: "duration option"
  lc_required_roles :: "string list"

definition default_config :: LifecycleConfig where
  "default_config = \<lparr>lc_quorum = None, lc_threshold = None, lc_min_deliberation = None, lc_expires_in = None,
     lc_required_roles = []\<rparr>"

definition or_else :: "'a option \<Rightarrow> 'a option \<Rightarrow> 'a option" where
  "or_else x y = (case x of None \<Rightarrow> y | Some _ \<Rightarrow> x)"

definition merge_from :: "LifecycleConfig \<Rightarrow> LifecycleConfig \<Rightarrow> LifecycleConfig" where
  "merge_from other self =
     \<lparr>lc_quorum = or_else (lc_quorum self) (lc_quorum other),
      lc_threshold = or_else (lc_threshold self) (lc_threshold other),
      lc_min_deliberation = or_else (lc_min_deliberation self) (lc_min_deliberation other),
      lc_expires_in = or_else (lc_expires_in self) (lc_expires_in other),
      lc_required_roles = (if lc_required_roles self = [] then lc_required_roles other else lc_required_roles self)\<rparr>"

text \<open>
  \<^verbatim>\<open>Duration::hours\<close>, \<^verbatim>\<open>days\<close> and \<^verbatim>\<open>weeks\<close> panic when the number of milliseconds does not fit an \<^verbatim>\<open>i64\<close>; durations
  are nanoseconds.
\<close>

definition duration_secs :: "int \<Rightarrow> duration parsed" where
  "duration_secs s = (if \<bar>s\<bar> \<le> 9223372036854775 then Inr (s * 1000000000) else Inl Panic)"

definition parse_duration :: "string \<Rightarrow> duration parsed" where
  "parse_duration str =
     (let d = trim str in
      if d = [] then Inl (Err (CE_SyntaxError ''Empty duration string''))
      else
        bindR (slice d 0 (length d - 1)) (\<lambda>value.
        or_err (Inl (Err (CE_SyntaxError (''Invalid duration value: '' @ value)))) (parse_i64 value) (\<lambda>v.
          let last_char = last d in
          if last_char = CHR ''h'' then duration_secs (v * 3600)
          else if last_char = CHR ''d'' then duration_secs (v * 86400)
          else if last_char = CHR ''w'' then duration_secs (v * 604800)
          else Inl (Err (CE_SyntaxError (''Unknown duration unit: '' @ [last_char]))))))"

section \<open>Governance blocks and templates\<close>

definition unquote_name :: "string \<Rightarrow> string parsed" where
  "unquote_name w = (if quoted_word w then strip_quotes w else Inr w)"

definition setting :: "string \<Rightarrow> string list \<Rightarrow> SourcePosition \<Rightarrow> (string \<Rightarrow> LifecycleConfig parsed) \<Rightarrow> LifecycleConfig parsed" where
  "setting name parts pos f =
     (if length parts < 2 then at_pos (CE_MissingParameter name) pos else f (parts ! 1))"

definition governance_command :: "string list \<Rightarrow> SourcePosition \<Rightarrow> LifecycleConfig \<Rightarrow> LifecycleConfig parsed" where
  "governance_command parts pos target =
     (let cmd = parts ! 0 in
      if cmd = ''quorumthreshold'' then
        setting cmd parts pos (\<lambda>v.
          or_err (at_pos (CE_InvalidParameterValue cmd) pos) (parse_f64 v) (\<lambda>q. Inr (target\<lparr>lc_quorum := Some q\<rparr>)))
      else if cmd = ''votethreshold'' then
        setting cmd parts pos (\<lambda>v.
          or_err (at_pos (CE_InvalidParameterValue cmd) pos) (parse_f64 v) (\<lambda>t. Inr (target\<lparr>lc_threshold := Some t\<rparr>)))
      else if cmd = ''mindeliberation'' then
        setting cmd parts pos (\<lambda>v. bindR (parse_duration v) (\<lambda>d. Inr (target\<lparr>lc_min_deliberation := Some d\<rparr>)))
      else if cmd = ''expiresin'' then
        setting cmd parts pos (\<lambda>v. bindR (parse_duration v) (\<lambda>d. Inr (target\<lparr>lc_expires_in := Some d\<rparr>)))
      else if cmd = ''require_role'' then
        setting cmd parts pos (\<lambda>v.
          bindR (unquote_name v) (\<lambda>r. Inr (target\<lparr>lc_required_roles := lc_required_roles target @ [r]\<rparr>)))
      else at_pos (CE_UnknownCommand cmd) pos)"

text \<open>The state of the driver's loop.\<close>

record dsl_state =
  ds_ops :: "Op list"
  ds_config :: LifecycleConfig
  ds_in_governance :: bool
  ds_in_template :: bool
  ds_template_name :: string
  ds_template :: LifecycleConfig
  ds_templates :: "(string, LifecycleConfig) fmap"

definition initial_state :: dsl_state where
  "initial_state = \<lparr>ds_ops = [], ds_config = default_config, ds_in_governance = False, ds_in_template = False,
     ds_template_name = [], ds_template = default_config, ds_templates = fmempty\<rparr>"

definition syntax_error_at :: "string \<Rightarrow> SourcePosition \<Rightarrow> 'a parsed" where
  "syntax_error_at msg pos = Inl (Err (CE_SyntaxError (msg @ '' at line '' @ show_nat (sp_line pos))))"

definition begin_template :: "string \<Rightarrow> SourcePosition \<Rightarrow> dsl_state \<Rightarrow> dsl_state parsed" where
  "begin_template t pos st =
     (let parts = split_whitespace t in
      if length parts < 3 then syntax_error_at ''Invalid template definition'' pos
      else bindR (unquote_name (parts ! 1)) (\<lambda>name.
        Inr (st\<lparr>ds_in_template := True, ds_template_name := name, ds_template := default_config\<rparr>)))"

definition end_template :: "dsl_state \<Rightarrow> dsl_state" where
  "end_template st =
     st\<lparr>ds_templates := fmupd (ds_template_name st) (ds_template st) (ds_templates st), ds_in_template := False\<rparr>"

definition use_template :: "string \<Rightarrow> SourcePosition \<Rightarrow> dsl_state \<Rightarrow> dsl_state parsed" where
  "use_template t pos st =
     (let parts = split_whitespace t in
      if length parts < 3 then syntax_error_at ''Invalid governance use directive'' pos
      else bindR (unquote_name (parts ! 2)) (\<lambda>name.
        case fmlookup (ds_templates st) name of
          Some c \<Rightarrow> Inr (st\<lparr>ds_config := merge_from c (ds_config st)\<rparr>)
        | None \<Rightarrow> syntax_error_at (''Unknown template '' @ quoted name) pos))"

text \<open>A line inside a governance or template block; a template takes precedence.\<close>

definition settings_line :: "string \<Rightarrow> SourcePosition \<Rightarrow> dsl_state \<Rightarrow> dsl_state parsed" where
  "settings_line t pos st =
     (let parts = split_whitespace t in
      if parts = [] then Inr st
      else if ds_in_template st then
        bindR (governance_command parts pos (ds_template st)) (\<lambda>c. Inr (st\<lparr>ds_template := c\<rparr>))
      else bindR (governance_command parts pos (ds_config st)) (\<lambda>c. Inr (st\<lparr>ds_config := c\<rparr>)))"

text \<open>The blocks a program may have outside other blocks.\<close>

definition top_block :: "string \<Rightarrow> string list \<Rightarrow> nat \<Rightarrow> SourcePosition \<Rightarrow> (Op \<times> nat) parsed" where
  "top_block t lines i pos =
     (if t = ''if:'' then parse_if_block parse_block lines i pos
      else if t = ''while:'' then parse_while_block while_loop lines i pos
      else if starts_with ''def '' t then parse_function_block parse_block lines i pos
      else if t = ''match:'' then parse_match_block match_loop lines i pos
      else if starts_with ''loop '' t then parse_loop_block parse_block lines i pos
      else at_pos (CE_UnknownBlockType t) pos)"

lemma top_block_advances:
  assumes "i < length lines" "top_block t lines i p = Inr (op, j)"
  shows "i < j \<and> j \<le> length lines"
  using assms by (auto simp: top_block_def at_pos_def split: if_splits dest: header_parsers_advance)

definition add_op :: "Op \<Rightarrow> dsl_state \<Rightarrow> dsl_state" where
  "add_op op st = st\<lparr>ds_ops := ds_ops st @ keep_op op []\<rparr>"

function dsl_loop :: "string list \<Rightarrow> nat \<Rightarrow> dsl_state \<Rightarrow> dsl_state parsed" where
  "dsl_loop lines i st =
     (if i < length lines then
        let line = lines ! i; t = trim line; pos = position (i + 1) (get_indent line + 1) in
        if t = [] then dsl_loop lines (i + 1) st
        else if starts_with ''template '' t \<and> ends_with '' {'' t then
          bindR (begin_template t pos st) (dsl_loop lines (i + 1))
        else if ds_in_template st \<and> t = ''}'' then dsl_loop lines (i + 1) (end_template st)
        else if starts_with ''governance use '' t then
          bindR (use_template t pos st) (dsl_loop lines (i + 1))
        else if t = ''governance {'' then dsl_loop lines (i + 1) (st\<lparr>ds_in_governance := True\<rparr>)
        else if ds_in_governance st \<and> t = ''}'' then dsl_loop lines (i + 1) (st\<lparr>ds_in_governance := False\<rparr>)
        else if ds_in_governance st \<or> ds_in_template st then
          bindR (settings_line t pos st) (dsl_loop lines (i + 1))
        else if block_header line then
          resume (i + 1) (top_block t lines i pos) (\<lambda>op j. dsl_loop lines j (add_op op st))
        else bindR (parse_line line pos) (\<lambda>op. dsl_loop lines (i + 1) (add_op op st))
      else Inr st)"
  by pat_completeness auto
termination by (relation "measure (\<lambda>(lines, i, _). lines_left lines i)") (auto simp: lines_left_less)

declare dsl_loop.simps [simp del]

definition parse_dsl :: "string \<Rightarrow> (Op list \<times> LifecycleConfig) parsed" where
  "parse_dsl source =
     bindR (dsl_loop (str_lines source) 0 initial_state) (\<lambda>st. Inr (ds_ops st, ds_config st))"

text \<open>The older driver of \<^verbatim>\<open>compiler/mod.rs\<close>, which steps over one more line after a block.\<close>

function internal_loop :: "string list \<Rightarrow> nat \<Rightarrow> Op list \<Rightarrow> Op list parsed" where
  "internal_loop lines i ops =
     (if i < length lines then
        let line = lines ! i; t = trim line; pos = position (i + 1) (get_indent line + 1) in
        if t = [] then internal_loop lines (i + 1) ops
        else if block_header line then
          resume (i + 1) (top_block t lines i pos) (\<lambda>op j. internal_loop lines (j + 1) (ops @ keep_op op []))
        else bindR (parse_line line pos) (\<lambda>op. internal_loop lines (i + 1) (ops @ keep_op op []))
      else Inr ops)"
  by pat_completeness auto
termination by (relation "measure (\<lambda>(lines, i, _). lines_left lines i)") (auto simp: lines_left_less)

declare internal_loop.simps [simp del]

definition parse_dsl_internal :: "string \<Rightarrow> Op list parsed" where
  "parse_dsl_internal source = internal_loop (str_lines source) 0 []"

section \<open>The standard library\<close>

definition stdlib_lines :: "string list" where
  "stdlib_lines =
     [[],
      ''# Standard library functions for nano-cvm DSL'',
      ''# These functions are automatically included in every program'',
      [],
      ''# Math functions'',
      ''def abs(x):'',
      ''    load x'',
      ''    dup'',
      ''    push 0'',
      ''    lt'',
      ''    if:'',
      ''        negate'',
      ''    return'',
      [],
      ''def max(a, b):'',
      ''    load a'',
      ''    load b'',
      ''    dup'',
      ''    over'',
      ''    lt'',
      ''    if:'',
      ''        swap'',
      ''        pop'',
      ''    else:'',
      ''        pop'',
      ''    return'',
      [],
      ''def min(a, b):'',
      ''    load a'',
      ''    load b'',
      ''    dup'',
      ''    over'',
      ''    gt'',
      ''    if:'',
      ''        swap'',
      ''        pop'',
      ''    else:'',
      ''        pop'',
      ''    return'',
      [],
      ''# Stack manipulation utilities'',
      ''def swap3(a, b, c):'',
      ''    # Takes three values and returns them in reverse order (c, b, a)'',
      ''    load c'',
      ''    load b'',
      ''    load a'',
      ''    return'',
      [],
      ''def dup2():'',
      ''    # Duplicates the top two stack items'',
      ''    over'',
      ''    over'',
      ''    return'',
      [],
      ''def sum_n(n):'',
      ''    # Sum numbers 1 to n'',
      ''    push 0  # accumulator'',
      ''    push 1  # counter'',
      ''    while:'',
      ''        condition:'',
      ''            dup         # counter'',
      ''            load n'',
      ''            gt'',
      ''            not'',
      ''        dup             # counter'',
      ''        over            # accumulator'',
      ''        add             # acc + counter'',
      ''        swap'',
      ''        pop'',
      ''        swap'',
      ''        push 1'',
      ''        add             # counter + 1'',
      ''    pop                 # remove counter'',
      ''    return'',
      [],
      ''# Boolean logic utilities'',
      ''def xor(a, b):'',
      ''    # Exclusive or: true if exactly one input is true'',
      ''    load a'',
      ''    load b'',
      ''    eq'',
      ''    not'',
      ''    load a'',
      ''    load b'',
      ''    or'',
      ''    and'',
      ''    return'']"

definition get_stdlib_code :: string where
  "get_stdlib_code = concat (map (\<lambda>l. l @ [newline]) stdlib_lines)"

definition parse_dsl_with_stdlib :: "string \<Rightarrow> Op list parsed" where
  "parse_dsl_with_stdlib source =
     bindR (parse_dsl (get_stdlib_code @ [newline, newline] @ source)) (\<lambda>(ops, _). Inr ops)"

end
