(* ===== verification/Dsl_Print.thy ===== *)
theory Dsl_Print
  imports Dsl
begin

text \<open>
  The text of a program: a printer for the operations that the text language can express, the reference for
  the parser. Blocks are indented by four spaces. The main result is that the parser of
  \<^verbatim>\<open>compiler/parse_dsl.rs\<close> reads a printed program back exactly.
\<close>

section \<open>Words and numbers\<close>

lemma plain_digit [simp]: "d < 10 \<Longrightarrow> plain_char (digit_char d)"
proof -
  assume "d < 10"
  then have "d \<in> {0, 1, 2, 3, 4, 5, 6, 7, 8, 9}" by auto
  then show ?thesis by (elim insertE emptyE) (simp_all, code_simp+)
qed

lemma plain_show_nat: "list_all plain_char (show_nat n)"
  using set_show_nat by (fastforce simp: list_all_iff)

lemma plain_literals [simp]:
  "plain_char (CHR ''0'')" "plain_char (CHR ''.'')" "plain_char (CHR ''-'')" "plain_char (CHR 0x22)" "plain_char (CHR '':'')"
  by code_simp+

lemma plain_dec_str: "list_all plain_char (dec_str c e)"
  using plain_show_nat [of c]
  by (auto simp: dec_str_def Let_def list_all_iff dest: in_set_takeD in_set_dropD)

lemma dec_str_nonempty: "dec_str c e \<noteq> []"
  using dec_str_first [of c e] by auto

lemma plain_word_show_f64 [simp]: "plain_word (show_f64 x)"
  by (cases x) (auto simp: plain_word_def plain_dec_str dec_str_nonempty plain_char_def ascii_ws_def split: prod.split)

lemma plain_word_show_nat [simp]: "plain_word (show_nat n)"
  by (simp add: plain_word_def plain_show_nat)

lemma plain_word_show_u64 [simp]: "plain_word (show_u64 n)"
  by (simp add: show_u64_def)

lemma parse_usize_show [simp]: "n < 2 ^ 64 \<Longrightarrow> parse_usize (show_nat n) = Some n"
  using parse_show_u64 [of "of_nat n"] by (simp add: parse_usize_def show_u64_def unat_of_nat take_bit_nat_eq_self)

section \<open>Lines\<close>

lemma tight_join: "list_all plain_word ws \<Longrightarrow> ws \<noteq> [] \<Longrightarrow> tight (join '' '' ws)"
proof (induction ws rule: induct_list012)
  case (3 v w ws)
  then have "tight v" "tight (join '' '' (w # ws))" by (simp_all add: plain_word_tight)
  then show ?case using tight_append [of v "join '' '' (w # ws)" "'' ''"] by simp
qed (simp_all add: plain_word_tight)

lemma hd_join: "list_all plain_word ws \<Longrightarrow> ws \<noteq> [] \<Longrightarrow> hd (join '' '' ws) = hd (hd ws)"
  by (cases "('' '', ws)" rule: join.cases) (auto simp: plain_word_def)

lemma parse_line_words:
  assumes "list_all plain_word (c # ps)" "hd c \<noteq> CHR ''#''"
  shows "parse_line (spaces n @ join '' '' (c # ps)) pos = parse_command c ps (spaces n @ join '' '' (c # ps)) pos"
proof -
  let ?t = "join '' '' (c # ps)"
  have t: "trim (spaces n @ ?t) = ?t" using assms(1) by (intro trim_indented tight_join) auto
  have "hd ?t \<noteq> CHR ''#''" "?t \<noteq> []"
    using hd_join [OF assms(1)] tight_join [OF assms(1)] assms(2) by (auto simp: tight_def)
  then have "\<not> starts_with ''#'' ?t" by (cases ?t) (auto simp: starts_with_def)
  then show ?thesis
    using split_whitespace_join [OF assms(1)] by (simp add: parse_line_def t split_whitespace_indented)
qed

text \<open>The words of an operation without blocks.\<close>

fun op_words :: "Op \<Rightarrow> string list" where
  "op_words (OpPush v) = [''push'', tv_display v]"
| "op_words OpAdd = [''add'']"
| "op_words OpSub = [''sub'']"
| "op_words OpMul = [''mul'']"
| "op_words OpDiv = [''div'']"
| "op_words OpMod = [''mod'']"
| "op_words (OpStore x) = [''store'', x]"
| "op_words (OpLoad x) = [''load'', x]"
| "op_words OpNegate = [''negate'']"
| "op_words OpDumpStack = [''dumpstack'']"
| "op_words OpDumpMemory = [''dumpmemory'']"
| "op_words OpDumpState = [''dumpstate'']"
| "op_words OpPop = [''pop'']"
| "op_words OpEq = [''eq'']"
| "op_words OpGt = [''gt'']"
| "op_words OpLt = [''lt'']"
| "op_words OpNot = [''not'']"
| "op_words OpAnd = [''and'']"
| "op_words OpOr = [''or'']"
| "op_words OpDup = [''dup'']"
| "op_words OpSwap = [''swap'']"
| "op_words OpOver = [''over'']"
| "op_words (OpCall f) = [''call'', f]"
| "op_words OpReturn = [''return'']"
| "op_words OpBreak = [''break'']"
| "op_words OpContinue = [''continue'']"
| "op_words (OpAssertEqualStack d) = [''assertequalstack'', show_nat d]"
| "op_words (OpRankedVote c b) = [''rankedvote'', show_nat c, show_nat b]"
| "op_words (OpLiquidDelegate a b) = [''liquiddelegate'', a, b]"
| "op_words (OpVoteThreshold t) = [''votethreshold'', show_f64 t]"
| "op_words (OpQuorumThreshold t) = [''quorumthreshold'', show_f64 t]"
| "op_words (OpStoreP k) = [''storep'', k]"
| "op_words (OpLoadP k) = [''loadp'', k]"
| "op_words (OpLoadVersionP k v) = [''loadversionp'', k, show_u64 v]"
| "op_words (OpListVersionsP k) = [''listversionsP'', k]"
| "op_words (OpDiffVersionsP k v w) = [''diffversionsp'', k, show_u64 v, show_u64 w]"
| "op_words (OpCheckMembership i n) = [''checkmembership'', i, n]"
| "op_words (OpCheckDelegation i n) = [''checkdelegation'', i, n]"
| "op_words (OpCreateResource r) = [''createresource'', r]"
| "op_words (OpMint r a n None) = [''mint'', r, a, show_f64 n]"
| "op_words (OpTransfer r a b n None) = [''transfer'', r, a, b, show_f64 n]"
| "op_words (OpBurn r a n None) = [''burn'', r, a, show_f64 n]"
| "op_words (OpBalance r a) = [''balance'', r, a]"
| "op_words (OpIncrementReputation i None None) = [''increment_reputation'', i]"
| "op_words _ = []"

text \<open>An argument: a word without quotes that does not end in a colon.\<close>

definition arg_word :: "string \<Rightarrow> bool" where
  "arg_word w = (plain_word w \<and> dquote \<notin> set w \<and> last w \<noteq> CHR '':'')"

fun simple_op :: "Op \<Rightarrow> bool" where
  "simple_op (OpPush v) = (case v of Number n \<Rightarrow> wf_f64 n | Str s \<Rightarrow> list_all plain_char s | _ \<Rightarrow> True)"
| "simple_op (OpAssertEqualStack d) = (2 \<le> d \<and> d < 2 ^ 64)"
| "simple_op (OpRankedVote c b) = (c < 2 ^ 64 \<and> b < 2 ^ 64)"
| "simple_op (OpVoteThreshold t) = wf_f64 t"
| "simple_op (OpQuorumThreshold t) = wf_f64 t"
| "simple_op (OpMint r a n None) = (arg_word r \<and> arg_word a \<and> wf_f64 n)"
| "simple_op (OpTransfer r a b n None) = (arg_word r \<and> arg_word a \<and> arg_word b \<and> wf_f64 n)"
| "simple_op (OpBurn r a n None) = (arg_word r \<and> arg_word a \<and> wf_f64 n)"
| "simple_op op = (op_words op \<noteq> [] \<and> list_all arg_word (tl (op_words op)))"

lemma arg_word_plain [simp]: "arg_word w \<Longrightarrow> plain_word w"
  by (simp add: arg_word_def)

lemma not_in_show_nat: "of_char c < (48::nat) \<or> 57 < (of_char c :: nat) \<Longrightarrow> c \<notin> set (show_nat n)"
  using set_show_nat [of c n] digit_char_neq [of _ c] by metis

lemma no_quote_show_nat [simp]: "dquote \<notin> set (show_nat n)"
  by (rule not_in_show_nat) simp

lemma no_quote_show_f64 [simp]: "dquote \<notin> set (show_f64 x)"
  by (cases x) (auto simp: dec_str_def Let_def split: prod.split dest: in_set_takeD in_set_dropD)

lemma set_join: "set (join sep ws) \<subseteq> set sep \<union> \<Union> (set ` set ws)"
  by (induction sep ws rule: join.induct) auto

lemma no_quote_join: "\<forall>w \<in> set ws. dquote \<notin> set w \<Longrightarrow> dquote \<notin> set (spaces n @ join '' '' ws)"
  using set_join [of "'' ''" ws] by fastforce

lemma find_str_absent: "c \<notin> set s \<Longrightarrow> find_str [c] s = None"
  by (induction s) auto

lemma parse_reason_none: "dquote \<notin> set line \<Longrightarrow> parse_reason line = Inr None"
  by (simp add: parse_reason_def find_str_absent)

lemma slice_quotes:
  assumes "list_all plain_char s"
  shows "strip_quotes (dquote # s @ [dquote]) = Inr s"
proof -
  have "\<not> digit7 c" if "c \<in> set s" for c using assms that by (auto simp: list_all_iff plain_char_def)
  then have "char_boundary (dquote # s @ [dquote]) 1" "char_boundary (dquote # s @ [dquote]) (Suc (length s))"
    by (auto simp: char_boundary_def nth_append)
  then show ?thesis by (simp add: strip_quotes_def slice_def)
qed

lemma parse_push_display:
  assumes "simple_op (OpPush v)"
  shows "parse_push_value (tv_display v) = Inr v"
proof (cases v)
  case (Number x)
  obtain c cs where s: "show_f64 x = c # cs" using plain_word_show_f64 [of x] by (cases "show_f64 x") (auto simp: plain_word_def)
  then have "c \<noteq> dquote" using no_quote_show_f64 [of x] by auto
  moreover have "show_f64 x \<noteq> ''true''" "show_f64 x \<noteq> ''false''" "show_f64 x \<noteq> ''null''"
    using assms Number parse_show_f64 [of x] by force+
  ultimately show ?thesis
    using assms Number parse_show_f64 [of x] by (simp add: parse_push_value_def quoted_word_def starts_with_def s)
next
  case (Str s)
  then show ?thesis
    using assms slice_quotes [of s] by (simp add: parse_push_value_def quoted_word_def starts_with_def ends_with_def)
qed (auto simp: parse_push_value_def show_bool_def)

lemma plain_word_display: "simple_op (OpPush v) \<Longrightarrow> plain_word (tv_display v)"
  by (cases v) (auto simp: show_bool_def plain_word_def [of "_ # _"] plain_char_def ascii_ws_def)

lemma op_words_plain:
  assumes "simple_op op"
  shows "list_all plain_word (op_words op) \<and> op_words op \<noteq> [] \<and> hd (hd (op_words op)) \<noteq> CHR ''#''"
  using assms plain_word_display
  by (cases op rule: op_words.cases) (auto simp: plain_word_def [of "_ # _"] plain_char_def ascii_ws_def)

lemmas command_defs = parse_command_def plain_commands_def parse_push_def parse_name_def parse_assertequalstack_def
  parse_rankedvote_def parse_two_names_def parse_threshold_def parse_loadversionp_def parse_diffversionsp_def
  parse_supply_def parse_transfer_def parse_balance_def parse_increment_reputation_def

lemma parse_simple_command:
  assumes "simple_op op" "\<forall>v. op \<noteq> OpPush v \<Longrightarrow> dquote \<notin> set line"
  shows "parse_command (hd (op_words op)) (tl (op_words op)) line pos = Inr op"
  using assms parse_push_display
  by (cases op rule: op_words.cases) (auto simp: command_defs parse_reason_none parse_show_f64)

text \<open>The line of an operation without blocks; \<^verbatim>\<open>emit\<close> takes all text between its quotes.\<close>

definition text_char :: "char \<Rightarrow> bool" where
  "text_char c = (plain_char c \<or> c = CHR '' '')"

definition op_text :: "Op \<Rightarrow> string" where
  "op_text op = (case op of OpEmit s \<Rightarrow> ''emit '' @ dquote # s @ [dquote] | _ \<Rightarrow> join '' '' (op_words op))"

definition line_op :: "Op \<Rightarrow> bool" where
  "line_op op = (case op of OpEmit s \<Rightarrow> list_all text_char s | _ \<Rightarrow> simple_op op)"

lemma simple_op_text: "simple_op op \<Longrightarrow> op_text op = join '' '' (op_words op)"
  by (cases op) (simp_all add: op_text_def)

lemma line_op_cases:
  assumes "line_op op"
  obtains (words) "simple_op op" | (emit) s where "op = OpEmit s" "list_all text_char s"
  using assms by (cases op) (auto simp: line_op_def)

lemma find_str_first: "c \<notin> set a \<Longrightarrow> find_str [c] (a @ c # b) = Some (length a)"
  by (induction a) auto

lemma rfind_last: "rfind_char c (a @ [c]) = Some (length a)"
  by (simp add: rfind_char_def)

lemma text_not_wide: "text_char c \<Longrightarrow> \<not> digit7 c"
  by (auto simp: text_char_def plain_char_def)

lemma char_boundary_ascii: "i < length s \<Longrightarrow> \<not> digit7 (s ! i) \<Longrightarrow> char_boundary s i"
  by (simp add: char_boundary_def)

lemma parse_emit_line:
  assumes "list_all text_char s"
  shows "parse_emit (spaces n @ ''emit '' @ dquote # s @ [dquote]) pos = Inr (OpEmit s)"
proof -
  let ?a = "spaces n @ ''emit ''"
  let ?l = "?a @ dquote # s @ [dquote]"
  have f: "find_str [dquote] ?l = Some (length ?a)" by (rule find_str_first) auto
  have r: "rfind_char dquote ?l = Some (length ?a + 1 + length s)"
    using rfind_last [of dquote "?a @ dquote # s"] by simp
  have "\<not> digit7 (?l ! (length ?a + 1))"
    using assms text_not_wide by (cases s) (auto simp: nth_append)
  moreover have "\<not> digit7 (?l ! (length ?a + 1 + length s))" by (simp add: nth_append)
  ultimately have "char_boundary ?l (length ?a + 1)" "char_boundary ?l (length ?a + 1 + length s)"
    by (auto intro!: char_boundary_ascii)
  then have "(slice ?l (length ?a + 1) (length ?a + 1 + length s) :: string parsed) = Inr s" by (simp add: slice_def)
  then show ?thesis using f r by (simp add: parse_emit_def between_quotes_def)
qed

lemma tight_emit: "tight (''emit '' @ dquote # s @ [dquote])"
  by (simp add: tight_def) (simp add: plain_char_def ascii_ws_def)

lemma tight_op_text: "line_op op \<Longrightarrow> tight (op_text op)"
proof (erule line_op_cases)
  show "tight (op_text op)" if "simple_op op"
    using op_words_plain [OF that] by (simp add: simple_op_text [OF that] tight_join)
  show "tight (op_text op)" if "op = OpEmit s" for s
    using tight_emit [of s] by (simp add: op_text_def that)
qed

lemma parse_emit_command: "parse_command ''emit'' ps line pos = parse_emit line pos"
  by (simp add: parse_command_def plain_commands_def)

lemma no_quote_words:
  assumes "simple_op op" "\<forall>v. op \<noteq> OpPush v"
  shows "dquote \<notin> set (spaces n @ op_text op)"
proof -
  have "\<forall>w \<in> set (op_words op). dquote \<notin> set w"
    using assms by (cases op rule: op_words.cases) (auto simp: arg_word_def show_u64_def)
  then show ?thesis using no_quote_join [of "op_words op" n] assms(1) by (simp add: simple_op_text)
qed

lemma parse_op_line: "line_op op \<Longrightarrow> parse_line (spaces n @ op_text op) pos = Inr op"
proof (erule line_op_cases)
  assume s: "simple_op op"
  obtain c ps where w: "op_words op = c # ps" using op_words_plain [OF s] by (cases "op_words op") auto
  have "parse_line (spaces n @ op_text op) pos = parse_command c ps (spaces n @ op_text op) pos"
    using parse_line_words [of c ps n pos] op_words_plain [OF s] w simple_op_text [OF s] by simp
  then show ?thesis
    using parse_simple_command [OF s no_quote_words [OF s], of n pos] w by simp
next
  fix s
  assume op: "op = OpEmit s" "list_all text_char s"
  let ?t = "''emit '' @ dquote # s @ [dquote]"
  have "trim (spaces n @ ?t) = ?t" by (rule trim_indented [OF tight_emit])
  moreover have "split_whitespace (spaces n @ ?t) = ''emit'' # split_whitespace (dquote # s @ [dquote])"
    using split_whitespace_Cons [of "''emit''" "dquote # s @ [dquote]"]
    by (simp add: split_whitespace_indented plain_word_def plain_char_def ascii_ws_def)
  ultimately show ?thesis
    using parse_emit_line [OF op(2), of n pos]
    by (simp add: parse_line_def starts_with_def parse_emit_command op(1) op_text_def)
qed

lemma get_indent_spaces: "tight s \<Longrightarrow> get_indent (spaces n @ s) = n"
proof (induction n)
  case 0
  then show ?case by (cases s) (simp_all add: get_indent.simps tight_def)
next
  case (Suc n)
  then show ?case by (subst get_indent.simps) simp
qed

lemma no_colon_show_nat [simp]: "CHR '':'' \<notin> set (show_nat n)"
  by (rule not_in_show_nat) simp

lemma no_colon_show_f64 [simp]: "CHR '':'' \<notin> set (show_f64 x)"
  by (cases x) (auto simp: dec_str_def Let_def split: prod.split dest: in_set_takeD in_set_dropD)

lemma last_join: "list_all plain_word ws \<Longrightarrow> ws \<noteq> [] \<Longrightarrow> last (join '' '' ws) = last (last ws)"
proof (induction ws rule: induct_list012)
  case (3 v w ws)
  then have "tight (join '' '' (w # ws))" by (intro tight_join) auto
  then show ?case using 3 by (auto simp: tight_def)
qed auto

lemma last_not_colon: "w \<noteq> [] \<Longrightarrow> CHR '':'' \<notin> set w \<Longrightarrow> last w \<noteq> CHR '':''"
  by (metis last_in_set)

lemma ends_with_colon: "ends_with '':'' s \<longleftrightarrow> s \<noteq> [] \<and> last s = CHR '':''"
  by (cases s rule: rev_exhaust) (auto simp: ends_with_def)

lemma show_words_nonempty [simp]: "show_f64 x \<noteq> []" "show_u64 v \<noteq> []"
  using plain_word_show_f64 [of x] by (auto simp: plain_word_def show_u64_def)

lemma op_text_no_colon:
  assumes "line_op op"
  shows "\<not> ends_with '':'' (op_text op)"
  using assms
proof (cases rule: line_op_cases)
  case words
  have "last (last (op_words op)) \<noteq> CHR '':''"
    using words last_not_colon [of "show_f64 _"] last_not_colon [of "show_nat _"]
    by (cases op rule: op_words.cases)
      (auto simp: arg_word_def show_u64_def show_bool_def split: TypedValue.splits)
  then show ?thesis
    using op_words_plain [OF words] last_join [of "op_words op"] by (simp add: simple_op_text [OF words] ends_with_colon)
next
  case (emit s)
  then show ?thesis by (simp add: op_text_def ends_with_colon)
qed

lemma op_text_command:
  assumes "line_op op"
  shows "\<exists>c ps. split_whitespace (op_text op) = c # ps \<and> c \<noteq> ''template'' \<and> c \<noteq> ''governance''"
  using assms
proof (cases rule: line_op_cases)
  case words
  have "hd (op_words op) \<noteq> ''template'' \<and> hd (op_words op) \<noteq> ''governance''"
    using words by (cases op rule: op_words.cases) auto
  then show ?thesis
    using op_words_plain [OF words] split_whitespace_join [of "op_words op"]
    by (cases "op_words op") (auto simp: simple_op_text [OF words])
next
  case (emit s)
  have "plain_word ''emit''" by (simp add: plain_word_def plain_char_def ascii_ws_def)
  from split_whitespace_Cons [OF this, of "dquote # s @ [dquote]"] show ?thesis by (simp add: emit(1) op_text_def)
qed

lemma starts_with_word:
  "starts_with (w @ '' '') t \<Longrightarrow> plain_word w \<Longrightarrow> \<exists>ps. split_whitespace t = w # ps"
  by (auto simp: starts_with_iff split_whitespace_Cons)

lemma op_text_not_governance:
  assumes "line_op op"
  shows "\<not> starts_with ''template '' (op_text op)" "\<not> starts_with ''governance use '' (op_text op)" "op_text op \<noteq> ''governance {''"
proof -
  have p: "plain_word ''template''" "plain_word ''governance''" by (simp_all add: plain_word_def plain_char_def ascii_ws_def)
  obtain c ps where c: "split_whitespace (op_text op) = c # ps" "c \<noteq> ''template''" "c \<noteq> ''governance''"
    using op_text_command [OF assms] by blast
  show "\<not> starts_with ''template '' (op_text op)" using starts_with_word [OF _ p(1)] c by fastforce
  have g: "\<not> starts_with ''governance '' (op_text op)" using starts_with_word [OF _ p(2)] c by fastforce
  show "\<not> starts_with ''governance use '' (op_text op)" "op_text op \<noteq> ''governance {''"
    using g by (auto simp: starts_with_iff)
qed

section \<open>Blocks\<close>

fun print_op :: "nat \<Rightarrow> Op \<Rightarrow> string list" where
  "print_op n (OpIf c t e) =
     (spaces n @ ''if:'') # concat (map (print_op (n + 4)) t) @
     (case e of None \<Rightarrow> [] | Some b \<Rightarrow> (spaces n @ ''else:'') # concat (map (print_op (n + 4)) b))"
| "print_op n (OpLoop k b) = (spaces n @ ''loop '' @ show_nat k @ '':'') # concat (map (print_op (n + 4)) b)"
| "print_op n (OpWhile c b) =
     (spaces n @ ''while:'') # (spaces (n + 4) @ ''condition:'') # concat (map (print_op (n + 8)) c) @
     concat (map (print_op (n + 4)) b)"
| "print_op n (OpDef f ps b) =
     (spaces n @ ''def '' @ f @ ''('' @ join '', '' ps @ ''):'') # concat (map (print_op (n + 4)) b)"
| "print_op n (OpMatch v cs d) =
     (spaces n @ ''match:'') # (spaces (n + 4) @ ''value:'') # concat (map (print_op (n + 8)) v) @
     concat (map (\<lambda>(c, ops). (spaces (n + 4) @ ''case '' @ tv_display c @ '':'') # concat (map (print_op (n + 8)) ops)) cs) @
     (case d of None \<Rightarrow> [] | Some ops \<Rightarrow> (spaces (n + 4) @ ''default:'') # concat (map (print_op (n + 8)) ops))"
| "print_op n op = [spaces n @ op_text op]"

abbreviation print_ops :: "nat \<Rightarrow> Op list \<Rightarrow> string list" where
  "print_ops n ops \<equiv> concat (map (print_op n) ops)"

text \<open>
  Whether a block ends with an \<^verbatim>\<open>if:\<close> that has no \<^verbatim>\<open>else:\<close>, at any depth. The parser gives an \<^verbatim>\<open>else:\<close> line to
  the innermost such block whatever its indentation, so a printed program must not have one before an \<^verbatim>\<open>else:\<close>.
\<close>

fun open_op :: "Op \<Rightarrow> bool" where
  "open_op (OpIf c t e) = (case e of None \<Rightarrow> True | Some b \<Rightarrow> fold (\<lambda>op _. open_op op) b False)"
| "open_op (OpLoop k b) = fold (\<lambda>op _. open_op op) b False"
| "open_op (OpWhile c b) = (if b = [] then fold (\<lambda>op _. open_op op) c False else fold (\<lambda>op _. open_op op) b False)"
| "open_op (OpDef f ps b) = fold (\<lambda>op _. open_op op) b False"
| "open_op (OpMatch v cs d) =
     (case d of
        Some ops \<Rightarrow> fold (\<lambda>op _. open_op op) ops False
      | None \<Rightarrow>
          if cs = [] then fold (\<lambda>op _. open_op op) v False
          else fold (\<lambda>(c, ops) _. fold (\<lambda>op _. open_op op) ops False) cs False)"
| "open_op op = False"

definition open_end :: "Op list \<Rightarrow> bool" where
  "open_end ops = fold (\<lambda>op _. open_op op) ops False"

lemma open_end_simps [simp]: "open_end [] = False" "open_end (ops @ [op]) = open_op op"
  by (simp_all add: open_end_def)

definition name_word :: "string \<Rightarrow> bool" where
  "name_word w = (plain_word w \<and> set w \<inter> {CHR ''('', CHR '')'', CHR '','', CHR '':''} = {})"

definition is_def :: "Op \<Rightarrow> bool" where
  "is_def op = (case op of OpDef _ _ _ \<Rightarrow> True | _ \<Rightarrow> False)"

text \<open>The programs the text language can express.\<close>

fun printable :: "Op \<Rightarrow> bool" where
  "printable (OpIf c t e) =
     (c = [] \<and> list_all printable t \<and>
      (case e of None \<Rightarrow> True | Some b \<Rightarrow> list_all printable b \<and> \<not> open_end t))"
| "printable (OpLoop k b) = (k < 2 ^ 64 \<and> list_all printable b)"
| "printable (OpWhile c b) = (list_all printable c \<and> list_all printable b \<and> \<not> list_ex is_def b)"
| "printable (OpDef f ps b) = (name_word f \<and> list_all name_word ps \<and> list_all printable b)"
| "printable (OpMatch v cs d) =
     (v \<noteq> [] \<and> list_all printable v \<and>
      list_all (\<lambda>(c, ops). (case c of Number x \<Rightarrow> wf_f64 x | _ \<Rightarrow> False) \<and> list_all printable ops) cs \<and>
      (case d of None \<Rightarrow> True | Some ops \<Rightarrow> list_all printable ops))"
| "printable op = line_op op"

section \<open>Reading blocks back\<close>

text \<open>The lines after a block: none, or a non-blank line that is not indented beyond the base.\<close>

definition dedented :: "nat \<Rightarrow> string list \<Rightarrow> bool" where
  "dedented n rest = (case rest of [] \<Rightarrow> True | l # _ \<Rightarrow> get_indent l \<le> n \<and> trim l \<noteq> [])"

definition else_safe :: "Op list \<Rightarrow> string list \<Rightarrow> bool" where
  "else_safe ops rest = (case rest of [] \<Rightarrow> True | l # _ \<Rightarrow> trim l = ''else:'' \<longrightarrow> \<not> open_end ops)"

lemma dedented_mono: "dedented m rest \<Longrightarrow> m \<le> n \<Longrightarrow> dedented n rest"
  by (auto simp: dedented_def split: list.splits)

lemma parse_block_end: "dedented base rest \<Longrightarrow> parse_block (pre @ rest) (length pre) base pos = Inr ([], length pre)"
  by (subst parse_block.simps) (auto simp: dedented_def Let_def split: list.splits)

lemma tight_headers [simp]:
  "tight ''if:''" "tight ''else:''" "tight ''while:''" "tight ''condition:''" "tight ''match:''" "tight ''value:''" "tight ''default:''"
  by (simp_all add: tight_def plain_char_def ascii_ws_def)

lemma tight_loop: "tight (''loop '' @ show_nat k @ '':'')"
  by (simp add: tight_def plain_char_def ascii_ws_def)

lemma tight_case: "tight (''case '' @ s @ '':'')"
  by (simp add: tight_def plain_char_def ascii_ws_def)

lemma tight_def_line: "tight (''def '' @ f @ ''('' @ ps @ ''):'')"
  by (simp add: tight_def plain_char_def ascii_ws_def)

text \<open>The first line of an operation, without its indentation.\<close>

definition head_text :: "Op \<Rightarrow> string" where
  "head_text op = (case op of
     OpIf _ _ _ \<Rightarrow> ''if:'' | OpLoop k _ \<Rightarrow> ''loop '' @ show_nat k @ '':'' | OpWhile _ _ \<Rightarrow> ''while:''
   | OpDef f ps _ \<Rightarrow> ''def '' @ f @ ''('' @ join '', '' ps @ ''):'' | OpMatch _ _ _ \<Rightarrow> ''match:''
   | _ \<Rightarrow> op_text op)"

definition is_block :: "Op \<Rightarrow> bool" where
  "is_block op = (case op of OpIf _ _ _ \<Rightarrow> True | OpLoop _ _ \<Rightarrow> True | OpWhile _ _ \<Rightarrow> True | OpDef _ _ _ \<Rightarrow> True
     | OpMatch _ _ _ \<Rightarrow> True | _ \<Rightarrow> False)"

lemma print_op_head: "\<exists>ls. print_op n op = (spaces n @ head_text op) # ls"
  by (cases op) (auto simp: head_text_def)

lemma print_line_op: "\<not> is_block op \<Longrightarrow> print_op n op = [spaces n @ op_text op] \<and> head_text op = op_text op"
  by (cases op) (auto simp: is_block_def head_text_def)

lemma printable_line_op: "\<not> is_block op \<Longrightarrow> printable op \<longleftrightarrow> line_op op"
  by (cases op) (auto simp: is_block_def)

lemma tight_head: "printable op \<Longrightarrow> tight (head_text op)"
proof (cases "is_block op")
  case True
  then show ?thesis
    using tight_loop tight_def_line by (cases op) (auto simp: is_block_def head_text_def)
next
  case False
  then show "printable op \<Longrightarrow> tight (head_text op)"
    using tight_op_text print_line_op [OF False] printable_line_op [OF False] by simp
qed

lemma head_not_else: "printable op \<Longrightarrow> head_text op \<noteq> ''else:''"
proof (cases "is_block op")
  case True
  then show ?thesis by (cases op) (auto simp: is_block_def head_text_def)
next
  case False
  then show "printable op \<Longrightarrow> head_text op \<noteq> ''else:''"
    using op_text_no_colon [of op] print_line_op [OF False] printable_line_op [OF False]
    by (auto simp: ends_with_colon)
qed

lemma dedented_print_ops:
  assumes "list_all printable ops" "dedented n rest"
  shows "dedented n (print_ops n ops @ rest)"
proof (cases ops)
  case (Cons op ops')
  then obtain ls where "print_op n op = (spaces n @ head_text op) # ls" using print_op_head by blast
  moreover have "tight (head_text op)" using assms Cons tight_head by simp
  ultimately show ?thesis
    using Cons by (auto simp: dedented_def get_indent_spaces trim_indented tight_def)
qed (use assms in simp)

lemma else_safe_print_ops:
  assumes "list_all printable ops" "else_safe (op # ops) rest"
  shows "else_safe [op] (print_ops n ops @ rest)"
proof (cases ops)
  case (Cons op' ops')
  then obtain ls where "print_op n op' = (spaces n @ head_text op') # ls" using print_op_head by blast
  moreover have "tight (head_text op')" "head_text op' \<noteq> ''else:''" using assms Cons tight_head head_not_else by auto
  ultimately show ?thesis using Cons by (auto simp: else_safe_def trim_indented)
qed (use assms in simp)

lemma else_safe_tail: "else_safe (op # ops) rest \<Longrightarrow> ops \<noteq> [] \<Longrightarrow> else_safe ops rest"
  by (cases ops rule: rev_exhaust) (auto simp: else_safe_def open_end_def split: list.splits)

text \<open>What it means that the block parsers read back an operation and a block.\<close>

definition header_parser :: "Op \<Rightarrow> string list \<Rightarrow> nat \<Rightarrow> SourcePosition \<Rightarrow> (Op \<times> nat) parsed" where
  "header_parser op = (case op of
     OpIf _ _ _ \<Rightarrow> parse_if_block parse_block | OpLoop _ _ \<Rightarrow> parse_loop_block parse_block
   | OpWhile _ _ \<Rightarrow> parse_while_block while_loop | OpDef _ _ _ \<Rightarrow> parse_function_block parse_block
   | _ \<Rightarrow> parse_match_block match_loop)"

definition reads_op :: "Op \<Rightarrow> bool" where
  "reads_op op \<longleftrightarrow> (\<forall>n pre rest pos. dedented n rest \<longrightarrow> else_safe [op] rest \<longrightarrow>
     header_parser op (pre @ print_op n op @ rest) (length pre) pos = Inr (op, length pre + length (print_op n op)))"

definition reads :: "Op list \<Rightarrow> bool" where
  "reads ops \<longleftrightarrow> (\<forall>n base pre rest pos. base < n \<longrightarrow> dedented base rest \<longrightarrow> else_safe ops rest \<longrightarrow>
     parse_block (pre @ print_ops n ops @ rest) (length pre) base pos =
       Inr (ops, length pre + length (print_ops n ops)))"

lemma starts_with_simps [simp]: "starts_with [] s" "starts_with (c # p) (d # s) \<longleftrightarrow> c = d \<and> starts_with p s" "\<not> starts_with (c # p) []"
  by (auto simp: starts_with_def)

lemma block_header_indented: "tight t \<Longrightarrow> block_header (spaces n @ t) \<longleftrightarrow> ends_with '':'' t"
  by (simp add: block_header_def trim_indented)

lemma head_ends_with_colon: "is_block op \<Longrightarrow> ends_with '':'' (head_text op)"
  by (cases op) (auto simp: is_block_def head_text_def ends_with_colon)

lemma keep_op_printable: "printable op \<Longrightarrow> keep_op op ops = op # ops"
  by (cases op) (auto simp: keep_op_def line_op_def)

text \<open>The dispatch of \<open>parse_block\<close> on a header, by its text.\<close>

definition nested_block :: "nat \<Rightarrow> string list \<Rightarrow> nat \<Rightarrow> SourcePosition \<Rightarrow> string \<Rightarrow> (Op \<times> nat) parsed" where
  "nested_block base lines i p t =
     (if t = ''if passed:'' then
        bindR (parse_block (fst (gather base (drop (i + 1) lines))) 0 (base + 1) p) (\<lambda>(ops, _).
          Inr (OpIfPassed ops, i + 1 + snd (gather base (drop (i + 1) lines))))
      else if t = ''else:'' then
        bindR (parse_block (fst (gather base (drop (i + 1) lines))) 0 (base + 1) p) (\<lambda>(ops, _).
          Inr (OpElse ops, i + 1 + snd (gather base (drop (i + 1) lines))))
      else top_block t lines i p)"

lemma parse_block_header:
  assumes "i < length lines" "trim (lines ! i) = t" "t \<noteq> []" "base < get_indent (lines ! i)" "block_header (lines ! i)"
  shows "parse_block lines i base pos =
    resume (i + 1) (nested_block base lines i (position (sp_line pos + i) (get_indent (lines ! i) + 1)) t)
      (\<lambda>op j. bindR (parse_block lines j base pos) (\<lambda>(ops, k). Inr (keep_op op ops, k)))"
  using assms by (subst parse_block.simps) (simp add: Let_def nested_block_def top_block_def not_le)

lemma is_block_cases:
  assumes "is_block op"
  obtains c t e where "op = OpIf c t e" | k b where "op = OpLoop k b" | c b where "op = OpWhile c b"
    | f ps b where "op = OpDef f ps b" | v cs d where "op = OpMatch v cs d"
  using assms by (cases op) (auto simp: is_block_def)

lemma top_block_head: "is_block op \<Longrightarrow> top_block (head_text op) lines i p = header_parser op lines i p"
  by (erule is_block_cases) (simp_all add: top_block_def head_text_def header_parser_def)

lemma nested_block_head: "is_block op \<Longrightarrow> nested_block base lines i p (head_text op) = header_parser op lines i p"
  using top_block_head [of op] by (auto simp: nested_block_def head_text_def elim!: is_block_cases)

lemma parse_block_reads_header:
  assumes op: "printable op" "is_block op" "reads_op op" and "base < n" "dedented n rest" "else_safe [op] rest"
  shows "parse_block (pre @ print_op n op @ rest) (length pre) base pos =
    bindR (parse_block (pre @ print_op n op @ rest) (length pre + length (print_op n op)) base pos)
      (\<lambda>(ops, k). Inr (op # ops, k))"
proof -
  let ?lines = "pre @ print_op n op @ rest"
  obtain ls where ls: "print_op n op = (spaces n @ head_text op) # ls" using print_op_head by blast
  have line: "?lines ! length pre = spaces n @ head_text op" "length pre < length ?lines" by (simp_all add: ls nth_append)
  note t = tight_head [OF op(1)]
  have h: "header_parser op ?lines (length pre) p = Inr (op, length pre + length (print_op n op))" for p
    using op(3) assms(5,6) unfolding reads_op_def by blast
  have "head_text op \<noteq> []" using t by (simp add: tight_def)
  moreover have "block_header (spaces n @ head_text op)"
    using op(2) t by (simp add: block_header_indented head_ends_with_colon)
  ultimately have "parse_block ?lines (length pre) base pos =
      resume (length pre + 1) (Inr (op, length pre + length (print_op n op)))
        (\<lambda>op j. bindR (parse_block ?lines j base pos) (\<lambda>(ops, k). Inr (keep_op op ops, k)))"
    using parse_block_header [OF line(2), of "head_text op" base pos] assms(4) h
    by (simp add: line trim_indented [OF t] get_indent_spaces [OF t] nested_block_head [OF op(2)])
  then show ?thesis by (simp add: keep_op_printable [OF op(1)] ls)
qed

lemma parse_block_reads_line:
  assumes op: "printable op" "\<not> is_block op" and "base < n"
  shows "parse_block (pre @ print_op n op @ rest) (length pre) base pos =
    bindR (parse_block (pre @ print_op n op @ rest) (length pre + length (print_op n op)) base pos)
      (\<lambda>(ops, k). Inr (op # ops, k))"
proof -
  have p: "print_op n op = [spaces n @ op_text op]" "line_op op"
    using print_line_op [OF op(2)] printable_line_op [OF op(2)] op(1) by auto
  note t = tight_op_text [OF p(2)]
  have "op_text op \<noteq> []" using t by (simp add: tight_def)
  moreover have "\<not> block_header (spaces n @ op_text op)"
    using t op_text_no_colon [OF p(2)] by (simp add: block_header_indented)
  ultimately show ?thesis
    using assms(3)
    by (subst parse_block.simps)
      (simp add: p(1) nth_append Let_def trim_indented [OF t] get_indent_spaces [OF t] not_le
        parse_op_line [OF p(2)] keep_op_printable [OF op(1)])
qed

lemma reads_ops:
  "\<forall>op \<in> set ops. printable op \<and> (is_block op \<longrightarrow> reads_op op) \<Longrightarrow> reads ops"
proof (induction ops)
  case Nil
  then show ?case by (simp add: reads_def parse_block_end)
next
  case (Cons op ops)
  show ?case unfolding reads_def
  proof (intro allI impI)
    fix n base pre rest pos
    assume a: "base < (n :: nat)" "dedented base rest" "else_safe (op # ops) rest"
    let ?rest = "print_ops n ops @ rest" and ?pre = "pre @ print_op n op"
    have all: "list_all printable ops" using Cons.prems by (auto simp: list_all_iff)
    have ded: "dedented n ?rest" using dedented_print_ops [OF all] dedented_mono [OF a(2)] a(1) by simp
    have safe: "else_safe [op] ?rest" using else_safe_print_ops [OF all a(3)] .
    have ih: "parse_block (?pre @ ?rest) (length ?pre) base pos = Inr (ops, length ?pre + length (print_ops n ops))"
    proof (cases "ops = []")
      case True
      then show ?thesis using parse_block_end [OF a(2), of ?pre pos] by simp
    next
      case False
      then have "else_safe ops rest" using else_safe_tail [OF a(3)] by simp
      moreover have "reads ops" using Cons by simp
      ultimately show ?thesis
        using a(1,2) unfolding reads_def by blast
    qed
    have "parse_block (pre @ print_op n op @ ?rest) (length pre) base pos =
        bindR (parse_block (pre @ print_op n op @ ?rest) (length pre + length (print_op n op)) base pos) (\<lambda>(ops, k). Inr (op # ops, k))"
      using parse_block_reads_header [OF _ _ _ a(1) ded safe] parse_block_reads_line [OF _ _ a(1)] Cons.prems
      by (cases "is_block op") auto
    then show "parse_block (pre @ print_ops n (op # ops) @ rest) (length pre) base pos =
        Inr (op # ops, length pre + length (print_ops n (op # ops)))"
      using ih by simp
  qed
qed

lemma readsD:
  assumes "reads ops" "base < n" "dedented base rest" "else_safe ops rest"
  shows "parse_block (pre @ print_ops n ops @ rest) (length pre) base pos = Inr (ops, length pre + length (print_ops n ops))"
  using assms unfolding reads_def by blast

text \<open>After a header line.\<close>

lemma readsD_header:
  assumes "reads ops" "base < n" "dedented base rest" "else_safe ops rest"
  shows "parse_block (pre @ l # print_ops n ops @ rest) (Suc (length pre)) base pos =
    Inr (ops, Suc (length pre + length (print_ops n ops)))"
  using readsD [OF assms, of "pre @ [l]" pos] by simp

lemma open_end_single [simp]: "open_end [op] = open_op op"
  by (simp add: open_end_def)

lemma nth_header [simp]: "(pre @ l # ls) ! length pre = l" "(pre @ l # ls) ! (Suc (length pre)) = ls ! 0"
  by (simp_all add: nth_append)

lemma dedented_line: "tight t \<Longrightarrow> n \<le> m \<Longrightarrow> dedented m ((spaces n @ t) # ls)"
  by (auto simp: dedented_def get_indent_spaces trim_indented tight_def)

lemma else_safe_line: "tight t \<Longrightarrow> t \<noteq> ''else:'' \<Longrightarrow> else_safe ops ((spaces n @ t) # ls)"
  by (simp add: else_safe_def trim_indented)

lemma reads_if_open:
  assumes "reads t"
  shows "reads_op (OpIf [] t None)"
  unfolding reads_op_def
proof (intro allI impI)
  fix n pre rest pos
  assume a: "dedented n rest" "else_safe [OpIf [] t None] rest"
  let ?lines = "pre @ print_op n (OpIf [] t None) @ rest"
  let ?k = "Suc (length pre + length (print_ops (n + 4) t))"
  have no_else: "rest = [] \<or> trim (hd rest) \<noteq> ''else:''" using a(2) by (cases rest) (auto simp: else_safe_def)
  then have "else_safe t rest" by (cases rest) (auto simp: else_safe_def)
  then have b: "parse_block ?lines (Suc (length pre)) n pos = Inr (t, ?k)"
    using readsD_header [OF assms _ a(1), of "n + 4" pre "spaces n @ ''if:''" pos] by simp
  have "\<not> (?k < length ?lines \<and> trim (?lines ! ?k) = ''else:'')"
    using no_else by (cases rest) (auto simp: nth_append)
  then have "parse_else parse_block ?lines n pos t ?k = Inr (OpIf [] t None, ?k)"
    by (simp only: parse_else_def if_False)
  then show "header_parser (OpIf [] t None) ?lines (length pre) pos =
      Inr (OpIf [] t None, length pre + length (print_op n (OpIf [] t None)))"
    using b by (simp add: header_parser_def parse_if_block_def Let_def get_indent_spaces)
qed

lemma reads_if_else:
  assumes "reads t" "reads b" "\<not> open_end t"
  shows "reads_op (OpIf [] t (Some b))"
  unfolding reads_op_def
proof (intro allI impI)
  fix n pre rest pos
  assume a: "dedented n rest" "else_safe [OpIf [] t (Some b)] rest"
  let ?op = "OpIf [] t (Some b)"
  let ?lines = "pre @ print_op n ?op @ rest"
  let ?k = "Suc (length pre + length (print_ops (n + 4) t))"
  let ?else = "(spaces n @ ''else:'') # print_ops (n + 4) b @ rest"
  have "dedented n ?else" by (rule dedented_line) auto
  moreover have "else_safe t ?else" using assms(3) by (simp add: else_safe_def)
  ultimately have 1: "parse_block ?lines (Suc (length pre)) n pos = Inr (t, ?k)"
    using readsD_header [OF assms(1), of n "n + 4" ?else pre "spaces n @ ''if:''" pos] by simp
  have "else_safe b rest" using a(2) by (cases rest) (auto simp: else_safe_def open_end_def)
  then have 2: "parse_block ?lines (Suc ?k) n p = Inr (b, Suc (?k + length (print_ops (n + 4) b)))" for p
    using readsD_header [OF assms(2) _ a(1), of "n + 4" "pre @ (spaces n @ ''if:'') # print_ops (n + 4) t" "spaces n @ ''else:''" p]
    by simp
  have "?lines ! ?k = spaces n @ ''else:''" "?k < length ?lines" by (simp_all add: nth_append)
  then have "parse_else parse_block ?lines n pos t ?k = Inr (?op, Suc (?k + length (print_ops (n + 4) b)))"
    using 2 by (simp add: parse_else_def Let_def trim_indented del: print_op.simps)
  then show "header_parser ?op ?lines (length pre) pos = Inr (?op, length pre + length (print_op n ?op))"
    using 1 by (simp add: header_parser_def parse_if_block_def Let_def get_indent_spaces)
qed

lemma splitn2_at: "c \<notin> set a \<Longrightarrow> splitn2 c (a @ c # b) = [a, b]"
proof -
  assume "c \<notin> set a"
  then have "dropWhile (\<lambda>x. x \<noteq> c) (a @ c # b) = c # b" "takeWhile (\<lambda>x. x \<noteq> c) (a @ c # b) = a"
    by (induction a) auto
  then show ?thesis by (simp add: splitn2_def)
qed

lemma trim_end_char_once: "s = [] \<or> last s \<noteq> c \<Longrightarrow> trim_end_char c (s @ [c]) = s"
  by (cases s rule: rev_exhaust) (auto simp: trim_end_char_def)

lemma reads_loop:
  assumes "reads b" "k < 2 ^ 64"
  shows "reads_op (OpLoop k b)"
  unfolding reads_op_def
proof (intro allI impI)
  fix n pre rest pos
  assume a: "dedented n rest" "else_safe [OpLoop k b] rest"
  let ?lines = "pre @ print_op n (OpLoop k b) @ rest"
  let ?t = "''loop '' @ show_nat k @ '':''"
  have "else_safe b rest" using a(2) by (cases rest) (auto simp: else_safe_def open_end_def)
  then have 1: "parse_block ?lines (Suc (length pre)) n pos = Inr (b, Suc (length pre + length (print_ops (n + 4) b)))"
    using readsD_header [OF assms(1) _ a(1), of "n + 4" pre "spaces n @ ?t" pos] by simp
  have "splitn2 (CHR '' '') ?t = [''loop'', show_nat k @ '':'']"
    using splitn2_at [of "CHR '' ''" "''loop''" "show_nat k @ '':''"] by simp
  moreover have "trim_end_char (CHR '':'') (show_nat k @ '':'') = show_nat k"
    using last_not_colon [of "show_nat k"] by (intro trim_end_char_once) auto
  moreover have "eq_ignore_ascii_case ''loop'' ''loop''" by (simp add: eq_ignore_ascii_case_def)
  ultimately show "header_parser (OpLoop k b) ?lines (length pre) pos =
      Inr (OpLoop k b, length pre + length (print_op n (OpLoop k b)))"
    using 1 assms(2) trim_indented [OF tight_loop, of n k] get_indent_spaces [OF tight_loop, of n k]
    by (simp add: header_parser_def parse_loop_block_def Let_def)
qed

lemma name_word_facts:
  assumes "name_word w"
  shows "plain_word w" "w \<noteq> []" "trim w = w" "trim (CHR '' '' # w) = w" "CHR '','' \<notin> set w" "CHR '')'' \<notin> set w"
  using assms plain_word_tight [of w] trim_indented [of w 1] by (auto simp: name_word_def plain_word_def)

lemma split_params:
  "list_all name_word (p # ps) \<Longrightarrow> map trim (split_char (CHR '','') (join '', '' (p # ps))) = p # ps \<and>
     map trim (split_char (CHR '','') (CHR '' '' # join '', '' (p # ps))) = p # ps"
proof (induction ps arbitrary: p)
  case Nil
  then show ?case using name_word_facts [of p] by (simp add: split_char_absent del: split_char.simps)
next
  case (Cons q ps)
  then have p: "name_word p" by simp
  note ih = Cons.IH [of q] and f = name_word_facts [OF p]
  have "split_char (CHR '','') (join '', '' (p # q # ps)) = p # split_char (CHR '','') (CHR '' '' # join '', '' (q # ps))"
    using split_char_at [OF f(5)] by simp
  moreover have "split_char (CHR '','') (CHR '' '' # join '', '' (p # q # ps)) =
      (CHR '' '' # p) # split_char (CHR '','') (CHR '' '' # join '', '' (q # ps))"
    using split_char_at [of "CHR '',''" "CHR '' '' # p" "CHR '' '' # join '', '' (q # ps)"] f(5) by simp
  ultimately show ?case using ih Cons.prems f by (simp del: split_char.simps)
qed

lemma params_read_back:
  assumes "list_all name_word ps"
  shows "filter (\<lambda>s. s \<noteq> []) (map trim (split_char (CHR '','') (join '', '' ps))) = ps"
proof (cases ps)
  case Nil
  have "trim [] = []" by (simp add: trim_def trim_end_def trim_start.simps trim_start_rev.simps)
  then show ?thesis using Nil by simp
next
  case (Cons p ps')
  then have "map trim (split_char (CHR '','') (join '', '' ps)) = ps" using assms split_params by blast
  then show ?thesis using assms name_word_facts(2) by (auto simp: filter_id_conv list_all_iff)
qed

lemma no_paren_join: "list_all name_word ps \<Longrightarrow> CHR '')'' \<notin> set (join '', '' ps)"
  using set_join [of "'', ''" ps] name_word_facts(6) by (fastforce simp: list_all_iff)

lemma signature_reads_back:
  assumes "name_word f" "list_all name_word ps"
  shows "parse_function_signature (spaces n @ ''def '' @ f @ ''('' @ join '', '' ps @ ''):'') pos = Inr (f, ps)"
proof -
  let ?a = "spaces n @ ''def '' @ f" and ?j = "join '', '' ps"
  have "trim_end_char (CHR '':'') ((?a @ ''('' @ ?j @ '')'') @ '':'') = ?a @ ''('' @ ?j @ '')''"
    by (rule trim_end_char_once) simp
  moreover have "CHR ''('' \<notin> set ?a" using assms(1) by (auto simp: name_word_def)
  then have "splitn2 (CHR ''('') (?a @ CHR ''('' # ?j @ '')'') = [?a, ?j @ '')'']" by (rule splitn2_at)
  moreover have "trim_end_char (CHR '')'') (?j @ '')'') = ?j"
    using no_paren_join [OF assms(2)] by (intro trim_end_char_once) (metis last_in_set)
  moreover have "tight (''def '' @ f)"
    using plain_word_tight [of f] name_word_facts [OF assms(1)] by (simp add: tight_def plain_char_def ascii_ws_def)
  then have "trim ?a = ''def '' @ f" using trim_indented [of "''def '' @ f" n] by simp
  ultimately show ?thesis
    using params_read_back [OF assms(2)] name_word_facts [OF assms(1)]
    by (simp add: parse_function_signature_def Let_def)
qed

lemma reads_def_op:
  assumes "reads b" "name_word f" "list_all name_word ps"
  shows "reads_op (OpDef f ps b)"
  unfolding reads_op_def
proof (intro allI impI)
  fix n pre rest pos
  assume a: "dedented n rest" "else_safe [OpDef f ps b] rest"
  let ?lines = "pre @ print_op n (OpDef f ps b) @ rest"
  have "else_safe b rest" using a(2) by (cases rest) (auto simp: else_safe_def open_end_def)
  then have 1: "parse_block ?lines (Suc (length pre)) n pos = Inr (b, Suc (length pre + length (print_ops (n + 4) b)))"
    using readsD_header [OF assms(1) _ a(1), of "n + 4" pre "spaces n @ ''def '' @ f @ ''('' @ join '', '' ps @ ''):''" pos] by simp
  show "header_parser (OpDef f ps b) ?lines (length pre) pos =
      Inr (OpDef f ps b, length pre + length (print_op n (OpDef f ps b)))"
    using 1 signature_reads_back [OF assms(2,3), of n pos] get_indent_spaces [OF tight_def_line, of n f "join '', '' ps"]
    by (simp add: header_parser_def parse_function_block_def Let_def)
qed

text \<open>The body of a \<^verbatim>\<open>while:\<close> block: no function definitions, otherwise as in a block.\<close>

lemma while_loop_end: "dedented base rest \<Longrightarrow> while_loop (pre @ rest) (length pre) base pos s = Inr (s, length pre)"
  by (subst while_loop.simps) (auto simp: dedented_def Let_def split: list.splits prod.splits)

lemma while_loop_reads_op:
  assumes op: "printable op" "is_block op \<Longrightarrow> reads_op op" "\<not> is_def op" and "base < n" "dedented n rest" "else_safe [op] rest"
  shows "while_loop (pre @ print_op n op @ rest) (length pre) base pos (c, b, ex) =
    while_loop (pre @ print_op n op @ rest) (length pre + length (print_op n op)) base pos (c, b @ [op], ex)"
proof -
  let ?lines = "pre @ print_op n op @ rest"
  obtain ls where ls: "print_op n op = (spaces n @ head_text op) # ls" using print_op_head by blast
  have line: "?lines ! length pre = spaces n @ head_text op" "length pre < length ?lines" by (simp_all add: ls)
  note t = tight_head [OF op(1)]
  show ?thesis
  proof (cases "is_block op")
    case True
    then have h: "header_parser op ?lines (length pre) p = Inr (op, length pre + length (print_op n op))" for p
      using op(2) assms(5,6) unfolding reads_op_def by blast
    have bh: "block_header (spaces n @ head_text op)" using True t by (simp add: block_header_indented head_ends_with_colon)
    let ?p = "position (sp_line pos + length pre) (n + 1)"
    have "(if head_text op = ''if:'' then parse_if_block parse_block ?lines (length pre) ?p
        else if head_text op = ''while:'' then parse_while_block while_loop ?lines (length pre) ?p
        else if starts_with ''loop '' (head_text op) then parse_loop_block parse_block ?lines (length pre) ?p
        else if head_text op = ''match:'' then parse_match_block match_loop ?lines (length pre) ?p
        else at_pos (CE_UnknownBlockType (head_text op)) ?p) = header_parser op ?lines (length pre) ?p"
      using True op(3) by (cases rule: is_block_cases) (simp_all add: head_text_def header_parser_def is_def_def)
    moreover have "head_text op \<noteq> ''condition:''" using True by (cases rule: is_block_cases) (simp_all add: head_text_def)
    moreover have "resume (length pre + 1) (header_parser op ?lines (length pre) ?p)
        (\<lambda>op j. while_loop ?lines j base pos (c, b @ [op], ex)) =
        while_loop ?lines (length pre + length (print_op n op)) base pos (c, b @ [op], ex)"
      unfolding h by (rule resume_simps) (simp add: ls)
    moreover have "\<not> n \<le> base" using assms(4) by simp
    ultimately show ?thesis
      using bh
      by (subst while_loop.simps)
        (simp only: line if_True if_False Let_def prod.case trim_indented [OF t] get_indent_spaces [OF t] simp_thms)
  next
    case False
    then have p: "print_op n op = [spaces n @ op_text op]" "line_op op" "head_text op = op_text op"
      using print_line_op [OF False] printable_line_op [OF False] op(1) by auto
    have nc: "\<not> ends_with '':'' (op_text op)" using op_text_no_colon [OF p(2)] .
    then have "op_text op \<noteq> ''condition:''" by (auto simp: ends_with_colon)
    moreover have "\<not> block_header (spaces n @ op_text op)" using nc t p(3) by (simp add: block_header_indented)
    ultimately show ?thesis
      using t assms(4) line
      by (subst while_loop.simps)
        (simp add: p Let_def trim_indented get_indent_spaces not_le parse_op_line keep_op_printable [OF op(1)])
  qed
qed

lemma while_loop_reads:
  assumes "\<forall>op \<in> set ops. printable op \<and> (is_block op \<longrightarrow> reads_op op) \<and> \<not> is_def op" "base < n" "dedented base rest"
    "ops = [] \<or> else_safe ops rest"
  shows "while_loop (pre @ print_ops n ops @ rest) (length pre) base pos (c, b, ex) =
    Inr ((c, b @ ops, ex), length pre + length (print_ops n ops))"
  using assms
proof (induction ops arbitrary: pre b)
  case Nil
  then show ?case by (simp add: while_loop_end)
next
  case (Cons op ops)
  let ?rest = "print_ops n ops @ rest"
  have all: "list_all printable ops" using Cons.prems by (auto simp: list_all_iff)
  have ded: "dedented n ?rest" using dedented_print_ops [OF all] dedented_mono [OF Cons.prems(3)] Cons.prems(2) by simp
  have safe: "else_safe [op] ?rest" using else_safe_print_ops [OF all] Cons.prems(4) by simp
  have "ops = [] \<or> else_safe ops rest" using else_safe_tail Cons.prems(4) by blast
  then have ih: "while_loop ((pre @ print_op n op) @ ?rest) (length (pre @ print_op n op)) base pos (c, b @ [op], ex) =
      Inr ((c, (b @ [op]) @ ops, ex), length (pre @ print_op n op) + length (print_ops n ops))"
    using Cons.IH [of "pre @ print_op n op" "b @ [op]"] Cons.prems(1-3) by simp
  have "while_loop (pre @ print_op n op @ ?rest) (length pre) base pos (c, b, ex) =
      while_loop (pre @ print_op n op @ ?rest) (length pre + length (print_op n op)) base pos (c, b @ [op], ex)"
    using while_loop_reads_op [OF _ _ _ Cons.prems(2) ded safe] Cons.prems(1) by simp
  then show ?case using ih by simp
qed

lemma reads_while:
  assumes "reads c" "\<forall>op \<in> set b. printable op \<and> (is_block op \<longrightarrow> reads_op op) \<and> \<not> is_def op"
  shows "reads_op (OpWhile c b)"
  unfolding reads_op_def
proof (intro allI impI)
  fix n pre rest pos
  assume a: "dedented n rest" "else_safe [OpWhile c b] rest"
  let ?lines = "pre @ print_op n (OpWhile c b) @ rest"
  let ?pre = "pre @ [spaces n @ ''while:'']"
  let ?rest = "print_ops (n + 4) b @ rest"
  let ?j = "Suc (Suc (length pre + length (print_ops (n + 8) c)))"
  have all: "list_all printable b" using assms(2) by (simp add: list_all_iff)
  have safe_b: "b = [] \<or> else_safe b rest" using a(2) by (cases rest) (auto simp: else_safe_def open_end_def)
  have "else_safe c ?rest"
  proof (cases b)
    case Nil
    then show ?thesis using a(2) by (cases rest) (auto simp: else_safe_def open_end_def)
  next
    case (Cons op ops)
    then show ?thesis
      using else_safe_line [OF tight_head, of op] head_not_else [of op] all print_op_head [of "n + 4" op] by auto
  qed
  moreover have "dedented (n + 4) ?rest" using dedented_print_ops [OF all] dedented_mono [OF a(1)] by simp
  ultimately have 1: "parse_block ?lines (Suc (Suc (length pre))) (n + 4) p = Inr (c, ?j)" for p
    using readsD_header [OF assms(1), of "n + 4" "n + 8" ?rest ?pre "spaces (n + 4) @ ''condition:''" p] by simp
  have "while_loop ?lines ?j n pos (c, [], True) = Inr ((c, b, True), ?j + length (print_ops (n + 4) b))"
    using while_loop_reads [OF assms(2) _ a(1) safe_b, of "n + 4"
        "pre @ (spaces n @ ''while:'') # (spaces (n + 4) @ ''condition:'') # print_ops (n + 8) c" pos c "[]" True] by simp
  then have 2: "while_loop ?lines (Suc (length pre)) n pos ([], [], False) = Inr ((c, b, True), ?j + length (print_ops (n + 4) b))"
    using 1 get_indent_spaces [of "''condition:''" "n + 4"] trim_indented [of "''condition:''" "n + 4"]
    by (subst while_loop.simps) (simp add: Let_def)
  show "header_parser (OpWhile c b) ?lines (length pre) pos =
      Inr (OpWhile c b, length pre + length (print_op n (OpWhile c b)))"
    using 2 get_indent_spaces [of "''while:''" n] by (simp add: header_parser_def parse_while_block_def)
qed

text \<open>The body of a \<^verbatim>\<open>match:\<close> block after the value: the cases in order and the default.\<close>

definition print_case :: "nat \<Rightarrow> TypedValue \<times> Op list \<Rightarrow> string list" where
  "print_case n c = (spaces n @ ''case '' @ tv_display (fst c) @ '':'') # print_ops (n + 4) (snd c)"

definition print_default :: "nat \<Rightarrow> Op list option \<Rightarrow> string list" where
  "print_default n d = (case d of None \<Rightarrow> [] | Some ops \<Rightarrow> (spaces n @ ''default:'') # print_ops (n + 4) ops)"

lemma print_match:
  "print_op n (OpMatch v cs d) =
     (spaces n @ ''match:'') # (spaces (n + 4) @ ''value:'') # print_ops (n + 8) v @
     concat (map (print_case (n + 4)) cs) @ print_default (n + 4) d"
proof -
  have "(\<lambda>(c, ops). (spaces (n + 4) @ ''case '' @ tv_display c @ '':'') # print_ops (n + 8) ops) = print_case (n + 4)"
    by (auto simp: print_case_def fun_eq_iff add.commute)
  then show ?thesis by (simp add: print_default_def add.commute del: append.simps split: option.split)
qed

definition number_case :: "TypedValue \<times> Op list \<Rightarrow> bool" where
  "number_case c = (case fst c of Number x \<Rightarrow> wf_f64 x | _ \<Rightarrow> False)"

lemma case_value_reads_back:
  assumes "number_case c"
  shows "parse_f64 (case_value_text (spaces n @ ''case '' @ tv_display (fst c) @ '':'')) = Some (case fst c of Number x \<Rightarrow> x)"
proof -
  obtain x where x: "fst c = Number x" "wf_f64 x" using assms by (auto simp: number_case_def split: TypedValue.splits)
  have "tight (show_f64 x @ '':'')"
    using plain_word_tight [OF plain_word_show_f64, of x] by (auto simp: tight_def)
  then have "case_value_text (spaces n @ ''case '' @ show_f64 x @ '':'') = trim_end_char (CHR '':'') (show_f64 x @ '':'')"
    using trim_indented [OF tight_case, of n "show_f64 x"] by (simp add: case_value_text_def)
  also have "\<dots> = show_f64 x" using last_not_colon [of "show_f64 x"] by (intro trim_end_char_once) auto
  finally show ?thesis using x parse_show_f64 [OF x(2)] by simp
qed

lemma match_loop_end: "dedented base rest \<Longrightarrow> match_loop (pre @ rest) (length pre) base pos s = Inr (s, length pre)"
  by (subst match_loop.simps) (auto simp: dedented_def Let_def split: list.splits prod.splits)

lemma match_loop_case:
  assumes "number_case c" "reads (snd c)" "base < n" "dedented n rest" "else_safe (snd c) rest"
  shows "match_loop (pre @ print_case n c @ rest) (length pre) base pos (v, cs, d) =
    match_loop (pre @ print_case n c @ rest) (length pre + length (print_case n c)) base pos (v, cs @ [c], d)"
proof -
  let ?t = "''case '' @ tv_display (fst c) @ '':''"
  let ?lines = "pre @ print_case n c @ rest"
  obtain x where x: "fst c = Number x" using assms(1) by (auto simp: number_case_def split: TypedValue.splits)
  then have c: "(Number x, snd c) = c" by (cases c) simp
  have l: "?lines ! length pre = spaces n @ ?t" "length pre < length ?lines" by (simp_all add: print_case_def)
  have t: "trim (spaces n @ ?t) = ?t" "get_indent (spaces n @ ?t) = n"
    using trim_indented [OF tight_case] get_indent_spaces [OF tight_case] by blast+
  have p: "parse_f64 (case_value_text (spaces n @ ?t)) = Some x" using case_value_reads_back [OF assms(1), of n] x by simp
  have b: "parse_block ?lines (Suc (length pre)) n p = Inr (snd c, length pre + length (print_case n c))" for p
    using readsD_header [OF assms(2) _ assms(4,5), of "n + 4" pre "spaces n @ ?t" p] by (simp add: print_case_def)
  have k: "?t \<noteq> ''value:''" "starts_with ''case '' ?t" "\<not> n \<le> base" using assms(3) by simp_all
  have "match_loop ?lines (length pre) base pos (v, cs, d) =
      resume (length pre + 1) (parse_block ?lines (length pre + 1) n (position (sp_line pos + length pre + 1) (n + 1)))
        (\<lambda>ops j. match_loop ?lines j base pos (v, cs @ [(Number x, ops)], d))"
    by (subst match_loop.simps)
      (simp only: l t k p if_True if_False Let_def prod.case or_err_simps position_simps)
  also have "\<dots> = match_loop ?lines (length pre + length (print_case n c)) base pos (v, cs @ [c], d)"
    unfolding Suc_eq_plus1 [symmetric] b by (subst resume_simps(2)) (simp_all add: print_case_def c)
  finally show ?thesis .
qed

lemma match_loop_default:
  assumes "reads ops" "base < n" "dedented base rest" "else_safe ops rest"
  shows "match_loop (pre @ print_default n (Some ops) @ rest) (length pre) base pos (v, cs, None) =
    Inr ((v, cs, Some ops), length pre + length (print_default n (Some ops)))"
proof -
  let ?lines = "pre @ print_default n (Some ops) @ rest"
  have l: "?lines ! length pre = spaces n @ ''default:''" "length pre < length ?lines" by (simp_all add: print_default_def)
  have t: "trim (spaces n @ ''default:'') = ''default:''" "get_indent (spaces n @ ''default:'') = n"
    by (intro trim_indented get_indent_spaces tight_headers)+
  have b: "parse_block ?lines (Suc (length pre)) n p = Inr (ops, length pre + length (print_default n (Some ops)))" for p
    using readsD_header [OF assms(1) _ dedented_mono [OF assms(3)] assms(4), of n "n + 4" pre "spaces n @ ''default:''" p] assms(2)
    by (simp add: print_default_def)
  have e: "match_loop ?lines (length pre + length (print_default n (Some ops))) base pos s =
      Inr (s, length pre + length (print_default n (Some ops)))" for s
    using match_loop_end [OF assms(3), of "pre @ print_default n (Some ops)" pos s] by simp
  have k: "''default:'' \<noteq> ''value:''" "\<not> starts_with ''case '' ''default:''" "\<not> n \<le> base" using assms(2) by simp_all
  have "match_loop ?lines (length pre) base pos (v, cs, None) =
      resume (length pre + 1) (parse_block ?lines (length pre + 1) n (position (sp_line pos + length pre + 1) (n + 1)))
        (\<lambda>ops j. match_loop ?lines j base pos (v, cs, Some ops))"
    by (subst match_loop.simps)
      (simp only: l t k if_True if_False Let_def prod.case position_simps simp_thms)
  also have "\<dots> = match_loop ?lines (length pre + length (print_default n (Some ops))) base pos (v, cs, Some ops)"
    unfolding Suc_eq_plus1 [symmetric] b by (subst resume_simps(2)) (simp_all add: print_default_def)
  finally show ?thesis using e by simp
qed

lemma tight_case_head: "\<exists>t ls. print_case n c = (spaces n @ t) # ls \<and> tight t \<and> t \<noteq> ''else:''"
  unfolding print_case_def using tight_case [of "tv_display (fst c)"] by (intro exI conjI refl) auto

lemma tail_cases:
  assumes "dedented base rest" "base \<le> n"
  shows "dedented n (concat (map (print_case n) cs) @ print_default n d @ rest)"
  using assms tight_case_head [of n "hd cs"]
  by (cases cs; cases d) (auto simp: print_default_def dedented_line intro: dedented_mono)

lemma tail_else_safe:
  assumes "cs \<noteq> [] \<or> d \<noteq> None \<or> else_safe ops rest"
  shows "else_safe ops (concat (map (print_case n) cs) @ print_default n d @ rest)"
  using assms tight_case_head [of n "hd cs"]
  by (cases cs; cases d) (auto simp: print_default_def else_safe_line)

lemma match_loop_reads:
  assumes "\<forall>c \<in> set cs. number_case c \<and> reads (snd c)" "\<forall>ops. d = Some ops \<longrightarrow> reads ops" "base < n" "dedented base rest"
    "\<forall>ops. d = Some ops \<longrightarrow> else_safe ops rest" "d = None \<and> cs \<noteq> [] \<longrightarrow> else_safe (snd (last cs)) rest"
  shows "match_loop (pre @ concat (map (print_case n) cs) @ print_default n d @ rest) (length pre) base pos (v, cs0, None) =
    Inr ((v, cs0 @ cs, d), length pre + length (concat (map (print_case n) cs) @ print_default n d))"
  using assms(1,6)
proof (induction cs arbitrary: pre cs0)
  case Nil
  show ?case
  proof (cases d)
    case None
    then show ?thesis using match_loop_end [OF assms(4), of pre pos] by (simp add: print_default_def)
  next
    case (Some ops)
    then show ?thesis using match_loop_default [of ops base n rest pre pos v cs0] assms(2-5) by simp
  qed
next
  case (Cons c cs)
  let ?rest = "concat (map (print_case n) cs) @ print_default n d @ rest"
  have "else_safe (snd c) ?rest"
    using Cons.prems(2) by (intro tail_else_safe) auto
  then have "match_loop (pre @ print_case n c @ ?rest) (length pre) base pos (v, cs0, None) =
      match_loop (pre @ print_case n c @ ?rest) (length pre + length (print_case n c)) base pos (v, cs0 @ [c], None)"
    using match_loop_case [OF _ _ assms(3) tail_cases [OF assms(4)]] Cons.prems(1) assms(3) by simp
  moreover have "d = None \<and> cs \<noteq> [] \<longrightarrow> else_safe (snd (last cs)) rest" using Cons.prems(2) by auto
  ultimately show ?case using Cons.IH [of "pre @ print_case n c" "cs0 @ [c]"] Cons.prems(1) by simp
qed

lemma fold_last: "cs \<noteq> [] \<Longrightarrow> fold (\<lambda>(c, ops) _. fold (\<lambda>op _. open_op op) ops False) cs False = open_end (snd (last cs))"
  by (cases cs rule: rev_exhaust) (auto simp: open_end_def split: prod.split)

lemma reads_match:
  assumes "reads v" "v \<noteq> []" "\<forall>c \<in> set cs. number_case c \<and> reads (snd c)" "\<forall>ops. d = Some ops \<longrightarrow> reads ops"
  shows "reads_op (OpMatch v cs d)"
  unfolding reads_op_def
proof (intro allI impI)
  fix n pre rest pos
  assume a: "dedented n rest" "else_safe [OpMatch v cs d] rest"
  let ?lines = "pre @ print_op n (OpMatch v cs d) @ rest"
  let ?tail = "concat (map (print_case (n + 4)) cs) @ print_default (n + 4) d"
  let ?pre = "pre @ (spaces n @ ''match:'') # (spaces (n + 4) @ ''value:'') # print_ops (n + 8) v"
  have safe: "cs \<noteq> [] \<or> d \<noteq> None \<or> else_safe v rest" "\<forall>ops. d = Some ops \<longrightarrow> else_safe ops rest"
    "d = None \<and> cs \<noteq> [] \<longrightarrow> else_safe (snd (last cs)) rest"
    using a(2) by (cases rest; cases d; auto simp: else_safe_def open_end_def fold_last)+
  have lines: "?lines = ?pre @ ?tail @ rest" by (simp add: print_match del: print_op.simps)
  have ded: "dedented (n + 4) (?tail @ rest)" using tail_cases [OF a(1), of "n + 4" cs d] by simp
  have es: "else_safe v (?tail @ rest)" using tail_else_safe [OF safe(1), of "n + 4"] by simp
  have "parse_block ?lines (Suc (Suc (length pre))) (n + 4) p = Inr (v, length ?pre)" for p
    using readsD_header [OF assms(1) _ ded es, of "n + 8" "pre @ [spaces n @ ''match:'']" "spaces (n + 4) @ ''value:''" p]
    by (simp add: lines del: print_op.simps)
  moreover have "match_loop ?lines (length ?pre) n pos (v, [], None) = Inr ((v, cs, d), length ?pre + length ?tail)"
    using match_loop_reads [OF assms(3,4) _ a(1) safe(2,3), of "n + 4" ?pre pos v "[]"]
    by (simp add: lines del: print_op.simps)
  ultimately have "match_loop ?lines (Suc (length pre)) n pos ([], [], None) = Inr ((v, cs, d), length ?pre + length ?tail)"
    using get_indent_spaces [of "''value:''" "n + 4"] trim_indented [of "''value:''" "n + 4"]
    by (subst match_loop.simps) (simp add: lines nth_append Let_def del: print_op.simps)
  then show "header_parser (OpMatch v cs d) ?lines (length pre) pos =
      Inr (OpMatch v cs d, length pre + length (print_op n (OpMatch v cs d)))"
    using get_indent_spaces [of "''match:''" n] assms(2)
    by (simp add: header_parser_def parse_match_block_def print_match nth_append del: print_op.simps)
qed

section \<open>Whole programs\<close>

lemma reads_list: "(\<And>op. op \<in> set ops \<Longrightarrow> printable op \<Longrightarrow> is_block op \<Longrightarrow> reads_op op) \<Longrightarrow> list_all printable ops \<Longrightarrow> reads ops"
  by (rule reads_ops) (auto simp: list_all_iff)

lemma printable_reads: "printable op \<Longrightarrow> is_block op \<Longrightarrow> reads_op op"
proof (induction op rule: printable.induct)
  case (1 c t e)
  then have t: "reads t" by (intro reads_list) auto
  show ?case
  proof (cases e)
    case None
    then show ?thesis using 1 reads_if_open [OF t] by simp
  next
    case (Some b)
    then have "reads b" using 1 by (intro reads_list) auto
    then show ?thesis using 1 Some reads_if_else [OF t] by simp
  qed
next
  case (2 k b)
  then have "reads b" by (intro reads_list) auto
  then show ?case using 2 by (simp add: reads_loop)
next
  case (3 c b)
  then have "reads c" by (intro reads_list) auto
  then show ?case using 3 by (intro reads_while) (auto simp: list_all_iff list_ex_iff)
next
  case (4 f ps b)
  then have "reads b" by (intro reads_list) auto
  then show ?case using 4 by (simp add: reads_def_op)
next
  case (5 v cs d)
  have v: "reads v" using 5 by (intro reads_list) auto
  have cs: "\<forall>c \<in> set cs. number_case c \<and> reads (snd c)"
  proof
    fix c
    assume c: "c \<in> set cs"
    obtain x ops where x: "c = (x, ops)" by (cases c)
    have "list_all printable ops" "case x of Number y \<Rightarrow> wf_f64 y | _ \<Rightarrow> False"
      using "5.prems"(1) c x by (auto simp: list_all_iff)
    moreover have "reads ops" using "5.IH"(2) [OF c x [symmetric]] calculation(1) by (intro reads_list) auto
    ultimately show "number_case c \<and> reads (snd c)" by (simp add: x number_case_def)
  qed
  have d: "\<forall>ops. d = Some ops \<longrightarrow> reads ops" using 5 by (auto intro!: reads_list)
  show ?case using reads_match [OF v _ cs d] "5.prems"(1) by simp
qed (simp_all add: is_block_def)

lemma head_not_governance:
  assumes "printable op"
  shows "\<not> starts_with ''template '' (head_text op)" "\<not> starts_with ''governance use '' (head_text op)" "head_text op \<noteq> ''governance {''"
proof (atomize(full), cases "is_block op")
  case True
  then show "\<not> starts_with ''template '' (head_text op) \<and> \<not> starts_with ''governance use '' (head_text op) \<and> head_text op \<noteq> ''governance {''"
    by (cases rule: is_block_cases) (simp_all add: head_text_def)
next
  case False
  then show "\<not> starts_with ''template '' (head_text op) \<and> \<not> starts_with ''governance use '' (head_text op) \<and> head_text op \<noteq> ''governance {''"
    using op_text_not_governance [of op] print_line_op [OF False] printable_line_op [OF False] assms by simp
qed

lemma dsl_loop_op:
  assumes op: "printable op" and st: "\<not> ds_in_governance st" "\<not> ds_in_template st" and rest: "dedented 0 rest" "else_safe [op] rest"
  shows "dsl_loop (pre @ print_op 0 op @ rest) (length pre) st =
    dsl_loop (pre @ print_op 0 op @ rest) (length pre + length (print_op 0 op)) (st\<lparr>ds_ops := ds_ops st @ [op]\<rparr>)"
proof -
  let ?lines = "pre @ print_op 0 op @ rest"
  obtain ls where ls: "print_op 0 op = head_text op # ls" using print_op_head [of 0 op] by auto
  have line: "?lines ! length pre = head_text op" "length pre < length ?lines" by (simp_all add: ls)
  have t: "trim (head_text op) = head_text op" "head_text op \<noteq> []" "get_indent (head_text op) = 0"
    using tight_head [OF op] get_indent_spaces [of "head_text op" 0] by (auto simp: tight_def)
  have add: "add_op op st = st\<lparr>ds_ops := ds_ops st @ [op]\<rparr>" by (simp add: add_op_def keep_op_printable [OF op])
  show ?thesis
  proof (cases "is_block op")
    case True
    have h: "top_block (head_text op) ?lines (length pre) p = Inr (op, length pre + length (print_op 0 op))" for p
      using printable_reads [OF op True] rest unfolding top_block_head [OF True] reads_op_def by blast
    have "block_header (head_text op)"
      using True tight_head [OF op] block_header_indented [of _ 0] by (simp add: head_ends_with_colon)
    then show ?thesis
      using head_not_governance [OF op] st h ls
      by (subst dsl_loop.simps) (simp add: line t add Let_def del: print_op.simps)
  next
    case False
    then have p: "print_op 0 op = [op_text op]" "line_op op" "head_text op = op_text op"
      using print_line_op [OF False, of 0] printable_line_op [OF False] op by auto
    have "\<not> block_header (head_text op)"
      using op_text_no_colon [OF p(2)] tight_head [OF op] block_header_indented [of _ 0] p(3) by simp
    then show ?thesis
      using head_not_governance [OF op] st parse_op_line [OF p(2), of 0]
      by (subst dsl_loop.simps) (use t [unfolded p(3)] in \<open>simp add: p add Let_def del: print_op.simps\<close>)
  qed
qed

lemma dsl_loop_ops:
  assumes "list_all printable ops" "\<not> ds_in_governance st" "\<not> ds_in_template st" "dedented 0 rest" "ops = [] \<or> else_safe ops rest"
  shows "dsl_loop (pre @ print_ops 0 ops @ rest) (length pre) st =
    dsl_loop (pre @ print_ops 0 ops @ rest) (length pre + length (print_ops 0 ops)) (st\<lparr>ds_ops := ds_ops st @ ops\<rparr>)"
  using assms
proof (induction ops arbitrary: pre st)
  case (Cons op ops)
  have all: "list_all printable ops" using Cons.prems by simp
  have "dedented 0 (print_ops 0 ops @ rest)" using dedented_print_ops [OF all] Cons.prems by simp
  moreover have "else_safe [op] (print_ops 0 ops @ rest)" using else_safe_print_ops [OF all] Cons.prems by simp
  ultimately have "dsl_loop (pre @ print_op 0 op @ print_ops 0 ops @ rest) (length pre) st =
      dsl_loop (pre @ print_op 0 op @ print_ops 0 ops @ rest) (length pre + length (print_op 0 op)) (st\<lparr>ds_ops := ds_ops st @ [op]\<rparr>)"
    using dsl_loop_op Cons.prems by simp
  moreover have "ops = [] \<or> else_safe ops rest" using else_safe_tail Cons.prems(5) by blast
  ultimately show ?case
    using Cons.IH [of "st\<lparr>ds_ops := ds_ops st @ [op]\<rparr>" "pre @ print_op 0 op"] Cons.prems by (simp add: add.assoc)
qed simp

text \<open>The printed lines are lines: no line feed, no carriage return.\<close>

lemma text_literals [simp]:
  "text_char (CHR '' '')" "text_char (CHR '':'')" "text_char (CHR ''('')" "text_char (CHR '')'')" "text_char (CHR '','')" "text_char dquote"
  by (simp_all add: text_char_def plain_char_def ascii_ws_def)

lemma text_plain: "plain_word w \<Longrightarrow> list_all text_char w"
  by (auto simp: plain_word_def list_all_iff text_char_def)

lemma text_join: "list_all text_char sep \<Longrightarrow> \<forall>w \<in> set ws. list_all text_char w \<Longrightarrow> list_all text_char (join sep ws)"
  using set_join [of sep ws] by (fastforce simp: list_all_iff)

lemma text_op_text: "line_op op \<Longrightarrow> list_all text_char (op_text op)"
proof (erule line_op_cases)
  assume s: "simple_op op"
  then have "list_all text_char (join '' '' (op_words op))"
    using op_words_plain [OF s] text_plain by (intro text_join) (auto simp: list_all_iff)
  then show ?thesis using simple_op_text [OF s] by simp
next
  fix s
  assume "op = OpEmit s" "list_all text_char s"
  then show ?thesis by (simp add: op_text_def) (simp add: text_char_def plain_char_def ascii_ws_def)
qed

lemma text_letters:
  "text_char (CHR ''a'')" "text_char (CHR ''c'')" "text_char (CHR ''d'')" "text_char (CHR ''e'')" "text_char (CHR ''f'')"
  "text_char (CHR ''h'')" "text_char (CHR ''i'')" "text_char (CHR ''l'')" "text_char (CHR ''m'')" "text_char (CHR ''n'')"
  "text_char (CHR ''o'')" "text_char (CHR ''p'')" "text_char (CHR ''s'')" "text_char (CHR ''t'')" "text_char (CHR ''u'')"
  "text_char (CHR ''v'')" "text_char (CHR ''w'')" "text_char (CHR ''r'')"
  by (simp_all add: text_char_def plain_char_def ascii_ws_def)

lemma text_spaces: "list_all text_char (spaces n)"
  by (simp add: list_all_iff)

lemma printed_text: "printable op \<Longrightarrow> l \<in> set (print_op n op) \<Longrightarrow> list_all text_char l"
proof (induction n op arbitrary: l rule: print_op.induct)
  case (1 n c t e)
  then show ?case by (cases e) (auto simp: text_letters text_spaces list_all_iff [of printable] simp del: append.simps)
next
  case (2 n k b)
  then show ?case using text_plain [OF plain_word_show_nat, of k]
    by (auto simp: text_letters text_spaces list_all_iff [of printable] simp del: append.simps)
next
  case (3 n c b)
  then show ?case by (auto simp: text_letters text_spaces list_all_iff [of printable] simp del: append.simps)
next
  case (4 n f ps b)
  have "list_all text_char f" using 4 text_plain name_word_facts by simp
  moreover have "list_all text_char (join '', '' ps)"
    using 4 text_plain name_word_facts by (intro text_join) (auto simp: list_all_iff [of name_word])
  ultimately show ?case
    using 4 by (auto simp: text_letters text_spaces list_all_iff [of printable] simp del: append.simps)
next
  case (5 n v cs d)
  have "list_all text_char (tv_display c)" if "(c, ops) \<in> set cs" for c ops
    using 5 that text_plain [OF plain_word_show_f64] by (fastforce simp: list_all_iff [of "\<lambda>(c, ops). _ c ops"] split: TypedValue.splits)
  then show ?case
    using 5 by (cases d) (auto simp: text_letters text_spaces list_all_iff [of printable] list_all_iff [of "\<lambda>(c, ops). _ c ops"]
      simp del: append.simps)
qed (auto simp: text_op_text text_spaces)

lemma str_lines_all:
  "\<forall>l \<in> set ls. list_all text_char l \<Longrightarrow> str_lines (concat (map (\<lambda>l. l @ [newline]) ls)) = ls"
proof (induction ls)
  case Nil
  then show ?case by (simp add: str_lines.simps)
next
  case (Cons l ls)
  have l: "newline \<notin> set l" "CHR 0x0D \<notin> set l"
    using Cons.prems by (auto simp: list_all_iff text_char_def plain_char_def ascii_ws_def)
  then have "l = [] \<or> last l \<noteq> CHR 0x0D" by (metis last_in_set)
  then show ?case using Cons str_lines_unlines [OF l(1)] by simp
qed

definition unlines :: "string list \<Rightarrow> string" where
  "unlines ls = concat (map (\<lambda>l. l @ [newline]) ls)"

definition program_text :: "Op list \<Rightarrow> string" where
  "program_text ops = unlines (print_ops 0 ops)"

lemma str_lines_program:
  "list_all printable ops \<Longrightarrow> \<forall>l \<in> set rest. list_all text_char l \<Longrightarrow> str_lines (unlines (print_ops 0 ops @ rest)) = print_ops 0 ops @ rest"
  unfolding unlines_def by (rule str_lines_all) (auto simp: list_all_iff [of printable] dest: printed_text)

lemma parse_dsl_printed:
  assumes "list_all printable ops"
  shows "parse_dsl (program_text ops) = Inr (ops, default_config)"
proof -
  have "dsl_loop (print_ops 0 ops) 0 initial_state = Inr (initial_state\<lparr>ds_ops := ops\<rparr>)"
    using dsl_loop_ops [OF assms, of initial_state "[]" "[]"]
    by (simp add: initial_state_def dedented_def else_safe_def dsl_loop.simps [of _ "length _"])
  then show ?thesis
    using str_lines_program [OF assms, of "[]"] by (simp add: parse_dsl_def program_text_def initial_state_def)
qed

section \<open>Properties\<close>


definition demo_program :: "Op list" where
  "demo_program =
     [OpDef ''twice'' [''x'', ''y''] [OpLoad ''x'', OpLoad ''x'', OpAdd, OpReturn],
      OpPush (Str ''a''), OpEmit ''two words'',
      OpIf [] [OpLoop 3 [OpPush (Number f64_one), OpCall ''twice'']] (Some [OpWhile [OpPush Null] [OpPop]]),
      OpMatch [OpDup] [(Number f64_one, [OpTransfer ''tok'' ''ann'' ''bob'' f64_one None]), (Number f64_zero, [])] (Some [OpNot])]"

lemma demo_printable: "list_all printable demo_program"
  by (simp add: demo_program_def line_op_def name_word_def plain_word_def plain_char_def ascii_ws_def arg_word_def open_end_def
      is_def_def list_all_iff text_char_def)




text \<open>
  an \<^verbatim>\<open>else:\<close> goes to the wrong block. In
  \<^verbatim>\<open>if: / if: t / else: b\<close>, with the \<^verbatim>\<open>else:\<close> indented as the outer \<^verbatim>\<open>if:\<close>, the parser gives the \<^verbatim>\<open>else:\<close> to the
  inner one, with an empty block, and the operations \<open>b\<close> become part of the outer then-branch.
\<close>

theorem dangling_else:
  assumes "list_all printable t" "\<not> open_end t" "list_all printable b"
  shows "parse_dsl (unlines (''if:'' # (spaces 4 @ ''if:'') # print_ops 8 t @ ''else:'' # print_ops 4 b)) =
    Inr ([OpIf [] (OpIf [] t (Some []) # b) None], default_config)"
proof -
  let ?rest = "''else:'' # print_ops 4 b"
  let ?lines = "''if:'' # (spaces 4 @ ''if:'') # print_ops 8 t @ ?rest"
  let ?k = "Suc (Suc (length (print_ops 8 t)))"
  let ?inner = "OpIf [] t (Some [])"
  have r: "reads t" "reads b" using assms printable_reads reads_list by blast+
  have pre: "?lines = (''if:'' # (spaces 4 @ ''if:'') # print_ops 8 t) @ ?rest" by simp
  have k: "?lines ! ?k = ''else:''" "?k < length ?lines" using pre by (simp_all add: nth_append)
  have "dedented 4 ?rest" "else_safe t ?rest"
    using dedented_line [of "''else:''" 0 4] assms(2) by (simp_all add: else_safe_def)
  then have 1: "parse_block ?lines 2 4 p = Inr (t, ?k)" for p
    using readsD_header [OF r(1), of 4 8 ?rest "[''if:'']" "spaces 4 @ ''if:''" p] by (simp add: numeral_2_eq_2)
  have "dedented 4 (print_ops 4 b)" using dedented_print_ops [OF assms(3), of 4 "[]"] by (simp add: dedented_def)
  then have 2: "parse_block ?lines (Suc ?k) 4 p = Inr ([], Suc ?k)" for p
    using parse_block_end [of 4 "print_ops 4 b" "''if:'' # (spaces 4 @ ''if:'') # print_ops 8 t @ [''else:'']" p] by simp
  have 3: "parse_block ?lines (Suc ?k) 0 p = Inr (b, length ?lines)" for p
    using readsD [OF r(2), of 0 4 "[]" "''if:'' # (spaces 4 @ ''if:'') # print_ops 8 t @ [''else:'']" p]
    by (simp add: dedented_def else_safe_def)
  have i: "get_indent (spaces 4 @ ''if:'') = 4" "trim (spaces 4 @ ''if:'') = ''if:''" "block_header (spaces 4 @ ''if:'')"
    by (simp_all add: get_indent_spaces trim_indented block_header_indented ends_with_colon)
  have inner: "parse_if_block parse_block ?lines 1 p = Inr (?inner, Suc ?k)" for p
  proof -
    have "parse_else parse_block ?lines 4 p t ?k = Inr (?inner, Suc ?k)" for p
      using 2 k by (simp add: parse_else_def Let_def)
    then show ?thesis
      using 1 [of p] i(1) by (simp add: parse_if_block_def Let_def numeral_2_eq_2)
  qed
  have outer: "parse_block ?lines 1 0 p = Inr (?inner # b, length ?lines)" for p
  proof -
    have "parse_block ?lines 1 0 p =
        resume (1 + 1) (parse_if_block parse_block ?lines 1 (position (sp_line p + 1) (4 + 1)))
          (\<lambda>op j. bindR (parse_block ?lines j 0 p) (\<lambda>(ops, k). Inr (keep_op op ops, k)))"
      using parse_block_header [of 1 ?lines "''if:''" 0 p] i by (simp add: nested_block_def top_block_def)
    then show ?thesis using inner 3 by (simp add: keep_op_def)
  qed
  have top: "top_block ''if:'' ?lines 0 p = Inr (OpIf [] (?inner # b) None, length ?lines)" for p
    using outer [of p] get_indent_spaces [of "''if:''" 0]
    by (simp add: top_block_def parse_if_block_def Let_def parse_else_def)
  have ifline: "trim ''if:'' = ''if:''" "get_indent ''if:'' = 0" "block_header ''if:''"
    using get_indent_spaces [of "''if:''" 0] by (simp_all add: block_header_def ends_with_colon)
  have "dsl_loop ?lines 0 initial_state = Inr (initial_state\<lparr>ds_ops := [OpIf [] (?inner # b) None]\<rparr>)"
    using top by (subst dsl_loop.simps)
      (simp add: ifline Let_def initial_state_def add_op_def keep_op_def dsl_loop.simps [of _ "length _"] dsl_loop.simps [of _ "Suc _"])
  moreover have "str_lines (unlines ?lines) = ?lines"
    unfolding unlines_def using assms
    by (intro str_lines_all) (auto simp: text_letters text_spaces list_all_iff [of printable] dest: printed_text)
  ultimately show ?thesis by (simp add: parse_dsl_def initial_state_def)
qed

theorem dangling_else_witness:
  "parse_dsl (unlines [''if:'', ''    if:'', ''        add'', ''else:'', ''    sub'']) =
     Inr ([OpIf [] [OpIf [] [OpAdd] (Some []), OpSub] None], default_config)"
proof -
  have p: "list_all printable [OpAdd]" "\<not> open_end [OpAdd]" "list_all printable [OpSub]"
    by (simp_all add: line_op_def open_end_def)
  have l: "''if:'' # (spaces 4 @ ''if:'') # print_ops 8 [OpAdd] @ ''else:'' # print_ops 4 [OpSub] =
      [''if:'', ''    if:'', ''        add'', ''else:'', ''    sub'']" by code_simp
  show ?thesis using dangling_else [OF p, unfolded l] .
qed

text \<open>
  errors in a block are reported at the wrong line. After any printed program, an unknown command in the
  block of an \<^verbatim>\<open>if:\<close> is reported at twice the number of the \<^verbatim>\<open>if:\<close> line instead of at the line after it.
\<close>

theorem nested_error_line:
  assumes "list_all printable ops"
  shows "parse_dsl (unlines (print_ops 0 ops @ [''if:'', ''    bogus''])) =
    Inl (Err (CE_UnknownCommand ''bogus'' (2 * Suc (length (print_ops 0 ops))) 5))"
proof -
  let ?n = "length (print_ops 0 ops)"
  let ?lines = "print_ops 0 ops @ [''if:'', ''    bogus'']"
  have if_line: "trim ''if:'' = ''if:''" "get_indent ''if:'' = 0" "block_header ''if:''"
    using get_indent_spaces [of "''if:''" 0] by (simp_all add: block_header_def ends_with_colon)
  have bogus: "trim ''    bogus'' = ''bogus''" "get_indent ''    bogus'' = 4" "\<not> block_header ''    bogus''"
    "parse_line ''    bogus'' p = at_pos (CE_UnknownCommand ''bogus'') p" for p
  proof -
    show "trim ''    bogus'' = ''bogus''" "get_indent ''    bogus'' = 4" "\<not> block_header ''    bogus''" by code_simp+
    have "\<not> starts_with ''#'' (trim ''    bogus'')" "split_whitespace ''    bogus'' = [''bogus'']" by code_simp+
    then show "parse_line ''    bogus'' p = at_pos (CE_UnknownCommand ''bogus'') p"
      by (simp add: parse_line_def parse_command_def plain_commands_def)
  qed
  have nth: "?lines ! ?n = ''if:''" "?lines ! Suc ?n = ''    bogus''" by (simp_all add: nth_append)
  have "parse_block ?lines (Suc ?n) 0 p = Inl (Err (CE_UnknownCommand ''bogus'' (sp_line p + Suc ?n) 5))" for p
    by (subst parse_block.simps) (simp add: nth bogus Let_def at_pos_def)
  then have "parse_if_block parse_block ?lines ?n (position (Suc ?n) (Suc 0)) =
      Inl (Err (CE_UnknownCommand ''bogus'' (2 * Suc ?n) 5))"
    by (simp add: parse_if_block_def Let_def nth if_line)
  then have "dsl_loop ?lines ?n (initial_state\<lparr>ds_ops := ops\<rparr>) = Inl (Err (CE_UnknownCommand ''bogus'' (2 * Suc ?n) 5))"
    by (subst dsl_loop.simps) (simp add: nth if_line Let_def initial_state_def top_block_def)
  moreover have "dsl_loop ?lines 0 initial_state = dsl_loop ?lines ?n (initial_state\<lparr>ds_ops := ops\<rparr>)"
    using dsl_loop_ops [OF assms, of initial_state "[''if:'', ''    bogus'']" "[]"] if_line
    by (simp add: initial_state_def dedented_def else_safe_def)
  moreover have "str_lines (unlines ?lines) = ?lines"
    using assms by (rule str_lines_program) (auto simp: text_char_def plain_char_def ascii_ws_def)
  ultimately show ?thesis by (simp add: parse_dsl_def)
qed

theorem nested_error_line_witness:
  "parse_dsl (unlines [''add'', ''sub'', ''if:'', ''    bogus'']) = Inl (Err (CE_UnknownCommand ''bogus'' 6 5))"
proof -
  have p: "list_all printable [OpAdd, OpSub]" by (simp add: line_op_def)
  have l: "print_ops 0 [OpAdd, OpSub] @ [''if:'', ''    bogus''] = [''add'', ''sub'', ''if:'', ''    bogus'']"
    "2 * Suc (length (print_ops 0 [OpAdd, OpSub])) = 6" by code_simp+
  show ?thesis using nested_error_line [OF p, unfolded l] .
qed

lemma trim_start_rev_drop: "\<exists>k. trim_start_rev r = drop k r"
proof (induction r rule: trim_start_rev.induct)
  case (1 r)
  show ?case
  proof (cases "ws_width_rev r = 0")
    case True
    then show ?thesis by (subst trim_start_rev.simps) (auto intro: exI [of _ 0])
  next
    case False
    then obtain k where "trim_start_rev (drop (ws_width_rev r) r) = drop k (drop (ws_width_rev r) r)" using 1 by blast
    then have "trim_start_rev r = drop (k + ws_width_rev r) r" using False by (subst trim_start_rev.simps) simp
    then show ?thesis by blast
  qed
qed

lemma trim_end_take: "\<exists>k. trim_end s = take k s"
  using trim_start_rev_drop [of "rev s"] by (auto simp: trim_end_def rev_drop)

text \<open>
  an unclosed quote makes the parser panic. A line \<^verbatim>\<open>emit\<close> with a single quote slices the line backwards.
\<close>

theorem unclosed_quote_panics:
  assumes "dquote \<notin> set s"
  shows "parse_line (spaces n @ ''emit '' @ dquote # s) pos = Inl Panic"
proof -
  let ?a = "spaces n @ ''emit ''"
  have f: "find_str [dquote] (?a @ dquote # s) = Some (length ?a)" by (rule find_str_first) auto
  have "find_str [dquote] (rev s @ dquote # rev ?a) = Some (length s)" using find_str_first [of dquote "rev s"] assms by simp
  then have r: "rfind_char dquote (?a @ dquote # s) = Some (length ?a)" by (simp add: rfind_char_def)
  have w: "split_whitespace (spaces n @ ''emit '' @ dquote # s) = ''emit'' # split_whitespace (dquote # s)"
    using split_whitespace_Cons [of "''emit''" "dquote # s"]
    by (simp add: split_whitespace_indented plain_word_def plain_char_def ascii_ws_def)
  have t: "\<not> starts_with ''#'' (trim (spaces n @ ''emit '' @ dquote # s))"
  proof -
    have "trim_start (spaces n @ ''emit '' @ dquote # s) = ''emit '' @ dquote # s"
      by (simp add: trim_start_spaces plain_char_def ascii_ws_def)
    moreover obtain k where "trim_end (''emit '' @ dquote # s) = take k (''emit '' @ dquote # s)" using trim_end_take by blast
    ultimately show ?thesis by (cases k) (simp_all add: trim_def)
  qed
  show ?thesis
    using f r t w by (simp add: parse_line_def parse_emit_command parse_emit_def between_quotes_def slice_def)
qed

theorem unclosed_quote_panics_witness:
  "parse_line (''emit '' @ dquote # ''hello'') (position 1 1) = Inl Panic"
  using unclosed_quote_panics [of "''hello''" 0 "position 1 1"] by simp

text \<open>
  the proposal block parser never finds an else-block. It collects the lines of \<^verbatim>\<open>if passed:\<close> up to the end of
  the whole block, the \<^verbatim>\<open>else:\<close> line and its block included, so whatever the text, it returns no else-block.
\<close>

lemma gather_stops: "k = snd (gather base ls) \<Longrightarrow> dedented base (drop k ls)"
proof (induction ls arbitrary: k)
  case (Cons l ls)
  then show ?case by (auto simp: dedented_def split: prod.splits)
qed (simp add: dedented_def)

lemma proposal_lines_after_passed:
  "dedented ci (drop i lines) \<Longrightarrow> proposal_lines lines i ci pos True fe parts = Inr (parts, i)"
proof -
  assume d: "dedented ci (drop i lines)"
  show ?thesis
  proof (cases "i < length lines")
    case True
    then have "drop i lines = lines ! i # drop (Suc i) lines" by (simp add: Cons_nth_drop_Suc)
    then show ?thesis using d True by (subst proposal_lines.simps) (auto simp: dedented_def Let_def split: prod.splits)
  qed (simp add: proposal_lines.simps)
qed

lemma proposal_lines_no_else:
  "proposal_lines lines i ci pos False False (e, p, None) = Inr ((e', p', f), k) \<Longrightarrow> f = None"
proof (induction "lines_left lines i" arbitrary: i e p rule: less_induct)
  case less
  show ?case
  proof (cases "i < length lines")
    case True
    have later: "proposal_lines lines (Suc i) ci pos False False (e1, p1, None) = Inr ((e', p', f), k) \<Longrightarrow> f = None" for e1 p1
      using less.hyps [of "Suc i"] lines_left_less [OF True, of "Suc i"] by simp
    have after: "proposal_lines lines (Suc (i + snd (gather ci (drop (Suc i) lines)))) ci pos True False parts =
        Inr (parts, Suc (i + snd (gather ci (drop (Suc i) lines))))" for parts
      using gather_stops [OF refl, of ci "drop (Suc i) lines"]
      by (intro proposal_lines_after_passed) (simp add: drop_drop add.commute)
    show ?thesis
      using less.prems True
      by (subst (asm) proposal_lines.simps)
        (auto simp: Let_def at_pos_def case_prod_beta after split: if_splits dest: later)
  qed (use less.prems in \<open>simp add: proposal_lines.simps\<close>)
qed

theorem proposal_else_lost:
  "case parse_proposal_block lines i pos of Inr ((e, p, f), k) \<Rightarrow> f = None | Inl _ \<Rightarrow> True"
  unfolding parse_proposal_block_def
  by (auto split: sum.split prod.split dest: proposal_lines_no_else)

end
