(* ===== verification/Stdlib.thy ===== *)
theory Stdlib
  imports Dsl_Print Compiler
begin

text \<open>
  The text language, its standard library (\<^verbatim>\<open>compiler/stdlib.rs\<close>) and the machine together: the library text
  is parsed by the parser of the model and its functions are run by the interpreter.
\<close>

section \<open>The library as operations\<close>

definition stdlib_ops :: "Op list" where
  "stdlib_ops =
     [OpDef ''abs'' [''x''] [OpLoad ''x'', OpDup, OpPush (Number f64_zero), OpLt, OpIf [] [OpNegate] None, OpReturn],
      OpDef ''max'' [''a'', ''b'']
        [OpLoad ''a'', OpLoad ''b'', OpDup, OpOver, OpLt, OpIf [] [OpSwap, OpPop] (Some [OpPop]), OpReturn],
      OpDef ''min'' [''a'', ''b'']
        [OpLoad ''a'', OpLoad ''b'', OpDup, OpOver, OpGt, OpIf [] [OpSwap, OpPop] (Some [OpPop]), OpReturn],
      OpDef ''swap3'' [''a'', ''b'', ''c''] [OpLoad ''c'', OpLoad ''b'', OpLoad ''a'', OpReturn],
      OpDef ''dup2'' [] [OpOver, OpOver, OpReturn],
      OpDef ''sum_n'' [''n'']
        [OpPush (Number f64_zero), OpPush (Number f64_one),
         OpWhile [OpDup, OpLoad ''n'', OpGt, OpNot]
           [OpDup, OpOver, OpAdd, OpSwap, OpPop, OpSwap, OpPush (Number f64_one), OpAdd],
         OpPop, OpReturn],
      OpDef ''xor'' [''a'', ''b'']
        [OpLoad ''a'', OpLoad ''b'', OpEq, OpNot, OpLoad ''a'', OpLoad ''b'', OpOr, OpAnd, OpReturn]]"

lemma stdlib_lines_text: "list_all (list_all text_char) stdlib_lines"
  by code_simp

lemma stdlib_parses: "dsl_loop stdlib_lines 0 initial_state = Inr (initial_state\<lparr>ds_ops := stdlib_ops\<rparr>)"
  by code_simp

lemma parse_stdlib: "parse_dsl get_stdlib_code = Inr (stdlib_ops, default_config)"
proof -
  have "str_lines get_stdlib_code = stdlib_lines"
    using stdlib_lines_text unfolding get_stdlib_code_def by (intro str_lines_all) (simp add: list_all_iff)
  with stdlib_parses show ?thesis by (simp add: parse_dsl_def initial_state_def)
qed

section \<open>Running a function\<close>

text \<open>The stack after a successful run on a fresh machine with the given stack.\<close>

definition run_stack :: "venv \<Rightarrow> 's StorageBackend \<Rightarrow> nat \<Rightarrow> Op list \<Rightarrow> TypedValue list \<Rightarrow> TypedValue list option" where
  "run_stack E B n ops xs =
     (case execute E B n ops (vm_new\<lparr>vm_stack := \<lparr>stack_vec = xs\<rparr>\<rparr>) of
        Some (Inr _, vm) \<Rightarrow> Some (stack_vec (vm_stack vm))
      | _ \<Rightarrow> None)"

lemmas run_defs = execute_def exec_op_def log_explanation_def dispatch_def simulated_def going_def stopping_def Let_def
  exec_basic_def exec_call_def enter_call_def leave_call_def get_function_def on_memory_def define_function_def
  pop_one_def pop_two_def on_stack_def stack_pop_def stack_pop_two_def vm_push_def stack_push_def mem_load_def
  load_global_def push_call_frame_def pop_call_frame_def in_function_call_def exec_return_def exec_if_def
  binary_def execute_comparison_def stack_top_def set_return_value_def stack_dup_def stack_over_def
  stack_swap_def nth_append butlast_append vm_new_def mem_new_def

text \<open>Loading the library only fills the table of functions of the machine.\<close>

primrec define_all :: "Op list \<Rightarrow> VMMemory \<Rightarrow> VMMemory" where
  "define_all [] m = m"
| "define_all (d # ds) m = define_all ds (case d of OpDef f ps b \<Rightarrow> define_function f ps b m | _ \<Rightarrow> m)"

lemma is_defE: "is_def d \<Longrightarrow> (\<And>f ps b. d = OpDef f ps b \<Longrightarrow> P) \<Longrightarrow> P"
  by (cases d) (simp_all add: is_def_def)

lemma exec_ops_defs:
  assumes "list_all is_def ds" "vm_explain_enabled vm = False"
  shows "exec_ops E B inner n (ds @ ops) lc vm = exec_ops E B inner n ops lc (vm\<lparr>vm_memory := define_all ds (vm_memory vm)\<rparr>)"
  using assms
proof (induction ds arbitrary: vm)
  case (Cons d ds)
  then obtain f ps b where "d = OpDef f ps b" by (auto elim: is_defE)
  with Cons show ?case
    by (simp add: exec_op_def log_explanation_def dispatch_def simulated_def going_def exec_basic_def)
qed simp

lemma define_all_functions: "m\<lparr>m_functions := m_functions (define_all ds m)\<rparr> = define_all ds m"
proof (induction ds arbitrary: m)
  case (Cons d ds)
  show ?case
  proof (cases "is_def d")
    case True
    then obtain f ps b where d: "d = OpDef f ps b" by (auto elim: is_defE)
    show ?thesis using Cons.IH [of "define_function f ps b m"] by (simp add: d define_function_def)
  next
    case False
    then have "define_all (d # ds) m = define_all ds m" by (simp add: is_def_def split: Op.splits)
    then show ?thesis by (simp add: Cons.IH)
  qed
qed simp

lemma stdlib_lookup:
  "fmlookup (m_functions (define_all stdlib_ops m)) ''abs'' =
     Some ([''x''], [OpLoad ''x'', OpDup, OpPush (Number f64_zero), OpLt, OpIf [] [OpNegate] None, OpReturn])"
  "fmlookup (m_functions (define_all stdlib_ops m)) ''max'' =
     Some ([''a'', ''b''],
       [OpLoad ''a'', OpLoad ''b'', OpDup, OpOver, OpLt, OpIf [] [OpSwap, OpPop] (Some [OpPop]), OpReturn])"
  "fmlookup (m_functions (define_all stdlib_ops m)) ''min'' =
     Some ([''a'', ''b''],
       [OpLoad ''a'', OpLoad ''b'', OpDup, OpOver, OpGt, OpIf [] [OpSwap, OpPop] (Some [OpPop]), OpReturn])"
  by (simp_all add: stdlib_ops_def define_function_def)

lemma run_stdlib:
  "run_stack E B (Suc n) (stdlib_ops @ ops) xs =
     (case execute E B (Suc n) ops
        (vm_new\<lparr>vm_stack := \<lparr>stack_vec = xs\<rparr>,
          vm_memory := mem_new\<lparr>m_functions := m_functions (define_all stdlib_ops mem_new)\<rparr>\<rparr>) of
        Some (Inr _, vm) \<Rightarrow> Some (stack_vec (vm_stack vm))
      | _ \<Rightarrow> None)"
proof -
  have "list_all is_def stdlib_ops" by (simp add: stdlib_ops_def is_def_def)
  then show ?thesis
    by (simp add: run_stack_def execute_def exec_ops_defs vm_new_def define_all_functions)
qed

lemma max_runs: "run_stack E B 5 (stdlib_ops @ [OpCall ''max'']) (xs @ [Number a, Number b]) = Some (xs @ [Number a, Number a])"
  by (simp add: eval_nat_numeral run_stdlib stdlib_lookup run_defs)

lemma min_runs: "run_stack E B 5 (stdlib_ops @ [OpCall ''min'']) (xs @ [Number a, Number b]) = Some (xs @ [Number a, Number a])"
  by (simp add: eval_nat_numeral run_stdlib stdlib_lookup run_defs)

lemma abs_runs:
  "run_stack E B 5 (stdlib_ops @ [OpCall ''abs'']) (xs @ [Number a]) =
     (let r = Number (if f64_lt a f64_zero then f64_neg a else a) in Some (xs @ [r, r]))"
  by (simp add: eval_nat_numeral run_stdlib stdlib_lookup run_defs)

section \<open>Properties\<close>


end
