(* ===== verification/F64_Order.thy ===== *)
theory F64_Order
  imports F64
begin

text \<open>
  More of the standard library's numbers: square roots, minimum, and that rounding, division by a positive
  number and multiplication by a positive number keep the order of non-negative numbers.
\<close>

section \<open>Square roots\<close>

text \<open>\<^verbatim>\<open>f64::sqrt\<close>, correctly rounded: the integer root of a scaled operand with a sticky half below its last bit.\<close>

function isqrt :: "nat \<Rightarrow> nat" where
  "isqrt n = (if n = 0 then 0 else let r = 2 * isqrt (n div 4) in if (r + 1) * (r + 1) \<le> n then r + 1 else r)"
  by pat_completeness auto
termination by (relation "measure id") auto

declare isqrt.simps [simp del]

lemma isqrt_root: "isqrt n * isqrt n \<le> n \<and> n < (isqrt n + 1) * (isqrt n + 1)"
proof (induction n rule: isqrt.induct)
  case (1 n)
  show ?case
  proof (cases "n = 0")
    case False
    define r where "r = isqrt (n div 4)"
    have "r * r \<le> n div 4" "n div 4 < (r + 1) * (r + 1)" using "1.IH" [OF False] by (auto simp: r_def)
    then have *: "4 * (r * r) \<le> n" "n < 4 * ((r + 1) * (r + 1))" by linarith+
    have sq: "(2 * r + 1 + 1) * (2 * r + 1 + 1) = 4 * ((r + 1) * (r + 1))"
      "2 * r * (2 * r) = 4 * (r * r)" by (simp_all add: algebra_simps)
    have i: "isqrt n = (if (2 * r + 1) * (2 * r + 1) \<le> n then 2 * r + 1 else 2 * r)"
      using False by (subst isqrt.simps) (simp add: r_def Let_def)
    show ?thesis
    proof (cases "(2 * r + 1) * (2 * r + 1) \<le> n")
      case True
      with i have "isqrt n = 2 * r + 1" by simp
      with True * sq show ?thesis by metis
    next
      case False
      with i have "isqrt n = 2 * r" by simp
      with False * sq show ?thesis by (metis not_le)
    qed
  qed (simp add: isqrt.simps)
qed

fun f64_sqrt :: "f64 \<Rightarrow> f64" where
  "f64_sqrt (F64_Num q) =
     (if q < 0 then F64_NaN
      else let k = 60 - ilog2 q div 2; s = isqrt (nat \<lfloor>q * pow2 (2 * k)\<rfloor>)
           in round_f64 False
                ((of_nat s + (if of_nat (s * s) = q * pow2 (2 * k) then 0 else 1 / 2)) * pow2 (- k)))"
| "f64_sqrt (F64_Inf s) = (if s then F64_NaN else F64_Inf False)"
| "f64_sqrt x = x"

text \<open>\<^verbatim>\<open>f64::min\<close>: the other operand of a not-a-number.\<close>

definition f64_min :: "f64 \<Rightarrow> f64 \<Rightarrow> f64" where
  "f64_min a b = (if a = F64_NaN then b else if b = F64_NaN then a else if f64_lt b a then b else a)"

text \<open>The cast to \<^verbatim>\<open>u64\<close> computed on integers.\<close>

lemma f64_as_u64_code [code]:
  "f64_as_u64 F64_NaN = 0"
  "f64_as_u64 (F64_Inf s) = (if s then 0 else word_of_int 18446744073709551615)"
  "f64_as_u64 (F64_Zero s) = 0"
  "f64_as_u64 (F64_Num q) = (if q \<le> 0 then 0 else word_of_int (min \<lfloor>q\<rfloor> 18446744073709551615))"
proof -
  have *: "(of_nat (2 ^ 64 - 1) :: u64) = word_of_int 18446744073709551615" by simp
  show "f64_as_u64 F64_NaN = 0" "f64_as_u64 (F64_Zero s) = 0" by (simp_all add: f64_as_u64_def)
  show "f64_as_u64 (F64_Inf s) = (if s then 0 else word_of_int 18446744073709551615)"
    using * by (simp add: f64_as_u64_def)
  show "f64_as_u64 (F64_Num q) = (if q \<le> 0 then 0 else word_of_int (min \<lfloor>q\<rfloor> 18446744073709551615))"
  proof (cases "q \<le> 0")
    case False
    then have "0 \<le> \<lfloor>q\<rfloor>" by simp
    then have "int (min (nat \<lfloor>q\<rfloor>) (2 ^ 64 - 1)) = min \<lfloor>q\<rfloor> 18446744073709551615" by (simp add: min_def) linarith
    then have "(of_nat (min (nat \<lfloor>q\<rfloor>) (2 ^ 64 - 1)) :: u64) = word_of_int (min \<lfloor>q\<rfloor> 18446744073709551615)"
      by (metis of_int_of_nat_eq)
    with False show ?thesis by (simp add: f64_as_u64_def del: of_nat_min)
  qed (simp add: f64_as_u64_def)
qed

section \<open>Order\<close>

lemma rne_mono: "a \<le> b \<Longrightarrow> rne a \<le> rne b"
proof -
  assume ab: "a \<le> b"
  show ?thesis
  proof (cases "\<lfloor>a\<rfloor> = \<lfloor>b\<rfloor>")
    case True
    with ab show ?thesis by (auto simp: rne_def Let_def)
  next
    case False
    with ab have "\<lfloor>a\<rfloor> + 1 \<le> \<lfloor>b\<rfloor>" using floor_mono [OF ab] by simp
    then have "a \<le> of_int (\<lfloor>a\<rfloor> + 1)" "of_int (\<lfloor>a\<rfloor> + 1) \<le> b" by linarith+
    then show ?thesis using rne_mono_int_ge rne_mono_int_le by (meson order_trans)
  qed
qed

definition rounded :: "rat \<Rightarrow> rat" where
  "rounded q = of_int (rne (q / pow2 (ulp_exp q))) * pow2 (ulp_exp q)"

lemma rounded_mono:
  assumes "0 < a" "a \<le> b"
  shows "rounded a \<le> rounded b"
proof (cases "ulp_exp a = ulp_exp b")
  case True
  with assms show ?thesis
    by (auto simp: rounded_def intro!: mult_right_mono rne_mono divide_right_mono)
next
  case False
  have b: "0 < b" using assms by simp
  have "pow2 (ilog2 a) < pow2 (ilog2 b + 1)" using ilog2_bounds [OF assms(1)] ilog2_bounds [OF b] assms(2) by linarith
  with False assms b have u: "ulp_exp a + 53 \<le> ilog2 b" "ulp_exp b = ilog2 b - 52" by (auto simp: ulp_exp_def)
  have "\<bar>rne (a / pow2 (ulp_exp a))\<bar> \<le> 2 ^ 53" using assms(1) by (intro rne_ulp_bound) simp
  then have "rne (a / pow2 (ulp_exp a)) \<le> 2 ^ 53" by linarith
  then have "(of_int (rne (a / pow2 (ulp_exp a))) :: rat) \<le> of_int (2 ^ 53)" by (simp only: of_int_le_iff)
  then have "(of_int (rne (a / pow2 (ulp_exp a))) :: rat) \<le> pow2 53" by (simp add: pow2_def)
  then have "rounded a \<le> pow2 53 * pow2 (ulp_exp a)" unfolding rounded_def by (intro mult_right_mono) auto
  also have "\<dots> = pow2 (ulp_exp a + 53)" by (simp add: pow2_add)
  also have "\<dots> \<le> pow2 (ilog2 b)" using u(1) by simp
  also have "pow2 (ilog2 b) \<le> rounded b"
  proof -
    have "pow2 52 * pow2 (ulp_exp b) \<le> b"
      using ilog2_bounds [OF b] unfolding pow2_add [symmetric] by (simp add: u(2))
    then have "pow2 52 \<le> b / pow2 (ulp_exp b)" by (simp add: field_simps)
    then have "of_int (2 ^ 52) \<le> b / pow2 (ulp_exp b)" by (simp add: pow2_def)
    then have "2 ^ 52 \<le> rne (b / pow2 (ulp_exp b))" by (rule rne_mono_int_le)
    then have "(of_int (2 ^ 52) :: rat) \<le> of_int (rne (b / pow2 (ulp_exp b)))" by (simp only: of_int_le_iff)
    then have "pow2 52 \<le> of_int (rne (b / pow2 (ulp_exp b)))" by (simp add: pow2_def)
    then have "pow2 52 * pow2 (ulp_exp b) \<le> rounded b" unfolding rounded_def by (intro mult_right_mono) auto
    moreover have "pow2 52 * pow2 (ulp_exp b) = pow2 (ilog2 b)" unfolding pow2_add [symmetric] by (simp add: u(2))
    ultimately show ?thesis by simp
  qed
  finally show ?thesis .
qed

lemma rounded_nonneg: "0 < q \<Longrightarrow> 0 \<le> rounded q"
  unfolding rounded_def by (intro mult_nonneg_nonneg) (auto intro!: rne_mono_int_le [of 0, simplified])

lemma round_f64_rounded:
  "0 < q \<Longrightarrow> round_f64 s q =
     (if rounded q = 0 then F64_Zero False else if pow2 1024 \<le> rounded q then F64_Inf False else F64_Num (rounded q))"
  using rounded_nonneg [of q] by (simp add: round_f64_def rounded_def Let_def)

text \<open>Numbers that are not negative: zero of either sign, positive numbers and positive infinity.\<close>

fun f64_nonneg :: "f64 \<Rightarrow> bool" where
  "f64_nonneg (F64_Num q) = (0 < q)"
| "f64_nonneg (F64_Zero _) = True"
| "f64_nonneg (F64_Inf s) = (\<not> s)"
| "f64_nonneg F64_NaN = False"

lemma round_f64_nonneg: "0 \<le> q \<Longrightarrow> f64_nonneg (round_f64 s q)"
proof (cases "q = 0")
  case False
  assume "0 \<le> q"
  with False have "0 < q" by simp
  then show ?thesis using rounded_nonneg [of q] by (simp add: round_f64_rounded)
qed (simp add: round_f64_def)

lemma round_f64_mono:
  assumes "0 \<le> a" "a \<le> b"
  shows "f64_le (round_f64 s a) (round_f64 t b)"
proof (cases "a = 0")
  case True
  have "f64_le (F64_Zero s) x" if "f64_nonneg x" for x using that by (cases x) (auto simp: f64_le_def)
  with True assms round_f64_nonneg [of b] show ?thesis by (simp add: round_f64_def)
next
  case False
  with assms have ab: "0 < a" "0 < b" by auto
  have "rounded a \<le> rounded b" using ab(1) assms(2) by (rule rounded_mono)
  then show ?thesis using rounded_nonneg [OF ab(1)] rounded_nonneg [OF ab(2)]
    by (auto simp: round_f64_rounded [OF ab(1)] round_f64_rounded [OF ab(2)] f64_le_def)
qed

text \<open>An operation that rounds an exact monotone function of the value, and keeps positive infinity, keeps the order.\<close>

lemma f64_nonneg_cases:
  assumes "f64_nonneg x"
  obtains "x = F64_Inf False" | "f64_is_finite x" "0 \<le> f64_val x"
  using assms by (cases x) auto

lemma f64_le_finite: "f64_is_finite a \<Longrightarrow> f64_is_finite b \<Longrightarrow> f64_le a b \<longleftrightarrow> f64_val a \<le> f64_val b"
  by (cases a; cases b) (auto simp: f64_le_def)

lemma f64_le_Inf: "f64_nonneg a \<Longrightarrow> f64_le a (F64_Inf False)"
  by (cases a) (auto simp: f64_le_def)

lemma f64_Inf_le: "f64_nonneg a \<Longrightarrow> f64_le (F64_Inf False) a \<Longrightarrow> a = F64_Inf False"
  by (cases a) (auto simp: f64_le_def)

lemma rounding_mono:
  assumes op: "\<And>x. f64_is_finite x \<Longrightarrow> f64_nonneg x \<Longrightarrow> \<exists>s. f x = round_f64 s (g (f64_val x))"
    and inf: "f (F64_Inf False) = F64_Inf False"
    and g: "\<And>x. 0 \<le> x \<Longrightarrow> 0 \<le> g x" "\<And>x y. 0 \<le> x \<Longrightarrow> x \<le> y \<Longrightarrow> g x \<le> g y"
    and ab: "f64_le a b" "f64_nonneg a" "f64_nonneg b"
  shows "f64_le (f a) (f b) \<and> f64_nonneg (f a)"
proof -
  have nn: "f64_nonneg (f x)" if x: "f64_nonneg x" for x
    using x
  proof (cases rule: f64_nonneg_cases)
    case 2
    then obtain s where "f x = round_f64 s (g (f64_val x))" using op x by blast
    then show ?thesis using round_f64_nonneg g(1) 2 by simp
  qed (simp add: inf)
  have "f64_le (f a) (f b)"
    using ab(3)
  proof (cases rule: f64_nonneg_cases)
    case 1
    then show ?thesis using f64_le_Inf nn ab(2) by (simp add: inf)
  next
    case b: 2
    then have a: "f64_is_finite a" "0 \<le> f64_val a"
      using ab f64_Inf_le [of b] f64_nonneg_cases [OF ab(2)] by (auto elim!: f64_nonneg_cases)
    obtain s t where "f a = round_f64 s (g (f64_val a))" "f b = round_f64 t (g (f64_val b))" using op a b ab by metis
    moreover have "g (f64_val a) \<le> g (f64_val b)" using ab(1) a b g(2) f64_le_finite by blast
    ultimately show ?thesis using round_f64_mono g(1) a(2) by simp
  qed
  with nn ab(2) show ?thesis by blast
qed

lemma f64_div_mono:
  assumes "f64_le a b" "f64_nonneg a" "f64_nonneg b" "0 < r"
  shows "f64_le (f64_div a (F64_Num r)) (f64_div b (F64_Num r)) \<and> f64_nonneg (f64_div a (F64_Num r))"
proof (rule rounding_mono [where f = "\<lambda>x. f64_div x (F64_Num r)" and g = "\<lambda>x. x / r"])
  show "\<exists>s. f64_div x (F64_Num r) = round_f64 s (f64_val x / r)" if "f64_is_finite x" "f64_nonneg x" for x
    using that assms(4) by (cases x) (auto simp: round_f64_def [of _ 0])
qed (use assms in \<open>auto intro: divide_right_mono\<close>)

lemma f64_mul_mono:
  assumes "f64_le a b" "f64_nonneg a" "f64_nonneg b" "0 < r"
  shows "f64_le (f64_mul a (F64_Num r)) (f64_mul b (F64_Num r)) \<and> f64_nonneg (f64_mul a (F64_Num r))"
proof (rule rounding_mono [where f = "\<lambda>x. f64_mul x (F64_Num r)" and g = "\<lambda>x. x * r"])
  show "\<exists>s. f64_mul x (F64_Num r) = round_f64 s (f64_val x * r)" if "f64_is_finite x" "f64_nonneg x" for x
    using that assms(4) by (cases x) (auto simp: round_f64_def [of _ 0])
qed (use assms in \<open>auto intro: mult_right_mono\<close>)

lemma f64_le_trans: "f64_le a b \<Longrightarrow> f64_le b c \<Longrightarrow> f64_le a c"
  by (cases a; cases b; cases c) (auto simp: f64_le_def)

text \<open>Rounding a concrete number of the given binary exponent.\<close>

lemma rne_eqI: "of_int m - 1 / 2 < q \<Longrightarrow> q < of_int m + 1 / 2 \<Longrightarrow> rne q = m"
  using rne_near [of q] by linarith

lemma round_f64_at:
  assumes "pow2 e \<le> q" "q < pow2 (e + 1)" "- 1022 \<le> e" "e < 1023"
    "of_int m - 1 / 2 < q / pow2 (e - 52)" "q / pow2 (e - 52) < of_int m + 1 / 2" "0 < m" "m < 2 ^ 53"
  shows "round_f64 s q = F64_Num (of_int m * pow2 (e - 52))"
proof -
  have q: "0 < q" using assms(1) pow2_pos(1) [of e] by linarith
  have u: "ulp_exp q = e - 52" using ilog2_unique [OF assms(1,2)] q assms(3) by (simp add: ulp_exp_def)
  then have r: "rounded q = of_int m * pow2 (e - 52)" using rne_eqI [OF assms(5,6)] by (simp add: rounded_def)
  have "(of_int m :: rat) < of_int (2 ^ 53)" using assms(8) by (simp only: of_int_less_iff)
  then have "(of_int m :: rat) < pow2 53" by (simp add: pow2_def)
  then have "rounded q < pow2 53 * pow2 (e - 52)" unfolding r by (intro mult_strict_right_mono) auto
  also have "\<dots> = pow2 (e + 1)" unfolding pow2_add [symmetric] by (simp add: add.commute)
  also have "\<dots> \<le> pow2 1024" using assms(4) by simp
  finally have "\<not> pow2 1024 \<le> rounded q" by simp
  moreover have "rounded q \<noteq> 0" using assms(7) by (simp add: r)
  ultimately show ?thesis using r by (simp add: round_f64_rounded [OF q])
qed

end
