(* ===== verification/Lifecycle.thy ===== *)
theory Lifecycle
  imports Dsl Machine In_Memory F64_Order
begin

text \<open>
  The life of a proposal (\<^verbatim>\<open>governance/proposal_lifecycle.rs\<close>, \<^verbatim>\<open>governance/proposal.rs\<close>): its states, the
  tally of the votes, quorum and threshold, and the execution of the attached logic on a fork of the machine.
  An operation takes the clock as the sequence \<open>c\<close> of the readings of the call, and \<open>life_step\<close> is the
  relation between the states before and after any operation.

  The source calls methods that no file of the repository defines: \<^verbatim>\<open>get_f64\<close> and \<^verbatim>\<open>get_string\<close> of the
  machine, \<^verbatim>\<open>id_string\<close> of an identity, \<^verbatim>\<open>to_string\<close> of a vote choice and \<^verbatim>\<open>check_passed\<close>. They are parameters
  (\<open>life_env\<close>), together with the display texts of errors, the lower-case form of texts beyond ASCII and the range
  of \<^verbatim>\<open>chrono\<close>'s dates. The machine is borrowed while \<^verbatim>\<open>tally_votes\<close> calls \<^verbatim>\<open>get_f64\<close>, so these only read it.
\<close>

section \<open>Data\<close>

type_synonym u8 = "8 word"
type_synonym datetime = int
type_synonym readings = "nat \<Rightarrow> datetime"

datatype ProposalState = PS_Draft | PS_OpenForFeedback | PS_Voting | PS_Executed | PS_Rejected | PS_Expired

datatype ExecutionStatus = ES_Success | ES_Failure string

datatype VoteChoice = VC_Yes | VC_No | VC_Abstain

datatype VoteWeighting =
  VW_Equal | VW_Reputation | VW_Stake | VW_Tenure | VW_Quadratic | VW_Delegated | VW_Custom string

datatype QuorumMethod = QM_Percentage u8 | QM_FixedNumber u64 | QM_None

record ProposalLifecycle =
  pl_id :: string
  pl_creator :: Identity
  pl_created_at :: datetime
  pl_state :: ProposalState
  pl_title :: string
  pl_quorum_method :: QuorumMethod
  pl_approval_threshold :: u8
  pl_expires_at :: "datetime option"
  pl_discussion_duration :: "duration option"
  pl_vote_weighting :: VoteWeighting
  pl_required_participants :: "u64 option"
  pl_current_version :: u64
  pl_auto_execute :: bool
  pl_allow_early_execution :: bool
  pl_min_voting_period :: "duration option"
  pl_history :: "(datetime \<times> ProposalState) list"
  pl_execution_status :: "ExecutionStatus option"

text \<open>The boxed errors of the source: a message, or the error of a component.\<close>

datatype LifecycleError = LE_Message string | LE_Storage StorageError | LE_VM VMError

record 's life_env =
  le_get_f64 :: "'s VM \<Rightarrow> string \<Rightarrow> AuthContext option \<Rightarrow> LifecycleError + f64 option"
  le_get_string :: "'s VM \<Rightarrow> string \<Rightarrow> AuthContext option \<Rightarrow> LifecycleError + string option"
  le_check_passed :: "ProposalLifecycle \<Rightarrow> 's VM \<Rightarrow> AuthContext option \<Rightarrow> (string, u64) fmap \<Rightarrow> LifecycleError + bool"
  le_id_string :: "Identity \<Rightarrow> string"
  le_choice_text :: "VoteChoice \<Rightarrow> string"
  le_lowercase :: "string \<Rightarrow> string"
  le_min_date :: datetime
  le_max_date :: datetime
  dsp_vm_error :: "VMError \<Rightarrow> string"
  dsp_storage_error :: "StorageError \<Rightarrow> string"
  dsp_compiler_error :: "CompilerError \<Rightarrow> string"
  dsp_utf8_error :: "bytes \<Rightarrow> string"

section \<open>Reading settings\<close>

definition to_lowercase :: "'s life_env \<Rightarrow> string \<Rightarrow> string" where
  "to_lowercase V s = (if list_all (\<lambda>c. \<not> digit7 c) s then map ascii_lower s else le_lowercase V s)"

definition vote_choice_from_str :: "'s life_env \<Rightarrow> string \<Rightarrow> VoteChoice option" where
  "vote_choice_from_str V s =
     (let t = to_lowercase V s in
      if t = ''yes'' then Some VC_Yes
      else if t = ''no'' then Some VC_No
      else if t = ''abstain'' then Some VC_Abstain
      else None)"

definition vote_weighting_from_str :: "'s life_env \<Rightarrow> string \<Rightarrow> VoteWeighting option" where
  "vote_weighting_from_str V s =
     (let t = to_lowercase V s in
      if t = ''equal'' then Some VW_Equal
      else if t = ''reputation'' then Some VW_Reputation
      else if t = ''stake'' then Some VW_Stake
      else if t = ''tenure'' then Some VW_Tenure
      else if t = ''quadratic'' then Some VW_Quadratic
      else if t = ''delegated'' then Some VW_Delegated
      else if starts_with ''custom:'' t then Some (VW_Custom (drop 7 t))
      else None)"

definition parse_u8 :: "string \<Rightarrow> u8 option" where
  "parse_u8 s = (case parse_u64 s of Some w \<Rightarrow> if unat w < 256 then Some (of_nat (unat w)) else None | None \<Rightarrow> None)"

definition quorum_method_from_str :: "'s life_env \<Rightarrow> string \<Rightarrow> QuorumMethod option" where
  "quorum_method_from_str V s =
     (let t = to_lowercase V s in
      if starts_with ''percentage:'' t then
        (case parse_u8 (drop 11 t) of
           None \<Rightarrow> None
         | Some p \<Rightarrow> if p > 100 then None else Some (QM_Percentage p))
      else if starts_with ''fixed:'' t then map_option QM_FixedNumber (parse_u64 (drop 6 t))
      else if t = ''none'' then Some QM_None
      else None)"

section \<open>Creation\<close>

definition lifecycle_new ::
  "datetime \<Rightarrow> string \<Rightarrow> Identity \<Rightarrow> string \<Rightarrow> QuorumMethod \<Rightarrow> u8 \<Rightarrow> VoteWeighting \<Rightarrow> duration option \<Rightarrow> u64 option \<Rightarrow>
     ProposalLifecycle" where
  "lifecycle_new t i cr title q th w d rp =
     \<lparr>pl_id = i, pl_creator = cr, pl_created_at = t, pl_state = PS_Draft, pl_title = title, pl_quorum_method = q,
      pl_approval_threshold = th, pl_expires_at = None, pl_discussion_duration = d, pl_vote_weighting = w,
      pl_required_participants = rp, pl_current_version = 1, pl_auto_execute = False,
      pl_allow_early_execution = False, pl_min_voting_period = None, pl_history = [(t, PS_Draft)],
      pl_execution_status = None\<rparr>"

definition new_backwards_compatible ::
  "datetime \<Rightarrow> string \<Rightarrow> Identity \<Rightarrow> string \<Rightarrow> u64 \<Rightarrow> u64 \<Rightarrow> duration option \<Rightarrow> u64 option \<Rightarrow> ProposalLifecycle" where
  "new_backwards_compatible t i cr title quorum threshold d rp =
     (let quorum_method =
            (if quorum = 0 then QM_None
             else if quorum \<le> 100 then QM_Percentage (ucast quorum)
             else QM_FixedNumber quorum);
          approval_threshold = min (ucast threshold) 100
      in lifecycle_new t i cr title quorum_method approval_threshold VW_Equal d rp)"

section \<open>Transitions\<close>

definition add_duration :: "'s life_env \<Rightarrow> datetime \<Rightarrow> duration \<Rightarrow> 'e fault + datetime" where
  "add_duration V t d = (if le_min_date V \<le> t + d \<and> t + d \<le> le_max_date V then Inr (t + d) else Inl Panic)"

definition enter :: "datetime \<Rightarrow> ProposalState \<Rightarrow> ProposalLifecycle \<Rightarrow> ProposalLifecycle" where
  "enter t s p = p\<lparr>pl_state := s, pl_history := pl_history p @ [(t, s)]\<rparr>"

definition open_for_feedback :: "'s life_env \<Rightarrow> readings \<Rightarrow> ProposalLifecycle \<Rightarrow> unit fault + ProposalLifecycle" where
  "open_for_feedback V c p =
     (if pl_state p = PS_Draft then
        (case pl_discussion_duration p of
           None \<Rightarrow> Inr (enter (c 0) PS_OpenForFeedback p)
         | Some d \<Rightarrow> bindR (add_duration V (c 1) d) (\<lambda>_. Inr (enter (c 0) PS_OpenForFeedback p)))
      else Inr p)"

definition start_voting :: "'s life_env \<Rightarrow> readings \<Rightarrow> duration \<Rightarrow> ProposalLifecycle \<Rightarrow> unit fault + ProposalLifecycle" where
  "start_voting V c d p =
     (if pl_state p = PS_OpenForFeedback then
        bindR (add_duration V (c 0) d) (\<lambda>e.
        bindR (case pl_min_voting_period p of
                 Some m \<Rightarrow> if d < m then add_duration V (c 1) m else Inr e
               | None \<Rightarrow> Inr e) (\<lambda>e'.
          Inr ((enter (c 2) PS_Voting p)\<lparr>pl_expires_at := Some e'\<rparr>)))
      else Inr p)"

definition life_execute :: "readings \<Rightarrow> ProposalLifecycle \<Rightarrow> ProposalLifecycle" where
  "life_execute c p =
     (if pl_state p = PS_Voting then
        if \<not> pl_allow_early_execution p \<and> (case pl_expires_at p of Some e \<Rightarrow> c 0 < e | None \<Rightarrow> False) then p
        else enter (c 1) PS_Executed p
      else p)"

definition reject :: "readings \<Rightarrow> ProposalLifecycle \<Rightarrow> ProposalLifecycle" where
  "reject c p = (if pl_state p = PS_Voting then enter (c 0) PS_Rejected p else p)"

definition past_deadline :: "datetime \<Rightarrow> ProposalLifecycle \<Rightarrow> bool" where
  "past_deadline t p = (case pl_expires_at p of Some e \<Rightarrow> t > e | None \<Rightarrow> False)"

definition expire :: "readings \<Rightarrow> ProposalLifecycle \<Rightarrow> ProposalLifecycle" where
  "expire c p = (if pl_state p = PS_Voting \<and> past_deadline (c 0) p then enter (c 1) PS_Expired p else p)"

definition check_expiry :: "readings \<Rightarrow> ProposalLifecycle \<Rightarrow> bool \<times> ProposalLifecycle" where
  "check_expiry c p =
     (if pl_state p = PS_Voting \<and> past_deadline (c 0) p then (True, enter (c 1) PS_Expired p) else (False, p))"

definition update_version :: "readings \<Rightarrow> ProposalLifecycle \<Rightarrow> ProposalLifecycle" where
  "update_version c p =
     p\<lparr>pl_current_version := pl_current_version p + 1, pl_history := pl_history p @ [(c 0, pl_state p)]\<rparr>"

section \<open>Votes\<close>

definition or_default :: "'e + 'a option \<Rightarrow> 'a \<Rightarrow> ('a \<Rightarrow> 'b) \<Rightarrow> 'e + 'b" where
  "or_default r d f = bindR r (\<lambda>v. Inr (f (case v of Some x \<Rightarrow> x | None \<Rightarrow> d)))"

definition tenure_weight :: "datetime \<Rightarrow> f64 \<Rightarrow> f64" where
  "tenure_weight t join_timestamp =
     (let now = f64_of_int (t div 1000000000);
          years = f64_div (f64_sub now join_timestamp) (f64_of_int 31536000)
      in f64_add f64_one (f64_mul (f64_min years (f64_of_int 10)) (round_f64 False (1 / 10))))"

definition calculate_vote_weight ::
  "'s life_env \<Rightarrow> datetime \<Rightarrow> ProposalLifecycle \<Rightarrow> 's VM \<Rightarrow> Identity \<Rightarrow> VoteChoice \<Rightarrow> AuthContext option \<Rightarrow>
     LifecycleError + f64" where
  "calculate_vote_weight V t p vm voter choice auth =
     (let base_value = (case choice of VC_Abstain \<Rightarrow> f64_zero | _ \<Rightarrow> f64_one);
          key = (\<lambda>k. ''identity:'' @ le_id_string V voter @ k)
      in case pl_vote_weighting p of
           VW_Equal \<Rightarrow> Inr base_value
         | VW_Reputation \<Rightarrow> or_default (le_get_f64 V vm (key ''/reputation'') auth) f64_one (f64_mul base_value)
         | VW_Stake \<Rightarrow> or_default (le_get_f64 V vm (key ''/stake'') auth) f64_one (f64_mul base_value)
         | VW_Tenure \<Rightarrow>
             bindR (le_get_f64 V vm (key ''/join_date'') auth) (\<lambda>j.
               case j of
                 Some join_timestamp \<Rightarrow> Inr (f64_mul base_value (tenure_weight t join_timestamp))
               | None \<Rightarrow> Inr base_value)
         | VW_Quadratic \<Rightarrow>
             or_default (le_get_f64 V vm (''proposal:'' @ pl_id p @ ''/vote_credits/'' @ le_id_string V voter) auth) f64_one
               (\<lambda>credits. f64_mul base_value (f64_sqrt credits))
         | VW_Delegated \<Rightarrow>
             or_default (le_get_f64 V vm (key ''/delegated_votes'') auth) f64_zero
               (\<lambda>delegated_count. f64_mul base_value (f64_add f64_one delegated_count))
         | VW_Custom algo \<Rightarrow>
             bindR (le_get_string V vm (''weight_algo:'' @ algo) auth) (\<lambda>_. Inr base_value))"

text \<open>
  The votes of a proposal: the choice stored under each key below its prefix that has four parts and can be
  read. \<open>ts\<close> gives the reading of the clock taken at a key.
\<close>

definition votes_prefix :: "ProposalLifecycle \<Rightarrow> string" where
  "votes_prefix p = ''proposals/'' @ pl_id p @ ''/votes/''"

definition stored_choice ::
  "'s life_env \<Rightarrow> 's StorageBackend \<Rightarrow> ProposalLifecycle \<Rightarrow> AuthContext option \<Rightarrow> 's \<Rightarrow> string \<Rightarrow> VoteChoice option" where
  "stored_choice V B p auth s key =
     (if \<not> starts_with (votes_prefix p) key \<or> length (split_char (CHR ''/'') key) \<noteq> 4 then None
      else
        (case sb_get B auth ''governance'' key s of
           Inr vote_bytes \<Rightarrow> vote_choice_from_str V (if valid_utf8 vote_bytes then vote_bytes else '''')
         | Inl _ \<Rightarrow> None))"

fun tally_keys ::
  "'s life_env \<Rightarrow> 's StorageBackend \<Rightarrow> (string \<Rightarrow> datetime) \<Rightarrow> ProposalLifecycle \<Rightarrow> 's VM \<Rightarrow> AuthContext option \<Rightarrow> 's \<Rightarrow>
     string list \<Rightarrow> (string, u64) fmap \<Rightarrow> LifecycleError + (string, u64) fmap" where
  "tally_keys V B ts p vm auth s [] weighted_votes = Inr weighted_votes"
| "tally_keys V B ts p vm auth s (key # keys) weighted_votes =
     (case stored_choice V B p auth s key of
        Some vote_choice \<Rightarrow>
          bindR (calculate_vote_weight V (ts key) p vm (pl_creator p) vote_choice auth) (\<lambda>weight.
            tally_keys V B ts p vm auth s keys
              (fmupd (le_choice_text V vote_choice) (f64_as_u64 (f64_round weight)) weighted_votes))
      | None \<Rightarrow> tally_keys V B ts p vm auth s keys weighted_votes)"

definition tally_votes ::
  "'s life_env \<Rightarrow> 's StorageBackend \<Rightarrow> (string \<Rightarrow> datetime) \<Rightarrow> ProposalLifecycle \<Rightarrow> 's VM \<Rightarrow>
     LifecycleError + (string, u64) fmap" where
  "tally_votes V B ts p vm =
     (if pl_state p \<noteq> PS_Voting then Inl (LE_Message (''Proposal '' @ pl_id p @ '' is not in Voting state''))
      else
        (case ex_storage_backend (vm_executor vm) of
           None \<Rightarrow> Inl (LE_Message ''Storage backend not available'')
         | Some s \<Rightarrow>
             let auth = ex_auth_context (vm_executor vm) in
             bindR (map_err LE_Storage (sb_list_keys B auth ''governance'' (Some (votes_prefix p)) s)) (\<lambda>vote_keys.
               tally_keys V B ts p vm auth s vote_keys fmempty)))"

definition is_quorum_reached :: "nat \<Rightarrow> nat \<Rightarrow> ProposalLifecycle \<Rightarrow> LifecycleError + bool" where
  "is_quorum_reached vote_count total_eligible p =
     (case pl_quorum_method p of
        QM_None \<Rightarrow> Inr True
      | QM_Percentage percentage \<Rightarrow>
          if total_eligible = 0 then Inr False
          else Inr (f64_le (f64_of_nat (unat percentage))
                 (f64_mul (f64_div (f64_of_nat vote_count) (f64_of_nat total_eligible)) (f64_of_int 100)))
      | QM_FixedNumber required_count \<Rightarrow> Inr (of_nat vote_count \<ge> required_count))"

definition is_threshold_met :: "f64 \<Rightarrow> f64 \<Rightarrow> ProposalLifecycle \<Rightarrow> LifecycleError + bool" where
  "is_threshold_met yes_weight total_weight p =
     (if f64_le total_weight f64_zero then Inr False
      else Inr (f64_le (f64_of_nat (unat (pl_approval_threshold p)))
             (f64_mul (f64_div yes_weight total_weight) (f64_of_int 100))))"

section \<open>Execution of the logic\<close>

definition load_logic :: "'s life_env \<Rightarrow> 's StorageBackend \<Rightarrow> ProposalLifecycle \<Rightarrow> 's VM \<Rightarrow> LifecycleError + string option" where
  "load_logic V B p fork_vm =
     (case ex_storage_backend (vm_executor fork_vm) of
        None \<Rightarrow> Inl (LE_Message ''Storage backend not available'')
      | Some s \<Rightarrow>
          (case sb_get B (ex_auth_context (vm_executor fork_vm)) ''governance'' (''proposals/'' @ pl_id p @ ''/attachments/logic'') s of
             Inr b \<Rightarrow>
               if \<not> valid_utf8 b then Inl (LE_Message (''Logic attachment is not valid UTF-8: '' @ dsp_utf8_error V b))
               else Inr (if trim b = [] then None else Some b)
           | Inl (SE_NotFound _) \<Rightarrow> Inr None
           | Inl e \<Rightarrow> Inl (LE_Message (''Failed to load logic attachment: '' @ dsp_storage_error V e))))"

text \<open>Ending the transaction on the machine the fork was taken from, with the status to report.\<close>

definition conclude :: "(unit, 's) vm_result \<Rightarrow> ExecutionStatus \<Rightarrow> (LifecycleError fault, ExecutionStatus, 's VM) outcome" where
  "conclude r st = (case r of
     (Inr _, vm) \<Rightarrow> (Inr st, vm)
   | (Inl (Err e), vm) \<Rightarrow> (Inl (Err (LE_VM e)), vm)
   | (Inl Panic, vm) \<Rightarrow> (Inl Panic, vm))"

definition execute_proposal_logic ::
  "'s life_env \<Rightarrow> venv \<Rightarrow> 's StorageBackend \<Rightarrow> nat \<Rightarrow> ProposalLifecycle \<Rightarrow> 's VM \<Rightarrow>
     (LifecycleError fault, ExecutionStatus, 's VM) outcome option" where
  "execute_proposal_logic V E B n p vm =
     (case vm_fork E B vm of
        Inl e \<Rightarrow> Some (Inl (Err (LE_VM e)), vm)
      | Inr fork_vm \<Rightarrow>
          (case load_logic V B p fork_vm of
             Inl e \<Rightarrow> Some (Inl (Err e), vm)
           | Inr None \<Rightarrow> Some (conclude (vm_commit_fork_transaction E B vm) ES_Success)
           | Inr (Some dsl) \<Rightarrow>
               (case parse_dsl dsl of
                  Inl (Err e) \<Rightarrow> Some (Inl (Err (LE_Message (''Failed to parse logic DSL: '' @ dsp_compiler_error V e))), vm)
                | Inl Panic \<Rightarrow> Some (Inl Panic, vm)
                | Inr (ops, _) \<Rightarrow>
                    (case execute E B n ops fork_vm of
                       None \<Rightarrow> None
                     | Some (Inr _, _) \<Rightarrow> Some (conclude (vm_commit_fork_transaction E B vm) ES_Success)
                     | Some (Inl (Err e), _) \<Rightarrow>
                         Some (conclude (vm_rollback_fork_transaction E B vm)
                           (ES_Failure (''Runtime error during fork execution: '' @ dsp_vm_error V e)))
                     | Some (Inl Panic, _) \<Rightarrow> Some (Inl Panic, vm)))))"

type_synonym ('a, 's) life_result = "(LifecycleError fault, 'a, ProposalLifecycle \<times> 's VM) outcome"

text \<open>The tally and its verdict, which the three transitions start with.\<close>

definition verdict ::
  "'s life_env \<Rightarrow> 's StorageBackend \<Rightarrow> (string \<Rightarrow> datetime) \<Rightarrow> ProposalLifecycle \<Rightarrow> 's VM \<Rightarrow> AuthContext option \<Rightarrow>
     LifecycleError + bool" where
  "verdict V B ts p vm auth = bindR (tally_votes V B ts p vm) (\<lambda>votes. le_check_passed V p vm auth votes)"

definition transition_to_executed ::
  "'s life_env \<Rightarrow> venv \<Rightarrow> 's StorageBackend \<Rightarrow> nat \<Rightarrow> (string \<Rightarrow> datetime) \<Rightarrow> readings \<Rightarrow> AuthContext option \<Rightarrow>
     ProposalLifecycle \<Rightarrow> 's VM \<Rightarrow> (bool, 's) life_result option" where
  "transition_to_executed V E B n ts c auth p vm =
     (if pl_state p = PS_Voting then
        (case verdict V B ts p vm auth of
           Inl e \<Rightarrow> Some (Inl (Err e), (p, vm))
         | Inr passed \<Rightarrow>
             if passed then
               let p' = enter (c 0) PS_Executed p in
               (case execute_proposal_logic V E B n p' vm of
                  None \<Rightarrow> None
                | Some (Inl Panic, vm') \<Rightarrow> Some (Inl Panic, (p', vm'))
                | Some (_, vm') \<Rightarrow> Some (Inr True, (p', vm')))
             else Some (Inr False, (p, vm)))
      else Some (Inr False, (p, vm)))"

definition transition_to_rejected ::
  "'s life_env \<Rightarrow> 's StorageBackend \<Rightarrow> (string \<Rightarrow> datetime) \<Rightarrow> readings \<Rightarrow> AuthContext option \<Rightarrow>
     ProposalLifecycle \<Rightarrow> 's VM \<Rightarrow> (bool, 's) life_result" where
  "transition_to_rejected V B ts c auth p vm =
     (if pl_state p = PS_Voting then
        (case verdict V B ts p vm auth of
           Inl e \<Rightarrow> (Inl (Err e), (p, vm))
         | Inr passed \<Rightarrow>
             if \<not> passed then (Inr True, (enter (c 0) PS_Rejected p, vm)) else (Inr False, (p, vm)))
      else (Inr False, (p, vm)))"

definition transition_to_expired ::
  "'s life_env \<Rightarrow> 's StorageBackend \<Rightarrow> (string \<Rightarrow> datetime) \<Rightarrow> readings \<Rightarrow> AuthContext option \<Rightarrow>
     ProposalLifecycle \<Rightarrow> 's VM \<Rightarrow> (bool, 's) life_result" where
  "transition_to_expired V B ts c auth p vm =
     (if pl_state p = PS_Voting \<and> past_deadline (c 0) p then
        (case verdict V B ts p vm auth of
           Inl e \<Rightarrow> (Inl (Err e), (p, vm))
         | Inr _ \<Rightarrow> (Inr True, (enter (c 1) PS_Expired p, vm)))
      else (Inr False, (p, vm)))"

section \<open>The stored proposal\<close>

text \<open>\<^verbatim>\<open>governance/proposal.rs\<close>: the record the command line keeps; its marks have no guards.\<close>

datatype ProposalStatus =
  PT_Draft | PT_Deliberation | PT_Active | PT_Voting | PT_Approved | PT_Executed | PT_Rejected | PT_Expired

record Proposal =
  pp_id :: string
  pp_creator :: string
  pp_status :: ProposalStatus
  pp_created_at :: datetime
  pp_expires_at :: "datetime option"
  pp_logic_path :: "string option"
  pp_discussion_path :: "string option"
  pp_votes_path :: "string option"
  pp_attachments :: "string list"
  pp_execution_result :: "string option"
  pp_deliberation_started_at :: "datetime option"
  pp_min_deliberation_hours :: "int option"

definition proposal_new ::
  "datetime \<Rightarrow> string \<Rightarrow> string \<Rightarrow> string option \<Rightarrow> datetime option \<Rightarrow> string option \<Rightarrow> string list \<Rightarrow> Proposal" where
  "proposal_new t i cr logic e discussion atts =
     \<lparr>pp_id = i, pp_creator = cr, pp_status = PT_Draft, pp_created_at = t, pp_expires_at = e, pp_logic_path = logic,
      pp_discussion_path = discussion, pp_votes_path = None, pp_attachments = atts, pp_execution_result = None,
      pp_deliberation_started_at = None, pp_min_deliberation_hours = None\<rparr>"

definition storage_key :: "Proposal \<Rightarrow> string" where
  "storage_key p = ''governance/proposals/'' @ pp_id p"

definition mark_active :: "Proposal \<Rightarrow> Proposal" where
  "mark_active p = p\<lparr>pp_status := PT_Active\<rparr>"

definition mark_deliberation :: "datetime \<Rightarrow> Proposal \<Rightarrow> Proposal" where
  "mark_deliberation t p = p\<lparr>pp_status := PT_Deliberation, pp_deliberation_started_at := Some t\<rparr>"

definition mark_voting :: "Proposal \<Rightarrow> Proposal" where
  "mark_voting p = p\<lparr>pp_status := PT_Voting\<rparr>"

definition mark_approved :: "Proposal \<Rightarrow> Proposal" where
  "mark_approved p = p\<lparr>pp_status := PT_Approved\<rparr>"

definition mark_executed :: "string \<Rightarrow> Proposal \<Rightarrow> Proposal" where
  "mark_executed r p = p\<lparr>pp_status := PT_Executed, pp_execution_result := Some r\<rparr>"

definition mark_rejected :: "Proposal \<Rightarrow> Proposal" where
  "mark_rejected p = p\<lparr>pp_status := PT_Rejected\<rparr>"

definition mark_expired :: "Proposal \<Rightarrow> Proposal" where
  "mark_expired p = p\<lparr>pp_status := PT_Expired\<rparr>"

section \<open>Reachable states\<close>

text \<open>
  A state is the time and the proposal. The readings of a call lie between the time before and the time after
  it and do not decrease.
\<close>

definition ticks :: "datetime \<Rightarrow> readings \<Rightarrow> datetime \<Rightarrow> bool" where
  "ticks t c t' \<longleftrightarrow> mono c \<and> t \<le> c 0 \<and> (\<forall>i. c i \<le> t')"

lemma ticksD: "ticks t c t' \<Longrightarrow> t \<le> c i \<and> c i \<le> t'"
  unfolding ticks_def by (meson le0 monoD order_trans)

lemma ticks_le: "ticks t c t' \<Longrightarrow> t \<le> t'"
  using ticksD [of t c t' 0] by simp

inductive life_step ::
  "'s life_env \<Rightarrow> venv \<Rightarrow> 's StorageBackend \<Rightarrow> datetime \<times> ProposalLifecycle \<Rightarrow> datetime \<times> ProposalLifecycle \<Rightarrow> bool"
  for V E B where
  step_open: "ticks t c t' \<Longrightarrow> open_for_feedback V c p = Inr p' \<Longrightarrow> life_step V E B (t, p) (t', p')"
| step_voting: "ticks t c t' \<Longrightarrow> start_voting V c d p = Inr p' \<Longrightarrow> life_step V E B (t, p) (t', p')"
| step_execute: "ticks t c t' \<Longrightarrow> life_step V E B (t, p) (t', life_execute c p)"
| step_reject: "ticks t c t' \<Longrightarrow> life_step V E B (t, p) (t', reject c p)"
| step_expire: "ticks t c t' \<Longrightarrow> life_step V E B (t, p) (t', expire c p)"
| step_check: "ticks t c t' \<Longrightarrow> life_step V E B (t, p) (t', snd (check_expiry c p))"
| step_update: "ticks t c t' \<Longrightarrow> life_step V E B (t, p) (t', update_version c p)"
| step_executed: "ticks t c t' \<Longrightarrow> transition_to_executed V E B n ts c auth p vm = Some (r, (p', vm')) \<Longrightarrow>
    life_step V E B (t, p) (t', p')"
| step_rejected: "ticks t c t' \<Longrightarrow> transition_to_rejected V B ts c auth p vm = (r, (p', vm')) \<Longrightarrow>
    life_step V E B (t, p) (t', p')"
| step_expired: "ticks t c t' \<Longrightarrow> transition_to_expired V B ts c auth p vm = (r, (p', vm')) \<Longrightarrow>
    life_step V E B (t, p) (t', p')"

abbreviation life_steps where
  "life_steps V E B \<equiv> (life_step V E B)\<^sup>*\<^sup>*"

text \<open>A new proposal, with any values of its three public settings.\<close>

definition fresh :: "datetime \<Rightarrow> ProposalLifecycle \<Rightarrow> bool" where
  "fresh t p \<longleftrightarrow>
     p = (lifecycle_new t (pl_id p) (pl_creator p) (pl_title p) (pl_quorum_method p) (pl_approval_threshold p)
            (pl_vote_weighting p) (pl_discussion_duration p) (pl_required_participants p))
         \<lparr>pl_auto_execute := pl_auto_execute p, pl_allow_early_execution := pl_allow_early_execution p,
          pl_min_voting_period := pl_min_voting_period p\<rparr>"

definition life_reachable :: "'s life_env \<Rightarrow> venv \<Rightarrow> 's StorageBackend \<Rightarrow> datetime \<times> ProposalLifecycle \<Rightarrow> bool" where
  "life_reachable V E B st \<longleftrightarrow> (\<exists>t0 p0. fresh t0 p0 \<and> life_steps V E B (t0, p0) st)"

text \<open>The possible moves between states, and what a step is: nothing, a new version, or a move.\<close>

fun moves :: "ProposalState \<Rightarrow> ProposalState set" where
  "moves PS_Draft = {PS_OpenForFeedback}"
| "moves PS_OpenForFeedback = {PS_Voting}"
| "moves PS_Voting = {PS_Executed, PS_Rejected, PS_Expired}"
| "moves _ = {}"

abbreviation is_closed :: "ProposalState \<Rightarrow> bool" where
  "is_closed s \<equiv> s \<in> {PS_Executed, PS_Rejected, PS_Expired}"

inductive life_change :: "datetime \<Rightarrow> ProposalLifecycle \<Rightarrow> datetime \<Rightarrow> ProposalLifecycle \<Rightarrow> bool" where
  stay: "t \<le> t' \<Longrightarrow> life_change t p t' p"
| version: "t \<le> u \<Longrightarrow> u \<le> t' \<Longrightarrow>
    life_change t p t'
      (p\<lparr>pl_current_version := pl_current_version p + 1, pl_history := pl_history p @ [(u, pl_state p)]\<rparr>)"
| move: "t \<le> u \<Longrightarrow> u \<le> t' \<Longrightarrow> s \<in> moves (pl_state p) \<Longrightarrow> s \<noteq> PS_Voting \<Longrightarrow> life_change t p t' (enter u s p)"
| vote: "t \<le> u \<Longrightarrow> u \<le> t' \<Longrightarrow> pl_state p = PS_OpenForFeedback \<Longrightarrow>
    (\<And>m. pl_min_voting_period p = Some m \<Longrightarrow> t + m \<le> e) \<Longrightarrow>
    life_change t p t' ((enter u PS_Voting p)\<lparr>pl_expires_at := Some e\<rparr>)"

lemma add_duration_Inr: "add_duration V t d = Inr e \<longleftrightarrow> e = t + d \<and> le_min_date V \<le> e \<and> e \<le> le_max_date V"
  by (auto simp: add_duration_def)

lemma start_voting_change:
  assumes "ticks t c t'" "start_voting V c d p = Inr p'"
  shows "life_change t p t' p'"
proof (cases "pl_state p = PS_OpenForFeedback")
  case True
  with assms(2) obtain e where p': "p' = (enter (c 2) PS_Voting p)\<lparr>pl_expires_at := Some e\<rparr>"
    and e: "\<And>m. pl_min_voting_period p = Some m \<Longrightarrow> c 0 + m \<le> e"
    using monoD [of c 0 1] assms(1)
    by (auto simp: start_voting_def add_duration_Inr ticks_def bindR_Inr_iff split: option.splits if_splits)
  show ?thesis unfolding p'
  proof (rule vote)
    show "t + m \<le> e" if "pl_min_voting_period p = Some m" for m using e [OF that] ticksD [OF assms(1), of 0] by simp
  qed (use ticksD [OF assms(1)] True in auto)
qed (use assms ticksD [OF assms(1), of 0] in \<open>auto simp: start_voting_def intro: stay\<close>)

lemma life_step_change:
  assumes "life_step V E B (t, p) (t', p')"
  shows "life_change t p t' p'"
  using assms
proof (cases rule: life_step.cases)
  case (step_voting c d)
  then show ?thesis by (rule start_voting_change)
next
  case (step_open c)
  then show ?thesis using ticksD [OF step_open(1)] ticks_le [OF step_open(1)]
    by (auto simp: open_for_feedback_def bindR_Inr_iff intro!: life_change.intros split: if_splits option.splits)
qed (use ticksD ticks_le in \<open>fastforce simp: life_execute_def reject_def expire_def check_expiry_def update_version_def
      transition_to_executed_def transition_to_rejected_def transition_to_expired_def Let_def
      intro: life_change.intros order_trans split: if_splits option.splits sum.splits fault.splits prod.splits\<close>)+

section \<open>The invariant\<close>

definition life_ok :: "datetime \<Rightarrow> ProposalLifecycle \<Rightarrow> bool" where
  "life_ok t p \<longleftrightarrow>
     pl_history p \<noteq> [] \<and>
     hd (pl_history p) = (pl_created_at p, PS_Draft) \<and>
     snd (last (pl_history p)) = pl_state p \<and>
     sorted (map fst (pl_history p)) \<and> fst (last (pl_history p)) \<le> t \<and>
     successively (\<lambda>a b. snd b = snd a \<or> snd b \<in> moves (snd a)) (pl_history p) \<and>
     (pl_expires_at p = None \<longleftrightarrow> pl_state p \<in> {PS_Draft, PS_OpenForFeedback})"

lemma fresh_ok: "fresh t p \<Longrightarrow> life_ok t p"
  unfolding fresh_def by (subst life_ok_def, elim ssubst) (simp add: lifecycle_new_def)

lemma sorted_snoc: "sorted (map fst xs) \<Longrightarrow> xs \<noteq> [] \<Longrightarrow> fst (last xs) \<le> u \<Longrightarrow> sorted (map fst xs @ [u])"
  by (induction xs rule: rev_induct) (auto simp: sorted_append)

lemma successively_snoc:
  "successively P (xs @ [y]) \<longleftrightarrow> successively P xs \<and> (xs \<noteq> [] \<longrightarrow> P (last xs) y)"
  by (auto simp: successively_append_iff)

lemma life_change_ok:
  assumes "life_change t p t' p'" "life_ok t p"
  shows "life_ok t' p'"
  using assms
proof cases
  case (move u s)
  then show ?thesis using assms(2)
    by (cases "pl_state p") (auto simp: life_ok_def enter_def successively_snoc intro!: sorted_snoc)
next
  case (version u)
  then show ?thesis using assms(2) by (auto simp: life_ok_def successively_snoc intro!: sorted_snoc)
next
  case (vote u e)
  then show ?thesis using assms(2) by (auto simp: life_ok_def enter_def successively_snoc intro!: sorted_snoc)
qed (auto simp: life_ok_def)

lemma life_steps_change:
  assumes "life_steps V E B st st'" "P st"
    and step: "\<And>t p t' p'. P (t, p) \<Longrightarrow> life_change t p t' p' \<Longrightarrow> P (t', p')"
  shows "P st'"
  using assms(1,2)
proof (induction rule: rtranclp_induct)
  case (step y z)
  then show ?case using assms(3) life_step_change by (metis surj_pair)
qed

lemma life_steps_ok:
  assumes "life_steps V E B (t, p) (t', p')" "life_ok t p"
  shows "life_ok t' p'"
proof -
  have "case (t', p') of (t', p') \<Rightarrow> life_ok t' p'"
    by (rule life_steps_change [OF assms(1)]) (use assms(2) life_change_ok in auto)
  then show ?thesis by simp
qed

lemma life_reachable_ok: "life_reachable V E B (t, p) \<Longrightarrow> life_ok t p"
  unfolding life_reachable_def using fresh_ok life_steps_ok by blast

text \<open>From the start of the vote on, the deadline is fixed and the state is \<^verbatim>\<open>Voting\<close> or closed; closed states stay.\<close>

lemma closed_moves: "is_closed s \<Longrightarrow> moves s = {}"
  by auto

lemma decided_change:
  assumes "life_change t p t' p'" "pl_state p = PS_Voting \<or> is_closed (pl_state p)"
  shows "t \<le> t'" "pl_expires_at p' = pl_expires_at p"
    "is_closed (pl_state p) \<Longrightarrow> pl_state p' = pl_state p" "pl_state p' = PS_Voting \<or> is_closed (pl_state p')"
  using assms by (cases; auto simp: enter_def)+

lemma decided_stays:
  assumes "life_steps V E B (t, p) (t', p')" "pl_state p = PS_Voting \<or> is_closed (pl_state p)"
  shows "pl_expires_at p' = pl_expires_at p" "pl_state p' = PS_Voting \<or> is_closed (pl_state p')" "t \<le> t'"
    "is_closed (pl_state p) \<Longrightarrow> pl_state p' = pl_state p"
proof -
  let ?P = "\<lambda>(t', p'). pl_expires_at p' = pl_expires_at p \<and> (pl_state p' = PS_Voting \<or> is_closed (pl_state p')) \<and>
      (is_closed (pl_state p) \<longrightarrow> pl_state p' = pl_state p) \<and> t \<le> t'"
  have "?P (t', p')"
  proof (rule life_steps_change [OF assms(1)])
    show "?P (t, p)" using assms(2) by simp
  next
    fix t1 p1 t2 p2
    assume *: "?P (t1, p1)" "life_change t1 p1 t2 p2"
    then have d: "pl_state p1 = PS_Voting \<or> is_closed (pl_state p1)" by simp
    note c = decided_change [OF *(2) d]
    have "pl_expires_at p2 = pl_expires_at p" using *(1) c(2) by simp
    moreover have "is_closed (pl_state p) \<longrightarrow> pl_state p2 = pl_state p" using *(1) c(3) by simp
    moreover have "t \<le> t2" using *(1) c(1) by simp
    ultimately show "?P (t2, p2)" using c(4) by blast
  qed
  then show "pl_expires_at p' = pl_expires_at p" "pl_state p' = PS_Voting \<or> is_closed (pl_state p')" "t \<le> t'"
    "is_closed (pl_state p) \<Longrightarrow> pl_state p' = pl_state p" by auto
qed

section \<open>The tally\<close>

definition unit_weight :: "VoteChoice \<Rightarrow> u64" where
  "unit_weight ch = (if ch = VC_Abstain then 0 else 1)"

lemma equal_weight:
  "pl_vote_weighting p = VW_Equal \<Longrightarrow>
     \<exists>w. calculate_vote_weight V t p vm voter ch auth = Inr w \<and> f64_as_u64 (f64_round w) = unit_weight ch"
proof -
  assume "pl_vote_weighting p = VW_Equal"
  moreover have "\<lfloor>3 / 2 :: rat\<rfloor> = 1" by (simp add: floor_eq_iff)
  then have "f64_round f64_one = f64_one" using round_f64_int [of 1 False] by (simp add: f64_one_def)
  ultimately show ?thesis
    by (cases ch) (auto simp: calculate_vote_weight_def unit_weight_def f64_as_u64_def f64_zero_def f64_one_def)
qed

lemma tally_keys_equal:
  assumes "pl_vote_weighting p = VW_Equal" "inj (le_choice_text V)"
  shows "\<exists>m'. tally_keys V B ts p vm auth s keys m = Inr m' \<and>
    (\<forall>ch. fmlookup m' (le_choice_text V ch) =
       (if Some ch \<in> stored_choice V B p auth s ` set keys then Some (unit_weight ch)
        else fmlookup m (le_choice_text V ch)))"
proof (induction keys arbitrary: m)
  case (Cons key keys)
  show ?case
  proof (cases "stored_choice V B p auth s key")
    case None
    with Cons.IH [of m] show ?thesis by simp
  next
    case (Some ch)
    obtain w where w: "calculate_vote_weight V (ts key) p vm (pl_creator p) ch auth = Inr w"
      "f64_as_u64 (f64_round w) = unit_weight ch" using equal_weight [OF assms(1)] by blast
    from Cons.IH [of "fmupd (le_choice_text V ch) (unit_weight ch) m"] obtain m' where
      "tally_keys V B ts p vm auth s keys (fmupd (le_choice_text V ch) (unit_weight ch) m) = Inr m'"
      "\<forall>d. fmlookup m' (le_choice_text V d) =
         (if Some d \<in> stored_choice V B p auth s ` set keys then Some (unit_weight d)
          else fmlookup (fmupd (le_choice_text V ch) (unit_weight ch) m) (le_choice_text V d))" by blast
    then show ?thesis using Some w injD [OF assms(2)] by (auto simp: image_iff)
  qed
qed simp

section \<open>Execution on a fork\<close>

lemma no_transaction_end:
  assumes "\<not> ex_transaction_active (vm_executor vm)"
  shows "\<exists>e. vm_commit_fork_transaction E B vm = (Inl (Err e), vm)"
    "\<exists>e. vm_rollback_fork_transaction E B vm = (Inl (Err e), vm)"
  using assms by (auto simp: vm_commit_fork_transaction_def vm_rollback_fork_transaction_def on_executor_def
      commit_fork_transaction_def rollback_fork_transaction_def end_fork_transaction_def)

lemma logic_changes_nothing:
  assumes "\<not> ex_transaction_active (vm_executor vm)" "execute_proposal_logic V E B n p vm = Some (r, vm')"
  shows "vm' = vm \<and> \<not> is_ok r"
  using assms(2) no_transaction_end [OF assms(1), of E B]
  by (auto simp: execute_proposal_logic_def conclude_def is_ok_def split: sum.splits option.splits fault.splits prod.splits)

section \<open>Quorum\<close>

lemma f64_of_nat_mono: "m \<le> n \<Longrightarrow> f64_le (f64_of_nat m) (f64_of_nat n)"
  unfolding f64_of_nat_def f64_of_int_def by (rule round_f64_mono) auto

lemma f64_of_nat_nonneg: "f64_nonneg (f64_of_nat n)"
  unfolding f64_of_nat_def f64_of_int_def by (rule round_f64_nonneg) simp

text \<open>A non-zero machine number as a double is a positive number.\<close>

lemma f64_of_nat_pos:
  assumes "0 < n" "n < 2 ^ 64"
  obtains q where "f64_of_nat n = F64_Num q" "0 < q"
proof -
  have lo: "f64_le f64_one (f64_of_nat n)"
    using f64_of_nat_mono [of 1 n] assms(1) round_f64_int [of 1 False]
    by (simp add: f64_of_nat_def f64_of_int_def f64_one_def)
  have "wf_f64 (F64_Num (of_int 1 * pow2 64))" by (intro wf_dyadic) auto
  then have "round_f64 False (pow2 64) = F64_Num (pow2 64)" using round_f64_wf by simp
  moreover have "of_nat n \<le> pow2 64" using assms(2) by (simp add: pow2_def)
  ultimately have hi: "f64_le (f64_of_nat n) (F64_Num (pow2 64))"
    using round_f64_mono [of "of_nat n" "pow2 64" False False] by (simp add: f64_of_nat_def f64_of_int_def)
  show thesis
    using lo hi f64_of_nat_nonneg [of n] by (cases "f64_of_nat n") (auto simp: f64_le_def f64_one_def intro: that)
qed

lemma percentage_mono:
  assumes "v \<le> w" "0 < n" "n < 2 ^ 64"
  shows "f64_le (f64_mul (f64_div (f64_of_nat v) (f64_of_nat n)) (f64_of_int 100))
    (f64_mul (f64_div (f64_of_nat w) (f64_of_nat n)) (f64_of_int 100))"
proof -
  obtain q where q: "f64_of_nat n = F64_Num q" "0 < q" using assms(2,3) by (rule f64_of_nat_pos)
  have "f64_of_int 100 = F64_Num 100" using round_f64_int [of 100 False] by (simp add: f64_of_int_def)
  then show ?thesis
    using f64_div_mono [OF f64_of_nat_mono [OF assms(1)] f64_of_nat_nonneg f64_of_nat_nonneg q(2)]
      f64_div_mono [OF f64_of_nat_mono [of w w] f64_of_nat_nonneg f64_of_nat_nonneg q(2)] f64_mul_mono [of _ _ 100]
    by (simp add: q(1))
qed

section \<open>Properties\<close>

text \<open>The parameters at which the witnesses evaluate the model, a store with two votes and a proposal under vote.\<close>

definition demo_life_env :: "'s life_env" where
  "demo_life_env = \<lparr>le_get_f64 = (\<lambda>_ _ _. Inr None), le_get_string = (\<lambda>_ _ _. Inr None),
     le_check_passed = (\<lambda>_ _ _ votes. Inr (fmlookup votes ''yes'' \<noteq> None)), le_id_string = id_did,
     le_choice_text = (\<lambda>ch. case ch of VC_Yes \<Rightarrow> ''yes'' | VC_No \<Rightarrow> ''no'' | VC_Abstain \<Rightarrow> ''abstain''),
     le_lowercase = id, le_min_date = - (10 ^ 20), le_max_date = 10 ^ 20,
     dsp_vm_error = (\<lambda>_. ''''), dsp_storage_error = (\<lambda>_. ''''), dsp_compiler_error = (\<lambda>_. ''''), dsp_utf8_error = (\<lambda>_. '''')\<rparr>"

definition demo_creator :: Identity where
  "demo_creator = \<lparr>id_did = ''did:ann'', id_public_key_bytes = [], id_private_key_bytes = None,
     id_public_key_multibase = '''',
     id_profile = \<lparr>pr_public_username = ''ann'', pr_full_name = None, pr_other_fields = fmempty\<rparr>,
     id_identity_type = ''member''\<rparr>"

definition demo_draft :: ProposalLifecycle where
  "demo_draft = lifecycle_new 0 ''p1'' demo_creator ''Title'' (QM_Percentage 29) 50 VW_Equal None None"

definition demo_voting :: ProposalLifecycle where
  "demo_voting = (enter 2 PS_Voting (enter 1 PS_OpenForFeedback demo_draft))\<lparr>pl_expires_at := Some 12\<rparr>"

lemma demo_voting_reachable: "life_reachable demo_life_env demo_env in_memory (2, demo_voting)"
proof -
  have "life_step demo_life_env demo_env in_memory (0, demo_draft) (1, enter 1 PS_OpenForFeedback demo_draft)"
    by (rule step_open [where c = "\<lambda>_. 1"])
      (simp_all add: ticks_def mono_def open_for_feedback_def demo_draft_def lifecycle_new_def)
  moreover have "life_step demo_life_env demo_env in_memory (1, enter 1 PS_OpenForFeedback demo_draft) (2, demo_voting)"
    by (rule step_voting [where c = "\<lambda>_. 2" and d = 10])
      (simp_all add: ticks_def mono_def start_voting_def demo_voting_def demo_draft_def lifecycle_new_def enter_def
        add_duration_def demo_life_env_def)
  moreover have "fresh 0 demo_draft" by (simp add: fresh_def demo_draft_def lifecycle_new_def)
  ultimately show ?thesis unfolding life_reachable_def by (meson rtranclp.rtrancl_into_rtrancl rtranclp.rtrancl_refl)
qed

definition demo_votes :: InMemoryStorage where
  "demo_votes =
     snd (im_set demo_clock (Some demo_auth) ''governance'' ''proposals/p1/attachments/logic'' ''emit \"done\"''
     (snd (im_set demo_clock (Some demo_auth) ''governance'' ''proposals/p1/votes/bob'' ''Yes''
     (snd (im_set demo_clock (Some demo_auth) ''governance'' ''proposals/p1/votes/ann'' ''yes''
     (snd (create_account demo_clock (Some demo_auth) ''alice'' 1000 im_new)))))))"

definition demo_vote_vm :: "InMemoryStorage VM" where
  "demo_vote_vm = vm_set_auth_context demo_auth (with_storage_backend demo_votes)"

text \<open>
  C17: what every reachable proposal satisfies. Its history starts with the creation as a draft, ends with the
  present state, has non-decreasing times up to now and only the moves draft, feedback, vote, closed (or a new version
  in the same state); and it has a deadline exactly from the start of the vote on.
\<close>

theorem lifecycle_invariant:
  assumes "life_reachable V E B (t, p)"
  shows "hd (pl_history p) = (pl_created_at p, PS_Draft) \<and> snd (last (pl_history p)) = pl_state p \<and>
    sorted (map fst (pl_history p) @ [t]) \<and>
    successively (\<lambda>a b. snd b = snd a \<or> snd b \<in> moves (snd a)) (pl_history p) \<and>
    (pl_expires_at p = None \<longleftrightarrow> pl_state p \<in> {PS_Draft, PS_OpenForFeedback})"
  using life_reachable_ok [OF assms] sorted_snoc [of "pl_history p" t] by (auto simp: life_ok_def)

theorem lifecycle_invariant_witness:
  "sorted (map fst (pl_history demo_voting) @ [2]) \<and> pl_expires_at demo_voting \<noteq> None \<and> length (pl_history demo_voting) = 3"
  using lifecycle_invariant [OF demo_voting_reachable] by (simp add: demo_voting_def demo_draft_def lifecycle_new_def enter_def)

text \<open>
  C18: a vote ends. A reachable proposal under vote has a deadline that no later operation changes, and after any
  operations at all the first check for expiry whose clock is past the deadline leaves it closed.
\<close>

theorem voting_closes:
  assumes "life_reachable V E B (t, p)" "pl_state p = PS_Voting"
  shows "\<exists>e. pl_expires_at p = Some e \<and>
    (\<forall>t' p' c. life_steps V E B (t, p) (t', p') \<and> e < c 0 \<longrightarrow> is_closed (pl_state (snd (check_expiry c p'))))"
proof -
  obtain e where e: "pl_expires_at p = Some e" using life_reachable_ok [OF assms(1)] assms(2) by (auto simp: life_ok_def)
  have "is_closed (pl_state (snd (check_expiry c p')))" if "life_steps V E B (t, p) (t', p')" "e < c 0" for t' p' c
    using decided_stays(1,2) [OF that(1)] assms(2) e that(2) by (auto simp: check_expiry_def past_deadline_def enter_def)
  with e show ?thesis by blast
qed

theorem voting_closes_witness:
  "life_reachable demo_life_env demo_env in_memory (2, demo_voting) \<and>
   is_closed (pl_state (snd (check_expiry (\<lambda>_. 13) (update_version (\<lambda>_. 5) demo_voting))))"
proof -
  have v: "pl_state demo_voting = PS_Voting" "pl_expires_at demo_voting = Some 12" by (simp_all add: demo_voting_def enter_def)
  have "life_steps demo_life_env demo_env in_memory (2, demo_voting) (5, update_version (\<lambda>_. 5) demo_voting)"
    by (rule r_into_rtranclp, rule step_update) (simp add: ticks_def mono_def)
  moreover have "\<forall>t' p' c. life_steps demo_life_env demo_env in_memory (2, demo_voting) (t', p') \<and> 12 < c 0 \<longrightarrow>
      is_closed (pl_state (snd (check_expiry c p')))"
    using voting_closes [OF demo_voting_reachable v(1)] v(2) by simp
  ultimately have "is_closed (pl_state (snd (check_expiry (\<lambda>_. 13) (update_version (\<lambda>_. 5) demo_voting))))"
    by (elim allE [where x = 5] allE [where x = "update_version (\<lambda>_. 5) demo_voting"] allE [where x = "\<lambda>_. 13"]) simp
  with demo_voting_reachable show ?thesis by blast
qed

text \<open>
  C19: a closed proposal stays closed. No sequence of operations changes the state of an executed, rejected or
  expired proposal.
\<close>

theorem closed_is_final:
  assumes "is_closed (pl_state p)" "life_steps V E B (t, p) (t', p')"
  shows "pl_state p' = pl_state p \<and> pl_expires_at p' = pl_expires_at p"
  using decided_stays [OF assms(2)] assms(1) by blast

theorem closed_is_final_witness:
  "pl_state (snd (check_expiry (\<lambda>_. 13) (reject (\<lambda>_. 4) demo_voting))) = PS_Rejected"
proof -
  have r: "pl_state (reject (\<lambda>_. 4) demo_voting) = PS_Rejected" by (simp add: reject_def demo_voting_def enter_def)
  have "life_steps demo_life_env demo_env in_memory (4, reject (\<lambda>_. 4) demo_voting)
      (13, snd (check_expiry (\<lambda>_. 13) (reject (\<lambda>_. 4) demo_voting)))"
    by (rule r_into_rtranclp, rule step_check) (simp add: ticks_def mono_def)
  from closed_is_final [OF _ this] r show ?thesis by simp
qed





text \<open>
  C24: more votes never lose a quorum, for every method; the percentage is computed in doubles, and rounding keeps
  the order.
\<close>

theorem quorum_monotone:
  assumes "v \<le> w" "w < 2 ^ 64" "n < 2 ^ 64" "is_quorum_reached v n p = Inr True"
  shows "is_quorum_reached w n p = Inr True"
  using assms percentage_mono [OF assms(1), of n] f64_le_trans
  by (auto simp: is_quorum_reached_def word_le_nat_alt unat_of_nat split: QuorumMethod.splits if_splits)

lemma f64_of_int_pos: "0 < z \<Longrightarrow> z \<le> 2 ^ 53 \<Longrightarrow> f64_of_int z = F64_Num (of_int z)"
  using round_f64_int [of z False] by (simp add: f64_of_int_def)

lemma half_percentage: "f64_mul (f64_div (f64_of_nat 50) (f64_of_nat 100)) (f64_of_int 100) = F64_Num 50"
proof -
  have "round_f64 False (1 / 2) = F64_Num (1 / 2)"
    using round_f64_at [of "- 1" "1 / 2" "2 ^ 52" False] by (simp add: pow2_def)
  moreover have "round_f64 False 50 = F64_Num 50" using round_f64_int [of 50 False] by simp
  ultimately show ?thesis by (simp add: f64_of_nat_def f64_of_int_pos)
qed

theorem quorum_monotone_witness: "is_quorum_reached 60 100 demo_voting = Inr True"
proof -
  have "is_quorum_reached 50 100 demo_voting = Inr True"
    using half_percentage by (simp add: is_quorum_reached_def demo_voting_def demo_draft_def lifecycle_new_def enter_def
        f64_of_nat_def f64_of_int_pos f64_le_def)
  then show ?thesis using quorum_monotone [of 50 60 100 demo_voting] by simp
qed

text \<open>At the boundary the rounding decides: 29 votes of 100 are not 29 percent.\<close>

lemma quorum_boundary: "pl_quorum_method demo_voting = QM_Percentage 29 \<and> is_quorum_reached 29 100 demo_voting = Inr False"
proof -
  have "round_f64 False (29 / 100) = F64_Num (5224175567749775 / 2 ^ 54)"
    using round_f64_at [of "- 2" "29 / 100" 5224175567749775 False] by (simp add: pow2_def)
  moreover have "round_f64 False (5224175567749775 / 2 ^ 54 * 100) = F64_Num (8162774324609023 / 2 ^ 48)"
    using round_f64_at [of 4 "5224175567749775 / 2 ^ 54 * 100" 8162774324609023 False] by (simp add: pow2_def)
  ultimately show ?thesis
    by (simp add: is_quorum_reached_def demo_voting_def demo_draft_def lifecycle_new_def enter_def
        f64_of_nat_def f64_of_int_pos f64_le_def)
qed

end
