(* ===== verification/Files.thy ===== *)
theory Files
  imports Text
begin

text \<open>
  Files and directories as the standard library's \<^verbatim>\<open>std::fs\<close> and \<^verbatim>\<open>std::path\<close> present them. A path is the list of
  its components below the root of the file system; a name joined to it is resolved at once, \<^verbatim>\<open>..\<close> included, as
  the operating system does without symbolic links. A disk maps paths to directories and file contents. Every call
  may also fail for reasons of its own: \<open>io_fault\<close> is that parameter, \<open>io_written\<close> how much a failing write has written,
  \<open>io_kept\<close> what a failing removal has left. Calls return the disk in every outcome. Reading a directory fails as a whole or
  lists all its entries.
\<close>

section \<open>Paths\<close>

type_synonym path = "string list"

fun resolve :: "path \<Rightarrow> string list \<Rightarrow> path" where
  "resolve base [] = base"
| "resolve base (c # cs) =
     (if c = [] \<or> c = ''.'' then resolve base cs
      else if c = ''..'' then resolve (butlast base) cs
      else resolve (base @ [c]) cs)"

text \<open>\<^verbatim>\<open>Path::join\<close>: an absolute second path replaces the first.\<close>

definition path_join_name :: "path \<Rightarrow> string \<Rightarrow> path" where
  "path_join_name p s = resolve (if starts_with ''/'' s then [] else p) (split_char (CHR ''/'') s)"

text \<open>\<^verbatim>\<open>Path::extension\<close> of a file name: what follows the last dot, unless the name starts with its only dot.\<close>

definition name_extension :: "string \<Rightarrow> string option" where
  "name_extension n =
     (case rfind_char (CHR ''.'') n of
        Some i \<Rightarrow> if i = 0 then None else Some (drop (i + 1) n)
      | None \<Rightarrow> None)"

section \<open>Disks\<close>

datatype node = Directory | Data bytes

type_synonym disk = "(path, node) fmap"

definition node_at :: "disk \<Rightarrow> path \<Rightarrow> node option" where
  "node_at d p = (if p = [] then Some Directory else fmlookup d p)"

definition path_exists :: "disk \<Rightarrow> path \<Rightarrow> bool" where
  "path_exists d p = (node_at d p \<noteq> None)"

definition is_dir :: "disk \<Rightarrow> path \<Rightarrow> bool" where
  "is_dir d p = (node_at d p = Some Directory)"

definition is_file :: "disk \<Rightarrow> path \<Rightarrow> bool" where
  "is_file d p = (case node_at d p of Some (Data _) \<Rightarrow> True | _ \<Rightarrow> False)"

datatype io_kind = IO_NotFound | IO_PermissionDenied | IO_AlreadyExists | IO_OutOfMemory | IO_StorageFull | IO_Other

record io_error =
  ioe_kind :: io_kind
  ioe_text :: string

datatype io_call =
    Call_Mkdir path | Call_Open path | Call_Lock path | Call_Read path | Call_Write path | Call_ReadDir path
  | Call_Remove path

record io_env =
  io_fault :: "io_call \<Rightarrow> disk \<Rightarrow> io_error option"
  io_written :: "path \<Rightarrow> bytes \<Rightarrow> nat"
  io_kept :: "path \<Rightarrow> bool"
  io_message :: "io_kind \<Rightarrow> string"

type_synonym 'a io_result = "(io_error, 'a, disk) outcome"

definition io_fail :: "io_env \<Rightarrow> io_kind \<Rightarrow> disk \<Rightarrow> 'a io_result" where
  "io_fail io k d = (Inl \<lparr>ioe_kind = k, ioe_text = io_message io k\<rparr>, d)"

definition guarded :: "io_env \<Rightarrow> io_call \<Rightarrow> (disk \<Rightarrow> 'a io_result) \<Rightarrow> disk \<Rightarrow> 'a io_result" where
  "guarded io c f d = (case io_fault io c d of Some e \<Rightarrow> (Inl e, d) | None \<Rightarrow> f d)"

section \<open>Calls\<close>

definition add_dir :: "path \<Rightarrow> disk \<Rightarrow> disk" where
  "add_dir p d = (if path_exists d p then d else fmupd p Directory d)"

definition create_dir_all :: "io_env \<Rightarrow> path \<Rightarrow> disk \<Rightarrow> unit io_result" where
  "create_dir_all io p = guarded io (Call_Mkdir p) (\<lambda>d.
     if is_file d p then io_fail io IO_AlreadyExists d
     else if list_ex (is_file d) (prefixes p) then io_fail io IO_Other d
     else (Inr (), fold add_dir (prefixes p) d))"

text \<open>Opening for writing with creation, the old contents kept or cut.\<close>

definition open_write :: "io_env \<Rightarrow> bool \<Rightarrow> path \<Rightarrow> disk \<Rightarrow> unit io_result" where
  "open_write io trunc p = guarded io (Call_Open p) (\<lambda>d.
     if is_dir d p then io_fail io IO_Other d
     else if \<not> path_exists d (butlast p) then io_fail io IO_NotFound d
     else if \<not> is_dir d (butlast p) then io_fail io IO_Other d
     else (Inr (), if trunc \<or> \<not> path_exists d p then fmupd p (Data []) d else d))"

definition lock_file :: "io_env \<Rightarrow> path \<Rightarrow> disk \<Rightarrow> unit io_result" where
  "lock_file io p = guarded io (Call_Lock p) (\<lambda>d. (Inr (), d))"

definition file_contents :: "disk \<Rightarrow> path \<Rightarrow> bytes" where
  "file_contents d p = (case node_at d p of Some (Data b) \<Rightarrow> b | _ \<Rightarrow> [])"

text \<open>Writing at the end of an open file.\<close>

definition write_bytes :: "io_env \<Rightarrow> path \<Rightarrow> bytes \<Rightarrow> disk \<Rightarrow> unit io_result" where
  "write_bytes io p b d =
     (case io_fault io (Call_Write p) d of
        Some e \<Rightarrow> (Inl e, fmupd p (Data (file_contents d p @ take (io_written io p b) b)) d)
      | None \<Rightarrow> (Inr (), fmupd p (Data (file_contents d p @ b)) d))"

text \<open>\<^verbatim>\<open>fs::write\<close>.\<close>

definition write_file :: "io_env \<Rightarrow> path \<Rightarrow> bytes \<Rightarrow> disk \<Rightarrow> unit io_result" where
  "write_file io p b d = bindE (open_write io True p d) (\<lambda>_ d'. write_bytes io p b d')"

definition open_read :: "io_env \<Rightarrow> path \<Rightarrow> disk \<Rightarrow> unit io_result" where
  "open_read io p = guarded io (Call_Open p) (\<lambda>d. if path_exists d p then (Inr (), d) else io_fail io IO_NotFound d)"

definition read_file :: "io_env \<Rightarrow> path \<Rightarrow> disk \<Rightarrow> bytes io_result" where
  "read_file io p = guarded io (Call_Read p) (\<lambda>d.
     case node_at d p of
       Some (Data b) \<Rightarrow> (Inr b, d)
     | Some Directory \<Rightarrow> io_fail io IO_Other d
     | None \<Rightarrow> io_fail io IO_NotFound d)"

text \<open>\<^verbatim>\<open>fs::read_to_string\<close>.\<close>

definition read_text :: "io_env \<Rightarrow> path \<Rightarrow> disk \<Rightarrow> string io_result" where
  "read_text io p d =
     bindE (read_file io p d) (\<lambda>b d'. if valid_utf8 b then (Inr b, d') else io_fail io IO_Other d')"

definition child_names :: "disk \<Rightarrow> path \<Rightarrow> string list" where
  "child_names d p = map last (filter (\<lambda>q. q \<noteq> [] \<and> butlast q = p) (hkeys d))"

definition read_dir :: "io_env \<Rightarrow> path \<Rightarrow> disk \<Rightarrow> string list io_result" where
  "read_dir io p = guarded io (Call_ReadDir p) (\<lambda>d.
     case node_at d p of
       Some Directory \<Rightarrow> (Inr (child_names d p), d)
     | Some (Data _) \<Rightarrow> io_fail io IO_Other d
     | None \<Rightarrow> io_fail io IO_NotFound d)"

definition remove_dir_all :: "io_env \<Rightarrow> path \<Rightarrow> disk \<Rightarrow> unit io_result" where
  "remove_dir_all io p d =
     (case io_fault io (Call_Remove p) d of
        Some e \<Rightarrow> (Inl e, fmfilter (\<lambda>q. prefix p q \<longrightarrow> io_kept io q) d)
      | None \<Rightarrow>
          (case node_at d p of
             None \<Rightarrow> io_fail io IO_NotFound d
           | Some (Data _) \<Rightarrow> io_fail io IO_Other d
           | Some Directory \<Rightarrow> (Inr (), fmfilter (\<lambda>q. \<not> prefix p q) d)))"

section \<open>A disk without faults\<close>

lemma bindE_preserves:
  assumes "P (snd m)" "\<And>x s. m = (Inr x, s) \<Longrightarrow> P s \<Longrightarrow> P (snd (f x s))"
  shows "P (snd (bindE m f))"
  using assms by (cases m rule: prod.exhaust; cases "fst m") auto

definition quiet :: "io_env \<Rightarrow> bool" where
  "quiet io \<longleftrightarrow> io_fault io = (\<lambda>_ _. None)"

lemma guarded_quiet [simp]: "quiet io \<Longrightarrow> guarded io c f d = f d"
  by (simp add: guarded_def quiet_def)

lemma quiet_fault [simp]: "quiet io \<Longrightarrow> io_fault io c d = None"
  by (simp add: quiet_def)

lemma io_fail_neq [simp]: "io_fail io k d = (Inr x, d') \<longleftrightarrow> False"
  by (simp add: io_fail_def)

lemma node_at_fmupd [simp]: "node_at (fmupd p n d) q = (if q = p \<and> p \<noteq> [] then Some n else node_at d q)"
  by (auto simp: node_at_def)

lemma node_at_add_dir: "node_at (add_dir p d) q = (if q = p \<and> \<not> path_exists d p then Some Directory else node_at d q)"
  by (auto simp: add_dir_def path_exists_def node_at_def)

text \<open>Creating directories keeps every entry there was.\<close>

lemma node_at_add_dirs:
  "node_at (fold add_dir ps d) q =
     (case node_at d q of Some n \<Rightarrow> Some n | None \<Rightarrow> if q \<in> set ps then Some Directory else None)"
proof (induction ps arbitrary: d)
  case (Cons p ps)
  show ?case by (simp add: Cons.IH node_at_add_dir path_exists_def split: option.split)
qed (simp split: option.split)

definition dirs_below :: "disk \<Rightarrow> disk \<Rightarrow> path \<Rightarrow> bool" where
  "dirs_below d d' p \<longleftrightarrow>
     (\<forall>q. node_at d' q =
        (case node_at d q of Some n \<Rightarrow> Some n | None \<Rightarrow> if prefix q p then Some Directory else None))"

lemma create_dir_all_ok:
  assumes "quiet io" "create_dir_all io p d = (Inr u, d')"
  shows "dirs_below d d' p"
  using assms by (auto simp: create_dir_all_def dirs_below_def node_at_add_dirs split: if_splits)

lemma create_dir_all_fails:
  assumes "quiet io" "create_dir_all io p d = (Inl e, d')"
  shows "d' = d"
  using assms by (auto simp: create_dir_all_def io_fail_def split: if_splits)

lemma write_file_ok:
  assumes "quiet io" "write_file io p b d = (Inr u, d')"
  shows "node_at d' q = (if q = p then Some (Data b) else node_at d q)"
  using assms
  by (cases "p = []")
    (auto simp: write_file_def open_write_def write_bytes_def bindE_Inr_iff file_contents_def io_fail_def is_dir_def
      node_at_def split: if_splits)

lemma remove_dir_all_ok:
  assumes "quiet io" "remove_dir_all io p d = (Inr u, d')"
  shows "node_at d' q = (if q \<noteq> [] \<and> prefix p q then None else node_at d q)"
  using assms by (auto simp: remove_dir_all_def node_at_def io_fail_def split: option.splits node.splits)

lemma read_file_disk: "read_file io p d = (r, d') \<Longrightarrow> d' = d"
  by (auto simp: read_file_def guarded_def io_fail_def split: option.splits node.splits)

lemma read_text_disk: "read_text io p d = (r, d') \<Longrightarrow> d' = d"
  unfolding read_text_def using read_file_disk [of io p d]
  by (cases "read_file io p d"; cases "fst (read_file io p d)") (auto simp: io_fail_def split: if_splits)

lemma read_file_quiet: "quiet io \<Longrightarrow> read_file io p d = (Inr b, d') \<longleftrightarrow> node_at d p = Some (Data b) \<and> d' = d"
  by (auto simp: read_file_def io_fail_def split: option.splits node.splits)

end
