(* ===== verification/File_Storage.thy ===== *)
theory File_Storage
  imports Files
begin

text \<open>
  The file storage (\<^verbatim>\<open>storage/implementations/file_storage.rs\<close>): namespaces and keys as directories, each version of a
  value in a file of its own, version lists, accounts and namespace data as JSON files, an audit log, and caches and
  transactions in memory. The methods that the source declares on \<^verbatim>\<open>&self\<close> still append to the audit log, so they
  return the disk too. The JSON texts and \<^verbatim>\<open>chrono\<close>'s text of a day are parameters (\<open>fenv\<close>).
\<close>

section \<open>Data\<close>

record FileResourceAccount =
  fa_user_id :: string
  fa_quota_bytes :: u64
  fa_used_bytes :: u64
  fa_created_at :: u64
  fa_last_updated :: u64

record KeyMetadata =
  km_key :: string
  km_created_by :: string
  km_created_at :: u64
  km_versions :: "VersionInfo list"

datatype TransactionOp =
    TO_Set string string "bytes option" "VersionInfo option"      \<comment> \<open>namespace, key, previous data and version\<close>
  | TO_Delete string string bytes u64
  | TO_CreateNamespace string
  | TO_DeleteNamespace string NamespaceMetadata

record AuditLogEntry =
  al_timestamp :: u64
  al_user_id :: string
  al_action :: string
  al_namespace :: string
  al_key :: "string option"
  al_details :: string

datatype DiffChange =
    ValueChanged string bytes bytes                                \<comment> \<open>path, old value, new value\<close>
  | Added string bytes
  | Removed string bytes
  | Modified string "DiffChange list"

record VersionDiff =
  vd_old_version :: u64
  vd_new_version :: u64
  vd_created_by :: string
  vd_timestamp :: u64
  vd_changes :: "DiffChange list"

record FileStorage =
  fs_root_path :: path
  fs_transactions :: "TransactionOp list list"
  fs_namespace_cache :: "(string, NamespaceMetadata) fmap"
  fs_account_cache :: "(string, FileResourceAccount) fmap"

record fenv =
  fe_io :: io_env
  key_json :: "KeyMetadata \<Rightarrow> string"
  key_of_json :: "string \<Rightarrow> string + KeyMetadata"
  ns_json :: "NamespaceMetadata \<Rightarrow> string"
  ns_of_json :: "string \<Rightarrow> string + NamespaceMetadata"
  account_json :: "FileResourceAccount \<Rightarrow> string"
  account_of_json :: "string \<Rightarrow> string + FileResourceAccount"
  audit_json :: "AuditLogEntry \<Rightarrow> string"
  event_of_json :: "string \<Rightarrow> StorageEvent option"
  day_text :: "u64 \<Rightarrow> string option"
  dbg_option :: "string option \<Rightarrow> string"
  path_text :: "path \<Rightarrow> string"

type_synonym 'a fs_result = "(StorageError fault, 'a, disk) outcome"
type_synonym 'a fs_update = "(StorageError fault, 'a, FileStorage \<times> disk) outcome"

section \<open>Errors and paths\<close>

definition map_io_error :: "fenv \<Rightarrow> string \<Rightarrow> string option \<Rightarrow> string \<Rightarrow> io_error \<Rightarrow> StorageError" where
  "map_io_error F ns key operation e =
     (case ioe_kind e of
        IO_NotFound \<Rightarrow>
          (case key of
             Some k \<Rightarrow> SE_NotFound (ns @ '':'' @ k @ '' (IO error: file not found during '' @ operation @ '')'')
           | None \<Rightarrow> SE_NotFound (''Namespace '' @ quoted ns @ '' not found during '' @ operation))
      | IO_PermissionDenied \<Rightarrow>
          SE_PermissionDenied ''system'' operation (case key of Some k \<Rightarrow> ns @ '':'' @ k | None \<Rightarrow> ns)
      | IO_AlreadyExists \<Rightarrow>
          SE_SerializationError ''VersionData''
            (''Resource already exists: '' @ ns @ '':'' @ (case key of Some k \<Rightarrow> k | None \<Rightarrow> '''') @ '' (during '' @ operation @ '')'')
      | IO_OutOfMemory \<Rightarrow> SE_QuotaExceeded ''Storage space'' 0 0
      | IO_StorageFull \<Rightarrow> SE_QuotaExceeded ''Storage space'' 0 0
      | IO_Other \<Rightarrow>
          SE_IoError operation
            (''IO error: '' @ ioe_text e @ '' (namespace: '' @ ns @ '', key: '' @ dbg_option F key @ '')''))"

text \<open>The conversion \<^verbatim>\<open>From<io::Error>\<close> of \<^verbatim>\<open>storage/errors.rs\<close>, which \<^verbatim>\<open>?\<close> applies.\<close>

definition io_error_from :: "io_error \<Rightarrow> StorageError" where
  "io_error_from e = SE_IoError ''unknown'' (ioe_text e)"

definition on_io :: "(io_error \<Rightarrow> StorageError) \<Rightarrow> 'a io_result \<Rightarrow> 'a fs_result" where
  "on_io f r = (case r of (Inl e, d) \<Rightarrow> (Inl (Err (f e)), d) | (Inr x, d) \<Rightarrow> (Inr x, d))"

definition failed :: "StorageError \<Rightarrow> 's \<Rightarrow> (StorageError fault, 'a, 's) outcome" where
  "failed e s = (Inl (Err e), s)"

definition namespace_path :: "FileStorage \<Rightarrow> string \<Rightarrow> path" where
  "namespace_path st ns = path_join_name (fs_root_path st @ [''namespaces'']) ns"

definition key_dir_path :: "FileStorage \<Rightarrow> string \<Rightarrow> string \<Rightarrow> path" where
  "key_dir_path st ns key = path_join_name (namespace_path st ns @ [''keys'']) key"

definition version_path :: "FileStorage \<Rightarrow> string \<Rightarrow> string \<Rightarrow> u64 \<Rightarrow> path" where
  "version_path st ns key v = key_dir_path st ns key @ [''v'' @ show_u64 v @ ''.data'']"

definition metadata_path :: "FileStorage \<Rightarrow> string \<Rightarrow> string \<Rightarrow> path" where
  "metadata_path st ns key = key_dir_path st ns key @ [''metadata.json'']"

definition namespace_metadata_path :: "FileStorage \<Rightarrow> string \<Rightarrow> path" where
  "namespace_metadata_path st ns = namespace_path st ns @ [''namespace_metadata.json'']"

section \<open>Files of a key\<close>

definition read_key_metadata :: "fenv \<Rightarrow> FileStorage \<Rightarrow> string \<Rightarrow> string \<Rightarrow> disk \<Rightarrow> KeyMetadata fs_result" where
  "read_key_metadata F st ns key d =
     (let p = metadata_path st ns key; io = fe_io F; err = map_io_error F ns (Some key) in
      if \<not> path_exists d p then failed (SE_NotFound (ns @ '':'' @ key)) d
      else
        bindE (on_io (err ''opening metadata file'') (open_read io p d)) (\<lambda>_ d1.
        bindE (on_io (err ''locking metadata file for reading'') (lock_file io p d1)) (\<lambda>_ d2.
        bindE (on_io (err ''reading metadata file'') (read_text io p d2)) (\<lambda>s d3.
          case key_of_json F s of
            Inl e \<Rightarrow> failed (SE_SerializationError ''KeyMetadata'' e) d3
          | Inr m \<Rightarrow> (Inr m, d3)))))"

text \<open>Writing a file under an exclusive lock, its directory created first; the texts name the steps in errors.\<close>

definition write_locked ::
  "fenv \<Rightarrow> string \<Rightarrow> string option \<Rightarrow> path \<Rightarrow> bytes \<Rightarrow> string \<Rightarrow> string \<Rightarrow> string \<Rightarrow> string \<Rightarrow> disk \<Rightarrow> unit fs_result" where
  "write_locked F ns key p b creating opening locking storing d =
     (let io = fe_io F; err = map_io_error F ns key in
      bindE (on_io (err creating) (create_dir_all io (butlast p) d)) (\<lambda>_ d1.
      bindE (on_io (err opening) (open_write io True p d1)) (\<lambda>_ d2.
      bindE (on_io (err locking) (lock_file io p d2)) (\<lambda>_ d3.
        on_io (err storing) (write_file io p b d3)))))"

definition write_key_metadata :: "fenv \<Rightarrow> FileStorage \<Rightarrow> string \<Rightarrow> string \<Rightarrow> KeyMetadata \<Rightarrow> disk \<Rightarrow> unit fs_result" where
  "write_key_metadata F st ns key m =
     write_locked F ns (Some key) (metadata_path st ns key) (key_json F m) ''creating directory for metadata''
       ''opening metadata file for writing'' ''locking metadata file for writing'' ''writing metadata''"

definition write_version_data :: "fenv \<Rightarrow> FileStorage \<Rightarrow> string \<Rightarrow> string \<Rightarrow> u64 \<Rightarrow> bytes \<Rightarrow> disk \<Rightarrow> unit fs_result" where
  "write_version_data F st ns key v b =
     write_locked F ns (Some key) (version_path st ns key v) b (''creating directory for version '' @ show_u64 v)
       (''opening version '' @ show_u64 v @ '' file for writing'') (''locking version '' @ show_u64 v @ '' file for writing'')
       (''writing version '' @ show_u64 v @ '' data'')"

definition read_version_data :: "fenv \<Rightarrow> FileStorage \<Rightarrow> string \<Rightarrow> string \<Rightarrow> u64 \<Rightarrow> disk \<Rightarrow> bytes fs_result" where
  "read_version_data F st ns key v d =
     (let p = version_path st ns key v; io = fe_io F; err = map_io_error F ns (Some key) in
      if \<not> path_exists d p then failed (SE_NotFound (ns @ '':'' @ key @ '' (version '' @ show_u64 v @ '')'')) d
      else
        bindE (on_io (err (''opening version '' @ show_u64 v @ '' file for reading'')) (open_read io p d)) (\<lambda>_ d1.
        bindE (on_io (err (''locking version '' @ show_u64 v @ '' file for reading'')) (lock_file io p d1)) (\<lambda>_ d2.
          on_io (err (''reading version '' @ show_u64 v @ '' data'')) (read_file io p d2))))"

definition write_namespace_metadata :: "fenv \<Rightarrow> FileStorage \<Rightarrow> NamespaceMetadata \<Rightarrow> disk \<Rightarrow> unit fs_result" where
  "write_namespace_metadata F st m =
     write_locked F (nm_path m) None (namespace_metadata_path st (nm_path m)) (ns_json F m) ''creating namespace directory''
       ''opening namespace metadata file for writing'' ''locking namespace metadata file for writing''
       ''writing namespace metadata''"

definition audit_path :: "FileStorage \<Rightarrow> string \<Rightarrow> path" where
  "audit_path st date = fs_root_path st @ [''audit_logs'', ''log_'' @ date @ ''.jsonl'']"

definition record_audit_log ::
  "fenv \<Rightarrow> u64 \<Rightarrow> FileStorage \<Rightarrow> AuthContext \<Rightarrow> string \<Rightarrow> string \<Rightarrow> string option \<Rightarrow> string \<Rightarrow> disk \<Rightarrow> unit fs_result" where
  "record_audit_log F t st auth action ns key message d =
     (case day_text F t of
        None \<Rightarrow> failed (SE_TransactionError ''Invalid timestamp'') d
      | Some date \<Rightarrow>
          let io = fe_io F; err = map_io_error F ns key; log_path = audit_path st date; audit_dir = fs_root_path st @ [''audit_logs''];
              log_entry = \<lparr>al_timestamp = t, al_user_id = user_id auth, al_action = action, al_namespace = ns,
                al_key = key, al_details = message\<rparr>
          in bindE (if path_exists d audit_dir then (Inr (), d)
                    else on_io (err ''creating audit log directory'') (create_dir_all io audit_dir d)) (\<lambda>_ d1.
             bindE (on_io (err ''opening audit log file'') (open_write io False log_path d1)) (\<lambda>_ d2.
             bindE (on_io (err ''locking audit log file'') (lock_file io log_path d2)) (\<lambda>_ d3.
               on_io (err ''writing to audit log'') (write_bytes io log_path (audit_json F log_entry @ [newline]) d3)))))"

text \<open>The calls that insist on an authorisation context and panic without one.\<close>

definition audited ::
  "fenv \<Rightarrow> u64 \<Rightarrow> FileStorage \<Rightarrow> AuthContext option \<Rightarrow> string \<Rightarrow> string \<Rightarrow> string option \<Rightarrow> string \<Rightarrow> disk \<Rightarrow> unit fs_result" where
  "audited F t st auth action ns key message d =
     (case auth of Some a \<Rightarrow> record_audit_log F t st a action ns key message d | None \<Rightarrow> (Inl Panic, d))"

section \<open>Loading the caches\<close>

text \<open>The number of entries below a path bounds the walk over the directories.\<close>

definition below :: "disk \<Rightarrow> path \<Rightarrow> path set" where
  "below d p = {q. q |\<in>| fmdom d \<and> strict_prefix p q}"

definition walk_weight :: "disk \<Rightarrow> path \<Rightarrow> nat" where
  "walk_weight d p = Suc (card (below d p))"

lemma finite_below [simp]: "finite (below d p)"
  by (rule finite_subset [of _ "fset (fmdom d)"]) (auto simp: below_def)

lemma child_names_mem: "c \<in> set (child_names d p) \<longleftrightarrow> p @ [c] |\<in>| fmdom d"
proof
  assume "c \<in> set (child_names d p)"
  then obtain q where q: "q |\<in>| fmdom d" "q \<noteq> []" "butlast q = p" "c = last q" by (auto simp: child_names_def)
  then have "q = p @ [c]" using append_butlast_last_id [of q] by simp
  with q(1) show "p @ [c] |\<in>| fmdom d" by simp
next
  assume "p @ [c] |\<in>| fmdom d"
  then have "p @ [c] \<in> set (filter (\<lambda>q. q \<noteq> [] \<and> butlast q = p) (hkeys d))" by simp
  then have "last (p @ [c]) \<in> last ` set (filter (\<lambda>q. q \<noteq> [] \<and> butlast q = p) (hkeys d))" by (rule imageI)
  then show "c \<in> set (child_names d p)" by (simp add: child_names_def)
qed

lemma distinct_child_names: "distinct (child_names d p)"
proof -
  have "inj_on last {q. q \<noteq> [] \<and> butlast q = p}"
    by (rule inj_onI) (metis (mono_tags, lifting) append_butlast_last_id mem_Collect_eq)
  then have "inj_on last (set (filter (\<lambda>q. q \<noteq> [] \<and> butlast q = p) (hkeys d)))" by (rule inj_on_subset) auto
  then show ?thesis by (simp add: child_names_def distinct_map)
qed

lemma children_weight: "distinct cs \<Longrightarrow> set cs \<subseteq> set (child_names d p) \<Longrightarrow>
  sum_list (map (\<lambda>c. walk_weight d (p @ [c])) cs) \<le> card (below d p)"
proof -
  assume cs: "distinct cs" "set cs \<subseteq> set (child_names d p)"
  let ?A = "\<lambda>c. insert (p @ [c]) (below d (p @ [c]))"
  have card: "card (?A c) = walk_weight d (p @ [c])" for c by (simp add: walk_weight_def below_def)
  have "prefix (p @ [c]) q \<and> prefix (p @ [c']) q \<Longrightarrow> c = c'" for c c' q by (auto simp: prefix_def)
  then have "?A c \<inter> ?A c' = {}" if "c \<noteq> c'" for c c'
    using that by (auto simp: below_def prefix_order.less_le)
  then have "card (\<Union>c \<in> set cs. ?A c) = (\<Sum>c \<in> set cs. card (?A c))"
    by (intro card_UN_disjoint) auto
  moreover have "(\<Union>c \<in> set cs. ?A c) \<subseteq> below d p"
  proof (rule UN_least)
    fix c
    assume "c \<in> set cs"
    then have "p @ [c] |\<in>| fmdom d" using cs(2) by (simp add: subset_iff child_names_mem)
    moreover have p: "strict_prefix p (p @ [c])" by (simp add: strict_prefix_def)
    moreover have "strict_prefix p q" if "strict_prefix (p @ [c]) q" for q
      using p that by (rule prefix_order.less_trans)
    ultimately show "?A c \<subseteq> below d p" by (simp add: below_def subset_iff)
  qed
  then have "card (\<Union>c \<in> set cs. ?A c) \<le> card (below d p)" by (rule card_mono [OF finite_below])
  ultimately have "(\<Sum>c \<in> set cs. card (?A c)) \<le> card (below d p)" by simp
  then show ?thesis by (simp only: card sum_list_distinct_conv_sum_set [OF cs(1)])
qed

definition read_namespace_metadata :: "fenv \<Rightarrow> path \<Rightarrow> disk \<Rightarrow> StorageError + NamespaceMetadata option" where
  "read_namespace_metadata F dir d =
     (let p = dir @ [''namespace_metadata.json''] in
      if path_exists d p then
        (case fst (read_text (fe_io F) p d) of
           Inl e \<Rightarrow> Inl (SE_IoError ''reading namespace metadata file''
                    (''Failed to read namespace metadata file '' @ quoted (path_text F p) @ '': '' @ ioe_text e))
         | Inr s \<Rightarrow>
             (case ns_of_json F s of
                Inl e \<Rightarrow> Inl (SE_SerializationError ''NamespaceMetadata'' e)
              | Inr m \<Rightarrow> Inr (Some m)))
      else Inr None)"

text \<open>\<^verbatim>\<open>load_namespaces_recursive\<close> on a list of directories, depth first; reading does not change the disk.\<close>

function load_namespaces ::
  "fenv \<Rightarrow> disk \<Rightarrow> path list \<Rightarrow> (string, NamespaceMetadata) fmap \<Rightarrow> StorageError + (string, NamespaceMetadata) fmap" where
  "load_namespaces F d [] cache = Inr cache"
| "load_namespaces F d (dir # dirs) cache =
     (if \<not> is_dir d dir then load_namespaces F d dirs cache
      else
        (case read_namespace_metadata F dir d of
           Inl e \<Rightarrow> Inl e
         | Inr m \<Rightarrow>
             let cache' = (case m of Some meta \<Rightarrow> fmupd (nm_path meta) meta cache | None \<Rightarrow> cache) in
             (case fst (read_dir (fe_io F) dir d) of
                Inl e \<Rightarrow> Inl (SE_IoError ''reading directory''
                         (''Failed to read directory '' @ quoted (path_text F dir) @ '': '' @ ioe_text e))
              | Inr _ \<Rightarrow>
                  load_namespaces F d
                    (map (\<lambda>c. dir @ [c]) (filter (\<lambda>c. is_dir d (dir @ [c]) \<and> c \<noteq> ''keys'') (child_names d dir)) @ dirs)
                    cache')))"
  by pat_completeness auto
termination
proof (relation "measure (\<lambda>(F, d, dirs, cache). sum_list (map (walk_weight d) dirs))", goal_cases)
  case (3 F d dir dirs cache)
  let ?cs = "filter (\<lambda>c. is_dir d (dir @ [c]) \<and> c \<noteq> ''keys'') (child_names d dir)"
  have "sum_list (map (\<lambda>c. walk_weight d (dir @ [c])) ?cs) \<le> card (below d dir)"
    by (rule children_weight) (auto intro: distinct_filter distinct_child_names)
  then show ?case by (simp add: walk_weight_def comp_def)
qed (simp_all add: walk_weight_def)

definition load_namespace_cache :: "fenv \<Rightarrow> FileStorage \<Rightarrow> disk \<Rightarrow> StorageError + FileStorage" where
  "load_namespace_cache F st d =
     bindR (load_namespaces F d [fs_root_path st @ [''namespaces'']] fmempty) (\<lambda>c. Inr (st\<lparr>fs_namespace_cache := c\<rparr>))"

fun load_accounts ::
  "fenv \<Rightarrow> path \<Rightarrow> disk \<Rightarrow> string list \<Rightarrow> (string, FileResourceAccount) fmap \<Rightarrow> StorageError + (string, FileResourceAccount) fmap" where
  "load_accounts F dir d [] cache = Inr cache"
| "load_accounts F dir d (n # ns) cache =
     (let p = dir @ [n] in
      if is_file d p \<and> name_extension n = Some ''json'' then
        (case fst (read_text (fe_io F) p d) of
           Inl e \<Rightarrow> Inl (SE_IoError ''reading account file''
                    (''Failed to read account file '' @ quoted (path_text F p) @ '': '' @ ioe_text e))
         | Inr s \<Rightarrow>
             (case account_of_json F s of
                Inl e \<Rightarrow> Inl (SE_SerializationError ''FileResourceAccount'' e)
              | Inr a \<Rightarrow> load_accounts F dir d ns (fmupd (fa_user_id a) a cache)))
      else load_accounts F dir d ns cache)"

definition load_account_cache :: "fenv \<Rightarrow> FileStorage \<Rightarrow> disk \<Rightarrow> StorageError + FileStorage" where
  "load_account_cache F st d =
     (let dir = fs_root_path st @ [''accounts''] in
      if \<not> path_exists d dir then Inr (st\<lparr>fs_account_cache := fmempty\<rparr>)
      else
        (case fst (read_dir (fe_io F) dir d) of
           Inl e \<Rightarrow> Inl (SE_IoError ''reading accounts directory''
                    (''Failed to read accounts directory '' @ quoted (path_text F dir) @ '': '' @ ioe_text e))
         | Inr ns \<Rightarrow> bindR (load_accounts F dir d ns fmempty) (\<lambda>c. Inr (st\<lparr>fs_account_cache := c\<rparr>))))"

definition make_dir :: "fenv \<Rightarrow> path \<Rightarrow> string \<Rightarrow> string \<Rightarrow> disk \<Rightarrow> unit fs_result" where
  "make_dir F p operation what d =
     on_io (\<lambda>e. SE_IoError operation (''Unable to create '' @ what @ '' directory: '' @ ioe_text e)) (create_dir_all (fe_io F) p d)"

definition file_storage_new :: "fenv \<Rightarrow> path \<Rightarrow> disk \<Rightarrow> FileStorage fs_result" where
  "file_storage_new F rt d =
     bindE (make_dir F (rt @ [''namespaces'']) ''create_namespaces_dir'' ''namespaces'' d) (\<lambda>_ d1.
     bindE (make_dir F (rt @ [''accounts'']) ''create_accounts_dir'' ''accounts'' d1) (\<lambda>_ d2.
     bindE (make_dir F (rt @ [''audit_logs'']) ''create_audit_logs_dir'' ''audit logs'' d2) (\<lambda>_ d3.
     bindE (make_dir F (rt @ [''transactions'']) ''create_transactions_dir'' ''transactions'' d3) (\<lambda>_ d4.
       let st = \<lparr>fs_root_path = rt, fs_transactions = [], fs_namespace_cache = fmempty, fs_account_cache = fmempty\<rparr> in
       case bindR (load_namespace_cache F st d4) (\<lambda>st1. load_account_cache F st1 d4) of
         Inl e \<Rightarrow> failed e d4
       | Inr st2 \<Rightarrow> (Inr st2, d4)))))"

section \<open>Permissions and transactions\<close>

definition fs_namespace_exists :: "FileStorage \<Rightarrow> string \<Rightarrow> disk \<Rightarrow> bool" where
  "fs_namespace_exists st ns d = (ns |\<in>| fmdom (fs_namespace_cache st) \<or> path_exists d (namespace_path st ns))"

definition fs_record_for_rollback :: "TransactionOp \<Rightarrow> FileStorage \<Rightarrow> FileStorage" where
  "fs_record_for_rollback op st =
     (case rev (fs_transactions st) of
        [] \<Rightarrow> st
      | tx # txs \<Rightarrow> st\<lparr>fs_transactions := rev txs @ [tx @ [op]]\<rparr>)"

definition check_permission_internal :: "AuthContext \<Rightarrow> string \<Rightarrow> string \<Rightarrow> StorageError + unit" where
  "check_permission_internal auth action ns =
     (if has_role ''global'' ''admin'' auth then Inr ()
      else if has_role ns ''admin'' auth then Inr ()
      else
        (case (if action = ''read'' then Some [''reader'', ''writer''] else if action = ''write'' then Some [''writer''] else None) of
           None \<Rightarrow> Inl (SE_PermissionDenied (user_id auth) (''unknown action: '' @ action) ns)
         | Some required_role \<Rightarrow>
             if list_ex (\<lambda>role. has_role ns role auth) required_role then Inr ()
             else Inl (SE_PermissionDenied (user_id auth) action ns)))"

definition fs_check_permission :: "AuthContext option \<Rightarrow> string \<Rightarrow> string \<Rightarrow> StorageError + unit" where
  "fs_check_permission auth action ns =
     (case auth of
        Some a \<Rightarrow> check_permission_internal a action ns
      | None \<Rightarrow> Inl (SE_PermissionDenied ''anonymous'' action ns))"

text \<open>The guard that most methods start with: permission, then the namespace.\<close>

definition permitted ::
  "AuthContext option \<Rightarrow> string \<Rightarrow> string \<Rightarrow> 's \<Rightarrow> (StorageError fault, 'a, 's) outcome \<Rightarrow> (StorageError fault, 'a, 's) outcome" where
  "permitted auth action ns s r = (case fs_check_permission auth action ns of Inl e \<Rightarrow> failed e s | Inr _ \<Rightarrow> r)"

section \<open>Reading\<close>

definition latest :: "KeyMetadata \<Rightarrow> VersionInfo option" where
  "latest m = (if km_versions m = [] then None else Some (last (km_versions m)))"

definition no_namespace :: "string \<Rightarrow> StorageError" where
  "no_namespace ns = SE_NotFound (''Namespace not found: '' @ ns)"

definition fs_get :: "fenv \<Rightarrow> clock \<Rightarrow> AuthContext option \<Rightarrow> string \<Rightarrow> string \<Rightarrow> FileStorage \<Rightarrow> disk \<Rightarrow> bytes fs_result" where
  "fs_get F t auth ns key st d =
     permitted auth ''read'' ns d
       (if \<not> fs_namespace_exists st ns d then failed (no_namespace ns) d
        else
          bindE (read_key_metadata F st ns key d) (\<lambda>m d1.
            case latest m of
              None \<Rightarrow> failed (SE_NotFound (ns @ '':'' @ key @ '' (no versions)'')) d1
            | Some v \<Rightarrow>
                bindE (read_version_data F st ns key (vi_version v) d1) (\<lambda>b d2.
                bindE (audited F (t 0) st auth ''read'' ns (Some key) (''Read version '' @ show_u64 (vi_version v)) d2) (\<lambda>_ d3.
                  (Inr b, d3)))))"

definition fs_get_versioned ::
  "fenv \<Rightarrow> clock \<Rightarrow> AuthContext option \<Rightarrow> string \<Rightarrow> string \<Rightarrow> FileStorage \<Rightarrow> disk \<Rightarrow> (bytes \<times> VersionInfo) fs_result" where
  "fs_get_versioned F t auth ns key st d =
     permitted auth ''read'' ns d
       (if \<not> fs_namespace_exists st ns d then failed (SE_NotFound (ns @ '':'' @ key)) d
        else
          bindE (read_key_metadata F st ns key d) (\<lambda>m d1.
            case latest m of
              None \<Rightarrow> failed (SE_NotFound (ns @ '':'' @ key)) d1
            | Some v \<Rightarrow>
                bindE (read_version_data F st ns key (vi_version v) d1) (\<lambda>b d2.
                bindE (case auth of
                         Some a \<Rightarrow> record_audit_log F (t 0) st a ''read'' ns (Some key)
                           (''Read versioned data (v'' @ show_u64 (vi_version v) @ '')'') d2
                       | None \<Rightarrow> (Inr (), d2)) (\<lambda>_ d3.
                  (Inr (b, v), d3)))))"

definition fs_get_version ::
  "fenv \<Rightarrow> clock \<Rightarrow> AuthContext option \<Rightarrow> string \<Rightarrow> string \<Rightarrow> u64 \<Rightarrow> FileStorage \<Rightarrow> disk \<Rightarrow> (bytes \<times> VersionInfo) fs_result" where
  "fs_get_version F t auth ns key version st d =
     permitted auth ''read'' ns d
       (if \<not> fs_namespace_exists st ns d then failed (no_namespace ns) d
        else
          bindE (read_key_metadata F st ns key d) (\<lambda>m d1.
            case List.find (\<lambda>v. vi_version v = version) (km_versions m) of
              None \<Rightarrow> failed (SE_NotFound (ns @ '':'' @ key @ '' (version '' @ show_u64 version @ '')'')) d1
            | Some v \<Rightarrow>
                bindE (read_version_data F st ns key version d1) (\<lambda>b d2.
                bindE (audited F (t 0) st auth ''read_version'' ns (Some key) (''Read version '' @ show_u64 version) d2) (\<lambda>_ d3.
                  (Inr (b, v), d3)))))"

definition fs_list_versions ::
  "fenv \<Rightarrow> clock \<Rightarrow> AuthContext option \<Rightarrow> string \<Rightarrow> string \<Rightarrow> FileStorage \<Rightarrow> disk \<Rightarrow> VersionInfo list fs_result" where
  "fs_list_versions F t auth ns key st d =
     permitted auth ''read'' ns d
       (if \<not> fs_namespace_exists st ns d then failed (no_namespace ns) d
        else
          bindE (read_key_metadata F st ns key d) (\<lambda>m d1.
          bindE (audited F (t 0) st auth ''list_versions'' ns (Some key) ''Listed versions for key'' d1) (\<lambda>_ d2.
            (Inr (km_versions m), d2))))"

definition fs_diff_versions ::
  "fenv \<Rightarrow> clock \<Rightarrow> AuthContext option \<Rightarrow> string \<Rightarrow> string \<Rightarrow> u64 \<Rightarrow> u64 \<Rightarrow> FileStorage \<Rightarrow> disk \<Rightarrow> VersionDiff fs_result" where
  "fs_diff_versions F t auth ns key v1 v2 st d =
     permitted auth ''read'' ns d
       (bindE (fs_get_version F t auth ns key v1 st d) (\<lambda>(data1, _) d1.
        bindE (fs_get_version F (clock_after 1 t) auth ns key v2 st d1) (\<lambda>(data2, _) d2.
        bindE (audited F (t 2) st auth ''diff_versions'' ns (Some key)
                 (''Diffed versions '' @ show_u64 v1 @ '' and '' @ show_u64 v2) d2) (\<lambda>_ d3.
          (Inr \<lparr>vd_old_version = v1, vd_new_version = v2,
                vd_created_by = (case auth of Some a \<Rightarrow> user_id a | None \<Rightarrow> ''system''), vd_timestamp = t 3,
                vd_changes = (if data1 \<noteq> data2 then [ValueChanged ''data'' data1 data2] else [])\<rparr>, d3)))))"

definition fs_contains :: "AuthContext option \<Rightarrow> string \<Rightarrow> string \<Rightarrow> FileStorage \<Rightarrow> disk \<Rightarrow> StorageError + bool" where
  "fs_contains auth ns key st d =
     bindR (fs_check_permission auth ''read'' ns) (\<lambda>_.
       if \<not> fs_namespace_exists st ns d then Inr False else Inr (path_exists d (metadata_path st ns key)))"

definition fs_list_keys ::
  "fenv \<Rightarrow> clock \<Rightarrow> AuthContext option \<Rightarrow> string \<Rightarrow> string option \<Rightarrow> FileStorage \<Rightarrow> disk \<Rightarrow> string list fs_result" where
  "fs_list_keys F t auth ns pre st d =
     permitted auth ''read'' ns d
       (if \<not> fs_namespace_exists st ns d then failed (no_namespace ns) d
        else
          let keys_dir = namespace_path st ns @ [''keys''] in
          if \<not> path_exists d keys_dir then (Inr [], d)
          else
            bindE (on_io io_error_from (read_dir (fe_io F) keys_dir d)) (\<lambda>names d1.
              let keys = filter (\<lambda>n. is_dir d1 (keys_dir @ [n]) \<and> valid_utf8 n \<and>
                    (case pre of Some p \<Rightarrow> starts_with p n | None \<Rightarrow> True)) names
              in bindE (audited F (t 0) st auth ''list_keys'' ns None (''Listed keys with prefix '' @ dbg_option F pre) d1) (\<lambda>_ d2.
                   (Inr keys, d2))))"

text \<open>The sizes of the version files of one key directory, added up in 64 bits.\<close>

fun data_size :: "fenv \<Rightarrow> path \<Rightarrow> disk \<Rightarrow> string list \<Rightarrow> u64 \<Rightarrow> StorageError fault + u64" where
  "data_size F dir d [] acc = Inr acc"
| "data_size F dir d (n # ns) acc =
     (let p = dir @ [n] in
      if is_file d p \<and> name_extension n = Some ''data'' then
        (case io_fault (fe_io F) (Call_Open p) d of
           Some e \<Rightarrow> Inl (Err (io_error_from e))
         | None \<Rightarrow> data_size F dir d ns (acc + of_nat (length (file_contents d p))))
      else data_size F dir d ns acc)"

fun keys_size :: "fenv \<Rightarrow> path \<Rightarrow> disk \<Rightarrow> string list \<Rightarrow> u64 \<Rightarrow> StorageError fault + u64" where
  "keys_size F dir d [] acc = Inr acc"
| "keys_size F dir d (n # ns) acc =
     (let p = dir @ [n] in
      if is_dir d p then
        (case fst (read_dir (fe_io F) p d) of
           Inl e \<Rightarrow> Inl (Err (io_error_from e))
         | Inr files \<Rightarrow> bindR (data_size F p d files acc) (\<lambda>acc'. keys_size F dir d ns acc'))
      else keys_size F dir d ns acc)"

definition fs_get_usage :: "fenv \<Rightarrow> AuthContext option \<Rightarrow> string \<Rightarrow> FileStorage \<Rightarrow> disk \<Rightarrow> StorageError fault + u64" where
  "fs_get_usage F auth ns st d =
     bindR (map_err Err (fs_check_permission auth ''read'' ns)) (\<lambda>_.
       if \<not> fs_namespace_exists st ns d then Inl (Err (no_namespace ns))
       else
         (case fmlookup (fs_namespace_cache st) ns of
            Some m \<Rightarrow> Inr (nm_used_bytes m)
          | None \<Rightarrow>
              let keys_dir = namespace_path st ns @ [''keys''] in
              if \<not> path_exists d keys_dir then Inr 0
              else
                (case fst (read_dir (fe_io F) keys_dir d) of
                   Inl e \<Rightarrow> Inl (Err (io_error_from e))
                 | Inr names \<Rightarrow> keys_size F keys_dir d names 0)))"

definition fs_list_namespaces ::
  "fenv \<Rightarrow> clock \<Rightarrow> AuthContext option \<Rightarrow> string \<Rightarrow> FileStorage \<Rightarrow> disk \<Rightarrow> NamespaceMetadata list fs_result" where
  "fs_list_namespaces F t auth parent st d =
     (if parent \<noteq> [] \<and> \<not> fs_namespace_exists st parent d then failed (SE_NotFound (''Parent namespace not found: '' @ parent)) d
      else
        let cache = fs_namespace_cache st;
            may_see = (\<lambda>p. case auth of
               None \<Rightarrow> False
             | Some a \<Rightarrow> has_role p ''reader'' a \<or> has_role p ''writer'' a \<or> has_role p ''admin'' a \<or> has_role ''global'' ''admin'' a);
            namespaces = map snd (filter (\<lambda>(p, m). (parent = [] \<or> nm_parent m = Some parent) \<and> may_see p)
              (map (\<lambda>p. (p, the (fmlookup cache p))) (hkeys cache)))
        in bindE (case auth of
                    Some a \<Rightarrow> record_audit_log F (t 0) st a ''list_namespaces'' parent None
                      (''Listed namespaces (found '' @ show_nat (length namespaces) @ '')'') d
                  | None \<Rightarrow> (Inr (), d)) (\<lambda>_ d1.
             (Inr namespaces, d1)))"

fun audit_events :: "fenv \<Rightarrow> string option \<Rightarrow> string option \<Rightarrow> nat \<Rightarrow> string list \<Rightarrow> StorageEvent list \<Rightarrow> StorageError fault + StorageEvent list" where
  "audit_events F ns ty limit [] events = Inr events"
| "audit_events F ns ty limit (line # lines) events =
     (if \<not> valid_utf8 line then Inl (Err (SE_IoError ''unknown'' (io_message (fe_io F) IO_Other)))
      else
        (case event_of_json F line of
           None \<Rightarrow> audit_events F ns ty limit lines events
         | Some e \<Rightarrow>
             if (case ns of Some n \<Rightarrow> se_namespace e \<noteq> n | None \<Rightarrow> False) then audit_events F ns ty limit lines events
             else if (case ty of Some et \<Rightarrow> se_event_type e \<noteq> et | None \<Rightarrow> False) then audit_events F ns ty limit lines events
             else if length events + 1 \<ge> limit then Inr (events @ [e])
             else audit_events F ns ty limit lines (events @ [e])))"

definition fs_get_audit_log ::
  "fenv \<Rightarrow> AuthContext option \<Rightarrow> string option \<Rightarrow> string option \<Rightarrow> nat \<Rightarrow> FileStorage \<Rightarrow> disk \<Rightarrow> StorageError fault + StorageEvent list" where
  "fs_get_audit_log F auth ns ty limit st d =
     (case auth of
        None \<Rightarrow> Inl Panic
      | Some a \<Rightarrow>
          let effective_ns = (case ns of Some n \<Rightarrow> n | None \<Rightarrow> ''global'') in
          if \<not> has_role ''global'' ''admin'' a \<and> \<not> has_role effective_ns ''admin'' a
          then Inl (Err (SE_PermissionDenied (user_id a) ''view_audit_log'' effective_ns))
          else
            let log_path = fs_root_path st @ [''audit_logs'', ''audit.log''] in
            if \<not> path_exists d log_path then Inr []
            else
              (case fst (open_read (fe_io F) log_path d) of
                 Inl e \<Rightarrow> Inl (Err (io_error_from e))
               | Inr _ \<Rightarrow>
                   (case fst (read_file (fe_io F) log_path d) of
                      Inl e \<Rightarrow> Inl (Err (io_error_from e))
                    | Inr b \<Rightarrow> audit_events F ns ty limit (str_lines b) [])))"

section \<open>Writing\<close>

definition actor :: "AuthContext option \<Rightarrow> string" where
  "actor auth = (case auth of Some a \<Rightarrow> user_id a | None \<Rightarrow> ''system'')"

text \<open>Running a method on \<^verbatim>\<open>&self\<close> inside one on \<^verbatim>\<open>&mut self\<close>.\<close>

definition with_disk :: "FileStorage \<Rightarrow> 'a fs_result \<Rightarrow> 'a fs_update" where
  "with_disk st r = (case r of (x, d) \<Rightarrow> (x, (st, d)))"

definition account_path :: "FileStorage \<Rightarrow> string \<Rightarrow> path" where
  "account_path st user = path_join_name (fs_root_path st @ [''accounts'']) (user @ ''.json'')"

text \<open>Accounting for the bytes a value is longer than the one it replaces.\<close>

definition fs_charge :: "fenv \<Rightarrow> AuthContext option \<Rightarrow> u64 \<Rightarrow> FileStorage \<times> disk \<Rightarrow> unit fs_update" where
  "fs_charge F auth additional_bytes s =
     (case s of (st, d) \<Rightarrow>
        (case fmlookup (fs_account_cache st) (actor auth) of
           None \<Rightarrow> (Inr (), (st, d))
         | Some account \<Rightarrow>
             let used = fa_used_bytes account + additional_bytes in
             if used > fa_quota_bytes account
             then failed (SE_QuotaExceeded (''Storage for user '' @ quoted (actor auth)) used (fa_quota_bytes account)) (st, d)
             else
               let account' = account\<lparr>fa_used_bytes := used\<rparr>;
                   st' = st\<lparr>fs_account_cache := fmupd (actor auth) account' (fs_account_cache st)\<rparr>
               in with_disk st' (on_io io_error_from
                    (write_file (fe_io F) (account_path st (actor auth)) (account_json F account') d))))"

definition fs_existing_data ::
  "fenv \<Rightarrow> clock \<Rightarrow> AuthContext option \<Rightarrow> string \<Rightarrow> string \<Rightarrow> FileStorage \<Rightarrow> disk \<Rightarrow> bytes option fs_result" where
  "fs_existing_data F t auth ns key st d =
     (if path_exists d (metadata_path st ns key) then
        (case fs_get F t auth ns key st d of
           (Inr b, d1) \<Rightarrow> (Inr (Some b), d1)
         | (Inl (Err _), d1) \<Rightarrow> (Inr None, d1)
         | (Inl Panic, d1) \<Rightarrow> (Inl Panic, d1))
      else (Inr None, d))"

text \<open>The metadata with a new version, of a key with or without metadata.\<close>

definition next_metadata :: "clock \<Rightarrow> string \<Rightarrow> KeyMetadata \<Rightarrow> KeyMetadata" where
  "next_metadata t user m =
     (let latest_version = (case latest m of Some v \<Rightarrow> vi_version v | None \<Rightarrow> 0)
      in m\<lparr>km_versions := km_versions m @ [VersionInfo (latest_version + 1) user (t 1) (latest m)]\<rparr>)"

definition first_metadata :: "clock \<Rightarrow> string \<Rightarrow> string \<Rightarrow> KeyMetadata" where
  "first_metadata t user key =
     \<lparr>km_key = key, km_created_by = user, km_created_at = t 2, km_versions = [VersionInfo 1 user (t 1) None]\<rparr>"

text \<open>The steps of \<^verbatim>\<open>set\<close>: what the account is charged, and the version and the metadata that follow from the old ones.\<close>

definition fs_account_growth ::
  "fenv \<Rightarrow> AuthContext option \<Rightarrow> bytes option \<Rightarrow> u64 \<Rightarrow> FileStorage \<times> disk \<Rightarrow> unit fs_update" where
  "fs_account_growth F auth existing_data value_size s =
     (let existing_size = (case existing_data of Some b \<Rightarrow> of_nat (length b) | None \<Rightarrow> (0 :: u64)) in
      if value_size > existing_size then fs_charge F auth (value_size - existing_size) s else (Inr (), s))"

definition fs_current_version ::
  "fenv \<Rightarrow> string \<Rightarrow> string \<Rightarrow> bool \<Rightarrow> FileStorage \<Rightarrow> disk \<Rightarrow> VersionInfo option fs_result" where
  "fs_current_version F ns key key_metadata_exists st d =
     (if key_metadata_exists then bindE (read_key_metadata F st ns key d) (\<lambda>m d1. (Inr (latest m), d1)) else (Inr None, d))"

definition fs_new_metadata ::
  "fenv \<Rightarrow> clock \<Rightarrow> string \<Rightarrow> string \<Rightarrow> string \<Rightarrow> bool \<Rightarrow> FileStorage \<Rightarrow> disk \<Rightarrow> KeyMetadata fs_result" where
  "fs_new_metadata F t user ns key key_metadata_exists st d =
     (if key_metadata_exists then bindE (read_key_metadata F st ns key d) (\<lambda>m d1. (Inr (next_metadata t user m), d1))
      else (Inr (first_metadata t user key), d))"

definition fs_set ::
  "fenv \<Rightarrow> clock \<Rightarrow> AuthContext option \<Rightarrow> string \<Rightarrow> string \<Rightarrow> bytes \<Rightarrow> FileStorage \<times> disk \<Rightarrow> unit fs_update" where
  "fs_set F t auth ns key v s =
     permitted auth ''write'' ns s
       (case s of (st, d) \<Rightarrow>
          if \<not> fs_namespace_exists st ns d then failed (SE_NotFound (ns @ '':'' @ key)) s
          else
            bindE (with_disk st (on_io io_error_from (create_dir_all (fe_io F) (key_dir_path st ns key) d))) (\<lambda>_ (st, d1).
              let key_metadata_exists = path_exists d1 (metadata_path st ns key); value_size = (of_nat (length v) :: u64) in
              bindE (with_disk st (fs_existing_data F t auth ns key st d1)) (\<lambda>existing_data (st, d2).
              bindE (fs_account_growth F auth existing_data value_size (st, d2)) (\<lambda>_ (st1, d3).
              bindE (with_disk st1 (fs_current_version F ns key key_metadata_exists st1 d3)) (\<lambda>current_version_info (st1, d4).
              let st2 = fs_record_for_rollback (TO_Set ns key existing_data current_version_info) st1 in
              bindE (with_disk st2 (fs_new_metadata F t (actor auth) ns key key_metadata_exists st2 d4)) (\<lambda>m (st2, d5).
              let version = vi_version (last (km_versions m)) in
              with_disk st2
                (bindE (write_key_metadata F st2 ns key m d5) (\<lambda>_ d6.
                 bindE (write_version_data F st2 ns key version v d6) (\<lambda>_ d7.
                   audited F (t 3) st2 auth ''write'' ns (Some key)
                     (''Set v'' @ show_u64 version @ '' ('' @ show_u64 value_size @ '' bytes)'') d7)))))))))"

definition fs_delete :: "fenv \<Rightarrow> clock \<Rightarrow> AuthContext option \<Rightarrow> string \<Rightarrow> string \<Rightarrow> FileStorage \<times> disk \<Rightarrow> unit fs_update" where
  "fs_delete F t auth ns key s =
     permitted auth ''write'' ns s
       (case s of (st, d) \<Rightarrow>
          if \<not> fs_namespace_exists st ns d then failed (no_namespace ns) s
          else
            bindE (with_disk st (read_key_metadata F st ns key d)) (\<lambda>m (st, d1).
              case latest m of
                None \<Rightarrow> failed (SE_NotFound (ns @ '':'' @ key @ '' (no versions)'')) (st, d1)
              | Some v \<Rightarrow>
                  bindE (with_disk st (read_version_data F st ns key (vi_version v) d1)) (\<lambda>previous_data (st, d2).
                  let st1 = fs_record_for_rollback (TO_Delete ns key previous_data (vi_version v)) st in
                  with_disk st1
                    (bindE (on_io (map_io_error F ns (Some key) ''deleting key directory'')
                              (remove_dir_all (fe_io F) (key_dir_path st1 ns key) d2)) (\<lambda>_ d3.
                       audited F (t 0) st1 auth ''delete'' ns (Some key) (''Deleted version '' @ show_u64 (vi_version v)) d3)))))"

definition fs_begin_transaction :: "FileStorage \<Rightarrow> FileStorage" where
  "fs_begin_transaction st = st\<lparr>fs_transactions := fs_transactions st @ [[]]\<rparr>"

definition fs_commit_transaction :: "FileStorage \<Rightarrow> (StorageError fault, unit, FileStorage) outcome" where
  "fs_commit_transaction st =
     (if fs_transactions st = [] then failed (SE_TransactionError ''No active transaction to commit'') st
      else (Inr (), st\<lparr>fs_transactions := butlast (fs_transactions st)\<rparr>))"

definition drop_newer :: "u64 \<Rightarrow> VersionInfo list \<Rightarrow> VersionInfo list" where
  "drop_newer v vs = rev (dropWhile (\<lambda>x. vi_version x > v) (rev vs))"

definition remove_existing :: "fenv \<Rightarrow> path \<Rightarrow> disk \<Rightarrow> unit fs_result" where
  "remove_existing F p d =
     (if path_exists d p then on_io io_error_from (remove_dir_all (fe_io F) p d) else (Inr (), d))"

definition rollback_metadata :: "clock \<Rightarrow> string \<Rightarrow> u64 \<Rightarrow> KeyMetadata" where
  "rollback_metadata t key v =
     \<lparr>km_key = key, km_created_by = ''SYSTEM_ROLLBACK'', km_created_at = t 0,
      km_versions = [VersionInfo v ''SYSTEM_ROLLBACK'' (t 1) None]\<rparr>"

definition undo :: "fenv \<Rightarrow> clock \<Rightarrow> TransactionOp \<Rightarrow> FileStorage \<times> disk \<Rightarrow> unit fs_update" where
  "undo F t op s =
     (case s of (st, d) \<Rightarrow>
        (case op of
           TO_Set ns key previous_data prev_version \<Rightarrow>
             (case (previous_data, prev_version) of
                (Some b, Some v) \<Rightarrow>
                  with_disk st
                    (bindE (write_version_data F st ns key (vi_version v) b d) (\<lambda>_ d1.
                     bindE (read_key_metadata F st ns key d1) (\<lambda>m d2.
                       write_key_metadata F st ns key (m\<lparr>km_versions := drop_newer (vi_version v) (km_versions m)\<rparr>) d2)))
              | (None, _) \<Rightarrow> with_disk st (remove_existing F (key_dir_path st ns key) d)
              | _ \<Rightarrow> failed (SE_TransactionError ''Inconsistent transaction data'') (st, d))
         | TO_Delete ns key previous_data previous_version \<Rightarrow>
             with_disk st
               (bindE (write_version_data F st ns key previous_version previous_data d) (\<lambda>_ d1.
                  if path_exists d1 (metadata_path st ns key) then (Inr (), d1)
                  else write_key_metadata F st ns key (rollback_metadata t key previous_version) d1))
         | TO_CreateNamespace ns \<Rightarrow>
             bindE (with_disk st (remove_existing F (namespace_path st ns) d)) (\<lambda>_ (st, d1).
               (Inr (), (st\<lparr>fs_namespace_cache := fmdrop ns (fs_namespace_cache st)\<rparr>, d1)))
         | TO_DeleteNamespace ns m \<Rightarrow>
             let st1 = st\<lparr>fs_namespace_cache := fmupd ns m (fs_namespace_cache st)\<rparr>; io = fe_io F; dir = namespace_path st1 ns in
             with_disk st1
               (bindE (on_io io_error_from (create_dir_all io dir d)) (\<lambda>_ d1.
                bindE (on_io io_error_from (create_dir_all io (dir @ [''keys'']) d1)) (\<lambda>_ d2.
                  on_io io_error_from (write_file io (namespace_metadata_path st1 ns) (ns_json F m) d2))))))"

fun undo_all :: "fenv \<Rightarrow> (nat \<Rightarrow> clock) \<Rightarrow> TransactionOp list \<Rightarrow> FileStorage \<times> disk \<Rightarrow> unit fs_update" where
  "undo_all F ts [] s = (Inr (), s)"
| "undo_all F ts (op # ops) s = bindE (undo F (ts (length ops)) op s) (\<lambda>_ s1. undo_all F ts ops s1)"

definition fs_rollback_transaction :: "fenv \<Rightarrow> (nat \<Rightarrow> clock) \<Rightarrow> FileStorage \<times> disk \<Rightarrow> unit fs_update" where
  "fs_rollback_transaction F ts s =
     (case s of (st, d) \<Rightarrow>
        if fs_transactions st = [] then failed (SE_TransactionError ''No active transaction to rollback'') s
        else undo_all F ts (rev (last (fs_transactions st))) (st\<lparr>fs_transactions := butlast (fs_transactions st)\<rparr>, d))"

definition fs_create_namespace ::
  "fenv \<Rightarrow> clock \<Rightarrow> AuthContext option \<Rightarrow> string \<Rightarrow> u64 \<Rightarrow> string option \<Rightarrow> FileStorage \<times> disk \<Rightarrow> unit fs_update" where
  "fs_create_namespace F t auth ns quota parent s =
     (case s of (st, d) \<Rightarrow>
        let can_create = (case auth of
              None \<Rightarrow> False
            | Some a \<Rightarrow> has_role ''global'' ''admin'' a \<or> (case parent of Some p \<Rightarrow> has_role p ''admin'' a | None \<Rightarrow> False))
        in if \<not> can_create
           then failed (SE_PermissionDenied (case auth of Some a \<Rightarrow> user_id a | None \<Rightarrow> ''anonymous'') ''create_namespace'' ns) s
           else if (case parent of Some p \<Rightarrow> \<not> fs_namespace_exists st p d | None \<Rightarrow> False)
           then failed (SE_NotFound (''Parent namespace not found: '' @ the parent)) s
           else if fs_namespace_exists st ns d
           then failed (SE_TransactionError (''Namespace already exists: '' @ ns)) s
           else
             let io = fe_io F; err = map_io_error F ns None; dir = namespace_path st ns;
                 m = \<lparr>nm_path = ns, nm_owner = (case auth of Some a \<Rightarrow> user_id a | None \<Rightarrow> ''SYSTEM''), nm_quota_bytes = quota,
                      nm_used_bytes = 0, nm_parent = parent, nm_attributes = fmempty\<rparr>
             in bindE (with_disk st
                  (bindE (on_io (err ''creating namespace directory'') (create_dir_all io dir d)) (\<lambda>_ d1.
                   bindE (on_io (err ''creating namespace keys directory'') (create_dir_all io (dir @ [''keys'']) d1)) (\<lambda>_ d2.
                     write_namespace_metadata F st m d2)))) (\<lambda>_ (st, d3).
                let st1 = fs_record_for_rollback (TO_CreateNamespace ns)
                      (st\<lparr>fs_namespace_cache := fmupd ns m (fs_namespace_cache st)\<rparr>)
                in (case auth of
                      Some a \<Rightarrow> with_disk st1 (record_audit_log F (t 0) st1 a ''create_namespace'' ns None
                        (''Created namespace with quota '' @ show_u64 quota @ '' bytes'') d3)
                    | None \<Rightarrow> (Inr (), (st1, d3)))))"

definition fs_create_account ::
  "fenv \<Rightarrow> clock \<Rightarrow> AuthContext option \<Rightarrow> string \<Rightarrow> u64 \<Rightarrow> FileStorage \<times> disk \<Rightarrow> unit fs_update" where
  "fs_create_account F t auth user quota s =
     permitted auth ''admin'' ''global'' s
       (case s of (st, d) \<Rightarrow>
          bindE (with_disk st (on_io io_error_from (create_dir_all (fe_io F) (fs_root_path st @ [''accounts'']) d))) (\<lambda>_ (st, d1).
            if path_exists d1 (account_path st user)
            then failed (SE_TransactionError (''Account already exists for user '' @ user)) (st, d1)
            else
              let account = \<lparr>fa_user_id = user, fa_quota_bytes = quota, fa_used_bytes = 0, fa_created_at = t 0, fa_last_updated = t 1\<rparr>;
                  st1 = st\<lparr>fs_account_cache := fmupd user account (fs_account_cache st)\<rparr>
              in with_disk st1
                   (bindE (on_io io_error_from (write_file (fe_io F) (account_path st1 user) (account_json F account) d1)) (\<lambda>_ d2.
                      audited F (t 2) st1 auth ''account_created'' ''global'' (Some user)
                        (''Created account with '' @ show_u64 quota @ '' byte quota'') d2))))"

end
