(* ===== verification/File_Views.thy ===== *)
theory File_Views
  imports File_Storage
begin

text \<open>
  What the file storage keeps under its \<^verbatim>\<open>namespaces\<close> directory, seen through the metadata and the version files of a key,
  on a disk without faults: the effect of every operation on that part of the disk, and the properties built on them.
\<close>

section \<open>The namespaces directory\<close>

definition in_zone :: "FileStorage \<Rightarrow> path \<Rightarrow> bool" where
  "in_zone st q \<longleftrightarrow> prefix (fs_root_path st @ [''namespaces'']) q"

definition keeps :: "FileStorage \<Rightarrow> disk \<Rightarrow> disk \<Rightarrow> bool" where
  "keeps st d d' \<longleftrightarrow> (\<forall>q. in_zone st q \<longrightarrow> node_at d' q = node_at d q)"

lemma keeps_refl [simp]: "keeps st d d"
  by (simp add: keeps_def)

lemma keeps_trans: "keeps st d d1 \<Longrightarrow> keeps st d1 d2 \<Longrightarrow> keeps st d d2"
  by (simp add: keeps_def)

lemma keepsD: "keeps st d d' \<Longrightarrow> in_zone st q \<Longrightarrow> node_at d' q = node_at d q"
  by (simp add: keeps_def)

lemma keeps_exists: "keeps st d d' \<Longrightarrow> in_zone st q \<Longrightarrow> path_exists d' q = path_exists d q"
  by (simp add: keeps_def path_exists_def)

lemma keeps_bindE:
  assumes "keeps st d (snd m)" "\<And>x d1. m = (Inr x, d1) \<Longrightarrow> keeps st d1 (snd (f x d1))"
  shows "keeps st d (snd (bindE m f))"
  using assms by (auto intro!: bindE_preserves [where P = "keeps st d"] intro: keeps_trans)

lemma keeps_result: "keeps st d (snd x) \<Longrightarrow> x = (r, d') \<Longrightarrow> keeps st d d'"
  by simp

lemma snd_on_io [simp]: "snd (on_io f r) = snd r"
  by (simp add: on_io_def split: prod.split sum.split)

lemma on_io_Inr [simp]: "on_io f r = (Inr x, d) \<longleftrightarrow> r = (Inr x, d)"
  by (auto simp: on_io_def split: prod.splits sum.splits)

lemma snd_failed [simp]: "snd (failed e s) = s"
  by (simp add: failed_def)

lemma failed_Inr [simp]: "failed e s = (Inr x, s') \<longleftrightarrow> False"
  by (simp add: failed_def)

lemma snd_io_fail [simp]: "snd (io_fail io k d) = d"
  by (simp add: io_fail_def)

lemma with_disk_Inr [simp]: "with_disk st r = (Inr x, (st', d)) \<longleftrightarrow> st' = st \<and> r = (Inr x, d)"
  by (auto simp: with_disk_def split: prod.splits)

lemma outside_zone: "c \<noteq> ''namespaces'' \<Longrightarrow> \<not> in_zone st (fs_root_path st @ c # cs)"
  by (auto simp: in_zone_def prefix_def)

lemma outside_audit [simp]: "\<not> in_zone st (fs_root_path st @ [''audit_logs''])" "\<not> in_zone st (audit_path st date)"
  by (simp_all add: outside_zone audit_path_def)

lemma zone_not_root: "in_zone st q \<Longrightarrow> q \<noteq> []"
  by (auto simp: in_zone_def prefix_def)

text \<open>The calls.\<close>

lemma lock_file_disk [simp]: "snd (lock_file io p d) = d"
  by (simp add: lock_file_def guarded_def split: option.split)

lemma open_read_disk [simp]: "snd (open_read io p d) = d"
  by (simp add: open_read_def guarded_def split: option.split)

lemma read_file_snd [simp]: "snd (read_file io p d) = d"
  using read_file_disk [of io p d] by (cases "read_file io p d") simp

lemma read_text_snd [simp]: "snd (read_text io p d) = d"
  using read_text_disk [of io p d] by (cases "read_text io p d") simp

lemma create_dir_all_outside: "\<not> in_zone st p \<Longrightarrow> keeps st d (snd (create_dir_all io p d))"
proof -
  assume "\<not> in_zone st p"
  then have "\<not> prefix q p" if "in_zone st q" for q
    using that prefix_order.order_trans [of "fs_root_path st @ [''namespaces'']" q p] by (auto simp: in_zone_def)
  then show ?thesis by (auto simp: keeps_def create_dir_all_def guarded_def node_at_add_dirs split: option.split)
qed

lemma open_write_outside: "\<not> in_zone st p \<Longrightarrow> keeps st d (snd (open_write io tr p d))"
  by (auto simp: keeps_def open_write_def guarded_def split: option.split)

lemma write_bytes_outside: "\<not> in_zone st p \<Longrightarrow> keeps st d (snd (write_bytes io p b d))"
  by (auto simp: keeps_def write_bytes_def split: option.split)

lemma write_file_outside: "\<not> in_zone st p \<Longrightarrow> keeps st d (snd (write_file io p b d))"
  by (auto simp: write_file_def intro!: keeps_bindE open_write_outside write_bytes_outside)

section \<open>Operations that leave it alone\<close>

lemma record_audit_log_keeps: "keeps st d (snd (record_audit_log F t st a act ns key msg d))"
  by (auto simp: record_audit_log_def Let_def split: option.split
      intro!: keeps_bindE create_dir_all_outside open_write_outside write_bytes_outside)

lemma audited_keeps: "keeps st d (snd (audited F t st auth act ns key msg d))"
  by (simp add: audited_def record_audit_log_keeps split: option.split)

lemma read_key_metadata_disk [simp]: "snd (read_key_metadata F st ns key d) = d"
  by (auto simp: read_key_metadata_def Let_def bindE_def split: prod.splits sum.splits dest!: arg_cong [where f = snd])

lemma read_version_data_disk [simp]: "snd (read_version_data F st ns key v d) = d"
  by (auto simp: read_version_data_def Let_def bindE_def split: prod.splits sum.splits dest!: arg_cong [where f = snd])

lemma fs_get_keeps: "keeps st d (snd (fs_get F t auth ns key st d))"
  by (auto simp: fs_get_def permitted_def intro!: keeps_bindE audited_keeps split: sum.split option.split)

section \<open>Files of a key\<close>

lemma root_record [simp]: "fs_root_path (fs_record_for_rollback op st) = fs_root_path st"
  by (simp add: fs_record_for_rollback_def split: list.split)

text \<open>All paths depend on the root only.\<close>

lemma paths_root:
  assumes "fs_root_path st' = fs_root_path st"
  shows "namespace_path st' = namespace_path st" "key_dir_path st' = key_dir_path st" "metadata_path st' = metadata_path st"
    "version_path st' = version_path st" "audit_path st' = audit_path st" "account_path st' = account_path st"
    "in_zone st' = in_zone st" "keeps st' = keeps st"
  using assms
  by (simp_all add: fun_eq_iff namespace_path_def key_dir_path_def metadata_path_def version_path_def audit_path_def
      account_path_def in_zone_def keeps_def)

definition meta_of :: "fenv \<Rightarrow> FileStorage \<Rightarrow> disk \<Rightarrow> string \<Rightarrow> string \<Rightarrow> KeyMetadata option" where
  "meta_of F st d ns key =
     (case node_at d (metadata_path st ns key) of
        Some (Data j) \<Rightarrow>
          if valid_utf8 j then (case key_of_json F j of Inr m \<Rightarrow> Some m | Inl _ \<Rightarrow> None) else None
      | _ \<Rightarrow> None)"

definition data_of :: "FileStorage \<Rightarrow> disk \<Rightarrow> string \<Rightarrow> string \<Rightarrow> u64 \<Rightarrow> bytes option" where
  "data_of st d ns key v = (case node_at d (version_path st ns key v) of Some (Data b) \<Rightarrow> Some b | _ \<Rightarrow> None)"

text \<open>The value a key has: the data of its latest version.\<close>

definition stored :: "fenv \<Rightarrow> FileStorage \<Rightarrow> disk \<Rightarrow> string \<Rightarrow> string \<Rightarrow> bytes option" where
  "stored F st d ns key =
     (case meta_of F st d ns key of
        Some m \<Rightarrow> (case latest m of Some v \<Rightarrow> data_of st d ns key (vi_version v) | None \<Rightarrow> None)
      | None \<Rightarrow> None)"

lemma meta_of_exists: "meta_of F st d ns key = Some m \<Longrightarrow> path_exists d (metadata_path st ns key)"
  by (auto simp: meta_of_def path_exists_def split: option.splits)

lemma read_key_metadata_iff:
  assumes "quiet (fe_io F)"
  shows "read_key_metadata F st ns key d = (Inr m, d') \<longleftrightarrow> meta_of F st d ns key = Some m \<and> d' = d"
proof (cases "node_at d (metadata_path st ns key)")
  case (Some n)
  then show ?thesis
    using assms
    by (cases n)
      (auto simp: read_key_metadata_def meta_of_def Let_def open_read_def lock_file_def read_text_def read_file_def on_io_def
        io_fail_def path_exists_def failed_def split: sum.splits)
qed (simp add: read_key_metadata_def meta_of_def path_exists_def)

lemma read_version_data_iff:
  assumes "quiet (fe_io F)"
  shows "read_version_data F st ns key v d = (Inr b, d') \<longleftrightarrow> data_of st d ns key v = Some b \<and> d' = d"
proof (cases "node_at d (version_path st ns key v)")
  case (Some n)
  then show ?thesis
    using assms
    by (cases n)
      (auto simp: read_version_data_def data_of_def Let_def open_read_def lock_file_def read_file_def on_io_def
        io_fail_def path_exists_def failed_def)
qed (simp add: read_version_data_def data_of_def path_exists_def)

definition with_dirs :: "disk \<Rightarrow> path \<Rightarrow> path \<Rightarrow> node option" where
  "with_dirs d p q = (case node_at d q of Some n \<Rightarrow> Some n | None \<Rightarrow> if prefix q p then Some Directory else None)"

lemma create_dir_all_nodes:
  assumes "quiet io" "create_dir_all io p d = (Inr u, d')"
  shows "node_at d' q = with_dirs d p q"
  using create_dir_all_ok [OF assms] by (simp add: dirs_below_def with_dirs_def)

lemma write_locked_ok:
  assumes "quiet (fe_io F)" "write_locked F ns key p b c1 c2 c3 c4 d = (Inr u, d')"
  shows "node_at d' q = (if q = p then Some (Data b) else with_dirs d (butlast p) q)"
proof -
  from assms obtain d1 d2 where *: "create_dir_all (fe_io F) (butlast p) d = (Inr (), d1)"
    "open_write (fe_io F) True p d1 = (Inr (), d2)" "write_file (fe_io F) p b d2 = (Inr (), d')"
    by (auto simp: write_locked_def Let_def bindE_Inr_iff lock_file_def)
  have "node_at d2 q = node_at d1 q" if "q \<noteq> p"
    using *(2) assms(1) that by (auto simp: open_write_def split: if_splits)
  with write_file_ok [OF assms(1) *(3)] create_dir_all_nodes [OF assms(1) *(1)] show ?thesis by simp
qed

lemma same_cache [simp]: "\<exists>c. st = st\<lparr>fs_account_cache := c\<rparr>"
  by (rule exI [of _ "fs_account_cache st"]) simp

lemma fs_charge_effect:
  assumes "\<not> in_zone st (account_path st (actor auth))" "fs_charge F auth n (st, d) = (r, (st', d'))"
  shows "keeps st d d' \<and> (\<exists>c. st' = st\<lparr>fs_account_cache := c\<rparr>)"
proof (cases "fmlookup (fs_account_cache st) (actor auth)")
  case (Some account)
  then show ?thesis
    using assms
    by (auto simp: fs_charge_def with_disk_def failed_def on_io_def Let_def split: if_splits prod.splits sum.splits
        dest!: keeps_result [OF write_file_outside [OF assms(1)]])
qed (use assms in \<open>simp add: fs_charge_def\<close>)

section \<open>Setting a key\<close>

text \<open>What a successful \<open>fs_set\<close> did: the metadata it wrote, what it recorded, and the disk under \<^verbatim>\<open>namespaces\<close>.\<close>

definition set_meta :: "fenv \<Rightarrow> clock \<Rightarrow> AuthContext option \<Rightarrow> FileStorage \<Rightarrow> disk \<Rightarrow> string \<Rightarrow> string \<Rightarrow> KeyMetadata \<Rightarrow> bool" where
  "set_meta F t auth st d ns key m \<longleftrightarrow>
     (if path_exists d (metadata_path st ns key)
      then \<exists>m0. meta_of F st d ns key = Some m0 \<and> m = next_metadata t (actor auth) m0
      else m = first_metadata t (actor auth) key)"

lemma dir_not_file:
  "key_dir_path st ns key @ [x] \<noteq> key_dir_path st ns key" "\<not> prefix (key_dir_path st ns key @ [x]) (key_dir_path st ns key)"
  by (simp_all add: prefix_def)

lemma with_dirs_file [simp]:
  "with_dirs d (key_dir_path st ns key) (metadata_path st ns key) = node_at d (metadata_path st ns key)"
  "with_dirs d (key_dir_path st ns key) (version_path st ns key v) = node_at d (version_path st ns key v)"
  by (simp_all add: with_dirs_def metadata_path_def version_path_def dir_not_file split: option.split)

lemma butlast_files [simp]:
  "butlast (metadata_path st ns key) = key_dir_path st ns key" "butlast (version_path st ns key v) = key_dir_path st ns key"
  by (simp_all add: metadata_path_def version_path_def)

lemma metadata_not_version [simp]: "metadata_path st ns key \<noteq> version_path st ns' key' v"
  "version_path st ns' key' v \<noteq> metadata_path st ns key"
  by (simp_all add: metadata_path_def version_path_def)

lemma version_path_inject [simp]: "version_path st ns key v = version_path st ns key w \<longleftrightarrow> v = w"
  by (simp add: version_path_def)

lemma zone_files:
  assumes "in_zone st (key_dir_path st ns key)"
  shows "in_zone st (metadata_path st ns key)" "in_zone st (version_path st ns key v)"
  using assms by (simp_all add: in_zone_def metadata_path_def version_path_def)

lemma existing_data_keeps:
  "fs_existing_data F t auth ns key st d = (r, d') \<Longrightarrow> keeps st d d'"
  using fs_get_keeps [of st d F t auth ns key]
  by (auto simp: fs_existing_data_def split: if_splits prod.splits sum.splits fault.splits)

lemma account_growth_effect:
  assumes "\<not> in_zone st (account_path st (actor auth))" "fs_account_growth F auth old n (st, d) = (r, (st', d'))"
  shows "keeps st d d' \<and> (\<exists>c. st' = st\<lparr>fs_account_cache := c\<rparr>)"
  using assms by (auto simp: fs_account_growth_def Let_def split: if_splits dest: fs_charge_effect)

lemma current_version_iff:
  assumes "quiet (fe_io F)"
  shows "fs_current_version F ns key ex st d = (Inr v, d') \<longleftrightarrow> d' = d \<and>
    (if ex then \<exists>m. meta_of F st d ns key = Some m \<and> v = latest m else v = None)"
  using assms by (auto simp: fs_current_version_def bindE_Inr_iff read_key_metadata_iff)

lemma new_metadata_iff:
  assumes "quiet (fe_io F)"
  shows "fs_new_metadata F t user ns key ex st d = (Inr m, d') \<longleftrightarrow> d' = d \<and>
    (if ex then \<exists>m0. meta_of F st d ns key = Some m0 \<and> m = next_metadata t user m0 else m = first_metadata t user key)"
  using assms by (auto simp: fs_new_metadata_def bindE_Inr_iff read_key_metadata_iff)

lemma fs_set_steps:
  assumes "fs_set F t auth ns key v (st, d) = (Inr u, (st', d'))"
  obtains d1 old d2 st1 d3 cur d4 m d5 d6 d7 where
    "fs_check_permission auth ''write'' ns = Inr ()" "fs_namespace_exists st ns d"
    "create_dir_all (fe_io F) (key_dir_path st ns key) d = (Inr (), d1)"
    "fs_existing_data F t auth ns key st d1 = (Inr old, d2)"
    "fs_account_growth F auth old (of_nat (length v)) (st, d2) = (Inr (), (st1, d3))"
    "fs_current_version F ns key (path_exists d1 (metadata_path st ns key)) st1 d3 = (Inr cur, d4)"
    "st' = fs_record_for_rollback (TO_Set ns key old cur) st1"
    "fs_new_metadata F t (actor auth) ns key (path_exists d1 (metadata_path st ns key)) st' d4 = (Inr m, d5)"
    "write_key_metadata F st' ns key m d5 = (Inr (), d6)"
    "write_version_data F st' ns key (vi_version (last (km_versions m))) v d6 = (Inr (), d7)"
    "audited F (t 3) st' auth ''write'' ns (Some key) (''Set v'' @ show_u64 (vi_version (last (km_versions m))) @ '' ('' @
       show_u64 (of_nat (length v)) @ '' bytes)'') d7 = (Inr u, d')"
proof -
  have p: "fs_check_permission auth ''write'' ns = Inr ()" and n: "fs_namespace_exists st ns d"
    using assms by (auto simp: fs_set_def permitted_def split: sum.splits if_splits)
  show ?thesis
    using assms that [OF p n] p n
    by (simp add: fs_set_def permitted_def Let_def bindE_Inr_iff split_paired_Ex) blast
qed

lemma views_root:
  assumes "fs_root_path st' = fs_root_path st"
  shows "meta_of F st' = meta_of F st" "data_of st' = data_of st" "stored F st' = stored F st"
  using paths_root [OF assms] by (simp_all add: fun_eq_iff meta_of_def data_of_def stored_def cong: option.case_cong)

lemma meta_of_keeps: "keeps st d d' \<Longrightarrow> in_zone st (key_dir_path st ns key) \<Longrightarrow> meta_of F st d' ns key = meta_of F st d ns key"
  by (simp add: meta_of_def keepsD zone_files)

lemma meta_of_dirs:
  assumes "\<And>q. node_at d' q = with_dirs d (key_dir_path st ns key) q"
  shows "meta_of F st d' ns key = meta_of F st d ns key" "path_exists d' (metadata_path st ns key) = path_exists d (metadata_path st ns key)"
  by (simp_all add: meta_of_def path_exists_def assms)

lemma with_dirs_idem:
  assumes "\<And>q. Z q \<Longrightarrow> node_at d1 q = with_dirs d p q" "Z q"
  shows "with_dirs d1 p q = with_dirs d p q"
  using assms(1) [OF assms(2)] by (auto simp: with_dirs_def split: option.splits if_splits)

lemma fs_set_effect:
  assumes q: "quiet (fe_io F)" and zone: "in_zone st (key_dir_path st ns key)"
    and user: "\<not> in_zone st (account_path st (actor auth))"
    and set: "fs_set F t auth ns key v (st, d) = (Inr u, (st', d'))"
  obtains d1 old cur c m where
    "create_dir_all (fe_io F) (key_dir_path st ns key) d = (Inr (), d1)"
    "fst (fs_existing_data F t auth ns key st d1) = Inr old"
    "cur = (if path_exists d (metadata_path st ns key) then Option.bind (meta_of F st d ns key) latest else None)"
    "st' = fs_record_for_rollback (TO_Set ns key old cur) (st\<lparr>fs_account_cache := c\<rparr>)"
    "set_meta F t auth st d ns key m"
    "\<And>q. in_zone st q \<Longrightarrow> node_at d' q =
       (if q = metadata_path st ns key then Some (Data (key_json F m))
        else if q = version_path st ns key (vi_version (last (km_versions m))) then Some (Data v)
        else with_dirs d (key_dir_path st ns key) q)"
proof (rule fs_set_steps [OF set])
  let ?k = "key_dir_path st ns key" and ?m = "metadata_path st ns key"
  fix d1 old d2 st1 d3 cur d4 m d5 d6 d7
  assume c: "create_dir_all (fe_io F) ?k d = (Inr (), d1)"
    and e: "fs_existing_data F t auth ns key st d1 = (Inr old, d2)"
    and g: "fs_account_growth F auth old (of_nat (length v)) (st, d2) = (Inr (), (st1, d3))"
    and cv: "fs_current_version F ns key (path_exists d1 ?m) st1 d3 = (Inr cur, d4)"
    and st': "st' = fs_record_for_rollback (TO_Set ns key old cur) st1"
    and nm: "fs_new_metadata F t (actor auth) ns key (path_exists d1 ?m) st' d4 = (Inr m, d5)"
    and wm: "write_key_metadata F st' ns key m d5 = (Inr (), d6)"
    and wv: "write_version_data F st' ns key (vi_version (last (km_versions m))) v d6 = (Inr (), d7)"
    and au: "audited F (t 3) st' auth ''write'' ns (Some key) (''Set v'' @ show_u64 (vi_version (last (km_versions m))) @ '' ('' @
       show_u64 (of_nat (length v)) @ '' bytes)'') d7 = (Inr u, d')"
  note dirs = create_dir_all_nodes [OF q c]
  obtain cc where st1: "st1 = st\<lparr>fs_account_cache := cc\<rparr>" and k3: "keeps st d2 d3"
    using account_growth_effect [OF user g] by auto
  have "fs_root_path st' = fs_root_path st" "fs_root_path st1 = fs_root_path st" by (simp_all add: st' st1)
  note same = this [THEN paths_root(1)] this [THEN paths_root(2)] this [THEN paths_root(3)] this [THEN paths_root(4)]
    this [THEN paths_root(8)] this [THEN views_root(1)]
  have d: "d4 = d3" "d5 = d3" using cv nm by (auto simp: current_version_iff [OF q] new_metadata_iff [OF q])
  have k: "keeps st d1 d3" using existing_data_keeps [OF e] k3 by (rule keeps_trans)
  have meta: "meta_of F st d3 ns key = meta_of F st d ns key" "path_exists d1 ?m = path_exists d ?m"
    using meta_of_keeps [OF k zone, of F] meta_of_dirs(1) [OF dirs, of F] meta_of_dirs(2) [OF dirs] by simp_all
  have d3: "node_at d3 q = with_dirs d ?k q" if "in_zone st q" for q using keepsD [OF k that] dirs by simp
  have d6: "node_at d6 q = (if q = ?m then Some (Data (key_json F m)) else with_dirs d ?k q)" if "in_zone st q" for q
    using write_locked_ok [OF q wm [unfolded write_key_metadata_def], of q] with_dirs_idem [of "in_zone st", OF d3 that] d
    by (simp add: same)
  have d7: "node_at d7 q = (if q = ?m then Some (Data (key_json F m))
      else if q = version_path st ns key (vi_version (last (km_versions m))) then Some (Data v) else with_dirs d ?k q)"
    if "in_zone st q" for q
    using write_locked_ok [OF q wv [unfolded write_version_data_def], of q] d6 [OF that]
    by (auto simp: same with_dirs_def split: option.splits if_splits)
  show thesis
  proof (rule that [OF c])
    show "fst (fs_existing_data F t auth ns key st d1) = Inr old" by (simp add: e)
    show "st' = fs_record_for_rollback (TO_Set ns key old cur) (st\<lparr>fs_account_cache := cc\<rparr>)" by (simp add: st' st1)
    show "cur = (if path_exists d ?m then Option.bind (meta_of F st d ns key) latest else None)"
      using cv by (auto simp: current_version_iff [OF q] same meta)
    show "set_meta F t auth st d ns key m" using nm by (auto simp: new_metadata_iff [OF q] set_meta_def same meta d)
    show "node_at d' q = (if q = ?m then Some (Data (key_json F m))
      else if q = version_path st ns key (vi_version (last (km_versions m))) then Some (Data v) else with_dirs d ?k q)"
      if "in_zone st q" for q
      using keepsD [OF keeps_result [OF audited_keeps au, unfolded same] that] d7 [OF that] by simp
  qed
qed

section \<open>Histories\<close>

text \<open>A key seen through its files: the listed versions with the contents of their data files.\<close>

type_synonym file_history = "(VersionInfo \<times> bytes option) list"

definition history :: "fenv \<Rightarrow> FileStorage \<Rightarrow> disk \<Rightarrow> string \<Rightarrow> string \<Rightarrow> file_history option" where
  "history F st d ns key =
     map_option (\<lambda>m. map (\<lambda>i. (i, data_of st d ns key (vi_version i))) (km_versions m)) (meta_of F st d ns key)"

definition next_number :: "file_history \<Rightarrow> u64" where
  "next_number h = (if h = [] then 1 else vi_version (fst (last h)) + 1)"

definition append_version :: "string \<Rightarrow> u64 \<Rightarrow> bytes \<Rightarrow> file_history \<Rightarrow> file_history" where
  "append_version user time v h =
     h @ [(VersionInfo (next_number h) user time (if h = [] then None else Some (fst (last h))), Some v)]"

definition fresh_number :: "file_history \<Rightarrow> bool" where
  "fresh_number h \<longleftrightarrow> next_number h \<notin> vi_version ` fst ` set h"

definition json_law :: "fenv \<Rightarrow> bool" where
  "json_law F \<longleftrightarrow> (\<forall>m. key_of_json F (key_json F m) = Inr m \<and> valid_utf8 (key_json F m))"

lemma history_root: "fs_root_path st' = fs_root_path st \<Longrightarrow> history F st' = history F st"
  using views_root [of st' st] by (simp add: fun_eq_iff history_def)

lemma stored_history:
  "stored F st d ns key = Option.bind (history F st d ns key) (\<lambda>h. if h = [] then None else snd (last h))"
  by (auto simp: stored_def history_def latest_def last_map split: option.split)

lemma set_meta_versions:
  assumes "set_meta F t auth st d ns key m"
  shows "km_versions m = map fst (append_version (actor auth) (t 1) v (case history F st d ns key of Some h \<Rightarrow> h | None \<Rightarrow> []))"
proof (cases "meta_of F st d ns key")
  case None
  then have "m = first_metadata t (actor auth) key" using assms by (simp add: set_meta_def split: if_splits)
  with None show ?thesis by (simp add: history_def append_version_def next_number_def first_metadata_def)
next
  case (Some m0)
  then have "path_exists d (metadata_path st ns key)" by (rule meta_of_exists)
  with assms Some have "m = next_metadata t (actor auth) m0" by (simp add: set_meta_def)
  with Some show ?thesis
    by (cases "km_versions m0 = []")
      (simp_all add: history_def append_version_def next_number_def next_metadata_def latest_def last_map o_def Let_def)
qed

lemma other_files:
  assumes "key_dir_path st ns' key' \<noteq> key_dir_path st ns key"
  shows "metadata_path st ns' key' \<noteq> metadata_path st ns key" "version_path st ns' key' v \<noteq> version_path st ns key w"
  using assms by (simp_all add: metadata_path_def version_path_def)

lemma history_other:
  assumes n: "\<And>q. in_zone st q \<Longrightarrow> q \<noteq> metadata_path st ns key \<Longrightarrow> q \<noteq> version_path st ns key w \<Longrightarrow> node_at d' q = with_dirs d p q"
    and "in_zone st (key_dir_path st ns' key')" "key_dir_path st ns' key' \<noteq> key_dir_path st ns key"
  shows "history F st d' ns' key' = history F st d ns' key'"
proof -
  note z = zone_files [OF assms(2)] and o = other_files [OF assms(3)]
  have "meta_of F st d' ns' key' = meta_of F st d ns' key'" "data_of st d' ns' key' v = data_of st d ns' key' v" for v
    using n [OF z(1) o(1)] n [OF z(2) _ o(2)]
    by (simp_all add: meta_of_def data_of_def with_dirs_def split: option.split)
  then show ?thesis by (simp add: history_def)
qed

lemma history_same:
  assumes n: "\<And>q. in_zone st q \<Longrightarrow> node_at d' q =
       (if q = metadata_path st ns key then Some (Data (key_json F m))
        else if q = version_path st ns key w then Some (Data v) else with_dirs d (key_dir_path st ns key) q)"
    and z: "in_zone st (key_dir_path st ns key)" and j: "json_law F"
  shows "history F st d' ns key =
    Some (map (\<lambda>i. (i, if vi_version i = w then Some v else data_of st d ns key (vi_version i))) (km_versions m))"
proof -
  have "data_of st d' ns key x = (if x = w then Some v else data_of st d ns key x)" for x
    using n [OF zone_files(2) [OF z], of x] by (simp add: data_of_def)
  moreover have "meta_of F st d' ns key = Some m"
    using n [OF zone_files(1) [OF z]] j by (simp add: meta_of_def json_law_def)
  ultimately show ?thesis by (simp add: history_def)
qed

lemma fs_set_history:
  assumes "quiet (fe_io F)" "json_law F" "in_zone st (key_dir_path st ns key)" "\<not> in_zone st (account_path st (actor auth))"
    "fs_set F t auth ns key v (st, d) = (Inr u, (st', d'))"
    and h: "h = (case history F st d ns key of Some h \<Rightarrow> h | None \<Rightarrow> [])" and fresh: "fresh_number h"
  shows "history F st' d' ns key = Some (append_version (actor auth) (t 1) v h)"
    "in_zone st (key_dir_path st ns' key') \<Longrightarrow> key_dir_path st ns' key' \<noteq> key_dir_path st ns key \<Longrightarrow>
       history F st' d' ns' key' = history F st d ns' key'"
proof -
  obtain old cur c m where st': "st' = fs_record_for_rollback (TO_Set ns key old cur) (st\<lparr>fs_account_cache := c\<rparr>)"
    and m: "set_meta F t auth st d ns key m"
    and n: "\<And>q. in_zone st q \<Longrightarrow> node_at d' q =
       (if q = metadata_path st ns key then Some (Data (key_json F m))
        else if q = version_path st ns key (vi_version (last (km_versions m))) then Some (Data v)
        else with_dirs d (key_dir_path st ns key) q)"
    by (rule fs_set_effect [OF assms(1,3,4,5)]) blast
  have same: "history F st' = history F st" by (rule history_root) (simp add: st')
  have vs: "km_versions m = map fst (append_version (actor auth) (t 1) v h)"
    using set_meta_versions [OF m, of v] h by simp
  then have w: "vi_version (last (km_versions m)) = next_number h" by (simp add: append_version_def)
  have old: "map (\<lambda>i. (i, if vi_version i = next_number h then Some v else data_of st d ns key (vi_version i))) (map fst h) = h"
    using fresh h
    by (auto simp: fresh_number_def history_def image_image image_iff intro!: map_idI split: option.splits)
  show "history F st' d' ns key = Some (append_version (actor auth) (t 1) v h)"
    using history_same [OF n assms(3,2)] old by (simp add: same vs w append_version_def)
  show "history F st' d' ns' key' = history F st d ns' key'"
    if "in_zone st (key_dir_path st ns' key')" "key_dir_path st ns' key' \<noteq> key_dir_path st ns key"
    unfolding same
    by (rule history_other [OF _ that, where w = "vi_version (last (km_versions m))" and p = "key_dir_path st ns key"]) (simp add: n)
qed

section \<open>Reading back\<close>

lemma write_implies_read: "fs_check_permission auth ''write'' ns = Inr () \<Longrightarrow> fs_check_permission auth ''read'' ns = Inr ()"
  by (auto simp: fs_check_permission_def check_permission_internal_def split: option.splits if_splits)

lemma audit_path_butlast [simp]: "butlast (audit_path st date) = fs_root_path st @ [''audit_logs'']" "audit_path st date \<noteq> []"
  by (simp_all add: audit_path_def butlast_append)

text \<open>Once an entry of a day is logged, the next one of that day can be.\<close>

lemma record_audit_log_again:
  assumes q: "quiet (fe_io F)" and r: "record_audit_log F t st a act ns key msg d = (Inr u, d')" and day: "day_text F t' = day_text F t"
  shows "\<exists>d''. record_audit_log F t' st a' act' ns' key' msg' d' = (Inr (), d'')"
proof -
  obtain date where date: "day_text F t = Some date" using r by (auto simp: record_audit_log_def failed_def split: option.splits)
  let ?dir = "fs_root_path st @ [''audit_logs'']" and ?p = "audit_path st date"
  have ne: "?p \<noteq> ?dir" by (simp add: audit_path_def)
  obtain d1 d2 where 1: "open_write (fe_io F) False ?p d1 = (Inr (), d2)"
    and d': "d' = fmupd ?p (Data (file_contents d2 ?p @ audit_json F \<lparr>al_timestamp = t, al_user_id = user_id a, al_action = act,
      al_namespace = ns, al_key = key, al_details = msg\<rparr> @ [newline])) d2"
    using r q by (auto simp: record_audit_log_def date Let_def bindE_Inr_iff lock_file_def write_bytes_def)
  from 1 q have "is_dir d1 ?dir" and d2: "d2 = d1 \<or> d2 = fmupd ?p (Data []) d1" by (auto simp: open_write_def split: if_splits)
  then have dir: "is_dir d' ?dir" using ne by (auto simp: is_dir_def d')
  moreover have "\<not> is_dir d' ?p" "path_exists d' ?p" by (simp_all add: is_dir_def path_exists_def d')
  moreover from dir have "path_exists d' ?dir" by (simp add: is_dir_def path_exists_def)
  ultimately show ?thesis
    using q by (simp add: record_audit_log_def day date Let_def open_write_def lock_file_def write_bytes_def on_io_def)
qed

lemma audited_again:
  assumes "quiet (fe_io F)" "audited F t st auth act ns key msg d = (Inr u, d')" "day_text F t' = day_text F t"
  shows "\<exists>d''. audited F t' st auth act' ns' key' msg' d' = (Inr (), d'')"
  using assms record_audit_log_again by (cases auth) (simp_all add: audited_def)

lemma fs_get_value:
  assumes "quiet (fe_io F)" "fs_check_permission auth ''read'' ns = Inr ()" "fs_namespace_exists st ns d"
    "stored F st d ns key = Some v" "\<And>msg. \<exists>d'. audited F (t 0) st auth ''read'' ns (Some key) msg d = (Inr (), d')"
  shows "fst (fs_get F t auth ns key st d) = Inr v"
proof -
  obtain m i where m: "read_key_metadata F st ns key d = (Inr m, d)" "latest m = Some i"
    and b: "read_version_data F st ns key (vi_version i) d = (Inr v, d)"
    using assms(4) read_key_metadata_iff [OF assms(1)] read_version_data_iff [OF assms(1)]
    by (auto simp: stored_def split: option.splits)
  obtain d' where "audited F (t 0) st auth ''read'' ns (Some key) (''Read version '' @ show_u64 (vi_version i)) d = (Inr (), d')"
    using assms(5) by blast
  with m b assms(2,3) show ?thesis by (simp add: fs_get_def permitted_def)
qed

lemma cache_record [simp]: "fs_namespace_cache (fs_record_for_rollback op st) = fs_namespace_cache st"
  by (simp add: fs_record_for_rollback_def split: list.split)

lemma fs_set_namespace:
  assumes "quiet (fe_io F)" "in_zone st (namespace_path st ns)" "in_zone st (key_dir_path st ns key)"
    "\<not> in_zone st (account_path st (actor auth))" "fs_set F t auth ns key v (st, d) = (Inr u, (st', d'))"
  shows "fs_namespace_exists st' ns d'"
proof -
  have "fs_namespace_exists st ns d" by (rule fs_set_steps [OF assms(5)])
  moreover obtain old cur c m where st': "st' = fs_record_for_rollback (TO_Set ns key old cur) (st\<lparr>fs_account_cache := c\<rparr>)"
    and n: "\<And>q. in_zone st q \<Longrightarrow> node_at d' q =
       (if q = metadata_path st ns key then Some (Data (key_json F m))
        else if q = version_path st ns key (vi_version (last (km_versions m))) then Some (Data v)
        else with_dirs d (key_dir_path st ns key) q)"
    by (rule fs_set_effect [OF assms(1,3-5)]) blast
  moreover have "namespace_path st' = namespace_path st" by (rule paths_root) (simp add: st')
  ultimately show ?thesis
    using n [OF assms(2)] by (auto simp: fs_namespace_exists_def path_exists_def with_dirs_def split: option.splits if_splits)
qed

lemma fs_set_stored:
  assumes "quiet (fe_io F)" "json_law F" "in_zone st (key_dir_path st ns key)" "\<not> in_zone st (account_path st (actor auth))"
    "fs_set F t auth ns key v (st, d) = (Inr u, (st', d'))"
  shows "stored F st' d' ns key = Some v"
proof -
  obtain old cur c m where st': "st' = fs_record_for_rollback (TO_Set ns key old cur) (st\<lparr>fs_account_cache := c\<rparr>)"
    and m: "set_meta F t auth st d ns key m"
    and n: "\<And>q. in_zone st q \<Longrightarrow> node_at d' q =
       (if q = metadata_path st ns key then Some (Data (key_json F m))
        else if q = version_path st ns key (vi_version (last (km_versions m))) then Some (Data v)
        else with_dirs d (key_dir_path st ns key) q)"
    by (rule fs_set_effect [OF assms(1,3-5)]) blast
  have "stored F st' = stored F st" by (rule views_root) (simp add: st')
  moreover have "km_versions m \<noteq> []" using set_meta_versions [OF m, of v] by (simp add: append_version_def)
  ultimately show ?thesis using history_same [OF n assms(3,2)] by (simp add: stored_history last_map)
qed


text \<open>
  C8: On a disk without faults the files of a key refine a list of versions: a successful \<open>fs_set\<close> appends one version to
  the history of its key, keeps all older versions and their data, and changes the history of no other key.
\<close>

theorem file_set_appends:
  assumes "quiet (fe_io F)" "json_law F" "in_zone st (key_dir_path st ns key)" "\<not> in_zone st (account_path st (actor auth))"
    "fs_set F t auth ns key v (st, d) = (Inr u, (st', d'))"
    "h = (case history F st d ns key of Some h \<Rightarrow> h | None \<Rightarrow> [])" "fresh_number h"
  shows "history F st' d' ns key = Some (append_version (actor auth) (t 1) v h) \<and>
    (\<forall>ns' key'. in_zone st (key_dir_path st ns' key') \<and> key_dir_path st ns' key' \<noteq> key_dir_path st ns key \<longrightarrow>
       history F st' d' ns' key' = history F st d ns' key')"
  using fs_set_history [OF assms] by blast

end
