(* ===== verification/File_Rollback.thy ===== *)
theory File_Rollback
  imports File_Views
begin

text \<open>
  Transactions of the file storage. On a tidy disk, one whose \<^verbatim>\<open>namespaces\<close> directory holds only keys with complete
  histories, rolling back a transaction of sets gives every key back its history.
\<close>

section \<open>Beside the namespaces directory\<close>

text \<open>No file stands where the path to the \<^verbatim>\<open>namespaces\<close> directory leads, and the audit log can be written.\<close>

definition audit_ready :: "FileStorage \<Rightarrow> disk \<Rightarrow> bool" where
  "audit_ready st d \<longleftrightarrow> is_dir d (fs_root_path st @ [''audit_logs'']) \<and> (\<forall>date. \<not> is_dir d (audit_path st date))"

definition clear_way :: "FileStorage \<Rightarrow> disk \<Rightarrow> bool" where
  "clear_way st d \<longleftrightarrow> (\<forall>q. prefix q (fs_root_path st @ [''namespaces'']) \<longrightarrow> \<not> is_file d q)"

definition aside :: "FileStorage \<Rightarrow> disk \<Rightarrow> disk \<Rightarrow> bool" where
  "aside st d d' \<longleftrightarrow> (audit_ready st d \<longrightarrow> audit_ready st d') \<and> (clear_way st d \<longrightarrow> clear_way st d')"

lemma aside_refl [simp]: "aside st d d"
  by (simp add: aside_def)

lemma aside_trans [trans]: "aside st d d1 \<Longrightarrow> aside st d1 d2 \<Longrightarrow> aside st d d2"
  by (simp add: aside_def)

lemma aside_bindE:
  assumes "aside st d (snd m)" "\<And>x d1. m = (Inr x, d1) \<Longrightarrow> aside st d1 (snd (f x d1))"
  shows "aside st d (snd (bindE m f))"
  using assms by (auto intro!: bindE_preserves [where P = "aside st d"] intro: aside_trans)

lemma aside_result: "aside st d (snd x) \<Longrightarrow> x = (r, d') \<Longrightarrow> aside st d d'"
  by simp

lemma aside_root:
  assumes "fs_root_path st' = fs_root_path st"
  shows "aside st' = aside st"
  unfolding aside_def audit_ready_def clear_way_def paths_root(5) [OF assms] assms ..

definition no_obstacle :: "FileStorage \<Rightarrow> path \<Rightarrow> bool" where
  "no_obstacle st p \<longleftrightarrow> \<not> prefix p (fs_root_path st @ [''namespaces'']) \<and> p \<noteq> fs_root_path st @ [''audit_logs'']"

lemma aside_fmupd: "no_obstacle st p \<Longrightarrow> aside st d (fmupd p (Data b) d)"
  by (auto simp: no_obstacle_def aside_def audit_ready_def clear_way_def is_dir_def is_file_def)

lemma open_write_aside: "no_obstacle st p \<Longrightarrow> aside st d (snd (open_write io tr p d))"
  by (auto simp: open_write_def guarded_def intro: aside_fmupd split: option.split)

lemma write_bytes_aside: "no_obstacle st p \<Longrightarrow> aside st d (snd (write_bytes io p b d))"
  by (auto simp: write_bytes_def intro: aside_fmupd split: option.split)

lemma write_file_aside: "no_obstacle st p \<Longrightarrow> aside st d (snd (write_file io p b d))"
  by (auto simp: write_file_def intro!: aside_bindE open_write_aside write_bytes_aside)

lemma create_dir_all_aside:
  assumes "\<And>date. \<not> prefix (audit_path st date) p"
  shows "aside st d (snd (create_dir_all io p d))"
  using assms
  by (auto simp: aside_def audit_ready_def clear_way_def is_dir_def is_file_def create_dir_all_def guarded_def node_at_add_dirs
      split: option.split)

lemma audit_paths_aside [simp]:
  "no_obstacle st (audit_path st date)" "audit_path st date \<noteq> fs_root_path st @ [''audit_logs'']"
  "\<not> prefix (audit_path st date) (fs_root_path st)"
  by (auto simp: no_obstacle_def audit_path_def prefix_def)

lemma record_audit_log_aside: "aside st d (snd (record_audit_log F t st a act ns key msg d))"
  by (auto simp: record_audit_log_def Let_def split: option.split
      intro!: aside_bindE create_dir_all_aside open_write_aside write_bytes_aside)

lemma audited_aside: "aside st d (snd (audited F t st auth act ns key msg d))"
  by (simp add: audited_def record_audit_log_aside split: option.split)

lemma fs_get_aside: "aside st d (snd (fs_get F t auth ns key st d))"
  by (auto simp: fs_get_def permitted_def intro!: aside_bindE audited_aside split: sum.split option.split)

lemma existing_data_aside: "fs_existing_data F t auth ns key st d = (r, d') \<Longrightarrow> aside st d d'"
  using fs_get_aside [of st d F t auth ns key]
  by (auto simp: fs_existing_data_def split: if_splits prod.splits sum.splits fault.splits)

lemma account_growth_aside:
  assumes "no_obstacle st (account_path st (actor auth))" "fs_account_growth F auth old n (st, d) = (r, (st', d'))"
  shows "aside st d d'"
  using assms
  by (auto simp: fs_account_growth_def fs_charge_def with_disk_def failed_def on_io_def Let_def
      split: option.splits if_splits prod.splits sum.splits dest!: aside_result [OF write_file_aside [OF assms(1)]])

lemma write_locked_aside:
  assumes "no_obstacle st p" "\<And>date. \<not> prefix (audit_path st date) (butlast p)"
  shows "aside st d (snd (write_locked F ns key p b c1 c2 c3 c4 d))"
  using assms
  by (auto simp: write_locked_def Let_def intro!: aside_bindE create_dir_all_aside open_write_aside write_file_aside)

lemma zone_aside:
  assumes "in_zone st p"
  shows "\<not> prefix (audit_path st date) p" "\<not> prefix (audit_path st date) (butlast p)" "p \<noteq> fs_root_path st @ [''audit_logs'']"
proof -
  show 1: "\<not> prefix (audit_path st date) p" for date
    using assms by (auto simp: in_zone_def audit_path_def prefix_def)
  show "p \<noteq> fs_root_path st @ [''audit_logs'']" using assms by (auto simp: in_zone_def prefix_def)
  show "\<not> prefix (audit_path st date) (butlast p)"
    using 1 prefix_order.order_trans [of "audit_path st date" "butlast p" p] by (auto simp: prefixeq_butlast)
qed

lemma key_files_aside:
  assumes "in_zone st (key_dir_path st ns key)"
  shows "aside st d (snd (write_key_metadata F st ns key m d))" "aside st d (snd (write_version_data F st ns key v b d))"
proof -
  have "no_obstacle st (metadata_path st ns key)" "no_obstacle st (version_path st ns key v)"
    using assms by (auto simp: no_obstacle_def metadata_path_def version_path_def in_zone_def prefix_def)
  then show "aside st d (snd (write_key_metadata F st ns key m d))" "aside st d (snd (write_version_data F st ns key v b d))"
    using zone_aside(1) [OF assms] by (simp_all add: write_key_metadata_def write_version_data_def write_locked_aside)
qed

lemma fs_set_aside:
  assumes zone: "in_zone st (key_dir_path st ns key)" and user: "no_obstacle st (account_path st (actor auth))"
    "\<not> in_zone st (account_path st (actor auth))"
    and set: "fs_set F t auth ns key v (st, d) = (Inr u, (st', d'))"
  shows "aside st d d'"
proof (rule fs_set_steps [OF set])
  fix d1 old d2 st1 d3 cur d4 m d5 d6 d7
  assume c: "create_dir_all (fe_io F) (key_dir_path st ns key) d = (Inr (), d1)"
    and e: "fs_existing_data F t auth ns key st d1 = (Inr old, d2)"
    and g: "fs_account_growth F auth old (of_nat (length v)) (st, d2) = (Inr (), (st1, d3))"
    and cv: "fs_current_version F ns key (path_exists d1 (metadata_path st ns key)) st1 d3 = (Inr cur, d4)"
    and st': "st' = fs_record_for_rollback (TO_Set ns key old cur) st1"
    and nm: "fs_new_metadata F t (actor auth) ns key (path_exists d1 (metadata_path st ns key)) st' d4 = (Inr m, d5)"
    and wm: "write_key_metadata F st' ns key m d5 = (Inr (), d6)"
    and wv: "write_version_data F st' ns key (vi_version (last (km_versions m))) v d6 = (Inr (), d7)"
    and au: "audited F (t 3) st' auth ''write'' ns (Some key) (''Set v'' @ show_u64 (vi_version (last (km_versions m))) @ '' ('' @
       show_u64 (of_nat (length v)) @ '' bytes)'') d7 = (Inr u, d')"
  have root: "fs_root_path st' = fs_root_path st" using account_growth_effect [OF user(2) g] by (auto simp: st')
  have d: "d4 = d3" "d5 = d3"
    using cv nm read_key_metadata_disk by (auto simp: fs_current_version_def fs_new_metadata_def bindE_def
        split: if_splits prod.splits sum.splits dest!: arg_cong [where f = snd])
  have "aside st d d1" by (rule aside_result [OF create_dir_all_aside c]) (rule zone_aside(1) [OF zone])
  also have "aside st d1 d2" by (rule existing_data_aside [OF e])
  also have "aside st d2 d3" by (rule account_growth_aside [OF user(1) g])
  also have "aside st d3 d6" using aside_result [OF key_files_aside(1) wm [unfolded d]] zone by (simp add: aside_root [OF root] paths_root [OF root])
  also have "aside st d6 d7" using aside_result [OF key_files_aside(2) wv] zone by (simp add: aside_root [OF root] paths_root [OF root])
  also have "aside st d7 d'"
    using aside_result [OF audited_aside au] by (simp add: aside_root [OF root])
  finally show "aside st d d'" .
qed

section \<open>Plain names\<close>

definition plain_name :: "string \<Rightarrow> bool" where
  "plain_name n \<longleftrightarrow> n \<noteq> [] \<and> n \<noteq> ''.'' \<and> n \<noteq> ''..'' \<and> CHR ''/'' \<notin> set n"

abbreviation zone_root :: "FileStorage \<Rightarrow> path" where
  "zone_root st \<equiv> fs_root_path st @ [''namespaces'']"

lemma path_join_plain: "plain_name n \<Longrightarrow> path_join_name p n = p @ [n]"
  by (cases n) (auto simp: path_join_name_def split_char_absent plain_name_def starts_with_def)

lemma plain_paths:
  assumes "plain_name ns" "plain_name key"
  shows "namespace_path st ns = zone_root st @ [ns]" "key_dir_path st ns key = zone_root st @ [ns, ''keys'', key]"
  using assms by (simp_all add: namespace_path_def key_dir_path_def path_join_plain)

lemma plain_zone:
  assumes "plain_name ns" "plain_name key"
  shows "in_zone st (namespace_path st ns)" "in_zone st (key_dir_path st ns key)"
  using assms by (simp_all add: plain_paths in_zone_def)

lemma plain_account:
  assumes "CHR ''/'' \<notin> set user"
  shows "\<not> in_zone st (account_path st user)" "no_obstacle st (account_path st user)"
proof -
  have "plain_name (user @ ''.json'')" using assms by (cases user) (auto simp: plain_name_def)
  then have "account_path st user = fs_root_path st @ [''accounts'', user @ ''.json'']"
    by (simp add: account_path_def path_join_plain)
  then show "\<not> in_zone st (account_path st user)" "no_obstacle st (account_path st user)"
    by (auto simp: in_zone_def no_obstacle_def prefix_def)
qed

section \<open>Tidy disks\<close>

text \<open>A complete history numbers its versions from one, has the data of each and room for \<open>N\<close> more.\<close>

definition full_history :: "nat \<Rightarrow> file_history \<Rightarrow> bool" where
  "full_history N h \<longleftrightarrow> h \<noteq> [] \<and> (\<forall>x \<in> set h. snd x \<noteq> None) \<and>
     map (\<lambda>x. unat (vi_version (fst x))) h = [1..<Suc (length h)] \<and> length h + N < 2 ^ 64"

definition tidy_key :: "fenv \<Rightarrow> FileStorage \<Rightarrow> nat \<Rightarrow> disk \<Rightarrow> string \<Rightarrow> string \<Rightarrow> bool" where
  "tidy_key F st N d ns key \<longleftrightarrow>
     \<not> is_file d (zone_root st @ [ns]) \<and> \<not> is_file d (zone_root st @ [ns, ''keys'']) \<and> \<not> is_file d (key_dir_path st ns key) \<and>
     \<not> is_dir d (metadata_path st ns key) \<and> (\<forall>v. \<not> is_dir d (version_path st ns key v)) \<and>
     (path_exists d (metadata_path st ns key) \<longrightarrow>
        is_dir d (key_dir_path st ns key) \<and> (\<exists>h. history F st d ns key = Some h \<and> full_history N h))"

definition tidy :: "fenv \<Rightarrow> FileStorage \<Rightarrow> nat \<Rightarrow> disk \<Rightarrow> bool" where
  "tidy F st N d \<longleftrightarrow> audit_ready st d \<and> clear_way st d \<and>
     (\<forall>ns key. plain_name ns \<longrightarrow> plain_name key \<longrightarrow> tidy_key F st N d ns key)"

lemma tidyD: "tidy F st N d \<Longrightarrow> plain_name ns \<Longrightarrow> plain_name key \<Longrightarrow> tidy_key F st N d ns key"
  by (simp add: tidy_def)

lemma full_history_mono: "full_history N h \<Longrightarrow> N' \<le> N \<Longrightarrow> full_history N' h"
  by (simp add: full_history_def)

lemma complete_last:
  assumes "full_history N h"
  shows "unat (vi_version (fst (last h))) = length h"
proof -
  have m: "map (\<lambda>x. unat (vi_version (fst x))) h = [1..<Suc (length h)]" and ne: "h \<noteq> []" "1 \<le> length h"
    using assms by (auto simp only: full_history_def Suc_le_eq length_greater_0_conv One_nat_def)
  have "unat (vi_version (fst (last h))) = last (map (\<lambda>x. unat (vi_version (fst x))) h)" using ne(1) by (simp add: last_map)
  also have "\<dots> = length h" unfolding m upt_Suc_append [OF ne(2)] by simp
  finally show ?thesis .
qed

lemma full_history_last: "full_history N h \<Longrightarrow> \<exists>b. snd (last h) = Some b"
  unfolding full_history_def using last_in_set [of h] by blast

lemma complete_next:
  assumes "h = [] \<or> full_history N h" "length h + 1 < 2 ^ 64"
  shows "unat (next_number h) = Suc (length h)"
proof (cases "h = []")
  case False
  then have l: "unat (vi_version (fst (last h))) = length h" using assms(1) complete_last by blast
  then have "unat (vi_version (fst (last h)) + 1) = Suc (length h)"
    using assms(2) by (simp add: unat_word_ariths)
  with False show ?thesis by (simp add: next_number_def)
qed (simp add: next_number_def)

lemma complete_numbers:
  assumes "full_history N h" "x \<in> set h"
  shows "unat (vi_version (fst x)) \<le> length h"
proof -
  have "unat (vi_version (fst x)) \<in> set (map (\<lambda>x. unat (vi_version (fst x))) h)" using assms(2) by auto
  also have "\<dots> = {1..<Suc (length h)}" using assms(1) by (simp only: full_history_def set_upt)
  finally show ?thesis by simp
qed

lemma complete_fresh: "h = [] \<or> full_history (Suc N) h \<Longrightarrow> fresh_number h"
proof (cases "h = []")
  case False
  moreover assume "h = [] \<or> full_history (Suc N) h"
  ultimately have c: "full_history (Suc N) h" by simp
  then have "unat (next_number h) = Suc (length h)" using complete_next [of h "Suc N"] by (simp add: full_history_def)
  then have "next_number h \<noteq> vi_version (fst x)" if "x \<in> set h" for x using complete_numbers [OF c that] by auto
  then show ?thesis by (auto simp: fresh_number_def)
qed (simp add: fresh_number_def)

lemma complete_append:
  assumes "h = [] \<and> N + 1 < 2 ^ 64 \<or> full_history (Suc N) h"
  shows "full_history N (append_version user time v h)"
proof -
  have "length h + N + 1 < 2 ^ 64" using assms by (auto simp: full_history_def)
  moreover from this have "unat (next_number h) = Suc (length h)" using complete_next [of h "Suc N"] assms by auto
  ultimately show ?thesis using assms by (auto simp: full_history_def append_version_def)
qed

text \<open>Writing files of one key directory.\<close>

definition wrote :: "FileStorage \<Rightarrow> path \<Rightarrow> disk \<Rightarrow> disk \<Rightarrow> bool" where
  "wrote st k d d' \<longleftrightarrow> (\<forall>q. in_zone st q \<longrightarrow>
     (if q \<noteq> [] \<and> butlast q = k then is_dir d' q \<longrightarrow> is_dir d q else node_at d' q = with_dirs d k q))"

lemma wroteI:
  assumes "\<And>q. in_zone st q \<Longrightarrow> node_at d' q =
     (if q = metadata_path st ns key then Some (Data j) else if q = version_path st ns key w then Some (Data b)
      else with_dirs d (key_dir_path st ns key) q)"
  shows "wrote st (key_dir_path st ns key) d d'"
  unfolding wrote_def
proof (intro allI impI)
  fix q
  assume z: "in_zone st q"
  show "if q \<noteq> [] \<and> butlast q = key_dir_path st ns key then is_dir d' q \<longrightarrow> is_dir d q
    else node_at d' q = with_dirs d (key_dir_path st ns key) q"
  proof (cases "q \<noteq> [] \<and> butlast q = key_dir_path st ns key")
    case True
    then have q: "q = key_dir_path st ns key @ [last q]" by (metis append_butlast_last_id)
    have "\<not> prefix q (key_dir_path st ns key)" by (subst q) (rule dir_not_file)
    then have "with_dirs d (key_dir_path st ns key) q = node_at d q" by (simp add: with_dirs_def split: option.split)
    with True assms [OF z] show ?thesis by (auto simp: is_dir_def)
  next
    case False
    then have "q \<noteq> metadata_path st ns key" "q \<noteq> version_path st ns key w" by (auto simp: metadata_path_def version_path_def)
    with False assms [OF z] show ?thesis by auto
  qed
qed

lemma not_prefix_butlast: "q \<noteq> [] \<Longrightarrow> \<not> prefix q (butlast q)"
  using prefix_length_le [of q "butlast q"] by (cases q) auto

lemma wrote_dirs: "(\<And>q. node_at d' q = with_dirs d k q) \<Longrightarrow> wrote st k d d'"
  by (auto simp: wrote_def is_dir_def with_dirs_def not_prefix_butlast split: option.splits)

lemma with_dirs_keeps:
  assumes "node_at d' q = with_dirs d k q"
  shows "is_file d' q = is_file d q" "is_dir d q \<Longrightarrow> is_dir d' q"
  using assms by (auto simp: with_dirs_def is_file_def is_dir_def split: option.splits if_splits)

lemma wrote_elsewhere: "wrote st k d d' \<Longrightarrow> in_zone st q \<Longrightarrow> butlast q \<noteq> k \<Longrightarrow> node_at d' q = with_dirs d k q"
  by (auto simp: wrote_def)

lemma tidy_key_wrote:
  assumes t: "tidy_key F st N d ns key" and w: "wrote st (key_dir_path st ns key) d d'"
    and p: "plain_name ns" "plain_name key"
    and h: "path_exists d' (metadata_path st ns key) \<Longrightarrow> \<exists>h. history F st d' ns key = Some h \<and> full_history N' h"
  shows "tidy_key F st N' d' ns key"
proof -
  let ?k = "key_dir_path st ns key"
  have n: "node_at d' q = with_dirs d ?k q" if "q = zone_root st @ [ns] \<or> q = zone_root st @ [ns, ''keys''] \<or> q = ?k" for q
    using wrote_elsewhere [OF w, of q] that by (auto simp: plain_paths [OF p] in_zone_def butlast_append)
  have f: "is_dir d' q \<Longrightarrow> is_dir d q" if "q = metadata_path st ns key \<or> q = version_path st ns key v" for q v
    using w that zone_files [OF plain_zone(2) [OF p]] by (auto simp: wrote_def zone_not_root)
  have k: "is_dir d' ?k"
    using n [of ?k] t by (auto simp: tidy_key_def is_dir_def is_file_def with_dirs_def split: option.splits node.splits)
  have "\<not> is_file d' (zone_root st @ [ns])" "\<not> is_file d' (zone_root st @ [ns, ''keys''])"
    using n [of "zone_root st @ [ns]"] n [of "zone_root st @ [ns, ''keys'']"] t
    by (auto simp: tidy_key_def is_file_def with_dirs_def split: option.splits if_splits)
  moreover have "\<not> is_file d' ?k" using k by (simp add: is_dir_def is_file_def)
  ultimately show ?thesis using t k f h by (auto simp: tidy_key_def)
qed

lemma wrote_other:
  assumes w: "wrote st (key_dir_path st ns key) d d'" and p: "plain_name ns" "plain_name key"
    and p': "plain_name ns'" "plain_name key'" and ne: "(ns', key') \<noteq> (ns, key)"
  shows "node_at d' (metadata_path st ns' key') = node_at d (metadata_path st ns' key')"
    "node_at d' (version_path st ns' key' v) = node_at d (version_path st ns' key' v)"
    "node_at d' (key_dir_path st ns' key') = with_dirs d (key_dir_path st ns key) (key_dir_path st ns' key')"
    "node_at d' (zone_root st @ [ns']) = with_dirs d (key_dir_path st ns key) (zone_root st @ [ns'])"
    "node_at d' (zone_root st @ [ns', ''keys'']) = with_dirs d (key_dir_path st ns key) (zone_root st @ [ns', ''keys''])"
proof -
  note z = plain_zone(2) [OF p', of st]
  have w': "node_at d' q = with_dirs d (key_dir_path st ns key) q" if "in_zone st q" "butlast q \<noteq> key_dir_path st ns key" for q
    using w that by (rule wrote_elsewhere)
  have k: "key_dir_path st ns' key' \<noteq> key_dir_path st ns key" using ne by (simp add: plain_paths p p')
  have "\<not> prefix (metadata_path st ns' key') (key_dir_path st ns key)" "\<not> prefix (version_path st ns' key' v) (key_dir_path st ns key)"
    by (auto simp: metadata_path_def version_path_def plain_paths p p' prefix_def)
  then show "node_at d' (metadata_path st ns' key') = node_at d (metadata_path st ns' key')"
    "node_at d' (version_path st ns' key' v) = node_at d (version_path st ns' key' v)"
    using w' [OF zone_files(1) [OF z]] w' [OF zone_files(2) [OF z]] k by (simp_all add: with_dirs_def split: option.split)
  show "node_at d' (key_dir_path st ns' key') = with_dirs d (key_dir_path st ns key) (key_dir_path st ns' key')"
    using w' [OF z] by (simp add: plain_paths p p' butlast_append)
  show "node_at d' (zone_root st @ [ns']) = with_dirs d (key_dir_path st ns key) (zone_root st @ [ns'])"
    "node_at d' (zone_root st @ [ns', ''keys'']) = with_dirs d (key_dir_path st ns key) (zone_root st @ [ns', ''keys''])"
    using w' [of "zone_root st @ [ns']"] w' [of "zone_root st @ [ns', ''keys'']"]
    by (simp_all add: plain_paths p in_zone_def butlast_append)
qed

lemma history_nodes:
  assumes "node_at d' (metadata_path st ns key) = node_at d (metadata_path st ns key)"
    "\<And>v. node_at d' (version_path st ns key v) = node_at d (version_path st ns key v)"
  shows "history F st d' ns key = history F st d ns key"
  by (simp add: history_def meta_of_def data_of_def assms)

lemma tidy_wrote:
  assumes t: "tidy F st N d" and w: "wrote st (key_dir_path st ns key) d d'" and a: "aside st d d'" and N: "N' \<le> N"
    and p: "plain_name ns" "plain_name key"
    and h: "path_exists d' (metadata_path st ns key) \<Longrightarrow> \<exists>h. history F st d' ns key = Some h \<and> full_history N' h"
  shows "tidy F st N' d'"
proof -
  have "tidy_key F st N' d' ns' key'" if p': "plain_name ns'" "plain_name key'" for ns' key'
  proof (cases "(ns', key') = (ns, key)")
    case True
    with tidy_key_wrote [OF tidyD [OF t p] w p h] show ?thesis by simp
  next
    case False
    note o = wrote_other [OF w p p' False] and tk = tidyD [OF t p']
    have "history F st d' ns' key' = history F st d ns' key'" by (rule history_nodes) (rule o)+
    moreover have "is_dir d' (metadata_path st ns' key') = is_dir d (metadata_path st ns' key')"
      "path_exists d' (metadata_path st ns' key') = path_exists d (metadata_path st ns' key')"
      "is_dir d' (version_path st ns' key' v) = is_dir d (version_path st ns' key' v)" for v
      by (simp_all add: is_dir_def path_exists_def o)
    moreover note with_dirs_keeps [OF o(3)] with_dirs_keeps [OF o(4)] with_dirs_keeps [OF o(5)]
    ultimately show ?thesis using tk full_history_mono [OF _ N] unfolding tidy_key_def by (simp only: simp_thms) blast
  qed
  then show ?thesis using t a by (simp add: tidy_def aside_def)
qed

section \<open>A set and its undoing\<close>

lemma record_audit_log_ready:
  assumes "quiet (fe_io F)" "day_text F t = Some date" "audit_ready st d"
  shows "\<exists>d'. record_audit_log F t st a act ns key msg d = (Inr (), d')"
proof -
  have "is_dir d (fs_root_path st @ [''audit_logs''])" "path_exists d (fs_root_path st @ [''audit_logs''])"
    "\<not> is_dir d (audit_path st date)"
    using assms(3) by (auto simp: audit_ready_def is_dir_def path_exists_def)
  with assms(1,2) show ?thesis
    by (simp add: record_audit_log_def Let_def open_write_def lock_file_def write_bytes_def on_io_def)
qed

text \<open>What a set in a transaction records of the history it finds.\<close>

definition records :: "string \<Rightarrow> string \<Rightarrow> file_history option \<Rightarrow> TransactionOp \<Rightarrow> bool" where
  "records ns key ho op \<longleftrightarrow>
     (case ho of None \<Rightarrow> \<exists>cur. op = TO_Set ns key None cur
      | Some h \<Rightarrow> op = TO_Set ns key (snd (last h)) (Some (fst (last h))))"

lemma existing_data_tidy:
  assumes q: "quiet (fe_io F)" and day: "\<And>x. day_text F x \<noteq> None" and t: "tidy F st N d" and p: "plain_name ns" "plain_name key"
    and c: "create_dir_all (fe_io F) (key_dir_path st ns key) d = (Inr (), d1)"
    and perm: "fs_check_permission auth ''write'' ns = Inr ()" and n: "fs_namespace_exists st ns d"
    and e: "fst (fs_existing_data F t' auth ns key st d1) = Inr old"
  shows "old = (case history F st d ns key of None \<Rightarrow> None | Some h \<Rightarrow> snd (last h))"
proof -
  note dirs = create_dir_all_nodes [OF q c]
  have files: "node_at d1 (metadata_path st ns key) = node_at d (metadata_path st ns key)"
    "node_at d1 (version_path st ns key v) = node_at d (version_path st ns key v)" for v
    by (simp_all add: dirs)
  have h1: "history F st d1 ns key = history F st d ns key" by (rule history_nodes) (rule files)+
  have ex: "path_exists d1 (metadata_path st ns key) = path_exists d (metadata_path st ns key)" by (simp add: path_exists_def dirs)
  show ?thesis
  proof (cases "path_exists d (metadata_path st ns key)")
    case False
    then have "history F st d ns key = None" by (auto simp: history_def meta_of_def path_exists_def)
    with e False ex show ?thesis by (simp add: fs_existing_data_def)
  next
    case True
    then obtain h where h: "history F st d ns key = Some h" "full_history N h" using tidyD [OF t p] by (auto simp: tidy_key_def)
    then obtain b where b: "snd (last h) = Some b" using full_history_last by blast
    obtain a where a: "auth = Some a" using perm by (cases auth) (simp_all add: fs_check_permission_def)
    have "audit_ready st d1"
      using t aside_result [OF create_dir_all_aside c] zone_aside(1) [OF plain_zone(2) [OF p]] by (auto simp: aside_def tidy_def)
    then have au: "\<exists>d'. audited F (t' 0) st auth ''read'' ns (Some key) msg d1 = (Inr (), d')" for msg
      using record_audit_log_ready [OF q, of "t' 0" _ st d1] day [of "t' 0"] by (auto simp: audited_def a)
    have "fs_namespace_exists st ns d1"
      using n dirs by (auto simp: fs_namespace_exists_def path_exists_def with_dirs_def split: option.splits)
    moreover have "stored F st d1 ns key = Some b" using h b by (simp add: stored_history h1 full_history_def)
    ultimately have "fst (fs_get F t' auth ns key st d1) = Inr b"
      using fs_get_value [where t = t', OF q write_implies_read [OF perm] _ _ au] by blast
    with e True ex h b show ?thesis by (cases "fs_get F t' auth ns key st d1") (auto simp: fs_existing_data_def)
  qed
qed

lemma fs_set_tidy:
  assumes q: "quiet (fe_io F)" and j: "json_law F" and day: "\<And>x. day_text F x \<noteq> None" and t: "tidy F st (Suc N) d"
    and N: "Suc N < 2 ^ 64" and p: "plain_name ns" "plain_name key" and user: "CHR ''/'' \<notin> set (actor auth)"
    and set: "fs_set F t' auth ns key v (st, d) = (Inr u, (st', d'))"
  obtains op c where "st' = fs_record_for_rollback op (st\<lparr>fs_account_cache := c\<rparr>)" "tidy F st N d'"
    "records ns key (history F st d ns key) op"
    "history F st d' ns key = Some (append_version (actor auth) (t' 1) v (case history F st d ns key of Some h \<Rightarrow> h | None \<Rightarrow> []))"
    "\<And>ns' key'. plain_name ns' \<Longrightarrow> plain_name key' \<Longrightarrow> (ns', key') \<noteq> (ns, key) \<Longrightarrow> history F st d' ns' key' = history F st d ns' key'"
proof -
  note z = plain_zone(2) [OF p] and o = plain_account [OF user]
  obtain d1 old cur c m where
    cr: "create_dir_all (fe_io F) (key_dir_path st ns key) d = (Inr (), d1)"
    and e: "fst (fs_existing_data F t' auth ns key st d1) = Inr old"
    and cur: "cur = (if path_exists d (metadata_path st ns key) then Option.bind (meta_of F st d ns key) latest else None)"
    and st': "st' = fs_record_for_rollback (TO_Set ns key old cur) (st\<lparr>fs_account_cache := c\<rparr>)"
    and n: "\<And>q. in_zone st q \<Longrightarrow> node_at d' q =
       (if q = metadata_path st ns key then Some (Data (key_json F m))
        else if q = version_path st ns key (vi_version (last (km_versions m))) then Some (Data v)
        else with_dirs d (key_dir_path st ns key) q)"
    by (rule fs_set_effect [OF q z o(1) set]) blast
  let ?h = "case history F st d ns key of Some h \<Rightarrow> h | None \<Rightarrow> []"
  have h: "?h = [] \<or> full_history (Suc N) ?h" "history F st d ns key = None \<or> ?h \<noteq> [] \<and> path_exists d (metadata_path st ns key)"
    using tidyD [OF t p] by (auto simp: tidy_key_def history_def meta_of_def path_exists_def full_history_def split: option.splits)
  have same: "history F st' = history F st" by (rule history_root) (simp add: st')
  have fr: "fresh_number ?h" by (rule complete_fresh [OF h(1)])
  note hist = fs_set_history [OF q j z o(1) set refl fr, unfolded same]
  have "tidy F st N d'"
  proof (rule tidy_wrote [OF t _ _ _ p])
    show "wrote st (key_dir_path st ns key) d d'" by (rule wroteI) (rule n)
    show "aside st d d'" by (rule fs_set_aside [OF z o(2,1) set])
    show "\<exists>h. history F st d' ns key = Some h \<and> full_history N h"
      using hist(1) complete_append [of ?h N "actor auth" "t' 1" v] h(1) N by auto
  qed simp
  moreover have "records ns key (history F st d ns key) (TO_Set ns key old cur)"
  proof -
    have w: "fs_check_permission auth ''write'' ns = Inr () \<and> fs_namespace_exists st ns d" by (rule fs_set_steps [OF set]) blast
    then have "old = (case history F st d ns key of None \<Rightarrow> None | Some h \<Rightarrow> snd (last h))"
      using existing_data_tidy [OF q day t p cr _ _ e] by blast
    with h(2) cur show ?thesis
      by (auto simp: records_def history_def latest_def last_map split: option.splits)
  qed
  moreover have "history F st d' ns' key' = history F st d ns' key'"
    if "plain_name ns'" "plain_name key'" "(ns', key') \<noteq> (ns, key)" for ns' key'
    using hist(2) [OF plain_zone(2) [OF that(1,2)]] that(3) by (simp add: plain_paths p that(1,2))
  ultimately show thesis using that [OF st'] hist(1) by blast
qed

lemma write_locked_succeeds:
  assumes q: "quiet (fe_io F)" and way: "\<And>q. prefix q (butlast p) \<Longrightarrow> \<not> is_file d q" and p: "p \<noteq> []" "\<not> is_dir d p"
  shows "\<exists>d'. write_locked F ns key p b c1 c2 c3 c4 d = (Inr (), d')"
proof -
  let ?d1 = "fold add_dir (prefixes (butlast p)) d"
  have c: "create_dir_all (fe_io F) (butlast p) d = (Inr (), ?d1)"
    using q way by (auto simp: create_dir_all_def list_ex_iff)
  have np: "\<not> prefix p (butlast p)" using p(1) by (rule not_prefix_butlast)
  have "node_at ?d1 (butlast p) = Some Directory"
    using create_dir_all_nodes [OF q c, of "butlast p"] way [of "butlast p"]
    by (auto simp: with_dirs_def is_file_def split: option.splits node.splits)
  moreover have "node_at ?d1 p \<noteq> Some Directory"
    using create_dir_all_nodes [OF q c, of p] np p(2) by (auto simp: with_dirs_def is_dir_def split: option.splits)
  moreover have "butlast p \<noteq> p" using np by auto
  ultimately show ?thesis
    using q p(1)
    by (simp add: write_locked_def Let_def c on_io_def open_write_def lock_file_def write_file_def write_bytes_def is_dir_def
        path_exists_def)
qed

lemma tidy_way:
  assumes "tidy F st N d" "plain_name ns" "plain_name key" "prefix q (key_dir_path st ns key)"
  shows "\<not> is_file d q"
proof -
  have k: "key_dir_path st ns key = ((zone_root st @ [ns]) @ [''keys'']) @ [key]" by (simp add: plain_paths assms)
  from assms(4) have "prefix q (zone_root st) \<or> q = zone_root st @ [ns] \<or> q = zone_root st @ [ns, ''keys''] \<or> q = key_dir_path st ns key"
    unfolding k by (simp only: prefix_snoc) auto
  with assms(1) tidyD [OF assms(1-3)] show ?thesis by (auto simp: tidy_def clear_way_def tidy_key_def)
qed

lemma tidy_files_succeed:
  assumes q: "quiet (fe_io F)" and t: "tidy F st N d" and p: "plain_name ns" "plain_name key"
  shows "\<exists>d'. write_key_metadata F st ns key m d = (Inr (), d')" "\<exists>d'. write_version_data F st ns key v b d = (Inr (), d')"
  unfolding write_key_metadata_def write_version_data_def
  using tidy_way [OF t p] tidyD [OF t p]
  by (auto intro!: write_locked_succeeds [OF q] simp: tidy_key_def metadata_path_def version_path_def)

lemma remove_dir_all_aside:
  assumes "\<not> prefix p (fs_root_path st @ [''audit_logs''])"
  shows "aside st d (fmfilter (\<lambda>q. \<not> prefix p q) d)"
  using assms by (auto simp: aside_def audit_ready_def clear_way_def is_dir_def is_file_def node_at_def split: if_splits option.splits)

lemma drop_newer_append:
  assumes "h \<noteq> []" "vi_version i > vi_version (last (map fst h))"
  shows "drop_newer (vi_version (last (map fst h))) (map fst h @ [i]) = map fst h"
proof -
  obtain x xs where "rev (map fst h) = x # xs" using assms(1) by (cases "rev (map fst h)") auto
  moreover from this have "last (map fst h) = x" by (metis last_rev list.sel(1) rev_rev_ident)
  ultimately show ?thesis using assms(2) by (simp add: drop_newer_def rev_swap)
qed

lemma append_newer:
  assumes "full_history (Suc N) h"
  shows "next_number h > vi_version (fst (last h))"
proof -
  have "unat (next_number h) = Suc (length h)" using complete_next [of h "Suc N"] assms by (simp add: full_history_def)
  with complete_last [OF assms] show ?thesis by (simp add: word_less_nat_alt)
qed

lemma history_data:
  "history F st d ns key = Some h \<Longrightarrow> x \<in> set h \<Longrightarrow> data_of st d ns key (vi_version (fst x)) = snd x"
  by (auto simp: history_def)

lemma history_versions: "history F st d ns key = Some h \<Longrightarrow> meta_of F st d ns key = Some m \<Longrightarrow> km_versions m = map fst h"
  by (auto simp: history_def o_def)

lemma undo_set_existing:
  assumes q: "quiet (fe_io F)" and j: "json_law F" and t: "tidy F st 0 d" and p: "plain_name ns" "plain_name key"
    and hd: "history F st d ns key = Some (append_version user time v h)" and h: "full_history (Suc N) h"
  obtains d' where "undo F cl (TO_Set ns key (snd (last h)) (Some (fst (last h)))) (st, d) = (Inr (), (st, d'))"
    "tidy F st 0 d'" "history F st d' ns key = Some h" "wrote st (key_dir_path st ns key) d d'"
proof -
  let ?k = "key_dir_path st ns key" and ?n = "vi_version (fst (last h))"
  obtain b where b: "snd (last h) = Some b" using full_history_last [OF h] by blast
  have ne: "h \<noteq> []" using h by (simp add: full_history_def)
  have in_h: "x \<in> set h \<Longrightarrow> data_of st d ns key (vi_version (fst x)) = snd x" for x
    using history_data [OF hd] by (simp add: append_version_def)
  obtain m where m: "meta_of F st d ns key = Some m" using hd by (auto simp: history_def)
  have vs: "km_versions m = map fst (append_version user time v h)" by (rule history_versions [OF hd m])
  obtain d1 where w1: "write_version_data F st ns key ?n b d = (Inr (), d1)" using tidy_files_succeed(2) [OF q t p] by blast
  have n1: "node_at d1 x = (if x = version_path st ns key ?n then Some (Data b) else with_dirs d ?k x)" for x
    using write_locked_ok [OF q w1 [unfolded write_version_data_def], of x] by simp
  have m1: "meta_of F st d1 ns key = Some m" using m by (simp add: meta_of_def n1)
  note z = plain_zone(2) [OF p]
  have a1: "aside st d d1" by (rule aside_result [OF key_files_aside(2) [OF z] w1])
  have bn: "data_of st d ns key ?n = Some b" using in_h [of "last h"] ne b by simp
  then have "node_at d (version_path st ns key ?n) = Some (Data b)" by (auto simp: data_of_def split: option.splits node.splits)
  then have f1: "node_at d1 x = with_dirs d ?k x" for x by (simp add: n1)
  have h1: "history F st d1 ns key = history F st d ns key" by (rule history_nodes) (simp_all add: f1)
  have "path_exists d (metadata_path st ns key)" using m by (rule meta_of_exists)
  then have full: "full_history 0 (append_version user time v h)" using tidyD [OF t p] hd by (simp add: tidy_key_def)
  have t1: "tidy F st 0 d1"
    by (rule tidy_wrote [OF t wrote_dirs [OF f1] a1 _ p]) (use full h1 hd in simp_all)
  let ?m = "m\<lparr>km_versions := drop_newer ?n (km_versions m)\<rparr>"
  obtain d2 where w2: "write_key_metadata F st ns key ?m d1 = (Inr (), d2)" using tidy_files_succeed(1) [OF q t1 p] by blast
  have n2: "node_at d2 x = (if x = metadata_path st ns key then Some (Data (key_json F ?m))
      else if x = version_path st ns key ?n then Some (Data b) else with_dirs d ?k x)" for x
    using write_locked_ok [OF q w2 [unfolded write_key_metadata_def], of x] with_dirs_idem [of "\<lambda>_. True", OF f1, of x] n1 [of x] f1 [of x]
    by auto
  have vs': "km_versions ?m = map fst h"
    using drop_newer_append [OF ne] append_newer [OF h] ne by (simp add: vs append_version_def last_map)
  have "history F st d2 ns key =
      Some (map (\<lambda>i. (i, if vi_version i = ?n then Some b else data_of st d ns key (vi_version i))) (km_versions ?m))"
    by (rule history_same [OF _ z j]) (rule n2)
  then have h2: "history F st d2 ns key = Some h"
    unfolding vs' using in_h
    by (auto intro!: map_idI simp flip: bn) metis
  have wr: "wrote st ?k d d2" by (rule wroteI) (rule n2)
  show thesis
  proof (rule that)
    show "undo F cl (TO_Set ns key (snd (last h)) (Some (fst (last h)))) (st, d) = (Inr (), (st, d2))"
      using w1 w2 m1 read_key_metadata_iff [OF q, of st ns key d1 m d1] by (simp add: undo_def b with_disk_def)
    show "tidy F st 0 d2"
      by (rule tidy_wrote [OF t wr aside_trans [OF a1 aside_result [OF key_files_aside(1) [OF z] w2]] _ p])
        (use h h2 full_history_mono [of "Suc N" h 0] in simp_all)
  qed (fact h2 wr)+
qed

lemma undo_set_new:
  assumes q: "quiet (fe_io F)" and t: "tidy F st 0 d" and p: "plain_name ns" "plain_name key"
    and hd: "history F st d ns key \<noteq> None"
  obtains d' where "undo F cl (TO_Set ns key None cur) (st, d) = (Inr (), (st, d'))"
    "tidy F st 0 d'" "history F st d' ns key = None"
    "\<And>ns' key'. plain_name ns' \<Longrightarrow> plain_name key' \<Longrightarrow> (ns', key') \<noteq> (ns, key) \<Longrightarrow> history F st d' ns' key' = history F st d ns' key'"
proof -
  let ?k = "key_dir_path st ns key" and ?d = "fmfilter (\<lambda>q. \<not> prefix (key_dir_path st ns key) q) d"
  have "path_exists d (metadata_path st ns key)" using hd meta_of_exists by (auto simp: history_def)
  then have dir: "node_at d ?k = Some Directory" using tidyD [OF t p] by (simp add: tidy_key_def is_dir_def)
  have n: "node_at ?d x = (if prefix ?k x then None else node_at d x)" for x
    by (auto simp: node_at_def plain_paths p prefix_def)
  have "key_dir_path st ns key = fs_root_path st @ ''namespaces'' # [ns, ''keys'', key]" by (simp add: plain_paths p)
  then have a: "aside st d ?d" by (intro remove_dir_all_aside) (auto simp: prefix_def)
  have o: "\<not> prefix ?k (metadata_path st ns' key')" "\<not> prefix ?k (version_path st ns' key' v)" "\<not> prefix ?k (key_dir_path st ns' key')"
    if "plain_name ns'" "plain_name key'" "(ns', key') \<noteq> (ns, key)" for ns' key' v
    using that(3) by (auto simp: metadata_path_def version_path_def plain_paths p that(1,2))
  have above: "\<not> prefix ?k (zone_root st @ [ns'])" "\<not> prefix ?k (zone_root st @ [ns', ''keys''])" for ns'
    by (auto simp: plain_paths p prefix_def)
  have h: "history F st ?d ns' key' = history F st d ns' key'"
    if "plain_name ns'" "plain_name key'" "(ns', key') \<noteq> (ns, key)" for ns' key'
    by (rule history_nodes) (simp_all add: n o [OF that])
  have "tidy_key F st 0 ?d ns' key'" if p': "plain_name ns'" "plain_name key'" for ns' key'
  proof (cases "(ns', key') = (ns, key)")
    case True
    then show ?thesis using tidyD [OF t p']
      by (simp add: tidy_key_def is_file_def is_dir_def path_exists_def n above metadata_path_def version_path_def)
  next
    case False
    show ?thesis using tidyD [OF t p'] h [OF p' False]
      by (simp add: tidy_key_def is_file_def is_dir_def path_exists_def n above o [OF p' False])
  qed
  then have t': "tidy F st 0 ?d" using t a by (simp add: tidy_def aside_def)
  show thesis
  proof (rule that [OF _ t' _ h])
    show "undo F cl (TO_Set ns key None cur) (st, d) = (Inr (), (st, ?d))"
      using q dir by (simp add: undo_def with_disk_def remove_existing_def path_exists_def remove_dir_all_def on_io_def)
    show "history F st ?d ns key = None" by (simp add: history_def meta_of_def n metadata_path_def)
  qed
qed

lemma undo_records:
  assumes q: "quiet (fe_io F)" and j: "json_law F" and t: "tidy F st 0 d" and p: "plain_name ns" "plain_name key"
    and r: "records ns key ho op" "\<And>h. ho = Some h \<Longrightarrow> full_history (Suc N) h"
    and h: "history F st d ns key = Some (append_version user time v (case ho of Some h \<Rightarrow> h | None \<Rightarrow> []))"
  obtains d' where "undo F cl op (st, d) = (Inr (), (st, d'))" "tidy F st 0 d'" "history F st d' ns key = ho"
    "\<And>ns' key'. plain_name ns' \<Longrightarrow> plain_name key' \<Longrightarrow> (ns', key') \<noteq> (ns, key) \<Longrightarrow> history F st d' ns' key' = history F st d ns' key'"
proof (cases ho)
  case None
  then obtain cur where "op = TO_Set ns key None cur" using r(1) by (auto simp: records_def)
  with None undo_set_new [OF q t p, of cl cur] h that show thesis by auto
next
  case (Some h')
  then have op: "op = TO_Set ns key (snd (last h')) (Some (fst (last h')))" using r(1) by (simp add: records_def)
  obtain d' where d': "undo F cl op (st, d) = (Inr (), (st, d'))" "tidy F st 0 d'" "history F st d' ns key = Some h'"
    and w: "wrote st (key_dir_path st ns key) d d'"
    using undo_set_existing [OF q j t p _ r(2) [OF Some], of user time v cl] h Some unfolding op by auto
  have "history F st d' ns' key' = history F st d ns' key'" if "plain_name ns'" "plain_name key'" "(ns', key') \<noteq> (ns, key)" for ns' key'
    by (rule history_nodes) (rule wrote_other [OF w p that])+
  with that d' Some show thesis by simp
qed

section \<open>Transactions of sets\<close>

type_synonym set_call = "clock \<times> AuthContext option \<times> string \<times> string \<times> bytes"

fun fs_sets :: "fenv \<Rightarrow> set_call list \<Rightarrow> FileStorage \<times> disk \<Rightarrow> unit fs_update" where
  "fs_sets F [] s = (Inr (), s)"
| "fs_sets F ((t, auth, ns, key, v) # cs) s = bindE (fs_set F t auth ns key v s) (\<lambda>_ s1. fs_sets F cs s1)"

definition plain_call :: "set_call \<Rightarrow> bool" where
  "plain_call = (\<lambda>(t, auth, ns, key, v). plain_name ns \<and> plain_name key \<and> CHR ''/'' \<notin> set (actor auth))"

definition same_histories :: "fenv \<Rightarrow> FileStorage \<Rightarrow> disk \<Rightarrow> disk \<Rightarrow> bool" where
  "same_histories F st d d' \<longleftrightarrow>
     (\<forall>ns key. plain_name ns \<longrightarrow> plain_name key \<longrightarrow> history F st d' ns key = history F st d ns key)"

lemma tidy_root:
  assumes "fs_root_path st' = fs_root_path st"
  shows "tidy F st' = tidy F st" "same_histories F st' = same_histories F st"
  unfolding tidy_def tidy_key_def same_histories_def audit_ready_def clear_way_def assms paths_root(2-5) [OF assms]
    history_root [OF assms] by (rule refl)+

lemma tidy_mono: "tidy F st N d \<Longrightarrow> N' \<le> N \<Longrightarrow> tidy F st N' d"
  unfolding tidy_def tidy_key_def using full_history_mono by blast

lemma undo_all_append:
  "undo_all F ts (xs @ ys) s = bindE (undo_all F (\<lambda>i. ts (i + length ys)) xs s) (\<lambda>_ s1. undo_all F ts ys s1)"
  by (induction xs arbitrary: s) (auto simp: bindE_def split: prod.split sum.split)

lemma record_in_transaction:
  "fs_transactions st = txs @ [tx] \<Longrightarrow> fs_transactions (fs_record_for_rollback op st) = txs @ [tx @ [op]]"
  by (simp add: fs_record_for_rollback_def)

lemma sets_undone:
  assumes q: "quiet (fe_io F)" and j: "json_law F" and day: "\<And>x. day_text F x \<noteq> None"
  shows "tidy F st (length cs) d \<Longrightarrow> length cs < 2 ^ 64 \<Longrightarrow> list_all plain_call cs \<Longrightarrow> fs_transactions st = txs @ [tx] \<Longrightarrow>
    fs_sets F cs (st, d) = (Inr u, (st', d')) \<Longrightarrow>
    \<exists>ops. fs_root_path st' = fs_root_path st \<and> fs_transactions st' = txs @ [tx @ ops] \<and> tidy F st 0 d' \<and>
      (\<forall>st2 d2 ts. fs_root_path st2 = fs_root_path st \<longrightarrow> tidy F st 0 d2 \<longrightarrow> same_histories F st d' d2 \<longrightarrow>
        (\<exists>d3. undo_all F ts (rev ops) (st2, d2) = (Inr (), (st2, d3)) \<and> tidy F st 0 d3 \<and> same_histories F st d d3))"
proof (induction cs arbitrary: st d tx)
  case Nil
  then show ?case by (intro exI [of _ "[]"]) (auto simp: same_histories_def)
next
  case (Cons c cs)
  obtain t auth ns key v where c: "c = (t, auth, ns, key, v)" by (cases c) auto
  have p: "plain_name ns" "plain_name key" and user: "CHR ''/'' \<notin> set (actor auth)" using Cons.prems(3) by (auto simp: c plain_call_def)
  obtain st1 d1 where s: "fs_set F t auth ns key v (st, d) = (Inr (), (st1, d1))" and r: "fs_sets F cs (st1, d1) = (Inr u, (st', d'))"
    using Cons.prems(5) by (auto simp: c bindE_Inr_iff)
  have T: "tidy F st (Suc (length cs)) d" "Suc (length cs) < 2 ^ 64" using Cons.prems(1,2) by simp_all
  obtain op ca where st1: "st1 = fs_record_for_rollback op (st\<lparr>fs_account_cache := ca\<rparr>)" and t1: "tidy F st (length cs) d1"
    and op: "records ns key (history F st d ns key) op"
    and h1: "history F st d1 ns key = Some (append_version (actor auth) (t 1) v (case history F st d ns key of Some h \<Rightarrow> h | None \<Rightarrow> []))"
    and o1: "\<And>ns' key'. plain_name ns' \<Longrightarrow> plain_name key' \<Longrightarrow> (ns', key') \<noteq> (ns, key) \<Longrightarrow> history F st d1 ns' key' = history F st d ns' key'"
    by (rule fs_set_tidy [OF q j day T p user s]) blast
  have root: "fs_root_path st1 = fs_root_path st" by (simp add: st1)
  note same = tidy_root [OF root] root
  have tx1: "fs_transactions st1 = txs @ [tx @ [op]]" unfolding st1 by (rule record_in_transaction) (simp add: Cons.prems(4))
  obtain ops where ops: "fs_root_path st' = fs_root_path st" "fs_transactions st' = txs @ [(tx @ [op]) @ ops]" "tidy F st 0 d'"
    and u: "\<And>st2 d2 ts. fs_root_path st2 = fs_root_path st \<Longrightarrow> tidy F st 0 d2 \<Longrightarrow> same_histories F st d' d2 \<Longrightarrow>
        \<exists>d3. undo_all F ts (rev ops) (st2, d2) = (Inr (), (st2, d3)) \<and> tidy F st 0 d3 \<and> same_histories F st d1 d3"
    using Cons.IH [OF t1 [folded same] _ _ tx1 r] T(2) Cons.prems(3) by (auto simp: same)
  have full: "full_history (Suc (length cs)) h" if "history F st d ns key = Some h" for h
    using tidyD [OF T(1) p] that meta_of_exists by (auto simp: tidy_key_def history_def)
  have "\<exists>d4. undo_all F ts (rev (op # ops)) (st2, d2) = (Inr (), (st2, d4)) \<and> tidy F st 0 d4 \<and> same_histories F st d d4"
    if st2: "fs_root_path st2 = fs_root_path st" and d2: "tidy F st 0 d2" "same_histories F st d' d2" for st2 d2 ts
  proof -
    note same2 = tidy_root [OF st2] history_root [OF st2]
    obtain d3 where d3: "undo_all F (\<lambda>i. ts (i + 1)) (rev ops) (st2, d2) = (Inr (), (st2, d3))" "tidy F st2 0 d3" "same_histories F st d1 d3"
      using u [OF st2 d2] by (auto simp: same2)
    have h3: "history F st2 d3 ns key = Some (append_version (actor auth) (t 1) v (case history F st d ns key of Some h \<Rightarrow> h | None \<Rightarrow> []))"
      using d3(3) p h1 by (simp add: same2 same_histories_def)
    have "\<exists>d4. undo F (ts 0) op (st2, d3) = (Inr (), (st2, d4)) \<and> tidy F st2 0 d4 \<and> history F st2 d4 ns key = history F st d ns key \<and>
      (\<forall>ns' key'. plain_name ns' \<longrightarrow> plain_name key' \<longrightarrow> (ns', key') \<noteq> (ns, key) \<longrightarrow> history F st2 d4 ns' key' = history F st2 d3 ns' key')"
      using undo_records [where cl = "ts 0", OF q j d3(2) p op full h3] by (metis (no_types, lifting))
    then obtain d4 where "undo F (ts 0) op (st2, d3) = (Inr (), (st2, d4))" "tidy F st2 0 d4" "history F st2 d4 ns key = history F st d ns key"
      and "\<forall>ns' key'. plain_name ns' \<longrightarrow> plain_name key' \<longrightarrow> (ns', key') \<noteq> (ns, key) \<longrightarrow> history F st2 d4 ns' key' = history F st2 d3 ns' key'"
      by blast
    with d3 o1 show ?thesis by (auto simp: same2 same_histories_def undo_all_append)
  qed
  then show ?case using ops by (intro exI [of _ "op # ops"]) auto
qed


end
