(* ===== verification/File_Cases.thy ===== *)
theory File_Cases
  imports File_Rollback
begin

text \<open>
  Runs of the file storage from an empty disk, and what its paths, its audit log and its rollback of deletions do that
  their callers do not expect.
\<close>

section \<open>A storage to run\<close>

definition case_admin :: AuthContext where
  "case_admin = add_role ''global'' ''admin'' (auth_new ''a'')"

definition case_storage :: FileStorage where
  "case_storage = \<lparr>fs_root_path = [''r''], fs_transactions = [],
     fs_namespace_cache = fmupd ''n'' \<lparr>nm_path = ''n'', nm_owner = ''a'', nm_quota_bytes = 0, nm_used_bytes = 0, nm_parent = None,
       nm_attributes = fmempty\<rparr> fmempty, fs_account_cache = fmempty\<rparr>"

text \<open>Numbers of metadata as JSON texts.\<close>

instance VersionInfo :: countable
  by countable_datatype

definition case_json :: "KeyMetadata \<Rightarrow> string" where
  "case_json m = show_nat (to_nat (km_key m, km_created_by m, km_created_at m, km_versions m))"

definition case_of_json :: "string \<Rightarrow> string + KeyMetadata" where
  "case_of_json s =
     (case digits_val 0 s of
        None \<Rightarrow> Inl ''expected value''
      | Some n \<Rightarrow> (case from_nat n of (k, c, t, vs) \<Rightarrow>
          Inr \<lparr>km_key = k, km_created_by = c, km_created_at = t, km_versions = vs\<rparr>))"

definition case_fenv :: fenv where
  "case_fenv = \<lparr>fe_io = \<lparr>io_fault = \<lambda>_ _. None, io_written = \<lambda>_ _. 0, io_kept = \<lambda>_. False, io_message = \<lambda>_. ''io''\<rparr>,
     key_json = case_json, key_of_json = case_of_json, ns_json = \<lambda>_. ''{}'', ns_of_json = \<lambda>_. Inl ''expected value'',
     account_json = \<lambda>_. ''{}'', account_of_json = \<lambda>_. Inl ''expected value'', audit_json = \<lambda>_. ''{}'', event_of_json = \<lambda>_. None,
     day_text = \<lambda>_. Some ''20250101'', dbg_option = \<lambda>_. ''None'', path_text = \<lambda>_. ''r''\<rparr>"

lemma digits_ascii: "valid_utf8 (show_nat n)"
proof (rule valid_utf8_ascii, rule ballI)
  fix c
  assume "c \<in> set (show_nat n)"
  then obtain k where "k < 10" "c = digit_char k" using set_show_nat by blast
  then show "of_char c < (128 :: nat)" by (simp add: digit_char_def)
qed

lemma case_fenv_facts: "quiet (fe_io case_fenv)" "json_law case_fenv" "day_text case_fenv x = Some ''20250101''"
  by (auto simp: case_fenv_def quiet_def json_law_def case_json_def case_of_json_def digits_val_show_nat digits_ascii)

lemma case_admin_facts [simp]: "fs_check_permission (Some case_admin) act ns = Inr ()" "user_id case_admin = ''a''"
  by (simp_all add: fs_check_permission_def check_permission_internal_def case_admin_def add_role_def add_role_to_identity_def
      auth_new_def has_role_def has_role_for_identity_def user_id_def Let_def)

lemma case_paths:
  assumes "fs_root_path st = [''r'']"
  shows "key_dir_path st ''n'' ''k'' = [''r'', ''namespaces'', ''n'', ''keys'', ''k'']" "namespace_path st ''n'' = [''r'', ''namespaces'', ''n'']"
  using assms by (simp_all add: plain_paths plain_name_def) (simp add: namespace_path_def path_join_plain plain_name_def)

lemmas disk_run = node_at_def path_exists_def is_dir_def is_file_def add_dir_def create_dir_all_def open_write_def open_read_def
  lock_file_def file_contents_def write_bytes_def write_file_def read_file_def read_text_def remove_dir_all_def on_io_def with_disk_def

lemmas storage_run = permitted_def fs_namespace_exists_def case_paths metadata_path_def version_path_def audit_path_def
  audited_def record_audit_log_def write_locked_def write_key_metadata_def write_version_data_def read_key_metadata_def
  read_version_data_def fs_record_for_rollback_def fs_get_def fs_set_def fs_delete_def fs_existing_data_def
  fs_account_growth_def fs_charge_def fs_current_version_def fs_new_metadata_def first_metadata_def next_metadata_def latest_def
  actor_def Let_def

lemma case_set:
  assumes "quiet (fe_io F)" "day_text F (t 3) = Some day"
  shows "\<exists>d. fs_set F t (Some case_admin) ''n'' ''k'' v (case_storage, fmempty) = (Inr (), (case_storage, d))"
  using assms by (simp add: case_storage_def storage_run disk_run)


definition case_disk :: disk where
  "case_disk = fmupd [''r'', ''audit_logs''] Directory (fmupd [''r''] Directory fmempty)"

lemma case_disk_tidy: "tidy F case_storage N case_disk"
proof -
  have none: "node_at case_disk (''r'' # ''namespaces'' # p) = None" for p by (simp add: case_disk_def node_at_def)
  have paths: "metadata_path case_storage ns key = ''r'' # ''namespaces'' # [ns, ''keys'', key, ''metadata.json'']"
    "version_path case_storage ns key v = ''r'' # ''namespaces'' # [ns, ''keys'', key, ''v'' @ show_u64 v @ ''.data'']"
    "key_dir_path case_storage ns key = ''r'' # ''namespaces'' # [ns, ''keys'', key]"
    if "plain_name ns" "plain_name key" for ns key v
    using that by (simp_all add: metadata_path_def version_path_def plain_paths case_storage_def)
  have "tidy_key F case_storage N case_disk ns key" if "plain_name ns" "plain_name key" for ns key
    by (simp add: tidy_key_def paths [OF that] is_file_def is_dir_def path_exists_def none) (simp add: case_storage_def none)
  moreover have "clear_way case_storage case_disk"
    by (auto simp: clear_way_def is_file_def node_at_def case_disk_def case_storage_def)
  moreover have "audit_ready case_storage case_disk"
    by (simp add: audit_ready_def is_dir_def node_at_def case_disk_def case_storage_def audit_path_def)
  ultimately show ?thesis by (simp add: tidy_def)
qed


section \<open>Deleting what a transaction has set\<close>

definition case_dirs :: "string \<Rightarrow> disk \<Rightarrow> bool" where
  "case_dirs day d \<longleftrightarrow> node_at d [''r''] = Some Directory \<and> node_at d [''r'', ''namespaces''] = Some Directory \<and>
     node_at d [''r'', ''namespaces'', ''n''] = Some Directory \<and> node_at d [''r'', ''namespaces'', ''n'', ''keys''] = Some Directory \<and>
     node_at d [''r'', ''audit_logs''] = Some Directory \<and>
     is_file d [''r'', ''audit_logs'', ''log_'' @ day @ ''.jsonl'']"

abbreviation case_entry :: "string \<Rightarrow> path" where
  "case_entry f \<equiv> [''r'', ''namespaces'', ''n'', ''keys'', ''k'', f]"

definition case_key :: "fenv \<Rightarrow> disk \<Rightarrow> KeyMetadata \<Rightarrow> bool" where
  "case_key F d m \<longleftrightarrow> node_at d [''r'', ''namespaces'', ''n'', ''keys'', ''k''] = Some Directory \<and>
     node_at d (case_entry ''metadata.json'') = Some (Data (key_json F m))"

definition case_data :: "disk \<Rightarrow> u64 \<Rightarrow> bytes \<Rightarrow> bool" where
  "case_data d n b \<longleftrightarrow> node_at d (case_entry (''v'' @ show_u64 n @ ''.data'')) = Some (Data b)"

lemmas node_run = path_exists_def is_dir_def is_file_def add_dir_def create_dir_all_def open_write_def open_read_def
  lock_file_def file_contents_def write_bytes_def write_file_def read_file_def read_text_def remove_dir_all_def on_io_def with_disk_def
  node_at_def [of _ "[]"]

lemma json_inject: "json_law F \<Longrightarrow> key_json F m = key_json F m' \<longleftrightarrow> m = m'"
  by (metis json_law_def sum.inject(2))

lemma node_at_filter: "node_at (fmfilter P d) q = (if q \<noteq> [] \<and> \<not> P q then None else node_at d q)"
  by (simp add: node_at_def)

lemma case_step_first:
  assumes "quiet (fe_io F)" "json_law F" "day_text F (t 3) = Some day"
  shows "\<exists>d m. fs_set F t (Some case_admin) ''n'' ''k'' v (case_storage, fmempty) = (Inr (), (case_storage, d)) \<and>
    case_dirs day d \<and> case_key F d m \<and> map vi_version (km_versions m) = [1] \<and> case_data d 1 v \<and>
    node_at d (case_entry (''v'' @ show_u64 2 @ ''.data'')) = None"
  using assms json_inject [OF assms(2)] by (simp add: case_storage_def storage_run disk_run case_dirs_def case_key_def case_data_def)

lemma case_log:
  assumes "case_dirs day d"
  obtains b where "node_at d [''r'', ''audit_logs'', ''log_'' @ day @ ''.jsonl''] = Some (Data b)"
  using assms by (auto simp: case_dirs_def is_file_def split: option.splits node.splits)

lemma case_step_second:
  assumes "quiet (fe_io F)" "json_law F" "\<And>x. day_text F x = Some day" "st = case_storage\<lparr>fs_transactions := [[]]\<rparr>"
    "case_dirs day d" "case_key F d m" "km_versions m = [i]" "vi_version i = 1" "case_data d 1 v"
    "node_at d (case_entry (''v'' @ show_u64 2 @ ''.data'')) = None"
  shows "\<exists>d' m'. fs_set F t (Some case_admin) ''n'' ''k'' w (st, d) =
      (Inr (), (case_storage\<lparr>fs_transactions := [[TO_Set ''n'' ''k'' (Some v) (Some i)]]\<rparr>, d')) \<and>
    case_dirs day d' \<and> case_key F d' m' \<and> map vi_version (km_versions m') = [1, 2] \<and> case_data d' 2 w"
proof -
  obtain b where "node_at d [''r'', ''audit_logs'', ''log_'' @ day @ ''.jsonl''] = Some (Data b)" by (rule case_log [OF assms(5)])
  then show ?thesis
    using assms json_inject [OF assms(2)]
    by (simp add: json_law_def case_storage_def storage_run node_run case_dirs_def case_key_def case_data_def)
qed

lemma case_step_delete:
  assumes "quiet (fe_io F)" "json_law F" "\<And>x. day_text F x = Some day" "st = case_storage\<lparr>fs_transactions := [[op]]\<rparr>"
    "case_dirs day d" "case_key F d m" "km_versions m = [i, j]" "vi_version j = 2" "case_data d 2 w"
  shows "\<exists>d'. fs_delete F t (Some case_admin) ''n'' ''k'' (st, d) =
      (Inr (), (case_storage\<lparr>fs_transactions := [[op, TO_Delete ''n'' ''k'' w 2]]\<rparr>, d')) \<and>
    case_dirs day d' \<and> (\<forall>f. node_at d' (case_entry f) = None) \<and> node_at d' [''r'', ''namespaces'', ''n'', ''keys'', ''k''] = None"
proof -
  obtain b where "node_at d [''r'', ''audit_logs'', ''log_'' @ day @ ''.jsonl''] = Some (Data b)" by (rule case_log [OF assms(5)])
  then show ?thesis
    using assms
    by (simp add: json_law_def case_storage_def storage_run node_run case_dirs_def case_key_def case_data_def node_at_filter)
qed

lemma case_step_rollback:
  assumes "quiet (fe_io F)" "json_law F" "st = case_storage\<lparr>fs_transactions := [[TO_Set ''n'' ''k'' (Some v) (Some i), TO_Delete ''n'' ''k'' w 2]]\<rparr>"
    "case_dirs day d" "\<forall>f. node_at d (case_entry f) = None" "node_at d [''r'', ''namespaces'', ''n'', ''keys'', ''k''] = None" "vi_version i = 1"
  shows "\<exists>d' m. fs_rollback_transaction F ts (st, d) = (Inr (), (case_storage, d')) \<and> case_key F d' m \<and> km_versions m = []"
  using assms json_inject [OF assms(2)]
  by (simp add: json_law_def case_storage_def fs_rollback_transaction_def undo_def rollback_metadata_def drop_newer_def
      storage_run node_run case_dirs_def case_key_def case_data_def)

lemma case_step_get:
  assumes "quiet (fe_io F)" "json_law F" "case_key F d m" "km_versions m = []"
  shows "fst (fs_get F t (Some case_admin) ''n'' ''k'' case_storage d) = Inl (Err (SE_NotFound ''n:k (no versions)''))"
  using assms by (simp add: json_law_def case_storage_def storage_run node_run case_key_def failed_def)

text \<open>
  A transaction that sets an existing key and then deletes it cannot be rolled back: the rollback reports success and
  leaves the key with no versions, so the value it had before the transaction is gone.
\<close>

theorem rollback_loses_deleted:
  assumes q: "quiet (fe_io F)" and j: "json_law F" and day: "\<And>x. day_text F x = Some day"
  shows "\<exists>s1 s2 s3 s4. fs_set F t1 (Some case_admin) ''n'' ''k'' v (case_storage, fmempty) = (Inr (), s1) \<and>
    stored F (fst s1) (snd s1) ''n'' ''k'' = Some v \<and>
    fs_set F t2 (Some case_admin) ''n'' ''k'' w (fs_begin_transaction (fst s1), snd s1) = (Inr (), s2) \<and>
    fs_delete F t3 (Some case_admin) ''n'' ''k'' s2 = (Inr (), s3) \<and>
    fs_rollback_transaction F ts s3 = (Inr (), s4) \<and>
    fst (fs_get F t4 (Some case_admin) ''n'' ''k'' (fst s4) (snd s4)) = Inl (Err (SE_NotFound ''n:k (no versions)''))"
proof -
  obtain d1 m1 where 1: "fs_set F t1 (Some case_admin) ''n'' ''k'' v (case_storage, fmempty) = (Inr (), (case_storage, d1))"
    "case_dirs day d1" "case_key F d1 m1" "case_data d1 1 v" "node_at d1 (case_entry (''v'' @ show_u64 2 @ ''.data'')) = None"
    and "map vi_version (km_versions m1) = [1]"
    using case_step_first [where t = t1 and v = v, OF q j day] by (elim exE conjE)
  then obtain i where i: "km_versions m1 = [i]" "vi_version i = 1" by auto
  have st: "fs_begin_transaction case_storage = case_storage\<lparr>fs_transactions := [[]]\<rparr>"
    by (simp add: fs_begin_transaction_def case_storage_def)
  obtain d2 m2 where 2: "fs_set F t2 (Some case_admin) ''n'' ''k'' w (fs_begin_transaction case_storage, d1) =
      (Inr (), (case_storage\<lparr>fs_transactions := [[TO_Set ''n'' ''k'' (Some v) (Some i)]]\<rparr>, d2))"
    "case_dirs day d2" "case_key F d2 m2" "case_data d2 2 w" and "map vi_version (km_versions m2) = [1, 2]"
    using case_step_second [where t = t2 and w = w, OF q j day st 1(2,3) i 1(4,5)] by (elim exE conjE)
  then obtain i2 j2 where v2: "km_versions m2 = [i2, j2]" "vi_version j2 = 2" by auto
  obtain d3 where 3: "fs_delete F t3 (Some case_admin) ''n'' ''k'' (case_storage\<lparr>fs_transactions := [[TO_Set ''n'' ''k'' (Some v) (Some i)]]\<rparr>, d2) =
      (Inr (), (case_storage\<lparr>fs_transactions := [[TO_Set ''n'' ''k'' (Some v) (Some i), TO_Delete ''n'' ''k'' w 2]]\<rparr>, d3))"
    "case_dirs day d3" "\<forall>f. node_at d3 (case_entry f) = None" "node_at d3 [''r'', ''namespaces'', ''n'', ''keys'', ''k''] = None"
    using case_step_delete [where t = t3 and op = "TO_Set ''n'' ''k'' (Some v) (Some i)", OF q j day refl 2(2,3) v2 2(4)] by (elim exE conjE)
  obtain d4 m4 where 4: "fs_rollback_transaction F ts
      (case_storage\<lparr>fs_transactions := [[TO_Set ''n'' ''k'' (Some v) (Some i), TO_Delete ''n'' ''k'' w 2]]\<rparr>, d3) = (Inr (), (case_storage, d4))"
    "case_key F d4 m4" "km_versions m4 = []"
    using case_step_rollback [where ts = ts and v = v and w = w, OF q j refl 3(2-4) i(2)] by (elim exE conjE)
  have p: "plain_name ''n''" "plain_name ''k''" "CHR ''/'' \<notin> set (actor (Some case_admin))" by (simp_all add: plain_name_def actor_def)
  have "stored F case_storage d1 ''n'' ''k'' = Some v"
    by (rule fs_set_stored [OF q j plain_zone(2) [OF p(1,2)] plain_account(1) [OF p(3)] 1(1)])
  with 1(1) 2(1) 3(1) 4(1) case_step_get [OF q j 4(2,3), of t4] show ?thesis by auto
qed

theorem rollback_loses_deleted_witness:
  "\<exists>s3 s4. fs_rollback_transaction case_fenv (\<lambda>_ _. 0) s3 = (Inr (), s4) \<and>
     fst (fs_get case_fenv (\<lambda>_. 0) (Some case_admin) ''n'' ''k'' (fst s4) (snd s4)) = Inl (Err (SE_NotFound ''n:k (no versions)''))"
  using rollback_loses_deleted [OF case_fenv_facts, of "\<lambda>_. 0" "''x''" "\<lambda>_. 0" "''y''" "\<lambda>_. 0" "\<lambda>_ _. 0" "\<lambda>_. 0"] by blast

section \<open>The audit log\<close>

text \<open>
  The audit log that \<open>record_audit_log\<close> writes is not the file that \<open>fs_get_audit_log\<close> reads: whatever has been
  recorded, an administrator who asks for it is answered with no events.
\<close>

theorem audit_log_unread:
  assumes r: "record_audit_log F t st a action ns key message d = (r, d')"
    and none: "\<not> path_exists d (fs_root_path st @ [''audit_logs'', ''audit.log''])" and admin: "has_role ''global'' ''admin'' b"
  shows "fs_get_audit_log F (Some b) ns' ty limit st d' = Inr []"
proof -
  let ?p = "fs_root_path st @ [''audit_logs'', ''audit.log'']"
  have other: "?p \<noteq> audit_path st date" for date by (simp add: audit_path_def)
  have dir: "node_at (snd (create_dir_all io (fs_root_path st @ [''audit_logs'']) e)) ?p = None" if "node_at e ?p = None" for io e
    using that by (simp add: create_dir_all_def guarded_def node_at_add_dirs prefix_def del: prefixes_snoc split: option.split)
  have opn: "node_at (snd (open_write io tr (audit_path st date) e)) ?p = None" if "node_at e ?p = None" for io tr date e
    using that other by (auto simp: open_write_def guarded_def split: option.splits)
  have wrt: "node_at (snd (write_bytes io (audit_path st date) x e)) ?p = None" if "node_at e ?p = None" for io date x e
    using that other by (auto simp: write_bytes_def split: option.splits)
  have "node_at (snd (record_audit_log F t st a action ns key message d)) ?p = None"
    using none unfolding record_audit_log_def Let_def path_exists_def
    by (auto intro!: bindE_preserves [where P = "\<lambda>e. node_at e ?p = None"] dir opn wrt split: option.split)
  then have "\<not> path_exists d' ?p" by (simp add: r path_exists_def)
  with admin show ?thesis by (simp add: fs_get_audit_log_def Let_def)
qed

theorem audit_log_unread_witness:
  "fs_get_audit_log case_fenv (Some case_admin) None None 10 case_storage
     (snd (record_audit_log case_fenv 0 case_storage case_admin ''read'' ''n'' (Some ''k'') ''m'' fmempty)) = Inr []"
  by (rule audit_log_unread [OF surjective_pairing])
    (simp_all add: path_exists_def node_at_def case_storage_def case_admin_def add_role_def add_role_to_identity_def auth_new_def
      has_role_def has_role_for_identity_def Let_def)

section \<open>Paths out of a namespace\<close>

definition escape_key :: "string \<Rightarrow> string \<Rightarrow> string" where
  "escape_key ns key = ''../../'' @ ns @ ''/keys/'' @ key"

lemma escape_parts:
  assumes "plain_name ns" "plain_name key"
  shows "split_char (CHR ''/'') (escape_key ns key) = [''..'', ''..'', ns, ''keys'', key]"
proof -
  have e: "escape_key ns key = ''..'' @ CHR ''/'' # (''..'' @ CHR ''/'' # (ns @ CHR ''/'' # (''keys'' @ CHR ''/'' # key)))"
    by (simp add: escape_key_def)
  have n: "CHR ''/'' \<notin> set ''..''" "CHR ''/'' \<notin> set ns" "CHR ''/'' \<notin> set ''keys''" "CHR ''/'' \<notin> set key"
    using assms by (simp_all add: plain_name_def)
  show ?thesis unfolding e split_char_at [OF n(1)] split_char_at [OF n(2)] split_char_at [OF n(3)] split_char_absent [OF n(4)] ..
qed

lemma escape_path:
  assumes "plain_name ns" "plain_name ns'" "plain_name key"
  shows "key_dir_path st ns (escape_key ns' key) = key_dir_path st ns' key"
proof -
  have "\<not> starts_with ''/'' (escape_key ns' key)" by (simp add: escape_key_def starts_with_def)
  then show ?thesis
    using assms
    by (simp add: key_dir_path_def namespace_path_def path_join_plain path_join_name_def [of _ "escape_key ns' key"] escape_parts
        butlast_append) (simp add: plain_name_def)
qed

text \<open>
  Permission on one namespace is enough to write into every other: with a key that climbs out of its namespace,
  a successful \<open>fs_set\<close> becomes the value of a key of another namespace, whose permissions are never asked.
\<close>

theorem set_escapes_namespace:
  assumes "quiet (fe_io F)" "json_law F" "plain_name ns" "plain_name ns'" "plain_name key" "CHR ''/'' \<notin> set (actor auth)"
    "fs_check_permission auth ''write'' ns' = Inl e"
    "fs_set F t auth ns (escape_key ns' key) v (st, d) = (Inr u, (st', d'))"
  shows "stored F st' d' ns' key = Some v"
proof -
  note path = escape_path [OF assms(3-5)]
  have z: "in_zone st (key_dir_path st ns (escape_key ns' key))" unfolding path by (rule plain_zone(2) [OF assms(4,5)])
  have "stored F st' d' ns (escape_key ns' key) = Some v"
    by (rule fs_set_stored [OF assms(1,2) z plain_account(1) [OF assms(6)] assms(8)])
  moreover have "stored F st' d' ns (escape_key ns' key) = stored F st' d' ns' key"
    by (simp add: stored_def meta_of_def data_of_def metadata_path_def version_path_def path cong: option.case_cong)
  ultimately show ?thesis by simp
qed

definition case_writer :: AuthContext where
  "case_writer = add_role ''n'' ''writer'' (auth_new ''w'')"

lemma case_writer_facts:
  "fs_check_permission (Some case_writer) ''write'' ''n'' = Inr ()" "user_id case_writer = ''w''"
  "fs_check_permission (Some case_writer) ''write'' ''m'' = Inl (SE_PermissionDenied ''w'' ''write'' ''m'')"
  by (simp_all add: fs_check_permission_def check_permission_internal_def case_writer_def add_role_def add_role_to_identity_def
      auth_new_def has_role_def has_role_for_identity_def user_id_def Let_def)

theorem set_escapes_namespace_witness:
  "\<exists>st d. fs_check_permission (Some case_writer) ''write'' ''m'' = Inl (SE_PermissionDenied ''w'' ''write'' ''m'') \<and>
     fs_set case_fenv (\<lambda>_. 0) (Some case_writer) ''n'' (escape_key ''m'' ''k'') ''x'' (case_storage, fmempty) = (Inr (), (st, d)) \<and>
     stored case_fenv st d ''m'' ''k'' = Some ''x''"
proof -
  have p: "plain_name ''n''" "plain_name ''m''" "plain_name ''k''" "CHR ''/'' \<notin> set (actor (Some case_writer))"
    by (simp_all add: plain_name_def actor_def case_writer_facts)
  have path: "key_dir_path st ''n'' (escape_key ''m'' ''k'') = [''r'', ''namespaces'', ''m'', ''keys'', ''k'']"
    if "fs_root_path st = [''r'']" for st
    using that by (simp add: escape_path p plain_paths)
  obtain st d where s: "fs_set case_fenv (\<lambda>_. 0) (Some case_writer) ''n'' (escape_key ''m'' ''k'') ''x'' (case_storage, fmempty) = (Inr (), (st, d))"
    using case_fenv_facts(1) by (simp add: case_fenv_facts(3) case_writer_facts path case_storage_def storage_run disk_run)
  then show ?thesis
    using set_escapes_namespace [OF case_fenv_facts(1,2) p case_writer_facts(3) s] case_writer_facts(3) by blast
qed

theorem file_set_appends_witness:
  "\<exists>d. history case_fenv case_storage d ''n'' ''k'' = Some (append_version ''a'' 0 ''x'' [])"
proof -
  have p: "plain_name ''n''" "plain_name ''k''" "CHR ''/'' \<notin> set (actor (Some case_admin))" by (simp_all add: plain_name_def actor_def)
  obtain d where d: "fs_set case_fenv (\<lambda>_. 0) (Some case_admin) ''n'' ''k'' ''x'' (case_storage, fmempty) = (Inr (), (case_storage, d))"
    using case_set [of case_fenv "\<lambda>_. 0"] case_fenv_facts(1,3) by blast
  have "history case_fenv case_storage fmempty ''n'' ''k'' = None"
    by (simp add: history_def meta_of_def metadata_path_def plain_paths p node_at_def)
  then show ?thesis
    using file_set_appends [OF case_fenv_facts(1,2) plain_zone(2) [OF p(1,2)] plain_account(1) [OF p(3)] d refl]
    by (auto simp: fresh_number_def actor_def)
qed

section \<open>Listing keys\<close>

text \<open>
  \<open>fs_list_keys\<close> lists only the entries of the keys directory itself: since file names have no slash, a prefix with a slash,
  such as the one under which the votes on a proposal are stored, lists no keys at all.
\<close>

theorem list_keys_flat:
  assumes names: "\<And>q n. q |\<in>| fmdom d \<Longrightarrow> n \<in> set q \<Longrightarrow> CHR ''/'' \<notin> set n" and slash: "CHR ''/'' \<in> set pre"
    and l: "fs_list_keys F t auth ns (Some pre) st d = (Inr keys, d')"
  shows "keys = []"
proof -
  let ?dir = "namespace_path st ns @ [''keys'']"
  have "\<not> starts_with pre n" if "n \<in> set (child_names d ?dir)" for n
  proof
    assume "starts_with pre n"
    then have "CHR ''/'' \<in> set n" using slash by (auto simp: starts_with_iff)
    moreover have "?dir @ [n] |\<in>| fmdom d" using that by (simp only: child_names_mem)
    ultimately show False using names [of "?dir @ [n]" n] by simp
  qed
  then show ?thesis
    using l by (auto simp: fs_list_keys_def permitted_def Let_def bindE_Inr_iff read_dir_def guarded_def io_fail_def filter_empty_conv
        split: sum.splits if_splits option.splits node.splits)
qed

definition nested_disk :: disk where
  "nested_disk = fmupd [''r'', ''namespaces'', ''n'', ''keys'', ''p'', ''v''] Directory
     (fmupd [''r'', ''namespaces'', ''n'', ''keys'', ''p''] Directory (fmupd [''r'', ''namespaces'', ''n'', ''keys''] Directory case_disk))"

theorem list_keys_flat_witness:
  "fst (fs_list_keys case_fenv (\<lambda>_. 0) (Some case_admin) ''n'' (Some ''p/'') case_storage nested_disk) = Inr []"
proof -
  obtain keys d' where l: "fs_list_keys case_fenv (\<lambda>_. 0) (Some case_admin) ''n'' (Some ''p/'') case_storage nested_disk = (Inr keys, d')"
    using case_fenv_facts(1)
    by (simp add: case_fenv_facts(3) nested_disk_def case_disk_def case_storage_def fs_list_keys_def storage_run disk_run read_dir_def)
  have "CHR ''/'' \<notin> set n" if "q |\<in>| fmdom nested_disk" "n \<in> set q" for q n
    using that by (auto simp: nested_disk_def case_disk_def)
  from list_keys_flat [OF this _ l] l show ?thesis by simp
qed

end
