(* ===== verification/Federation.thy ===== *)
theory Federation
  imports In_Memory "HOL-Library.Multiset"
begin

text \<open>
  The store of federated proposals and votes (\<^verbatim>\<open>federation/storage.rs\<close>, with the data of \<^verbatim>\<open>federation/messages.rs\<close> and the
  queries of \<^verbatim>\<open>identity.rs\<close> it uses) over any storage backend: a cache behind a lock, the checks a vote passes, and the
  preparation of ballots. The lock's poisoning is a flag of the state. JSON texts are parameters (\<open>fed_env\<close>).
\<close>

section \<open>Messages\<close>

type_synonym i64 = "64 word"

datatype ProposalScope = SingleCoop string | MultiCoop "string list" | GlobalFederation

datatype VotingModel = OneMemberOneVote | OneCoopOneVote

datatype FederatedStatus = FS_Open | FS_Closed | FS_Executed | FS_Rejected | FS_Expired

record FederatedProposal =
  fp_proposal_id :: string
  fp_namespace :: string
  fp_options :: "string list"
  fp_creator :: string
  fp_created_at :: i64
  fp_scope :: ProposalScope
  fp_voting_model :: VotingModel
  fp_expires_at :: "i64 option"
  fp_status :: FederatedStatus

record FederatedVote =
  fv_proposal_id :: string
  fv_voter :: string
  fv_ranked_choices :: "f64 list"
  fv_message :: string
  fv_signature :: string

definition federated_new ::
  "i64 \<Rightarrow> string \<Rightarrow> string \<Rightarrow> string list \<Rightarrow> string \<Rightarrow> ProposalScope \<Rightarrow> VotingModel \<Rightarrow> FederatedProposal" where
  "federated_new t pid ns options creator scope model =
     \<lparr>fp_proposal_id = pid, fp_namespace = ns, fp_options = options, fp_creator = creator, fp_created_at = t, fp_scope = scope,
      fp_voting_model = model, fp_expires_at = None, fp_status = FS_Open\<rparr>"

definition with_expiration :: "i64 \<Rightarrow> i64 \<Rightarrow> FederatedProposal \<Rightarrow> FederatedProposal" where
  "with_expiration t expires_in_seconds p = p\<lparr>fp_expires_at := Some (t + expires_in_seconds)\<rparr>"

section \<open>Parameters and state\<close>

record fed_env =
  fd_proposal_enc :: "FederatedProposal \<Rightarrow> string + bytes"
  fd_proposal_dec :: "bytes \<Rightarrow> string + FederatedProposal"
  fd_votes_enc :: "FederatedVote list \<Rightarrow> string + bytes"
  fd_votes_dec :: "bytes \<Rightarrow> string + FederatedVote list"
  fd_identity_dec :: "bytes \<Rightarrow> string + Identity"
  fd_json_string :: "string \<Rightarrow> string option"                    \<comment> \<open>the string a JSON text denotes, if it is one\<close>
  fd_string_json :: "string \<Rightarrow> string"
  fd_error_text :: "StorageError \<Rightarrow> string"
  fd_poison_text :: string

record FederationCache =
  fc_proposals :: "(string, FederatedProposal) fmap"
  fc_votes :: "(string, FederatedVote list) fmap"

record FederationStorage =
  fst_cache :: FederationCache
  fst_poisoned :: bool

definition federation_new :: FederationStorage where
  "federation_new = \<lparr>fst_cache = \<lparr>fc_proposals = fmempty, fc_votes = fmempty\<rparr>, fst_poisoned = False\<rparr>"

definition lock_cache :: "StorageError \<Rightarrow> FederationStorage \<Rightarrow> StorageError + FederationCache" where
  "lock_cache e F = (if fst_poisoned F then Inl e else Inr (fst_cache F))"

section \<open>Queries of an identity\<close>

definition get_metadata :: "fed_env \<Rightarrow> string \<Rightarrow> Identity \<Rightarrow> string option" where
  "get_metadata D key i = Option.bind (fmlookup (pr_other_fields (id_profile i)) key) (fd_json_string D)"

definition add_metadata :: "fed_env \<Rightarrow> string \<Rightarrow> string \<Rightarrow> Identity \<Rightarrow> Identity" where
  "add_metadata D key v i =
     i\<lparr>id_profile := (id_profile i)\<lparr>pr_other_fields := fmupd key (fd_string_json D v) (pr_other_fields (id_profile i))\<rparr>\<rparr>"

definition belongs_to :: "fed_env \<Rightarrow> string \<Rightarrow> Identity \<Rightarrow> bool" where
  "belongs_to D coop_id i = (case get_metadata D ''coop_id'' i of Some c \<Rightarrow> c = coop_id | None \<Rightarrow> False)"

definition crypto_scheme :: "Identity \<Rightarrow> string option" where
  "crypto_scheme i = Some ''ed25519''"

definition public_key :: "Identity \<Rightarrow> bytes option" where
  "public_key i = Some (id_public_key_bytes i)"

definition ext_get_identity :: "fed_env \<Rightarrow> 's StorageBackend \<Rightarrow> string \<Rightarrow> 's \<Rightarrow> StorageError + Identity" where
  "ext_get_identity D B identity_id s = get_json B ''Identity'' (fd_identity_dec D) None ''identity'' (''identities/'' @ identity_id) s"

section \<open>Proposals\<close>

definition make_proposal_key :: "string \<Rightarrow> string" where
  "make_proposal_key pid = ''federation/proposals/'' @ pid"

definition make_votes_key :: "string \<Rightarrow> string" where
  "make_votes_key pid = ''federation/votes/'' @ pid"

definition make_sync_base_key :: "string \<Rightarrow> string" where
  "make_sync_base_key pid = ''federation/sync/'' @ pid"

definition make_sync_key :: "string \<Rightarrow> string" where
  "make_sync_key pid = make_sync_base_key pid @ ''/last_seen''"

definition save_under ::
  "fed_env \<Rightarrow> 's StorageBackend \<Rightarrow> clock \<Rightarrow> string \<Rightarrow> AuthContext option \<Rightarrow> FederatedProposal \<Rightarrow> FederationStorage \<times> 's \<Rightarrow>
     (StorageError, unit, FederationStorage \<times> 's) outcome" where
  "save_under D B t what auth p x =
     (case x of (F, s) \<Rightarrow>
        (case set_json B ''FederatedProposal'' (fd_proposal_enc D) t auth (fp_namespace p) (make_proposal_key (fp_proposal_id p)) p s of
           (Inl e, s1) \<Rightarrow> (Inl (SE_Other (''Failed to save proposal to storage'' @ what @ '': '' @ fd_error_text D e)), (F, s1))
         | (Inr _, s1) \<Rightarrow>
             (case lock_cache (SE_Other (''Failed to lock federation cache: poisoned mutex - '' @ fd_poison_text D)) F of
                Inl e \<Rightarrow> (Inl e, (F, s1))
              | Inr c \<Rightarrow> (Inr (), (F\<lparr>fst_cache := c\<lparr>fc_proposals := fmupd (fp_proposal_id p) p (fc_proposals c)\<rparr>\<rparr>, s1)))))"

definition save_proposal ::
  "fed_env \<Rightarrow> 's StorageBackend \<Rightarrow> clock \<Rightarrow> FederatedProposal \<Rightarrow> FederationStorage \<times> 's \<Rightarrow>
     (StorageError, unit, FederationStorage \<times> 's) outcome" where
  "save_proposal D B t p x = save_under D B t '''' None p x"

definition save_proposal_with_auth ::
  "fed_env \<Rightarrow> 's StorageBackend \<Rightarrow> clock \<Rightarrow> AuthContext option \<Rightarrow> FederatedProposal \<Rightarrow> FederationStorage \<times> 's \<Rightarrow>
     (StorageError, unit, FederationStorage \<times> 's) outcome" where
  "save_proposal_with_auth D B t auth p x = save_under D B t '' with auth'' auth p x"

definition cache_poisoned :: StorageError where
  "cache_poisoned = SE_Other ''Cache mutex poisoned''"

definition fed_get_proposal :: "fed_env \<Rightarrow> 's StorageBackend \<Rightarrow> string \<Rightarrow> FederationStorage \<Rightarrow> 's \<Rightarrow> StorageError + FederatedProposal" where
  "fed_get_proposal D B pid F s =
     bindR (lock_cache cache_poisoned F) (\<lambda>c.
       case fmlookup (fc_proposals c) pid of
         Some p \<Rightarrow> Inr p
       | None \<Rightarrow>
           map_err (\<lambda>e. SE_Other (''Failed to retrieve proposal '' @ pid @ '': '' @ fd_error_text D e))
             (get_json B ''FederatedProposal'' (fd_proposal_dec D) None ''federation'' (make_proposal_key pid) s))"

definition get_votes :: "fed_env \<Rightarrow> 's StorageBackend \<Rightarrow> string \<Rightarrow> FederationStorage \<Rightarrow> 's \<Rightarrow> StorageError + FederatedVote list" where
  "get_votes D B pid F s =
     bindR (lock_cache cache_poisoned F) (\<lambda>c.
       case fmlookup (fc_votes c) pid of
         Some vs \<Rightarrow> Inr vs
       | None \<Rightarrow>
           map_err (\<lambda>e. SE_Other (''Failed to retrieve votes for proposal '' @ pid @ '': '' @ fd_error_text D e))
             (get_json B ''Vec<FederatedVote>'' (fd_votes_dec D) None ''votes'' (make_votes_key pid) s))"

section \<open>Votes\<close>

definition verify_vote_signature :: "string \<Rightarrow> string \<Rightarrow> string \<Rightarrow> bytes \<Rightarrow> bool" where
  "verify_vote_signature message sig scheme pk =
     (if sig = ''valid'' \<or> sig = ''mock_signature'' then True
      else if scheme = ''ed25519'' then sig \<noteq> [] \<and> message \<noteq> [] \<and> pk \<noteq> []
      else if scheme = ''secp256k1'' then sig \<noteq> [] \<and> message \<noteq> [] \<and> pk \<noteq> []
      else False)"

definition voter_of ::
  "fed_env \<Rightarrow> 's StorageBackend \<Rightarrow> FederatedVote \<Rightarrow> Identity option \<Rightarrow> 's \<Rightarrow> StorageError + Identity" where
  "voter_of D B v voter_identity s =
     (case voter_identity of
        Some i \<Rightarrow> Inr i
      | None \<Rightarrow> map_err (\<lambda>_. SE_NotFound (''Identity for voter '' @ fv_voter v @ '' not found'')) (ext_get_identity D B (fv_voter v) s))"

definition check_signature :: "FederatedVote \<Rightarrow> Identity \<Rightarrow> StorageError + unit" where
  "check_signature v i =
     (case public_key i of
        None \<Rightarrow> Inl (SE_Other (''No public key available for voter '' @ fv_voter v))
      | Some pk \<Rightarrow>
          (case crypto_scheme i of
             None \<Rightarrow> Inl (SE_Other (''No crypto scheme specified for voter '' @ fv_voter v))
           | Some scheme \<Rightarrow>
               if verify_vote_signature (fv_message v) (fv_signature v) scheme pk then Inr ()
               else Inl (SE_Other (''Invalid signature for vote from '' @ fv_voter v))))"

definition check_scope :: "fed_env \<Rightarrow> ProposalScope \<Rightarrow> Identity \<Rightarrow> StorageError + unit" where
  "check_scope D scope i =
     (case scope of
        SingleCoop c \<Rightarrow>
          if belongs_to D c i then Inr () else Inl (SE_Other (''Voter not a member of eligible cooperative '' @ c))
      | MultiCoop cs \<Rightarrow>
          if list_ex (\<lambda>c. belongs_to D c i) cs then Inr () else Inl (SE_Other ''Voter not a member of any eligible cooperatives'')
      | GlobalFederation \<Rightarrow> Inr ())"

definition existing_votes :: "fed_env \<Rightarrow> 's StorageBackend \<Rightarrow> string \<Rightarrow> 's \<Rightarrow> StorageError + FederatedVote list" where
  "existing_votes D B pid s =
     (case get_json B ''Vec<FederatedVote>'' (fd_votes_dec D) None ''votes'' (make_votes_key pid) s of
        Inr vs \<Rightarrow> Inr vs
      | Inl (SE_NotFound _) \<Rightarrow> Inr []
      | Inl e \<Rightarrow> Inl (SE_Other (''Failed to retrieve existing votes: '' @ fd_error_text D e)))"

text \<open>The cache keeps one vote for each voter, at its first place.\<close>

fun replace_vote :: "FederatedVote \<Rightarrow> FederatedVote list \<Rightarrow> FederatedVote list" where
  "replace_vote v [] = [v]"
| "replace_vote v (w # ws) = (if fv_voter w = fv_voter v then v # ws else w # replace_vote v ws)"

definition cache_vote :: "FederatedVote \<Rightarrow> FederationCache \<Rightarrow> FederationCache" where
  "cache_vote v c =
     (let vs = (case fmlookup (fc_votes c) (fv_proposal_id v) of Some vs \<Rightarrow> vs | None \<Rightarrow> [])
      in c\<lparr>fc_votes := fmupd (fv_proposal_id v) (replace_vote v vs) (fc_votes c)\<rparr>)"

definition vote_admitted ::
  "fed_env \<Rightarrow> 's StorageBackend \<Rightarrow> FederatedVote \<Rightarrow> Identity option \<Rightarrow> FederationStorage \<Rightarrow> 's \<Rightarrow> StorageError + unit" where
  "vote_admitted D B v voter_identity F s =
     bindR (fed_get_proposal D B (fv_proposal_id v) F s) (\<lambda>p.
       if fp_status p \<noteq> FS_Open then Inl (SE_Other (''Proposal '' @ fv_proposal_id v @ '' is not open for voting''))
       else
         bindR (voter_of D B v voter_identity s) (\<lambda>i.
         bindR (check_signature v i) (\<lambda>_.
           check_scope D (fp_scope p) i)))"

definition save_vote ::
  "fed_env \<Rightarrow> 's StorageBackend \<Rightarrow> clock \<Rightarrow> FederatedVote \<Rightarrow> Identity option \<Rightarrow> FederationStorage \<times> 's \<Rightarrow>
     (StorageError, unit, FederationStorage \<times> 's) outcome" where
  "save_vote D B t v voter_identity x =
     (case x of (F, s) \<Rightarrow>
        (case bindR (vote_admitted D B v voter_identity F s) (\<lambda>_. existing_votes D B (fv_proposal_id v) s) of
           Inl e \<Rightarrow> (Inl e, (F, s))
         | Inr votes \<Rightarrow>
             (case set_json B ''Vec<FederatedVote>'' (fd_votes_enc D) t None ''votes'' (make_votes_key (fv_proposal_id v)) (votes @ [v]) s of
                (Inl e, s1) \<Rightarrow> (Inl (SE_Other (''Failed to save votes to storage: '' @ fd_error_text D e)), (F, s1))
              | (Inr _, s1) \<Rightarrow>
                  (case lock_cache cache_poisoned F of
                     Inl e \<Rightarrow> (Inl e, (F, s1))
                   | Inr c \<Rightarrow> (Inr (), (F\<lparr>fst_cache := cache_vote v c\<rparr>, s1))))))"

section \<open>Ballots\<close>

type_synonym coop_votes = "(string, FederatedVote \<times> nat) fmap"

definition count_vote ::
  "fed_env \<Rightarrow> (string, Identity) fmap \<Rightarrow> nat \<times> FederatedVote \<Rightarrow> coop_votes \<Rightarrow> coop_votes" where
  "count_vote D voter_identities iv cv =
     (case iv of (idx, v) \<Rightarrow>
        (case fmlookup voter_identities (fv_voter v) of
           Some i \<Rightarrow>
             (case get_metadata D ''coop_id'' i of
                Some coop_id \<Rightarrow>
                  (case fmlookup cv coop_id of
                     Some (_, existing_idx) \<Rightarrow> if idx > existing_idx then fmupd coop_id (v, idx) cv else cv
                   | None \<Rightarrow> fmupd coop_id (v, idx) cv)
              | None \<Rightarrow> fmupd (fv_voter v) (v, idx) cv)
         | None \<Rightarrow> fmupd (fv_voter v) (v, idx) cv))"

definition prepare_ranked_ballots ::
  "fed_env \<Rightarrow> FederatedVote list \<Rightarrow> FederatedProposal \<Rightarrow> (string, Identity) fmap \<Rightarrow> f64 list list" where
  "prepare_ranked_ballots D votes p voter_identities =
     (case fp_voting_model p of
        OneMemberOneVote \<Rightarrow> map fv_ranked_choices votes
      | OneCoopOneVote \<Rightarrow>
          let cv = fold (count_vote D voter_identities) (enumerate 0 votes) fmempty
          in map (\<lambda>k. fv_ranked_choices (fst (the (fmlookup cv k)))) (hkeys cv))"

section \<open>One ballot per cooperative\<close>

text \<open>Whom a vote speaks for: the voter's cooperative, or the voter where it is not known.\<close>

definition ballot_key :: "fed_env \<Rightarrow> (string, Identity) fmap \<Rightarrow> FederatedVote \<Rightarrow> string" where
  "ballot_key D ids v =
     (case Option.bind (fmlookup ids (fv_voter v)) (get_metadata D ''coop_id'') of Some c \<Rightarrow> c | None \<Rightarrow> fv_voter v)"

definition latest_vote :: "fed_env \<Rightarrow> (string, Identity) fmap \<Rightarrow> FederatedVote list \<Rightarrow> string \<Rightarrow> FederatedVote" where
  "latest_vote D ids votes k = last (filter (\<lambda>v. ballot_key D ids v = k) votes)"

lemma count_vote_key:
  assumes "\<And>k w i. fmlookup cv k = Some (w, i) \<Longrightarrow> i < idx"
  shows "count_vote D ids (idx, v) cv = fmupd (ballot_key D ids v) (v, idx) cv"
  using assms by (auto simp: count_vote_def ballot_key_def split: option.splits)

lemma count_votes_latest:
  "fmlookup (fold (count_vote D ids) (enumerate 0 votes) fmempty) k =
     (if k \<in> ballot_key D ids ` set votes
      then Some (latest_vote D ids votes k, Max {i. i < length votes \<and> ballot_key D ids (votes ! i) = k}) else None)"
proof (induction votes arbitrary: k rule: rev_induct)
  case (snoc v votes)
  let ?cv = "fold (count_vote D ids) (enumerate 0 votes) fmempty"
  have fin: "finite {i. i < length votes \<and> ballot_key D ids (votes ! i) = k}" for k by simp
  have "i < length votes" if "fmlookup ?cv k = Some (w, i)" for k w i
  proof -
    have "k \<in> ballot_key D ids ` set votes" and i: "i = Max {i. i < length votes \<and> ballot_key D ids (votes ! i) = k}"
      using that by (auto simp: snoc.IH split: if_splits)
    then have "{i. i < length votes \<and> ballot_key D ids (votes ! i) = k} \<noteq> {}" by (auto simp: in_set_conv_nth)
    from Max_in [OF fin this] i show ?thesis by simp
  qed
  then have step: "fold (count_vote D ids) (enumerate 0 (votes @ [v])) fmempty = fmupd (ballot_key D ids v) (v, length votes) ?cv"
    by (simp add: enumerate_append_eq count_vote_key)
  have "Max {i. i < length (votes @ [v]) \<and> ballot_key D ids ((votes @ [v]) ! i) = ballot_key D ids v} = length votes"
    by (rule Max_eqI) auto
  moreover have "{i. i < length (votes @ [v]) \<and> ballot_key D ids ((votes @ [v]) ! i) = k} =
      {i. i < length votes \<and> ballot_key D ids (votes ! i) = k}" if "k \<noteq> ballot_key D ids v" for k
    using that by (auto simp: nth_append less_Suc_eq)
  ultimately show ?case by (auto simp: step snoc.IH latest_vote_def)
qed simp

text \<open>
  C33: Under one vote for each cooperative the prepared ballots are exactly one for every cooperative (or voter without a
  known one) that has voted: the ranking of its latest vote.
\<close>

theorem one_ballot_per_coop:
  assumes "fp_voting_model p = OneCoopOneVote"
  shows "mset (prepare_ranked_ballots D votes p ids) =
    image_mset (\<lambda>k. fv_ranked_choices (latest_vote D ids votes k)) (mset_set (ballot_key D ids ` set votes))"
proof -
  let ?cv = "fold (count_vote D ids) (enumerate 0 votes) fmempty"
  have dom: "fset (fmdom ?cv) = ballot_key D ids ` set votes"
    by (auto simp: count_votes_latest fmlookup_dom_iff split: if_splits)
  have "mset (prepare_ranked_ballots D votes p ids) =
      image_mset (\<lambda>k. fv_ranked_choices (fst (the (fmlookup ?cv k)))) (mset (hkeys ?cv))"
    by (simp add: prepare_ranked_ballots_def assms Let_def)
  also have "mset (hkeys ?cv) = mset_set (ballot_key D ids ` set votes)"
    using mset_set_set [OF distinct_hkeys [of ?cv]] by (simp add: dom)
  also have "image_mset (\<lambda>k. fv_ranked_choices (fst (the (fmlookup ?cv k)))) \<dots> =
      image_mset (\<lambda>k. fv_ranked_choices (latest_vote D ids votes k)) (mset_set (ballot_key D ids ` set votes))"
    by (rule image_mset_cong) (simp add: count_votes_latest)
  finally show ?thesis .
qed

section \<open>Votes that are stored\<close>

lemma im_get_anonymous: "\<exists>e. im_get None ns k s = Inl (SE_PermissionDenied ''anonymous'' ''read'' ns)"
  by (simp add: im_get_def check_permission_def)

text \<open>
  The federation code calls the storage without an authorisation context, which the in-memory storage always denies:
  saving a proposal and saving a vote fail in every state and change nothing.
\<close>

theorem federated_votes_never_stored:
  "(\<exists>e. save_vote D in_memory t v voter_identity (F, s) = (Inl e, (F, s))) \<and>
   (\<exists>e. save_proposal D in_memory t p (F, s) = (Inl e, (F, s)))"
proof
  have "\<exists>e. existing_votes D in_memory (fv_proposal_id v) s = Inl e"
    using im_get_anonymous by (auto simp: existing_votes_def get_json_def)
  then show "\<exists>e. save_vote D in_memory t v voter_identity (F, s) = (Inl e, (F, s))"
    by (cases "vote_admitted D in_memory v voter_identity F s") (auto simp: save_vote_def)
  have "\<exists>e. im_set t None ns k b s = (Inl e, s)" for ns k b
    by (rule im_set_denied) (simp add: may_write_def check_permission_def)
  then have "\<exists>e. set_json in_memory ty enc t None ns k x s = (Inl e, s)" for ty enc ns k x
    by (auto simp: set_json_def split: sum.split)
  from this [of "''FederatedProposal''" "fd_proposal_enc D" "fp_namespace p" "make_proposal_key (fp_proposal_id p)" p]
  show "\<exists>e. save_proposal D in_memory t p (F, s) = (Inl e, (F, s))"
    by (auto simp: save_proposal_def save_under_def)
qed

lemma save_vote_ok:
  assumes "save_vote D B t v voter_identity (F, s) = (Inr u, (F', s'))"
  obtains p i votes where "fed_get_proposal D B (fv_proposal_id v) F s = Inr p" "fp_status p = FS_Open"
    "voter_of D B v voter_identity s = Inr i" "check_signature v i = Inr ()" "check_scope D (fp_scope p) i = Inr ()"
    "existing_votes D B (fv_proposal_id v) s = Inr votes"
    "set_json B ''Vec<FederatedVote>'' (fd_votes_enc D) t None ''votes'' (make_votes_key (fv_proposal_id v)) (votes @ [v]) s = (Inr (), s')"
    "\<not> fst_poisoned F" "F' = F\<lparr>fst_cache := cache_vote v (fst_cache F)\<rparr>"
  using assms
  by (auto simp: save_vote_def vote_admitted_def lock_cache_def bindR_Inr_iff
      split: sum.splits prod.splits if_splits)

text \<open>The contract of a backend that serves calls without a context, and of the votes' JSON.\<close>

definition open_backend :: "'s StorageBackend \<Rightarrow> bool" where
  "open_backend B \<longleftrightarrow> (\<forall>t ns k b s s' u. sb_set B t None ns k b s = (Inr u, s') \<longrightarrow> sb_get B None ns k s' = Inr b)"

definition votes_json_law :: "fed_env \<Rightarrow> bool" where
  "votes_json_law D \<longleftrightarrow> (\<forall>vs b. fd_votes_enc D vs = Inr b \<longrightarrow> fd_votes_dec D b = Inr vs)"

lemma stored_votes:
  assumes "open_backend B" "votes_json_law D"
    "set_json B ty (fd_votes_enc D) t None ''votes'' (make_votes_key pid) vs s = (Inr u, s')"
  shows "existing_votes D B pid s' = Inr vs"
  using assms by (auto simp: open_backend_def votes_json_law_def set_json_def existing_votes_def get_json_def split: sum.splits)

lemma replace_vote_voter:
  "distinct (map fv_voter vs) \<Longrightarrow> distinct (map fv_voter (replace_vote v vs)) \<and> filter (\<lambda>w. fv_voter w = fv_voter v) (replace_vote v vs) = [v]"
proof (induction vs)
  case (Cons w ws)
  have "set (map fv_voter (replace_vote v ws)) = insert (fv_voter v) (set (map fv_voter ws))"
    by (induction ws) auto
  with Cons show ?case by (auto simp: filter_empty_conv image_iff)
qed simp

text \<open>
  On a backend that serves the federation code, a second vote of the same voter is said to overwrite the first: the
  cache holds the new vote only, but the stored list, which a restarted node reads, holds both.
\<close>

theorem second_vote_counts_twice:
  assumes B: "open_backend B" "votes_json_law D"
    and 1: "save_vote D B t v i1 (F, s) = (Inr u1, (F1, s1))" and 2: "save_vote D B t' w i2 (F1, s1) = (Inr u2, (F2, s2))"
    and same: "fv_proposal_id w = fv_proposal_id v" "fv_voter w = fv_voter v"
    and cached: "fmlookup (fc_votes (fst_cache F)) (fv_proposal_id v) = None"
  shows "(\<exists>votes. existing_votes D B (fv_proposal_id v) s2 = Inr (votes @ [v, w])) \<and> get_votes D B (fv_proposal_id v) F2 s2 = Inr [w]"
proof -
  obtain votes1 where v1: "set_json B ''Vec<FederatedVote>'' (fd_votes_enc D) t None ''votes'' (make_votes_key (fv_proposal_id v)) (votes1 @ [v]) s = (Inr (), s1)"
    and F1: "F1 = F\<lparr>fst_cache := cache_vote v (fst_cache F)\<rparr>"
    by (rule save_vote_ok [OF 1]) blast
  obtain votes2 where e2: "existing_votes D B (fv_proposal_id w) s1 = Inr votes2"
    and v2: "set_json B ''Vec<FederatedVote>'' (fd_votes_enc D) t' None ''votes'' (make_votes_key (fv_proposal_id w)) (votes2 @ [w]) s1 = (Inr (), s2)"
    and F2: "\<not> fst_poisoned F1" "F2 = F1\<lparr>fst_cache := cache_vote w (fst_cache F1)\<rparr>"
    by (rule save_vote_ok [OF 2]) blast
  have "votes2 = votes1 @ [v]" using stored_votes [OF B v1] e2 same by simp
  then have "existing_votes D B (fv_proposal_id v) s2 = Inr (votes1 @ [v, w])" using stored_votes [OF B v2] same by simp
  moreover have "get_votes D B (fv_proposal_id v) F2 s2 = Inr [w]"
    using F2 same cached by (simp add: get_votes_def lock_cache_def F1 cache_vote_def Let_def)
  ultimately show ?thesis by blast
qed

section \<open>Instances\<close>

definition case_vote :: "string \<Rightarrow> f64 list \<Rightarrow> FederatedVote" where
  "case_vote voter ranks = \<lparr>fv_proposal_id = ''p'', fv_voter = voter, fv_ranked_choices = ranks, fv_message = ''m'', fv_signature = ''z''\<rparr>"

lemma case_vote_simps [simp]: "fv_proposal_id (case_vote a r) = ''p''" "fv_voter (case_vote a r) = a" "fv_ranked_choices (case_vote a r) = r"
  "fv_message (case_vote a r) = ''m''" "fv_signature (case_vote a r) = ''z''" "case_vote a r = case_vote b q \<longleftrightarrow> a = b \<and> r = q"
  by (auto simp: case_vote_def)

definition case_coop_identity :: "string \<Rightarrow> Identity" where
  "case_coop_identity c = \<lparr>id_did = ''did'', id_public_key_bytes = ''k'', id_private_key_bytes = None, id_public_key_multibase = ''z'',
     id_profile = \<lparr>pr_public_username = ''u'', pr_full_name = None, pr_other_fields = fmupd ''coop_id'' c fmempty\<rparr>, id_identity_type = ''member''\<rparr>"

definition case_proposal :: FederatedProposal where
  "case_proposal = federated_new 0 ''p'' ''federation'' [''x'', ''y''] ''c'' GlobalFederation OneCoopOneVote"

definition case_fed :: fed_env where
  "case_fed = \<lparr>fd_proposal_enc = \<lambda>_. Inr ''p'', fd_proposal_dec = \<lambda>_. Inr case_proposal,
     fd_votes_enc = \<lambda>vs. if vs = [case_vote ''a'' []] then Inr ''1''
       else if vs = [case_vote ''a'' [], case_vote ''a'' [f64_zero]] then Inr ''2'' else Inl ''unsupported'',
     fd_votes_dec = \<lambda>b. if b = ''1'' then Inr [case_vote ''a'' []]
       else if b = ''2'' then Inr [case_vote ''a'' [], case_vote ''a'' [f64_zero]] else Inl ''expected value'',
     fd_identity_dec = \<lambda>_. Inl ''expected value'', fd_json_string = Some, fd_string_json = \<lambda>s. s, fd_error_text = \<lambda>_. ''e'', fd_poison_text = ''''\<rparr>"

theorem one_ballot_per_coop_witness:
  "mset (prepare_ranked_ballots case_fed [case_vote ''a'' [], case_vote ''b'' [f64_zero], case_vote ''d'' [f64_one]] case_proposal
     (fmupd ''a'' (case_coop_identity ''c1'') (fmupd ''b'' (case_coop_identity ''c1'') fmempty))) = {#[f64_zero], [f64_one]#}"
proof -
  let ?vs = "[case_vote ''a'' [], case_vote ''b'' [f64_zero], case_vote ''d'' [f64_one]]"
  let ?ids = "fmupd ''a'' (case_coop_identity ''c1'') (fmupd ''b'' (case_coop_identity ''c1'') fmempty)"
  have k: "ballot_key case_fed ?ids (case_vote ''a'' r) = ''c1''" "ballot_key case_fed ?ids (case_vote ''b'' r) = ''c1''"
    "ballot_key case_fed ?ids (case_vote ''d'' r) = ''d''" for r
    by (simp_all add: ballot_key_def case_vote_def case_coop_identity_def get_metadata_def case_fed_def)
  have "ballot_key case_fed ?ids ` set ?vs = {''c1'', ''d''}" by (auto simp: k)
  moreover have "latest_vote case_fed ?ids ?vs ''c1'' = case_vote ''b'' [f64_zero]" "latest_vote case_fed ?ids ?vs ''d'' = case_vote ''d'' [f64_one]"
    by (simp_all add: latest_vote_def k)
  ultimately show ?thesis
    using one_ballot_per_coop [of case_proposal case_fed ?vs ?ids] by (simp add: case_proposal_def federated_new_def case_vote_def)
qed

definition case_open :: "((string \<times> string, bytes) fmap) StorageBackend" where
  "case_open = \<lparr>sb_get = \<lambda>_ ns k s. (case fmlookup s (ns, k) of Some b \<Rightarrow> Inr b | None \<Rightarrow> Inl (SE_NotFound k)),
     sb_get_versioned = \<lambda>_ _ k _. Inl (SE_NotFound k), sb_get_version = \<lambda>_ _ k _ _. Inl (SE_NotFound k),
     sb_list_versions = \<lambda>_ _ k _. Inl (SE_NotFound k), sb_set = \<lambda>_ _ ns k b s. (Inr (), fmupd (ns, k) b s),
     sb_contains = \<lambda>_ ns k s. Inr ((ns, k) |\<in>| fmdom s), sb_list_keys = \<lambda>_ _ _ _. Inr [], sb_begin_transaction = \<lambda>s. (Inr (), s),
     sb_commit_transaction = \<lambda>s. (Inr (), s), sb_rollback_transaction = \<lambda>s. (Inr (), s)\<rparr>"

theorem second_vote_counts_twice_witness:
  "\<exists>F2 s2 votes. existing_votes case_fed case_open ''p'' s2 = Inr (votes @ [case_vote ''a'' [], case_vote ''a'' [f64_zero]]) \<and>
     get_votes case_fed case_open ''p'' F2 s2 = Inr [case_vote ''a'' [f64_zero]]"
proof -
  let ?F = "federation_new\<lparr>fst_cache := \<lparr>fc_proposals = fmupd ''p'' case_proposal fmempty, fc_votes = fmempty\<rparr>\<rparr>"
  let ?v = "case_vote ''a'' []" and ?w = "case_vote ''a'' [f64_zero]" and ?i = "Some (case_coop_identity ''c1'')"
  note defs = save_vote_def vote_admitted_def fed_get_proposal_def lock_cache_def federation_new_def case_proposal_def federated_new_def voter_of_def
    check_signature_def public_key_def crypto_scheme_def verify_vote_signature_def check_scope_def existing_votes_def get_json_def set_json_def
    case_open_def case_fed_def cache_vote_def
  obtain F1 s1 where 1: "save_vote case_fed case_open (\<lambda>_. 0) ?v ?i (?F, fmempty) = (Inr (), (F1, s1))" and F1: "fmlookup (fc_proposals (fst_cache F1)) ''p'' = Some case_proposal"
    "fst_poisoned F1 = False" "fmlookup s1 (''votes'', make_votes_key ''p'') = Some ''1''"
    by (simp add: defs case_coop_identity_def)
  obtain F2 s2 where 2: "save_vote case_fed case_open (\<lambda>_. 0) ?w ?i (F1, s1) = (Inr (), (F2, s2))"
    using F1 by (simp add: defs case_coop_identity_def)
  have "open_backend case_open" "votes_json_law case_fed" by (simp_all add: open_backend_def case_open_def votes_json_law_def case_fed_def)
  from second_vote_counts_twice [OF this 1 2] show ?thesis by (auto simp: federation_new_def)
qed

end
