(* ===== verification/Comments.thy ===== *)
theory Comments
  imports In_Memory VM_State
begin

text \<open>
  Comments on proposals (\<^verbatim>\<open>governance/comments.rs\<close>) over the machine's storage backend. The handlers write to a clone of the
  backend that they then drop; for the in-memory storage a clone is a copy, so the machine is returned as it was.
  Identifiers and times of \<^verbatim>\<open>uuid\<close> and \<^verbatim>\<open>chrono\<close>, the JSON texts and the texts of errors are parameters (\<open>com_env\<close>);
  moments are numbers that are only copied, and reaction counts wrap as in a release build.
\<close>

section \<open>Comments\<close>

record CommentVersion =
  cv_content :: string
  cv_timestamp :: u64

record ProposalComment =
  pc_id :: string
  pc_author :: string
  pc_timestamp :: u64
  pc_content :: string
  pc_reply_to :: "string option"
  pc_tags :: "string list"
  pc_reactions :: "(string, 32 word) fmap"
  pc_hidden :: bool
  pc_edit_history :: "CommentVersion list"

record LegacyComment =
  lc_id :: string
  lc_author :: string
  lc_timestamp :: u64
  lc_content :: string
  lc_reply_to :: "string option"
  lc_tags :: "string list"
  lc_reactions :: "(string, 32 word) fmap"

definition comment_new :: "string \<Rightarrow> u64 \<Rightarrow> string \<Rightarrow> string \<Rightarrow> string option \<Rightarrow> string list \<Rightarrow> ProposalComment" where
  "comment_new uuid t author content reply_to tags =
     \<lparr>pc_id = uuid, pc_author = author, pc_timestamp = t, pc_content = content, pc_reply_to = reply_to, pc_tags = tags,
      pc_reactions = fmempty, pc_hidden = False, pc_edit_history = [\<lparr>cv_content = content, cv_timestamp = t\<rparr>]\<rparr>"

definition comment_add_version :: "u64 \<Rightarrow> string \<Rightarrow> ProposalComment \<Rightarrow> ProposalComment" where
  "comment_add_version t content c =
     c\<lparr>pc_content := content, pc_edit_history := pc_edit_history c @ [\<lparr>cv_content = content, cv_timestamp = t\<rparr>]\<rparr>"

definition comment_hide :: "ProposalComment \<Rightarrow> ProposalComment" where
  "comment_hide c = c\<lparr>pc_hidden := True\<rparr>"

definition comment_unhide :: "ProposalComment \<Rightarrow> ProposalComment" where
  "comment_unhide c = c\<lparr>pc_hidden := False\<rparr>"

definition get_versions :: "ProposalComment \<Rightarrow> CommentVersion list" where
  "get_versions c = pc_edit_history c"

definition add_reaction :: "string \<Rightarrow> ProposalComment \<Rightarrow> ProposalComment" where
  "add_reaction reaction c =
     c\<lparr>pc_reactions := fmupd reaction ((case fmlookup (pc_reactions c) reaction of Some n \<Rightarrow> n | None \<Rightarrow> 0) + 1) (pc_reactions c)\<rparr>"

definition add_tags :: "string list \<Rightarrow> ProposalComment \<Rightarrow> ProposalComment" where
  "add_tags new_tags c =
     c\<lparr>pc_tags := fold (\<lambda>tag tags. if tag \<in> set tags then tags else tags @ [tag]) new_tags (pc_tags c)\<rparr>"

definition migrate :: "LegacyComment \<Rightarrow> ProposalComment" where
  "migrate l =
     \<lparr>pc_id = lc_id l, pc_author = lc_author l, pc_timestamp = lc_timestamp l, pc_content = lc_content l, pc_reply_to = lc_reply_to l,
      pc_tags = lc_tags l, pc_reactions = lc_reactions l, pc_hidden = False,
      pc_edit_history = [\<lparr>cv_content = lc_content l, cv_timestamp = lc_timestamp l\<rparr>]\<rparr>"

section \<open>Handlers\<close>

record com_env =
  ce_enc :: "ProposalComment \<Rightarrow> string + bytes"
  ce_dec :: "bytes \<Rightarrow> string + ProposalComment"
  ce_legacy_dec :: "bytes \<Rightarrow> string + LegacyComment"
  ce_version_enc :: "CommentVersion \<Rightarrow> string + bytes"
  ce_error_text :: "StorageError \<Rightarrow> string"
  ce_json_text :: "string \<Rightarrow> string"

type_synonym 'a com_result = "string + 'a"

definition proposal_path :: "string \<Rightarrow> string" where
  "proposal_path pid = ''governance/proposals/'' @ pid"

definition comment_path :: "string \<Rightarrow> string \<Rightarrow> string" where
  "comment_path pid cid = ''governance/proposals/'' @ pid @ ''/comments/'' @ cid"

definition comment_backend :: "'s VM \<Rightarrow> 's com_result" where
  "comment_backend vm = (case ex_storage_backend (vm_executor vm) of Some s \<Rightarrow> Inr s | None \<Rightarrow> Inl ''Storage backend not available'')"

definition comment_json :: "com_env \<Rightarrow> 's StorageBackend \<Rightarrow> AuthContext option \<Rightarrow> string \<Rightarrow> 's \<Rightarrow> StorageError + ProposalComment" where
  "comment_json D B auth k s = get_json B ''ProposalComment'' (ce_dec D) auth ''governance'' k s"

definition proposal_there :: "'s StorageBackend \<Rightarrow> AuthContext option \<Rightarrow> string \<Rightarrow> 's \<Rightarrow> unit com_result" where
  "proposal_there B auth pid s =
     (case sb_get B auth ''governance'' (proposal_path pid) s of
        Inr _ \<Rightarrow> Inr () | Inl _ \<Rightarrow> Inl (''Proposal '' @ pid @ '' does not exist''))"

fun collect_comments ::
  "com_env \<Rightarrow> 's StorageBackend \<Rightarrow> AuthContext option \<Rightarrow> bool \<Rightarrow> 's \<Rightarrow> string list \<Rightarrow> (string, ProposalComment) fmap \<Rightarrow> (string, ProposalComment) fmap" where
  "collect_comments D B auth show_hidden s [] acc = acc"
| "collect_comments D B auth show_hidden s (k # ks) acc =
     collect_comments D B auth show_hidden s ks
       (case comment_json D B auth k s of
          Inr c \<Rightarrow> if \<not> pc_hidden c \<or> show_hidden then fmupd (pc_id c) c acc else acc
        | Inl _ \<Rightarrow> acc)"

definition fetch_comments_threaded ::
  "com_env \<Rightarrow> 's StorageBackend \<Rightarrow> string \<Rightarrow> AuthContext option \<Rightarrow> bool \<Rightarrow> 's VM \<Rightarrow> (string, ProposalComment) fmap com_result" where
  "fetch_comments_threaded D B pid auth show_hidden vm =
     bindR (comment_backend vm) (\<lambda>s.
     bindR (proposal_there B auth pid s) (\<lambda>_.
     bindR (map_err (ce_error_text D) (sb_list_keys B auth ''governance'' (Some (proposal_path pid @ ''/comments'')) s)) (\<lambda>ks.
       Inr (collect_comments D B auth show_hidden s ks fmempty))))"

text \<open>A write to a clone of the backend, which is dropped with what was written.\<close>

definition on_clone :: "com_env \<Rightarrow> (StorageError, 'a, 's) outcome \<Rightarrow> 'a com_result" where
  "on_clone D r = map_err (ce_error_text D) (fst r)"

definition create_comment ::
  "com_env \<Rightarrow> 's StorageBackend \<Rightarrow> clock \<Rightarrow> string \<Rightarrow> u64 \<Rightarrow> string \<Rightarrow> string \<Rightarrow> string \<Rightarrow> string option \<Rightarrow> string list \<Rightarrow> AuthContext \<Rightarrow>
     's VM \<Rightarrow> (string, ProposalComment, 's VM) outcome" where
  "create_comment D B t uuid time pid author content reply_to tags auth vm =
     (bindR (comment_backend vm) (\<lambda>s.
      bindR (proposal_there B (Some auth) pid s) (\<lambda>_.
        let comment = comment_new uuid time author content reply_to tags in
        bindR (on_clone D (set_json B ''ProposalComment'' (ce_enc D) t (Some auth) ''governance'' (comment_path pid (pc_id comment)) comment s)) (\<lambda>_.
          Inr comment))), vm)"

definition get_comment :: "com_env \<Rightarrow> 's StorageBackend \<Rightarrow> string \<Rightarrow> string \<Rightarrow> AuthContext option \<Rightarrow> 's VM \<Rightarrow> ProposalComment com_result" where
  "get_comment D B pid cid auth vm =
     bindR (comment_backend vm) (\<lambda>s.
     bindR (map_err (ce_error_text D) (sb_get B auth ''governance'' (comment_path pid cid) s)) (\<lambda>comment_data.
       case ce_dec D comment_data of
         Inr c \<Rightarrow> Inr c
       | Inl _ \<Rightarrow> bindR (map_err (ce_json_text D) (ce_legacy_dec D comment_data)) (\<lambda>l. Inr (migrate l))))"

definition own_comment ::
  "com_env \<Rightarrow> 's StorageBackend \<Rightarrow> string \<Rightarrow> string \<Rightarrow> string \<Rightarrow> AuthContext \<Rightarrow> 's \<Rightarrow> ProposalComment com_result" where
  "own_comment D B verb pid cid auth s =
     bindR (map_err (ce_error_text D) (comment_json D B (Some auth) (comment_path pid cid) s)) (\<lambda>c.
       if pc_author c \<noteq> ac_current_identity_did auth then Inl (''Only the original author can '' @ verb @ '' a comment'') else Inr c)"

definition edit_comment ::
  "com_env \<Rightarrow> 's StorageBackend \<Rightarrow> clock \<Rightarrow> u64 \<Rightarrow> string \<Rightarrow> string \<Rightarrow> string \<Rightarrow> AuthContext \<Rightarrow> 's VM \<Rightarrow> (string, unit, 's VM) outcome" where
  "edit_comment D B t time pid cid new_content auth vm =
     (bindR (comment_backend vm) (\<lambda>s.
      bindR (own_comment D B ''edit'' pid cid auth s) (\<lambda>c0.
        let c = comment_add_version time new_content c0;
            version_id = length (pc_edit_history c) - 1;
            version_path = ''governance/proposals/'' @ pid @ ''/comments/versions/'' @ cid @ ''/'' @ show_nat version_id
        in on_clone D
             (bindE (set_json B ''ProposalComment'' (ce_enc D) t (Some auth) ''governance'' (comment_path pid cid) c s) (\<lambda>_ s1.
                set_json B ''CommentVersion'' (ce_version_enc D) t (Some auth) ''governance'' version_path (last (pc_edit_history c)) s1)))), vm)"

definition hide_comment ::
  "com_env \<Rightarrow> 's StorageBackend \<Rightarrow> clock \<Rightarrow> string \<Rightarrow> string \<Rightarrow> AuthContext \<Rightarrow> 's VM \<Rightarrow> (string, unit, 's VM) outcome" where
  "hide_comment D B t pid cid auth vm =
     (bindR (comment_backend vm) (\<lambda>s.
      bindR (own_comment D B ''hide'' pid cid auth s) (\<lambda>c.
        on_clone D (set_json B ''ProposalComment'' (ce_enc D) t (Some auth) ''governance'' (comment_path pid cid) (comment_hide c) s))), vm)"

definition get_comment_history ::
  "com_env \<Rightarrow> 's StorageBackend \<Rightarrow> string \<Rightarrow> string \<Rightarrow> AuthContext option \<Rightarrow> 's VM \<Rightarrow> CommentVersion list com_result" where
  "get_comment_history D B pid cid auth vm =
     bindR (comment_backend vm) (\<lambda>s.
     bindR (map_err (ce_error_text D) (comment_json D B auth (comment_path pid cid) s)) (\<lambda>c. Inr (pc_edit_history c)))"

section \<open>What comments keep\<close>

definition comment_ok :: "ProposalComment \<Rightarrow> bool" where
  "comment_ok c \<longleftrightarrow> pc_edit_history c \<noteq> [] \<and> cv_content (last (pc_edit_history c)) = pc_content c \<and> distinct (pc_tags c)"

lemma comment_ok_operations:
  "distinct tags \<Longrightarrow> comment_ok (comment_new uuid t a content r tags)"
  "comment_ok c \<Longrightarrow> comment_ok (comment_add_version t content c)"
  "comment_ok c \<Longrightarrow> comment_ok (comment_hide c)" "comment_ok c \<Longrightarrow> comment_ok (comment_unhide c)"
  "comment_ok c \<Longrightarrow> comment_ok (add_reaction x c)"
  by (simp_all add: comment_ok_def comment_new_def comment_add_version_def comment_hide_def comment_unhide_def add_reaction_def)

lemma add_tags_ok:
  assumes "comment_ok c"
  shows "comment_ok (add_tags ts c)" "set (pc_tags (add_tags ts c)) = set (pc_tags c) \<union> set ts"
proof -
  have "distinct tags \<Longrightarrow> distinct (fold (\<lambda>tag tags. if tag \<in> set tags then tags else tags @ [tag]) ts tags) \<and>
      set (fold (\<lambda>tag tags. if tag \<in> set tags then tags else tags @ [tag]) ts tags) = set tags \<union> set ts" for tags
    by (induction ts arbitrary: tags) auto
  with assms show "comment_ok (add_tags ts c)" "set (pc_tags (add_tags ts c)) = set (pc_tags c) \<union> set ts"
    by (simp_all add: comment_ok_def add_tags_def)
qed

text \<open>
  With the in-memory storage a comment that was created successfully is lost: the handler writes to a copy of the
  storage, the machine is as before, and asking for the new comment fails.
\<close>

theorem created_comment_lost:
  assumes "create_comment D in_memory t uuid time pid author content reply_to tags auth vm = (Inr c, vm')"
    and "ex_storage_backend (vm_executor vm) = Some s" "im_look s ''governance'' (comment_path pid uuid) = None"
  shows "vm' = vm \<and> (\<exists>e. get_comment D in_memory pid (pc_id c) auth' vm' = Inl e)"
proof -
  have "vm' = vm" and c: "pc_id c = uuid"
    using assms(1) by (auto simp: create_comment_def Let_def comment_new_def bindR_Inr_iff)
  moreover obtain e where "im_get auth' ''governance'' (comment_path pid uuid) s = Inl e"
    using im.get_none [OF assms(3), of auth'] by auto
  ultimately show ?thesis using assms(2) by (simp add: get_comment_def comment_backend_def)
qed

definition case_machine :: "InMemoryStorage VM" where
  "case_machine = with_storage_backend (demo_store\<lparr>im_data := ninsert ''governance'' (proposal_path ''p'') ''x'' (im_data demo_store)\<rparr>)"

definition case_com :: com_env where
  "case_com = \<lparr>ce_enc = \<lambda>_. Inr ''c'', ce_dec = \<lambda>_. Inl ''e'', ce_legacy_dec = \<lambda>_. Inl ''e'', ce_version_enc = \<lambda>_. Inr ''v'',
     ce_error_text = \<lambda>_. ''e'', ce_json_text = \<lambda>_. ''e''\<rparr>"

theorem created_comment_lost_witness:
  "\<exists>c. fst (create_comment case_com in_memory demo_clock ''u'' 0 ''p'' ''g'' ''hello'' None [] demo_auth case_machine) = Inr c \<and>
     (\<exists>e. get_comment case_com in_memory ''p'' (pc_id c) (Some demo_auth) case_machine = Inl e)"
proof -
  let ?r = "create_comment case_com in_memory demo_clock ''u'' 0 ''p'' ''g'' ''hello'' None [] demo_auth case_machine"
  have "\<not> isl (fst ?r)" by code_simp
  then obtain c vm where c: "?r = (Inr c, vm)" by (cases ?r; cases "fst ?r") auto
  obtain s where s: "ex_storage_backend (vm_executor case_machine) = Some s"
    by (simp add: case_machine_def with_storage_backend_def vm_set_storage_backend_def set_storage_backend_def)
  have "im_look (the (ex_storage_backend (vm_executor case_machine))) ''governance'' (comment_path ''p'' ''u'') = None" by code_simp
  with created_comment_lost [OF c s, of "Some demo_auth"] s c show ?thesis by auto
qed

end
