(* ===== verification/Proposal_Commands.thy ===== *)
theory Proposal_Commands
  imports Lifecycle Ledger Comments
begin

text \<open>
  The proposal commands of \<^verbatim>\<open>cli/proposal.rs\<close>: the storage operations of the trait \<^verbatim>\<open>VMProposalExtensions\<close> and the
  subcommands that use them. The machine is taken together with its field \<^verbatim>\<open>dag\<close>, the ledger these commands write to.
  Every writing operation works on a clone of the storage of a fork of the machine and then commits on the machine itself.
  As for the in-memory storage, a clone is a copy, which is dropped at the end.

  What is printed is the result of a command that only reads. Parsed arguments, the contents of files, identifiers and
  the readings of the clock are arguments; JSON and the texts of dates and errors are parameters (\<open>cmd_env\<close>). So are
  \<^verbatim>\<open>quorum\<close> and \<^verbatim>\<open>threshold\<close>, which the source reads from a \<^verbatim>\<open>ProposalLifecycle\<close> although the struct has no such fields.
\<close>

section \<open>Data\<close>

datatype CommandError = CX_Message string | CX_Storage StorageError | CX_VM VMError | CX_Compiler CompilerError

record StoredComment =
  sc_author :: string
  sc_timestamp :: string
  sc_content :: string
  sc_parent :: "string option"

record CastVote =
  ct_voter :: string
  ct_vote :: string
  ct_timestamp :: string
  ct_delegated_by :: "string option"

record 's cmd_env =
  cm_life :: "'s life_env"
  cm_venv :: venv
  cm_ledger :: ledger_env
  cm_com :: com_env
  cm_proposal_enc :: "Proposal \<Rightarrow> string + bytes"
  cm_proposal_dec :: "bytes \<Rightarrow> string + Proposal"
  cm_lifecycle_enc :: "ProposalLifecycle \<Rightarrow> string + bytes"
  cm_lifecycle_dec :: "bytes \<Rightarrow> string + ProposalLifecycle"
  cm_vote_enc :: "CastVote \<Rightarrow> string + bytes"
  cm_value_dec :: "bytes \<Rightarrow> string + (string \<Rightarrow> string option)"      \<comment> \<open>the fields of a JSON value that are strings\<close>
  cm_comment_enc :: "StoredComment \<Rightarrow> string + bytes"
  cm_comment_dec :: "bytes \<Rightarrow> string + StoredComment"
  cm_rfc3339 :: "datetime \<Rightarrow> string"
  cm_quorum :: "ProposalLifecycle \<Rightarrow> u64"
  cm_threshold :: "ProposalLifecycle \<Rightarrow> u64"
  cm_status_text :: "ProposalStatus \<Rightarrow> string"
  cm_typed_text :: "TypedValueError \<Rightarrow> string"

type_synonym 's desk = "'s VM \<times> DagLedger option"
type_synonym ('a, 's) cmd_result = "(CommandError fault, 'a, 's desk) outcome"

section \<open>Keys\<close>

definition proposal_key_prefix :: "string \<Rightarrow> string" where
  "proposal_key_prefix pid = ''governance_proposals/'' @ pid"

definition proposal_lifecycle_key :: "string \<Rightarrow> string" where
  "proposal_lifecycle_key pid = proposal_key_prefix pid @ ''/lifecycle''"

definition proposal_description_key :: "string \<Rightarrow> string" where
  "proposal_description_key pid = proposal_key_prefix pid @ ''/description''"

definition proposal_logic_key :: "string \<Rightarrow> string" where
  "proposal_logic_key pid = proposal_key_prefix pid @ ''/logic''"

definition proposal_votes_prefix :: "string \<Rightarrow> string" where
  "proposal_votes_prefix pid = proposal_key_prefix pid @ ''/votes''"

definition proposal_comments_prefix :: "string \<Rightarrow> string" where
  "proposal_comments_prefix pid = proposal_key_prefix pid @ ''/comments''"

section \<open>The machine, its fork and the ledger\<close>

definition vm_auth :: "'s VM \<Rightarrow> AuthContext option" where
  "vm_auth vm = ex_auth_context (vm_executor vm)"

definition vm_namespace :: "'s VM \<Rightarrow> string" where
  "vm_namespace vm = ex_namespace (vm_executor vm)"

definition machine_storage :: "string \<Rightarrow> 's VM \<Rightarrow> CommandError + 's" where
  "machine_storage what vm = (case ex_storage_backend (vm_executor vm) of Some s \<Rightarrow> Inr s | None \<Rightarrow> Inl (CX_Message what))"

definition cmd_failed :: "'s cmd_env \<Rightarrow> string \<Rightarrow> StorageError \<Rightarrow> CommandError" where
  "cmd_failed M what e = CX_Message (what @ '': '' @ dsp_storage_error (cm_life M) e)"

text \<open>The result of a write to a storage, with its error named or boxed as it is.\<close>

definition named :: "'m cmd_env \<Rightarrow> string \<Rightarrow> (StorageError, 'a, 's) outcome \<Rightarrow> (CommandError, 'a, 's) outcome" where
  "named M what r = (map_err (cmd_failed M what) (fst r), snd r)"

definition boxed :: "(StorageError, 'a, 's) outcome \<Rightarrow> (CommandError, 'a, 's) outcome" where
  "boxed r = (map_err CX_Storage (fst r), snd r)"

definition forked_storage :: "'s cmd_env \<Rightarrow> 's StorageBackend \<Rightarrow> 's VM \<Rightarrow> CommandError + 's VM \<times> 's" where
  "forked_storage M B vm =
     (case vm_fork (cm_venv M) B vm of
        Inl e \<Rightarrow> Inl (CX_VM e)
      | Inr forked \<Rightarrow> bindR (machine_storage ''Storage not available'' forked) (\<lambda>s. Inr (forked, s)))"

definition commit_with ::
  "'s cmd_env \<Rightarrow> 's StorageBackend \<Rightarrow> CommandError fault + 'a \<Rightarrow> 's VM \<Rightarrow> (CommandError fault, 'a, 's VM) outcome" where
  "commit_with M B r vm =
     (case r of
        Inl e \<Rightarrow> (Inl e, vm)
      | Inr a \<Rightarrow>
          (case vm_commit_fork_transaction (cm_venv M) B vm of
             (Inl (Err e), vm') \<Rightarrow> (Inl (Err (CX_VM e)), vm')
           | (Inl Panic, vm') \<Rightarrow> (Inl Panic, vm')
           | (Inr _, vm') \<Rightarrow> (Inr a, vm')))"

definition on_fork ::
  "'s cmd_env \<Rightarrow> 's StorageBackend \<Rightarrow> ('s VM \<Rightarrow> 's \<Rightarrow> CommandError + 'a) \<Rightarrow> 's VM \<Rightarrow> (CommandError fault, 'a, 's VM) outcome" where
  "on_fork M B f vm = commit_with M B (map_err Err (bindR (forked_storage M B vm) (\<lambda>(forked, s). f forked s))) vm"

text \<open>A node for the ledger, if there is one; seconds since the epoch become a word by way of a double.\<close>

definition log_node ::
  "'s cmd_env \<Rightarrow> datetime \<Rightarrow> string \<Rightarrow> (DagLedger \<Rightarrow> string list) \<Rightarrow> NodeData \<Rightarrow> DagLedger option \<Rightarrow> CommandError + DagLedger option" where
  "log_node M utc ns parents data dag =
     (case dag of
        None \<Rightarrow> Inr None
      | Some L \<Rightarrow>
          (case as_u64_safe (Number (f64_of_int (utc div 1000000000))) of
             Inl e \<Rightarrow> Inl (CX_Message (''Failed to convert timestamp: '' @ cm_typed_text M e))
           | Inr ts \<Rightarrow>
               Inr (Some (snd (append_node (cm_ledger M)
                 \<lparr>dn_id = [], dn_parent_ids = parents L, dn_timestamp = ts, dn_namespace = ns, dn_data = data\<rparr> L)))))"

definition recorded ::
  "'s cmd_env \<Rightarrow> datetime \<Rightarrow> (DagLedger \<Rightarrow> string list) \<Rightarrow> NodeData \<Rightarrow> DagLedger option \<Rightarrow>
     (CommandError fault, 'a, 's VM) outcome \<Rightarrow> ('a, 's) cmd_result" where
  "recorded M utc parents data dag r =
     (case r of
        (Inl e, vm) \<Rightarrow> (Inl e, (vm, dag))
      | (Inr a, vm) \<Rightarrow>
          (case log_node M utc (vm_namespace vm) parents data dag of
             Inl e \<Rightarrow> (Inl (Err e), (vm, dag))
           | Inr dag' \<Rightarrow> (Inr a, (vm, dag'))))"

section \<open>The storage operations\<close>

definition get_proposal_lifecycle :: "'s cmd_env \<Rightarrow> 's StorageBackend \<Rightarrow> string \<Rightarrow> 's VM \<Rightarrow> CommandError + ProposalLifecycle" where
  "get_proposal_lifecycle M B pid vm =
     bindR (machine_storage ''Storage not available'' vm) (\<lambda>s.
       map_err (cmd_failed M ''Failed to get proposal lifecycle'')
         (get_json B ''ProposalLifecycle'' (cm_lifecycle_dec M) (vm_auth vm) (vm_namespace vm) (proposal_lifecycle_key pid) s))"

definition get_proposal :: "'s cmd_env \<Rightarrow> 's StorageBackend \<Rightarrow> string \<Rightarrow> 's VM \<Rightarrow> CommandError + Proposal" where
  "get_proposal M B pid vm =
     bindR (machine_storage ''Storage not available'' vm) (\<lambda>s.
       map_err (cmd_failed M ''Failed to get proposal'')
         (get_json B ''Proposal'' (cm_proposal_dec M) (vm_auth vm) (vm_namespace vm) (proposal_key_prefix pid) s))"

definition write_proposal ::
  "'s cmd_env \<Rightarrow> 's StorageBackend \<Rightarrow> clock \<Rightarrow> Proposal \<Rightarrow> ProposalLifecycle \<Rightarrow> string \<Rightarrow> string \<Rightarrow> 's VM \<Rightarrow> 's \<Rightarrow>
     (CommandError, unit, 's) outcome" where
  "write_proposal M B t p l description logic forked s =
     (let pid = pp_id p; auth = vm_auth forked; ns = vm_namespace forked in
      bindE (named M ''Failed to store proposal''
        (set_json B ''Proposal'' (cm_proposal_enc M) t auth ns (proposal_key_prefix pid) p s)) (\<lambda>_ s1.
      bindE (named M ''Failed to store proposal lifecycle''
        (set_json B ''ProposalLifecycle'' (cm_lifecycle_enc M) t auth ns (proposal_lifecycle_key pid) l s1)) (\<lambda>_ s2.
      bindE (named M ''Failed to store proposal description''
        (sb_set B t auth ns (proposal_description_key pid) description s2)) (\<lambda>_ s3.
        named M ''Failed to store proposal logic'' (sb_set B t auth ns (proposal_logic_key pid) logic s3)))))"

definition create_proposal ::
  "'s cmd_env \<Rightarrow> 's StorageBackend \<Rightarrow> clock \<Rightarrow> datetime \<Rightarrow> Proposal \<Rightarrow> ProposalLifecycle \<Rightarrow> string \<Rightarrow> string \<Rightarrow> 's desk \<Rightarrow>
     (unit, 's) cmd_result" where
  "create_proposal M B t utc p l description logic d =
     (case d of (vm, dag) \<Rightarrow>
        recorded M utc (\<lambda>_. []) (ProposalCreated (pp_id p) (pl_title l)) dag
          (on_fork M B (\<lambda>forked s. fst (write_proposal M B t p l description logic forked s)) vm))"

definition update_proposal_state ::
  "'s cmd_env \<Rightarrow> 's StorageBackend \<Rightarrow> clock \<Rightarrow> datetime \<Rightarrow> string \<Rightarrow> ProposalState \<Rightarrow> 's VM \<Rightarrow>
     (CommandError fault, unit, 's VM) outcome" where
  "update_proposal_state M B t utc pid new_state vm =
     on_fork M B (\<lambda>forked s.
       let auth = vm_auth forked; ns = vm_namespace forked; k = proposal_lifecycle_key pid in
       bindR (map_err (cmd_failed M ''Failed to load proposal lifecycle'')
         (get_json B ''ProposalLifecycle'' (cm_lifecycle_dec M) auth ns k s)) (\<lambda>l.
         fst (named M ''Failed to update proposal state''
           (set_json B ''ProposalLifecycle'' (cm_lifecycle_enc M) t auth ns k (enter utc new_state l) s)))) vm"

definition proposal_known ::
  "'s StorageBackend \<Rightarrow> AuthContext option \<Rightarrow> string \<Rightarrow> string \<Rightarrow> 's \<Rightarrow> CommandError + unit" where
  "proposal_known B auth ns pid s =
     bindR (map_err CX_Storage (sb_contains B auth ns (proposal_key_prefix pid) s)) (\<lambda>exists_it.
       if exists_it then Inr () else Inl (CX_Message (''Proposal with ID '' @ quoted pid @ '' not found'')))"

definition vote_number :: "'s life_env \<Rightarrow> string \<Rightarrow> f64" where
  "vote_number V vote_value =
     (let v = to_lowercase V vote_value in
      if v = ''yes'' then f64_one else if v = ''no'' then f64_zero else if v = ''abstain'' then F64_Num (1 / 2)
      else F64_Num (- 1))"

definition cast_vote ::
  "'s cmd_env \<Rightarrow> 's StorageBackend \<Rightarrow> clock \<Rightarrow> datetime \<Rightarrow> string \<Rightarrow> string \<Rightarrow> string \<Rightarrow> string option \<Rightarrow> 's desk \<Rightarrow>
     (unit, 's) cmd_result" where
  "cast_vote M B t utc pid voter_id vote_value delegated_by d =
     (case d of (vm, dag) \<Rightarrow>
        recorded M utc (\<lambda>L. case find_proposal_node_id pid L of Some i \<Rightarrow> [i] | None \<Rightarrow> [])
          (VoteCast pid voter_id (vote_number (cm_life M) vote_value)) dag
          (on_fork M B (\<lambda>forked s.
             let auth = vm_auth forked; ns = vm_namespace forked in
             bindR (proposal_known B auth ns pid s) (\<lambda>_.
               fst (named M ''Failed to store vote''
                 (set_json B ''Value'' (cm_vote_enc M) t auth ns (proposal_votes_prefix pid @ ''/'' @ voter_id)
                    \<lparr>ct_voter = voter_id, ct_vote = vote_value, ct_timestamp = cm_rfc3339 M utc, ct_delegated_by = delegated_by\<rparr> s)))) vm))"

fun read_votes ::
  "'s cmd_env \<Rightarrow> 's StorageBackend \<Rightarrow> AuthContext option \<Rightarrow> string \<Rightarrow> 's \<Rightarrow> string list \<Rightarrow> CommandError + (string \<times> string) list" where
  "read_votes M B auth ns s [] = Inr []"
| "read_votes M B auth ns s (k # ks) =
     bindR (map_err CX_Storage (get_json B ''Value'' (cm_value_dec M) auth ns k s)) (\<lambda>fields.
     bindR (read_votes M B auth ns s ks) (\<lambda>votes.
       Inr ((last (split_char CHR ''/'' k), case fields ''vote'' of Some v \<Rightarrow> v | None \<Rightarrow> ''abstain'') # votes)))"

definition get_proposal_votes :: "'s cmd_env \<Rightarrow> 's StorageBackend \<Rightarrow> string \<Rightarrow> 's VM \<Rightarrow> CommandError + (string \<times> string) list" where
  "get_proposal_votes M B pid vm =
     bindR (machine_storage ''Storage not available'' vm) (\<lambda>s.
     bindR (map_err CX_Storage (sb_list_keys B (vm_auth vm) (vm_namespace vm) (Some (proposal_votes_prefix pid)) s)) (\<lambda>ks.
       read_votes M B (vm_auth vm) (vm_namespace vm) s ks))"

text \<open>The logic of a proposal on the fork: whether it succeeded, an error, or no result within the fuel.\<close>

definition run_logic ::
  "'s cmd_env \<Rightarrow> 's StorageBackend \<Rightarrow> nat \<Rightarrow> string \<Rightarrow> 's VM \<Rightarrow> 's \<Rightarrow> (CommandError fault + bool) option" where
  "run_logic M B n pid forked s =
     (case sb_get B (vm_auth forked) (vm_namespace forked) (proposal_logic_key pid) s of
        Inl _ \<Rightarrow> Some (Inr False)
      | Inr logic_content \<Rightarrow>
          if \<not> valid_utf8 logic_content then Some (Inr False)
          else
            (case parse_dsl logic_content of
               Inl (Err e) \<Rightarrow> Some (Inl (Err (CX_Compiler e)))
             | Inl Panic \<Rightarrow> Some (Inl Panic)
             | Inr (ops, _) \<Rightarrow>
                 (case execute (cm_venv M) B n ops forked of
                    None \<Rightarrow> None
                  | Some (Inr _, _) \<Rightarrow> Some (Inr True)
                  | Some (Inl (Err _), _) \<Rightarrow> Some (Inr False)
                  | Some (Inl Panic, _) \<Rightarrow> Some (Inl Panic))))"

definition loaded_for_execution ::
  "'s cmd_env \<Rightarrow> 's StorageBackend \<Rightarrow> string \<Rightarrow> 's VM \<Rightarrow> CommandError + 's VM \<times> 's \<times> ProposalLifecycle" where
  "loaded_for_execution M B pid vm =
     bindR (forked_storage M B vm) (\<lambda>(forked, s).
     bindR (map_err (cmd_failed M ''Failed to load proposal lifecycle'')
       (get_json B ''ProposalLifecycle'' (cm_lifecycle_dec M) (vm_auth forked) (vm_namespace forked) (proposal_lifecycle_key pid) s)) (\<lambda>l.
       if pl_state l = PS_Executed then Inl (CX_Message (''Proposal '' @ quoted pid @ '' has already been executed''))
       else Inr (forked, s, l)))"

definition execute_proposal ::
  "'s cmd_env \<Rightarrow> 's StorageBackend \<Rightarrow> nat \<Rightarrow> clock \<Rightarrow> datetime \<Rightarrow> string \<Rightarrow> 's desk \<Rightarrow> (unit, 's) cmd_result option" where
  "execute_proposal M B n t utc pid d =
     (case d of (vm, dag) \<Rightarrow>
        (case loaded_for_execution M B pid vm of
           Inl e \<Rightarrow> Some (Inl (Err e), (vm, dag))
         | Inr (forked, s, l) \<Rightarrow>
             (case run_logic M B n pid forked s of
                None \<Rightarrow> None
              | Some (Inl e) \<Rightarrow> Some (Inl e, (vm, dag))
              | Some (Inr success) \<Rightarrow>
                  Some (recorded M utc (\<lambda>L. map dn_id (find_vote_nodes_for pid L)) (ProposalExecuted pid success) dag
                    (commit_with M B
                       (map_err Err (fst (named M ''Failed to update proposal lifecycle''
                          (set_json B ''ProposalLifecycle'' (cm_lifecycle_enc M) t (vm_auth forked) (vm_namespace forked)
                             (proposal_lifecycle_key pid) (enter utc PS_Executed l) s)))) vm)))))"

definition add_proposal_comment ::
  "'s cmd_env \<Rightarrow> 's StorageBackend \<Rightarrow> clock \<Rightarrow> datetime \<Rightarrow> string \<Rightarrow> string \<Rightarrow> string \<Rightarrow> string \<Rightarrow> string option \<Rightarrow> 's VM \<Rightarrow>
     (CommandError fault, string, 's VM) outcome" where
  "add_proposal_comment M B t utc uuid pid author content parent_id vm =
     on_fork M B (\<lambda>forked s.
       let auth = vm_auth forked; ns = vm_namespace forked in
       bindR (proposal_known B auth ns pid s) (\<lambda>_.
       bindR (fst (boxed (set_json B ''StoredComment'' (cm_comment_enc M) t auth ns (proposal_comments_prefix pid @ ''/'' @ uuid)
          \<lparr>sc_author = author, sc_timestamp = cm_rfc3339 M utc, sc_content = content, sc_parent = parent_id\<rparr> s))) (\<lambda>_.
         Inr uuid))) vm"

section \<open>Counting and deciding\<close>

fun count_choices :: "'s life_env \<Rightarrow> (string \<times> string) list \<Rightarrow> nat \<times> nat \<times> nat \<Rightarrow> nat \<times> nat \<times> nat" where
  "count_choices V [] c = c"
| "count_choices V ((_, vote) # votes) (yes, no, abstain) =
     (let v = to_lowercase V vote in
      count_choices V votes
        (if v = ''yes'' then (yes + 1, no, abstain)
         else if v = ''no'' then (yes, no + 1, abstain)
         else if v = ''abstain'' then (yes, no, abstain + 1)
         else (yes, no, abstain)))"

definition cli_count_votes :: "'s cmd_env \<Rightarrow> 's StorageBackend \<Rightarrow> string \<Rightarrow> 's VM \<Rightarrow> CommandError + nat \<times> nat \<times> nat" where
  "cli_count_votes M B pid vm =
     bindR (get_proposal_votes M B pid vm) (\<lambda>votes. Inr (count_choices (cm_life M) votes (0, 0, 0)))"

text \<open>Whether the quorum and the threshold are met.\<close>

definition decision :: "u64 \<Rightarrow> u64 \<Rightarrow> u64 option \<Rightarrow> nat \<Rightarrow> nat \<Rightarrow> bool \<times> bool" where
  "decision quorum threshold required yes_votes total_votes =
     (let yes_ratio = (if total_votes > 0 then f64_div (f64_of_nat yes_votes) (f64_of_nat total_votes) else f64_zero);
          quorum_ratio = f64_div (f64_of_nat (unat quorum)) (f64_of_int 100);
          threshold_ratio = f64_div (f64_of_nat (unat threshold)) (f64_of_int 100);
          required_participants = (case required of Some r \<Rightarrow> r | None \<Rightarrow> 1);
          participation_rate =
            (if required_participants > 0 then f64_div (f64_of_nat total_votes) (f64_of_nat (unat required_participants))
             else f64_one)
      in (f64_le quorum_ratio participation_rate, f64_le threshold_ratio yes_ratio))"

section \<open>Subcommands\<close>

definition not_configured :: "string \<Rightarrow> string" where
  "not_configured what = ''Storage backend not configured for proposal '' @ what"

definition known_to :: "'s StorageBackend \<Rightarrow> string \<Rightarrow> AuthContext \<Rightarrow> string \<Rightarrow> 's VM \<Rightarrow> CommandError + unit" where
  "known_to B what auth pid vm =
     bindR (machine_storage (not_configured what) vm) (\<lambda>s. proposal_known B (Some auth) (vm_namespace vm) pid s)"

definition num_hours :: "duration \<Rightarrow> int" where
  "num_hours d = sgn d * (\<bar>d\<bar> div 3600000000000)"

definition show_signed :: "int \<Rightarrow> string" where
  "show_signed i = (if i < 0 then CHR ''-'' # show_nat (nat (- i)) else show_nat (nat i))"

definition valid_vote :: "'s life_env \<Rightarrow> string \<Rightarrow> CommandError + string" where
  "valid_vote V vote_choice =
     (let v = to_lowercase V vote_choice in
      if v = ''yes'' \<or> v = ''no'' \<or> v = ''abstain'' then Inr v
      else Inl (CX_Message (''Invalid vote choice: '' @ quoted vote_choice @ ''. Must be yes, no, or abstain'')))"

definition deliberated :: "datetime \<Rightarrow> string \<Rightarrow> ProposalLifecycle \<Rightarrow> CommandError + unit" where
  "deliberated utc pid l =
     (case pl_discussion_duration l of
        None \<Rightarrow> Inr ()
      | Some min_deliberation \<Rightarrow>
          let elapsed = utc - pl_created_at l in
          if elapsed < min_deliberation
          then Inl (CX_Message ([CHR 0xE2, CHR 0x8F, CHR 0xB3] @ '' Proposal '' @ quoted pid @ '' is still in deliberation.'' @ [newline] @
                 ''   Required: '' @ show_signed (num_hours min_deliberation) @ '' hours'' @ [newline] @
                 ''   Elapsed: '' @ show_signed (num_hours elapsed) @ '' hours''))
          else Inr ())"

definition reputation_dsl :: "string \<Rightarrow> string \<Rightarrow> string" where
  "reputation_dsl voter_id pid =
     ''increment_reputation '' @ [dquote] @ voter_id @ [dquote] @ '' reason='' @ [dquote] @ ''Voted on proposal '' @ pid @ [dquote]"

definition run_program :: "'s cmd_env \<Rightarrow> 's StorageBackend \<Rightarrow> nat \<Rightarrow> string \<Rightarrow> 's desk \<Rightarrow> (unit, 's) cmd_result option" where
  "run_program M B n source d =
     (case d of (vm, dag) \<Rightarrow>
        (case parse_dsl source of
           Inl (Err e) \<Rightarrow> Some (Inl (Err (CX_Compiler e)), (vm, dag))
         | Inl Panic \<Rightarrow> Some (Inl Panic, (vm, dag))
         | Inr (ops, _) \<Rightarrow>
             (case execute (cm_venv M) B n ops vm of
                None \<Rightarrow> None
              | Some (Inr _, vm') \<Rightarrow> Some (Inr (), (vm', dag))
              | Some (Inl (Err e), vm') \<Rightarrow> Some (Inl (Err (CX_VM e)), (vm', dag))
              | Some (Inl Panic, vm') \<Rightarrow> Some (Inl Panic, (vm', dag)))))"

definition handle_vote_command ::
  "'s cmd_env \<Rightarrow> 's StorageBackend \<Rightarrow> nat \<Rightarrow> clock \<Rightarrow> datetime \<Rightarrow> string \<Rightarrow> string \<Rightarrow> string option \<Rightarrow> AuthContext \<Rightarrow> 's desk \<Rightarrow>
     (unit, 's) cmd_result option" where
  "handle_vote_command M B n t utc pid vote_choice delegate_identity auth d =
     (let voter_id = ac_current_identity_did auth in
      case bindR (known_to B ''vote'' auth pid (fst d)) (\<lambda>_.
           bindR (get_proposal_lifecycle M B pid (fst d)) (\<lambda>l.
           bindR (deliberated utc pid l) (\<lambda>_. valid_vote (cm_life M) vote_choice))) of
        Inl e \<Rightarrow> Some (Inl (Err e), d)
      | Inr vote_value \<Rightarrow>
          (case cast_vote M B t utc pid voter_id vote_value delegate_identity d of
             (Inl e, d') \<Rightarrow> Some (Inl e, d')
           | (Inr _, d') \<Rightarrow> run_program M B n (reputation_dsl voter_id pid) d'))"

definition vote_outcome :: "'s cmd_env \<Rightarrow> 's StorageBackend \<Rightarrow> AuthContext \<Rightarrow> string \<Rightarrow> 's VM \<Rightarrow> CommandError + bool \<times> bool" where
  "vote_outcome M B auth pid vm =
     bindR (known_to B ''execution'' auth pid vm) (\<lambda>_.
     bindR (cli_count_votes M B pid vm) (\<lambda>(yes_votes, no_votes, abstain_votes).
     bindR (get_proposal_lifecycle M B pid vm) (\<lambda>l.
       if pl_state l = PS_Executed then Inl (CX_Message (''Proposal '' @ quoted pid @ '' has already been executed''))
       else Inr (decision (cm_quorum M l) (cm_threshold M l) (pl_required_participants l)
              yes_votes (yes_votes + no_votes + abstain_votes)))))"

definition handle_execute_command ::
  "'s cmd_env \<Rightarrow> 's StorageBackend \<Rightarrow> nat \<Rightarrow> clock \<Rightarrow> datetime \<Rightarrow> string \<Rightarrow> AuthContext \<Rightarrow> 's desk \<Rightarrow> (unit, 's) cmd_result option" where
  "handle_execute_command M B n t utc pid auth d =
     (case vote_outcome M B auth pid (fst d) of
        Inl e \<Rightarrow> Some (Inl (Err e), d)
      | Inr (quorum_met, threshold_met) \<Rightarrow>
          if \<not> quorum_met then Some (Inr (), d)
          else if \<not> threshold_met then Some (Inr (), d)
          else
            (case execute_proposal M B n t utc pid d of
               None \<Rightarrow> None
             | Some (Inl Panic, d') \<Rightarrow> Some (Inl Panic, d')
             | Some (_, d') \<Rightarrow> Some (Inr (), d')))"

definition attach_command ::
  "'s cmd_env \<Rightarrow> 's StorageBackend \<Rightarrow> clock \<Rightarrow> string \<Rightarrow> string \<Rightarrow> bytes \<Rightarrow> 's VM \<Rightarrow> (CommandError fault, unit, 's VM) outcome" where
  "attach_command M B t pid attachment_name file_content vm =
     on_fork M B (\<lambda>forked s.
       fst (boxed (sb_set B t (vm_auth forked) (vm_namespace forked)
         (proposal_key_prefix pid @ ''/attachments/'' @ attachment_name) file_content s))) vm"

definition edit_fork ::
  "'s cmd_env \<Rightarrow> 's StorageBackend \<Rightarrow> clock \<Rightarrow> string \<Rightarrow> string option \<Rightarrow> string option \<Rightarrow> 's VM \<Rightarrow> 's \<Rightarrow>
     (CommandError, unit, 's) outcome" where
  "edit_fork M B t pid title description forked s =
     (let auth = vm_auth forked; ns = vm_namespace forked in
      case bindR (proposal_known B auth ns pid s) (\<lambda>_.
           bindR (map_err (cmd_failed M ''Failed to load proposal'')
             (get_json B ''Proposal'' (cm_proposal_dec M) auth ns (proposal_key_prefix pid) s)) (\<lambda>p.
             if pp_status p \<noteq> PT_Draft
             then Inl (CX_Message (''Cannot edit proposal '' @ quoted pid @ '' in state '' @ quoted (cm_status_text M (pp_status p)) @
                    ''. Only Draft proposals can be edited.''))
             else Inr p)) of
        Inl e \<Rightarrow> (Inl e, s)
      | Inr p \<Rightarrow>
          bindE (case title of
                   None \<Rightarrow> (Inr (), s)
                 | Some new_title \<Rightarrow>
                     (case get_json B ''ProposalLifecycle'' (cm_lifecycle_dec M) auth ns (proposal_lifecycle_key pid) s of
                        Inl e \<Rightarrow> (Inl (cmd_failed M ''Failed to load proposal lifecycle'' e), s)
                      | Inr l \<Rightarrow> boxed (set_json B ''ProposalLifecycle'' (cm_lifecycle_enc M) t auth ns (proposal_lifecycle_key pid)
                                  (l\<lparr>pl_title := new_title\<rparr>) s))) (\<lambda>_ s1.
          bindE (boxed (set_json B ''Proposal'' (cm_proposal_enc M) t auth ns (proposal_key_prefix pid) p s1)) (\<lambda>_ s2.
            case description of
              None \<Rightarrow> (Inr (), s2)
            | Some new_description \<Rightarrow> boxed (sb_set B t auth ns (proposal_description_key pid) new_description s2))))"

definition edit_command ::
  "'s cmd_env \<Rightarrow> 's StorageBackend \<Rightarrow> clock \<Rightarrow> string \<Rightarrow> string option \<Rightarrow> string option \<Rightarrow> 's VM \<Rightarrow>
     (CommandError fault, unit, 's VM) outcome" where
  "edit_command M B t pid title description vm =
     (if title = None \<and> description = None
      then (Inl (Err (CX_Message ''At least one field (title, description) must be provided for editing'')), vm)
      else on_fork M B (\<lambda>forked s. fst (edit_fork M B t pid title description forked s)) vm)"

definition publish_command ::
  "'s cmd_env \<Rightarrow> 's StorageBackend \<Rightarrow> clock \<Rightarrow> datetime \<Rightarrow> string \<Rightarrow> 's VM \<Rightarrow> (CommandError fault, unit, 's VM) outcome" where
  "publish_command M B t utc pid vm =
     (case vm_fork (cm_venv M) B vm of
        Inl e \<Rightarrow> (Inl (Err (CX_VM e)), vm)
      | Inr _ \<Rightarrow> update_proposal_state M B t utc pid PS_OpenForFeedback vm)"

definition parse_state :: "'s life_env \<Rightarrow> string \<Rightarrow> CommandError + ProposalState" where
  "parse_state V state_str =
     (let v = to_lowercase V state_str in
      if v = ''draft'' then Inr PS_Draft
      else if v = ''feedback'' \<or> v = ''open_for_feedback'' \<or> v = ''deliberation'' then Inr PS_OpenForFeedback
      else if v = ''voting'' then Inr PS_Voting
      else if v = ''executed'' then Inr PS_Executed
      else if v = ''rejected'' then Inr PS_Rejected
      else if v = ''expired'' then Inr PS_Expired
      else Inl (CX_Message (''Invalid state: '' @ state_str)))"

definition transition_command ::
  "'s cmd_env \<Rightarrow> 's StorageBackend \<Rightarrow> clock \<Rightarrow> datetime \<Rightarrow> string \<Rightarrow> string \<Rightarrow> 's VM \<Rightarrow> (CommandError fault, unit, 's VM) outcome" where
  "transition_command M B t utc pid state_str vm =
     (case parse_state (cm_life M) state_str of
        Inl e \<Rightarrow> (Inl (Err e), vm)
      | Inr new_state \<Rightarrow> update_proposal_state M B t utc pid new_state vm)"

definition handle_comment_command ::
  "'s cmd_env \<Rightarrow> 's StorageBackend \<Rightarrow> clock \<Rightarrow> u64 \<Rightarrow> string \<Rightarrow> string \<Rightarrow> string \<Rightarrow> string option \<Rightarrow> AuthContext \<Rightarrow> 's VM \<Rightarrow>
     (CommandError fault, unit, 's VM) outcome" where
  "handle_comment_command M B t time uuid pid content parent_id auth vm =
     (case create_comment (cm_com M) B t uuid time pid (ac_current_identity_did auth) content parent_id [] auth vm of
        (Inl e, vm') \<Rightarrow> (Inl (Err (CX_Message e)), vm')
      | (Inr _, vm') \<Rightarrow> (Inr (), vm'))"

section \<open>Reading commands\<close>

definition status_matches :: "'s life_env \<Rightarrow> string \<Rightarrow> ProposalStatus \<Rightarrow> bool" where
  "status_matches V status_str status =
     (let v = to_lowercase V status_str in
      if v = ''draft'' then status = PT_Draft
      else if v = ''feedback'' \<or> v = ''deliberation'' then status = PT_Deliberation
      else if v = ''voting'' then status = PT_Voting
      else if v = ''executed'' then status = PT_Executed
      else if v = ''rejected'' then status = PT_Rejected
      else if v = ''expired'' then status = PT_Expired
      else if v = ''active'' then status = PT_Active
      else if v = ''approved'' then status = PT_Approved
      else True)"

definition match_status :: "'s life_env \<Rightarrow> ProposalStatus \<Rightarrow> string \<Rightarrow> bool" where
  "match_status V status status_str =
     (let v = to_lowercase V status_str in
      if v = ''draft'' then status = PT_Draft
      else if v = ''deliberation'' then status = PT_Deliberation
      else if v = ''active'' then status = PT_Active
      else if v = ''voting'' then status = PT_Voting
      else if v = ''executed'' then status = PT_Executed
      else if v = ''rejected'' then status = PT_Rejected
      else if v = ''expired'' then status = PT_Expired
      else False)"

definition listed_id :: "string \<Rightarrow> string" where
  "listed_id key =
     (let strip = proposal_key_prefix [] @ ''/'';
          id_part = (if starts_with strip key then drop (length strip) key else key)
      in if ends_with ''/proposal'' id_part then take (length id_part - length ''/proposal'') id_part else id_part)"

text \<open>The line printed for a key, if any: the id, the title and the status.\<close>

definition listed ::
  "'s cmd_env \<Rightarrow> 's StorageBackend \<Rightarrow> string option \<Rightarrow> AuthContext option \<Rightarrow> string \<Rightarrow> 's \<Rightarrow> string \<Rightarrow>
     (string \<times> string \<times> ProposalStatus) option" where
  "listed M B status_filter auth ns s key =
     (if \<not> ends_with ''/proposal'' key then None
      else
        (case get_json B ''Proposal'' (cm_proposal_dec M) auth ns key s of
           Inl _ \<Rightarrow> None
         | Inr p \<Rightarrow>
             if (case status_filter of Some st \<Rightarrow> \<not> status_matches (cm_life M) st (pp_status p) | None \<Rightarrow> False) then None
             else
               (case get_json B ''ProposalLifecycle'' (cm_lifecycle_dec M) auth ns (proposal_lifecycle_key (listed_id key)) s of
                  Inl _ \<Rightarrow> None
                | Inr l \<Rightarrow> Some (listed_id key, pl_title l, pp_status p))))"

definition list_command ::
  "'s cmd_env \<Rightarrow> 's StorageBackend \<Rightarrow> string option \<Rightarrow> 's VM \<Rightarrow> CommandError + (string \<times> string \<times> ProposalStatus) list" where
  "list_command M B status_filter vm =
     bindR (machine_storage ''Storage not available'' vm) (\<lambda>s.
     bindR (map_err CX_Storage (sb_list_keys B (vm_auth vm) (vm_namespace vm) (Some (proposal_key_prefix [])) s)) (\<lambda>ks.
       Inr (List.map_filter (listed M B status_filter (vm_auth vm) (vm_namespace vm) s) ks)))"

definition stored_comments ::
  "'s cmd_env \<Rightarrow> 's StorageBackend \<Rightarrow> AuthContext \<Rightarrow> string \<Rightarrow> 's \<Rightarrow> string list \<Rightarrow> StoredComment list" where
  "stored_comments M B auth ns s ks =
     List.map_filter (\<lambda>k. case get_json B ''StoredComment'' (cm_comment_dec M) (Some auth) ns k s of Inr c \<Rightarrow> Some c | Inl _ \<Rightarrow> None) ks"

definition handle_view_comments_command ::
  "'s cmd_env \<Rightarrow> 's StorageBackend \<Rightarrow> string \<Rightarrow> AuthContext \<Rightarrow> 's VM \<Rightarrow> CommandError + StoredComment list" where
  "handle_view_comments_command M B pid auth vm =
     bindR (machine_storage ''Storage backend not configured for viewing comments'' vm) (\<lambda>s.
     bindR (proposal_known B (Some auth) (vm_namespace vm) pid s) (\<lambda>_.
     bindR (map_err CX_Storage
       (sb_list_keys B (Some auth) (vm_namespace vm) (Some (proposal_comments_prefix pid @ ''/'')) s)) (\<lambda>ks.
       Inr (sort_key sc_timestamp (stored_comments M B auth (vm_namespace vm) s ks)))))"

definition shorten_did :: "string \<Rightarrow> string" where
  "shorten_did did = (if starts_with ''did:'' did then last (split_char CHR '':'' did) else did)"

section \<open>Dispatch\<close>

datatype ProposalCommand =
    Create Proposal ProposalLifecycle string string    \<comment> \<open>metadata, lifecycle, description, logic\<close>
  | Attach string string bytes                         \<comment> \<open>id, name, contents of the file\<close>
  | Comment_On string string "string option"           \<comment> \<open>id, content, parent\<close>
  | Edit string "string option" "string option"        \<comment> \<open>id, title, description\<close>
  | Publish string
  | Vote string string "string option"                 \<comment> \<open>id, choice, delegate\<close>
  | Transition string string                           \<comment> \<open>id, state\<close>
  | Execute_It string

definition set_dag_path :: "os_env \<Rightarrow> ledger_env \<Rightarrow> files \<Rightarrow> string \<Rightarrow> DagLedger option \<Rightarrow> DagLedger option" where
  "set_dag_path os G fs path dag = Some (case dag of Some L \<Rightarrow> set_path path L | None \<Rightarrow> with_path os G path fs)"

definition keep_dag :: "DagLedger option \<Rightarrow> (CommandError fault, unit, 's VM) outcome \<Rightarrow> (unit, 's) cmd_result option" where
  "keep_dag dag r = Some (fst r, (snd r, dag))"

definition subcommand ::
  "'s cmd_env \<Rightarrow> 's StorageBackend \<Rightarrow> nat \<Rightarrow> clock \<Rightarrow> datetime \<Rightarrow> u64 \<Rightarrow> string \<Rightarrow> AuthContext \<Rightarrow> ProposalCommand \<Rightarrow> 's desk \<Rightarrow>
     (unit, 's) cmd_result option" where
  "subcommand M B n t utc time uuid auth cmd d =
     (case cmd of
        Create p l description logic \<Rightarrow> Some (create_proposal M B t utc p l description logic d)
      | Attach pid name content \<Rightarrow> keep_dag (snd d) (attach_command M B t pid name content (fst d))
      | Comment_On pid content parent \<Rightarrow> keep_dag (snd d) (handle_comment_command M B t time uuid pid content parent auth (fst d))
      | Edit pid title description \<Rightarrow> keep_dag (snd d) (edit_command M B t pid title description (fst d))
      | Publish pid \<Rightarrow> keep_dag (snd d) (publish_command M B t utc pid (fst d))
      | Vote pid choice delegate \<Rightarrow> handle_vote_command M B n t utc pid choice delegate auth d
      | Transition pid state_str \<Rightarrow> keep_dag (snd d) (transition_command M B t utc pid state_str (fst d))
      | Execute_It pid \<Rightarrow> handle_execute_command M B n t utc pid auth d)"

definition handle_proposal_command ::
  "os_env \<Rightarrow> files \<Rightarrow> 's cmd_env \<Rightarrow> 's StorageBackend \<Rightarrow> nat \<Rightarrow> clock \<Rightarrow> datetime \<Rightarrow> u64 \<Rightarrow> string \<Rightarrow> string option \<Rightarrow> string option \<Rightarrow>
     AuthContext \<Rightarrow> ProposalCommand \<Rightarrow> 's desk \<Rightarrow> (unit, 's) cmd_result option" where
  "handle_proposal_command os fs M B n t utc time uuid dag_path namespace auth cmd d =
     (case d of (vm, dag) \<Rightarrow>
        subcommand M B n t utc time uuid auth cmd
          (case namespace of Some ns \<Rightarrow> vm_set_namespace ns vm | None \<Rightarrow> vm,
           case dag_path of Some path \<Rightarrow> set_dag_path os (cm_ledger M) fs path dag | None \<Rightarrow> dag))"

section \<open>Nothing is kept\<close>

text \<open>On a machine without a transaction of its own every commit fails, and with it the command.\<close>

abbreviation idle :: "'s VM \<Rightarrow> bool" where
  "idle vm \<equiv> \<not> ex_transaction_active (vm_executor vm)"

lemma commit_refused: "idle vm \<Longrightarrow> \<exists>e. commit_with M B (map_err Err r) vm = (Inl (Err e), vm)"
  using no_transaction_end(1) [of vm "cm_venv M" B] by (cases r) (auto simp: commit_with_def)

lemma fork_refused: "idle vm \<Longrightarrow> \<exists>e. on_fork M B f vm = (Inl (Err e), vm)"
  unfolding on_fork_def by (rule commit_refused)

lemma record_refused: "\<exists>e. r = (Inl (Err e), vm) \<Longrightarrow> \<exists>e. recorded M utc ps nd dag r = (Inl (Err e), (vm, dag))"
  by (auto simp: recorded_def)

lemma create_refused: "idle vm \<Longrightarrow> \<exists>e. create_proposal M B t utc p l de lo (vm, dag) = (Inl (Err e), (vm, dag))"
  unfolding create_proposal_def prod.case by (intro record_refused fork_refused)

lemma vote_refused: "idle vm \<Longrightarrow> \<exists>e. cast_vote M B t utc pid v w x (vm, dag) = (Inl (Err e), (vm, dag))"
  unfolding cast_vote_def prod.case by (intro record_refused fork_refused)

lemma update_refused: "idle vm \<Longrightarrow> \<exists>e. update_proposal_state M B t utc pid st vm = (Inl (Err e), vm)"
  unfolding update_proposal_state_def by (rule fork_refused)

lemma attach_refused: "idle vm \<Longrightarrow> \<exists>e. attach_command M B t pid na co vm = (Inl (Err e), vm)"
  unfolding attach_command_def by (rule fork_refused)

lemma add_comment_refused: "idle vm \<Longrightarrow> \<exists>e. add_proposal_comment M B t utc uuid pid au co pa vm = (Inl (Err e), vm)"
  unfolding add_proposal_comment_def by (rule fork_refused)

lemma edit_refused: "idle vm \<Longrightarrow> \<exists>e. edit_command M B t pid ti de vm = (Inl (Err e), vm)"
  unfolding edit_command_def using fork_refused [of vm] by (cases "ti = None \<and> de = None") simp_all

lemma publish_refused: "idle vm \<Longrightarrow> \<exists>e. publish_command M B t utc pid vm = (Inl (Err e), vm)"
  unfolding publish_command_def using update_refused [of vm] by (cases "vm_fork (cm_venv M) B vm") simp_all

lemma transition_refused: "idle vm \<Longrightarrow> \<exists>e. transition_command M B t utc pid st vm = (Inl (Err e), vm)"
  unfolding transition_command_def using update_refused [of vm] by (cases "parse_state (cm_life M) st") simp_all

lemma execute_refused:
  assumes "idle vm" "execute_proposal M B n t utc pid (vm, dag) = Some (r, d)"
  shows "d = (vm, dag) \<and> \<not> is_ok r"
proof (cases "loaded_for_execution M B pid vm")
  case (Inl e)
  then show ?thesis using assms(2) by (auto simp: execute_proposal_def)
next
  case loaded: (Inr x)
  obtain forked s l where x: "x = (forked, s, l)" by (cases x)
  show ?thesis
  proof (cases "run_logic M B n pid forked s")
    case None
    then show ?thesis using assms(2) loaded x by (simp add: execute_proposal_def)
  next
    case (Some y)
    then show ?thesis
    proof (cases y)
      case (Inr success)
      let ?saved = "fst (named M ''Failed to update proposal lifecycle''
        (set_json B ''ProposalLifecycle'' (cm_lifecycle_enc M) t (vm_auth forked) (vm_namespace forked)
           (proposal_lifecycle_key pid) (enter utc PS_Executed l) s))"
      have "\<exists>e. recorded M utc (\<lambda>L. map dn_id (find_vote_nodes_for pid L)) (ProposalExecuted pid success) dag
          (commit_with M B (map_err Err ?saved) vm) = (Inl (Err e), (vm, dag))"
        by (intro record_refused commit_refused assms(1))
      then show ?thesis using assms(2) loaded x Some Inr by (auto simp: execute_proposal_def)
    qed (use assms(2) loaded x in \<open>auto simp: execute_proposal_def\<close>)
  qed
qed

lemma handle_vote_refused:
  assumes "idle vm"
  shows "\<exists>e. handle_vote_command M B n t utc pid ch de auth (vm, dag) = Some (Inl (Err e), (vm, dag))"
proof -
  let ?checks = "bindR (known_to B ''vote'' auth pid vm) (\<lambda>_. bindR (get_proposal_lifecycle M B pid vm) (\<lambda>l.
      bindR (deliberated utc pid l) (\<lambda>_. valid_vote (cm_life M) ch)))"
  show ?thesis
  proof (cases ?checks)
    case (Inr v)
    obtain e where "cast_vote M B t utc pid (ac_current_identity_did auth) v de (vm, dag) = (Inl (Err e), (vm, dag))"
      using vote_refused [OF assms] by blast
    with Inr show ?thesis by (simp add: handle_vote_command_def)
  qed (simp add: handle_vote_command_def)
qed

lemma handle_execute_keeps:
  assumes "idle vm" "handle_execute_command M B n t utc pid auth (vm, dag) = Some (r, d)"
  shows "d = (vm, dag)"
  using assms(2) execute_refused [OF assms(1), of M B n t utc pid dag]
  by (auto simp: handle_execute_command_def split: sum.splits if_splits option.splits fault.splits)

lemma comment_keeps: "snd (handle_comment_command M B t time uuid pid co pa auth vm) = vm"
  by (auto simp: handle_comment_command_def create_comment_def split: sum.splits)

lemma subcommand_keeps:
  assumes "idle vm" "subcommand M B n t utc time uuid auth cmd (vm, dag) = Some (r, d)"
  shows "d = (vm, dag)" "is_ok r \<Longrightarrow> (\<exists>pid. cmd = Execute_It pid) \<or> (\<exists>pid c p. cmd = Comment_On pid c p)"
proof -
  have "d = (vm, dag) \<and> (is_ok r \<longrightarrow> (\<exists>pid. cmd = Execute_It pid) \<or> (\<exists>pid c p. cmd = Comment_On pid c p))"
  proof (cases cmd)
    case (Create p l de lo)
    then show ?thesis using assms(2) create_refused [OF assms(1), of M B t utc p l de lo dag] by (auto simp: subcommand_def)
  next
    case (Attach pid na co)
    then show ?thesis using assms(2) attach_refused [OF assms(1), of M B t pid na co] by (auto simp: subcommand_def keep_dag_def)
  next
    case (Comment_On pid co pa)
    then show ?thesis using assms(2) by (auto simp: subcommand_def keep_dag_def comment_keeps)
  next
    case (Edit pid ti de)
    then show ?thesis using assms(2) edit_refused [OF assms(1), of M B t pid ti de] by (auto simp: subcommand_def keep_dag_def)
  next
    case (Publish pid)
    then show ?thesis using assms(2) publish_refused [OF assms(1), of M B t utc pid] by (auto simp: subcommand_def keep_dag_def)
  next
    case (Vote pid ch de)
    then show ?thesis using assms(2) handle_vote_refused [OF assms(1), of M B n t utc pid ch de auth dag]
      by (auto simp: subcommand_def)
  next
    case (Transition pid st)
    then show ?thesis using assms(2) transition_refused [OF assms(1), of M B t utc pid st] by (auto simp: subcommand_def keep_dag_def)
  next
    case (Execute_It pid)
    then show ?thesis using assms(2) handle_execute_keeps [OF assms(1), of M B n t utc pid auth dag] by (auto simp: subcommand_def)
  qed
  then show "d = (vm, dag)" "is_ok r \<Longrightarrow> (\<exists>pid. cmd = Execute_It pid) \<or> (\<exists>pid c p. cmd = Comment_On pid c p)" by auto
qed

section \<open>The decision is exact\<close>

text \<open>Numbers on the grid of \<open>2^-40\<close> are not rounded, and rounding keeps apart what the grid keeps apart.\<close>

lemma round_grid:
  assumes "0 \<le> k" "k \<le> 2 ^ 53"
  shows "round_f64 False (of_int k * pow2 (- 40)) = (if k = 0 then F64_Zero False else F64_Num (of_int k * pow2 (- 40)))"
proof (cases "k = 0")
  case False
  have "(of_int k :: rat) \<le> of_int (2 ^ 53)" using assms(2) by (simp only: of_int_le_iff)
  then have "(of_int k :: rat) * pow2 (- 40) \<le> pow2 53 * pow2 (- 40)" by (intro mult_right_mono) (simp_all add: pow2_def)
  also have "\<dots> < pow2 1024" unfolding pow2_add [symmetric] by simp
  finally have "\<bar>of_int k * pow2 (- 40)\<bar> < pow2 1024" using assms(1) by (simp add: abs_mult)
  then show ?thesis using round_f64_wf [OF wf_dyadic_le [of k "- 40"]] False assms by simp
qed (simp add: round_f64_def)

lemma round_apart:
  assumes "0 \<le> a" "b \<le> 1" "a + 2 * pow2 (- 40) \<le> b"
  shows "\<not> f64_le (round_f64 False b) (round_f64 False a)"
proof
  assume le: "f64_le (round_f64 False b) (round_f64 False a)"
  define k where "k = \<lceil>a / pow2 (- 40)\<rceil>"
  have k: "a / pow2 (- 40) \<le> of_int k" "of_int k < a / pow2 (- 40) + 1" unfolding k_def by linarith+
  have a: "a \<le> of_int k * pow2 (- 40)" using k(1) by (simp add: pos_divide_le_eq)
  have "of_int k * pow2 (- 40) < (a / pow2 (- 40) + 1) * pow2 (- 40)" using k(2) by (rule mult_strict_right_mono) simp
  also have "\<dots> = a + pow2 (- 40)" by (simp add: distrib_right)
  finally have "of_int k * pow2 (- 40) < a + pow2 (- 40)" .
  then have b: "of_int (k + 1) * pow2 (- 40) \<le> b" using assms(3) by (simp add: algebra_simps)
  have "0 \<le> a / pow2 (- 40)" using assms(1) by simp
  then have k0: "0 \<le> k" unfolding k_def by linarith
  have "of_int (k + 1) * pow2 (- 40) \<le> 1" using b assms(2) by linarith
  then have "(of_int (k + 1) :: rat) \<le> of_int (2 ^ 40)" by (simp add: pow2_def field_simps)
  then have k1: "k + 1 \<le> 2 ^ 40" by (simp only: of_int_le_iff)
  have "f64_le (round_f64 False (of_int (k + 1) * pow2 (- 40))) (round_f64 False (of_int k * pow2 (- 40)))"
  proof (rule f64_le_trans [OF round_f64_mono f64_le_trans [OF le round_f64_mono]])
    show "0 \<le> of_int (k + 1) * pow2 (- 40)" using k0 by simp
  qed (use a b assms(1) in auto)
  moreover have "f64_is_finite (round_f64 False (of_int (k + 1) * pow2 (- 40)))" "f64_is_finite (round_f64 False (of_int k * pow2 (- 40)))"
    "f64_val (round_f64 False (of_int (k + 1) * pow2 (- 40))) = of_int (k + 1) * pow2 (- 40)"
    "f64_val (round_f64 False (of_int k * pow2 (- 40))) = of_int k * pow2 (- 40)"
    using round_grid [of "k + 1"] round_grid [of k] k0 k1 by simp_all
  ultimately have "of_int (k + 1) * pow2 (- 40) \<le> of_int k * pow2 (- 40)" by (simp add: f64_le_finite)
  then have "pow2 (- 40) \<le> 0" by (simp add: algebra_simps)
  with pow2_pos(1) [of "- 40"] show False by linarith
qed

lemma f64_of_nat_div:
  assumes "0 < t" "t \<le> 2 ^ 53" "y \<le> 2 ^ 53"
  shows "f64_div (f64_of_nat y) (f64_of_nat t) = round_f64 False (of_nat y / of_nat t)"
proof -
  have "int t \<le> 2 ^ 53" "int y \<le> 2 ^ 53" using assms(2,3) by simp_all
  then have "f64_of_nat t = F64_Num (of_nat t)" "f64_of_nat y = (if y = 0 then F64_Zero False else F64_Num (of_nat y))"
    using round_f64_int [of "int t" False] round_f64_int [of "int y" False] assms(1) by (simp_all add: f64_of_nat_def f64_of_int_def)
  then show ?thesis using assms(1) by (simp add: round_f64_def [of _ 0])
qed

lemma percentage_exact:
  assumes "h \<le> 100" "0 < t" "t < 2 ^ 32" "y \<le> 2 ^ 53"
  shows "f64_le (f64_div (f64_of_nat h) (f64_of_int 100)) (f64_div (f64_of_nat y) (f64_of_nat t)) \<longleftrightarrow> h * t \<le> 100 * y"
proof -
  have h: "f64_div (f64_of_nat h) (f64_of_int 100) = round_f64 False (of_nat h / 100)"
    using f64_of_nat_div [of 100 h] assms(1) by (simp add: f64_of_nat_def)
  have y: "f64_div (f64_of_nat y) (f64_of_nat t) = round_f64 False (of_nat y / of_nat t)"
    using f64_of_nat_div [of t y] assms by simp
  show ?thesis
  proof (cases "h * t \<le> 100 * y")
    case True
    then have "(of_nat (h * t) :: rat) \<le> of_nat (100 * y)" by (simp only: of_nat_le_iff)
    then have "(of_nat h :: rat) / 100 \<le> of_nat y / of_nat t" using assms(2) by (simp add: field_simps)
    then show ?thesis using True round_f64_mono unfolding h y by simp
  next
    case False
    then have "(of_nat (100 * y + 1) :: rat) \<le> of_nat (h * t)" by (simp only: of_nat_le_iff)
    then have gap: "(of_nat y :: rat) / of_nat t + 1 / (100 * of_nat t) \<le> of_nat h / 100" using assms(2) by (simp add: field_simps)
    have "2 * pow2 (- 40) \<le> 1 / (100 * of_nat t :: rat)"
    proof -
      have "(of_nat t :: rat) \<le> of_nat 4294967296" using assms(3) by simp
      then have "100 * (of_nat t :: rat) \<le> 549755813888" by simp
      then have "1 / (549755813888 :: rat) \<le> 1 / (100 * of_nat t)" using assms(2) by (intro divide_left_mono) simp_all
      then show ?thesis by (simp add: pow2_def)
    qed
    then have "(of_nat y :: rat) / of_nat t + 2 * pow2 (- 40) \<le> of_nat h / 100" using gap by linarith
    moreover have "(of_nat h :: rat) / 100 \<le> 1" using assms(1) by simp
    ultimately show ?thesis using False round_apart unfolding h y by simp
  qed
qed

text \<open>
  C25: The decision whether a proposal passed, computed in doubles, is the exact one: the quorum is met exactly when the
  votes are at least the given percentage of the required participants, the threshold exactly when the yes votes are at
  least the given percentage of all votes, with no vote at all meeting the threshold zero only.
\<close>

theorem decision_exact:
  assumes "unat quorum \<le> 100" "unat threshold \<le> 100" "votes < 2 ^ 32" "yes \<le> votes"
    and "case required of Some r \<Rightarrow> unat r < 2 ^ 32 | None \<Rightarrow> True"
  shows "decision quorum threshold required yes votes =
    (unat quorum * (case required of Some r \<Rightarrow> unat r | None \<Rightarrow> 1) \<le> 100 * votes \<or> required = Some 0,
     if votes = 0 then threshold = 0 else unat threshold * votes \<le> 100 * yes)"
proof -
  define r where "r = (case required of Some r \<Rightarrow> r | None \<Rightarrow> 1)"
  have r: "unat r < 2 ^ 32" "(case required of Some r \<Rightarrow> unat r | None \<Rightarrow> 1) = unat r" "required = Some 0 \<longleftrightarrow> r = 0"
    using assms(5) by (auto simp: r_def split: option.splits)
  have q: "f64_le (f64_div (f64_of_nat (unat quorum)) (f64_of_int 100)) (if r > 0 then f64_div (f64_of_nat votes) (f64_of_nat (unat r)) else f64_one)
      \<longleftrightarrow> unat quorum * unat r \<le> 100 * votes \<or> r = 0"
  proof (cases "r = 0")
    case True
    have "f64_one = f64_div (f64_of_nat 1) (f64_of_nat 1)"
      using round_f64_int [of 1 False] by (simp add: f64_one_def f64_of_nat_def f64_of_int_def)
    then show ?thesis using True percentage_exact [of "unat quorum" 1 1] assms(1) by simp
  next
    case False
    then have "0 < unat r" by (simp add: unat_gt_0)
    with False show ?thesis using percentage_exact [of "unat quorum" "unat r" votes] assms(1,3) r(1) by (simp add: word_gt_0)
  qed
  have "f64_div (f64_of_nat 0) (f64_of_nat 1) = f64_zero"
    using round_f64_int [of 1 False] by (simp add: f64_zero_def f64_of_nat_def f64_of_int_def round_f64_def [of _ 0])
  then have zero: "f64_le (f64_div (f64_of_nat (unat threshold)) (f64_of_int 100)) f64_zero \<longleftrightarrow> threshold = 0"
    using percentage_exact [of "unat threshold" 1 0] assms(2) by (simp add: unat_eq_zero)
  show ?thesis using q zero percentage_exact [of "unat threshold" votes yes] assms(2-4)
    by (auto simp: decision_def Let_def r(2,3) r_def [symmetric])
qed

theorem decision_exact_witness: "decision 29 60 (Some 100) 18 29 = (True, True) \<and> decision 29 63 (Some 100) 18 29 = (True, False)"
  using decision_exact [of 29 60 29 18 "Some 100"] decision_exact [of 29 63 29 18 "Some 100"] by simp

section \<open>What the commands keep\<close>


lemma with_storage_idle: "idle (with_storage_backend s)"
  by (simp add: with_storage_backend_def vm_set_storage_backend_def set_storage_backend_def vm_new_def execution_new_def)

definition case_cmd :: "InMemoryStorage cmd_env" where
  "case_cmd = \<lparr>cm_life = demo_life_env, cm_venv = demo_env, cm_ledger = demo_ledger_env, cm_com = case_com,
     cm_proposal_enc = \<lambda>_. Inr ''p'', cm_proposal_dec = \<lambda>_. Inl ''e'', cm_lifecycle_enc = \<lambda>_. Inr ''l'',
     cm_lifecycle_dec = \<lambda>_. Inr demo_voting, cm_vote_enc = \<lambda>v. Inr (ct_vote v), cm_value_dec = \<lambda>b. Inr (\<lambda>_. Some b),
     cm_comment_enc = \<lambda>_. Inr ''c'', cm_comment_dec = \<lambda>_. Inl ''e'', cm_rfc3339 = \<lambda>_. ''t'', cm_quorum = \<lambda>_. 50, cm_threshold = \<lambda>_. 50,
     cm_status_text = \<lambda>_. [], cm_typed_text = \<lambda>_. []\<rparr>"

definition case_desk :: "InMemoryStorage desk" where
  "case_desk =
     (vm_set_namespace ''governance'' (vm_set_auth_context demo_auth (with_storage_backend
        (snd (im_set demo_clock (Some demo_auth) ''governance'' ''governance_proposals/p1/lifecycle'' ''l''
        (snd (im_set demo_clock (Some demo_auth) ''governance'' ''governance_proposals/p1'' ''p''
        (snd (create_account demo_clock (Some demo_auth) ''alice'' 1000 im_new)))))))), Some demo_ledger)"


end
