(* ===== verification/Threads.thy ===== *)
theory Threads
  imports Comments Proposal_Commands
begin

text \<open>
  The threaded views of comments in \<^verbatim>\<open>cli/proposal.rs\<close>. What a view prints is the list of comments with their depth, in
  order. The source calls itself for the replies of a comment; here the calls have fuel, and \<open>None\<close> is a run that does not
  end within it. The comments of a map are taken in the order of their ids before they are sorted by time.
\<close>

section \<open>Comments with identifiers\<close>

type_synonym comments = "(string, ProposalComment) fmap"
type_synonym 'c printed = "(nat \<times> 'c) list"

definition comment_values :: "comments \<Rightarrow> ProposalComment list" where
  "comment_values cs = List.map_filter (fmlookup cs) (hkeys cs)"

definition replies_to :: "comments \<Rightarrow> ProposalComment \<Rightarrow> ProposalComment list" where
  "replies_to cs c = sort_key pc_timestamp (filter (\<lambda>r. pc_reply_to r = Some (pc_id c)) (comment_values cs))"

fun print_thread :: "nat \<Rightarrow> comments \<Rightarrow> nat \<Rightarrow> ProposalComment \<Rightarrow> ProposalComment printed option" where
  "print_thread 0 cs depth c = None"
| "print_thread (Suc n) cs depth c =
     map_option (\<lambda>subs. (depth, c) # concat subs) (those (map (print_thread n cs (depth + 1)) (replies_to cs c)))"

definition root_comments :: "comments \<Rightarrow> ProposalComment list" where
  "root_comments cs = sort_key pc_timestamp (filter (\<lambda>c. pc_reply_to c = None) (comment_values cs))"

definition print_threads :: "nat \<Rightarrow> comments \<Rightarrow> ProposalComment printed option" where
  "print_threads n cs = map_option concat (those (map (print_thread n cs 0) (root_comments cs)))"

definition handle_thread_command ::
  "com_env \<Rightarrow> 's StorageBackend \<Rightarrow> nat \<Rightarrow> string \<Rightarrow> bool \<Rightarrow> AuthContext \<Rightarrow> 's VM \<Rightarrow> ProposalComment printed com_result option" where
  "handle_thread_command D B n pid show_hidden auth vm =
     (case fetch_comments_threaded D B pid (Some auth) show_hidden vm of
        Inl e \<Rightarrow> Some (Inl e)
      | Inr cs \<Rightarrow> if cs = fmempty then Some (Inr []) else map_option Inr (print_threads n cs))"

section \<open>Stored comments\<close>

text \<open>
  A stored comment has no identifier of its own; the view makes one of its time, in seconds, and its author. The reading
  of a time (\<open>None\<close> when the text is no date) is a parameter, the clock an argument.
\<close>

definition display_id :: "(string \<Rightarrow> int option) \<Rightarrow> datetime \<Rightarrow> StoredComment \<Rightarrow> string" where
  "display_id parse_time utc c =
     show_signed (case parse_time (sc_timestamp c) of Some secs \<Rightarrow> secs | None \<Rightarrow> utc div 1000000000) @ ''_'' @ sc_author c"

definition children_of :: "StoredComment list \<Rightarrow> string option \<Rightarrow> nat list" where
  "children_of cs parent = filter (\<lambda>i. sc_parent (cs ! i) = parent) [0..<length cs]"

fun display_comment :: "nat \<Rightarrow> (string \<Rightarrow> int option) \<Rightarrow> datetime \<Rightarrow> StoredComment list \<Rightarrow> nat \<Rightarrow> nat \<Rightarrow> StoredComment printed option" where
  "display_comment 0 P utc cs idx depth = None"
| "display_comment (Suc n) P utc cs idx depth =
     map_option (\<lambda>subs. (depth, cs ! idx) # concat subs)
       (those (map (\<lambda>r. display_comment n P utc cs r (depth + 1)) (children_of cs (Some (display_id P utc (cs ! idx))))))"

definition display_threaded_comments :: "nat \<Rightarrow> (string \<Rightarrow> int option) \<Rightarrow> datetime \<Rightarrow> StoredComment list \<Rightarrow> StoredComment printed option" where
  "display_threaded_comments n P utc cs =
     map_option concat (those (map (\<lambda>i. display_comment n P utc cs i 0) (children_of cs None)))"

section \<open>Ancestors\<close>

definition comments_keyed :: "comments \<Rightarrow> bool" where
  "comments_keyed cs \<longleftrightarrow> (\<forall>k c. fmlookup cs k = Some c \<longrightarrow> pc_id c = k)"

definition parent_comment :: "comments \<Rightarrow> ProposalComment \<Rightarrow> ProposalComment option" where
  "parent_comment cs c = Option.bind (pc_reply_to c) (fmlookup cs)"

fun up :: "comments \<Rightarrow> nat \<Rightarrow> ProposalComment \<Rightarrow> ProposalComment option" where
  "up cs 0 c = Some c"
| "up cs (Suc j) c = Option.bind (parent_comment cs c) (up cs j)"

definition rooted_at :: "comments \<Rightarrow> nat \<Rightarrow> ProposalComment \<Rightarrow> bool" where
  "rooted_at cs d c \<longleftrightarrow> (\<exists>r. up cs d c = Some r \<and> pc_reply_to r = None)"

lemma set_comment_values: "c \<in> set (comment_values cs) \<longleftrightarrow> (\<exists>k. fmlookup cs k = Some c)"
  by (auto simp: comment_values_def List.map_filter_def fmlookup_dom_iff intro!: image_eqI)

lemma set_replies:
  "r \<in> set (replies_to cs c) \<longleftrightarrow> r \<in> set (comment_values cs) \<and> pc_reply_to r = Some (pc_id c)"
  by (auto simp: replies_to_def)

lemma keyed_lookup: "comments_keyed cs \<Longrightarrow> c \<in> set (comment_values cs) \<Longrightarrow> fmlookup cs (pc_id c) = Some c"
  by (auto simp: set_comment_values comments_keyed_def)

lemma distinct_values: "comments_keyed cs \<Longrightarrow> distinct (comment_values cs)"
proof -
  assume keyed: "comments_keyed cs"
  then have "inj_on (the \<circ> fmlookup cs) {k. fmlookup cs k \<noteq> None}"
    by (intro inj_on_inverseI [where g = pc_id]) (auto simp: comments_keyed_def)
  then show ?thesis
    by (auto simp: comment_values_def List.map_filter_def distinct_map elim!: inj_on_subset)
qed

lemma reply_parent: "comments_keyed cs \<Longrightarrow> c \<in> set (comment_values cs) \<Longrightarrow> r \<in> set (replies_to cs c) \<Longrightarrow> parent_comment cs r = Some c"
  by (simp add: set_replies parent_comment_def keyed_lookup)

lemma parent_value: "parent_comment cs c = Some p \<Longrightarrow> p \<in> set (comment_values cs)"
  by (auto simp: parent_comment_def set_comment_values Option.bind_eq_Some_conv)

lemma up_add: "up cs (i + j) c = Option.bind (up cs i c) (up cs j)"
proof (induction i arbitrary: c)
  case (Suc i)
  then have "up cs (i + j) = (\<lambda>y. Option.bind (up cs i y) (up cs j))" by blast
  then show ?case by simp
qed simp

lemma up_value: "up cs j c = Some p \<Longrightarrow> c \<in> set (comment_values cs) \<Longrightarrow> p \<in> set (comment_values cs)"
  by (induction j arbitrary: c) (auto simp: Option.bind_eq_Some_conv dest: parent_value)

lemma root_top: "pc_reply_to r = None \<Longrightarrow> up cs (Suc j) r = None"
  by (simp add: parent_comment_def)

lemma rooted_unique:
  assumes "rooted_at cs d c" "rooted_at cs e c"
  shows "d = e"
proof -
  have *: False if ab: "rooted_at cs a c" "rooted_at cs b c" "a < b" for a b
  proof -
    obtain r where r: "up cs a c = Some r" "pc_reply_to r = None" using ab(1) by (auto simp: rooted_at_def)
    obtain j where "b = a + Suc j" using ab(3) by (metis add_Suc_right less_imp_Suc_add)
    then have "up cs b c = None" using r root_top [OF r(2)] by (simp only: up_add Option.bind.simps)
    with ab(2) show False by (simp add: rooted_at_def)
  qed
  show ?thesis using *[of d e] *[of e d] assms by (cases d e rule: linorder_cases) auto
qed

lemma rooted_up: "rooted_at cs d c \<Longrightarrow> k \<le> d \<Longrightarrow> \<exists>p. up cs k c = Some p \<and> rooted_at cs (d - k) p"
  using up_add [of cs k "d - k" c] by (auto simp: rooted_at_def Option.bind_eq_Some_conv)

lemma rooted_bound:
  assumes "rooted_at cs d c" "c \<in> set (comment_values cs)"
  shows "d < card (set (comment_values cs))"
proof -
  have "\<exists>p \<in> set (comment_values cs). rooted_at cs (d - k) p" if "k \<le> d" for k
    using rooted_up [OF assms(1) that] up_value [OF _ assms(2)] by blast
  then have "\<exists>p \<in> set (comment_values cs). rooted_at cs k p" if "k \<le> d" for k
    using that by (metis diff_diff_cancel diff_le_self)
  then obtain p where p: "\<And>k. k \<le> d \<Longrightarrow> p k \<in> set (comment_values cs) \<and> rooted_at cs k (p k)" by metis
  have "inj_on p {..d}" using p rooted_unique by (metis atMost_iff inj_onI)
  moreover have "p ` {..d} \<subseteq> set (comment_values cs)" using p by auto
  ultimately have "card {..d} \<le> card (set (comment_values cs))" by (rule card_inj_on_le) simp
  then show ?thesis by simp
qed

lemma rooted_reply:
  assumes "comments_keyed cs" "c \<in> set (comment_values cs)" "rooted_at cs d c" "r \<in> set (replies_to cs c)"
  shows "rooted_at cs (Suc d) r"
  using assms reply_parent [OF assms(1,2,4)] by (simp add: rooted_at_def)

section \<open>What the threaded view prints\<close>

lemma those_map: "(\<forall>x \<in> set xs. g x = Some (h x)) \<Longrightarrow> those (map g xs) = Some (map h xs)"
  by (induction xs) auto

lemma distinct_concat_map:
  "distinct xs \<Longrightarrow> (\<forall>x \<in> set xs. distinct (f x)) \<Longrightarrow> (\<forall>x \<in> set xs. \<forall>y \<in> set xs. x \<noteq> y \<longrightarrow> set (f x) \<inter> set (f y) = {}) \<Longrightarrow>
    distinct (concat (map f xs))"
  by (induction xs) auto

definition thread_below :: "comments \<Rightarrow> nat \<Rightarrow> ProposalComment \<Rightarrow> (nat \<times> ProposalComment) set" where
  "thread_below cs d c = {(k, e). d \<le> k \<and> e \<in> set (comment_values cs) \<and> rooted_at cs k e \<and> up cs (k - d) e = Some c}"

lemma thread_below_step:
  assumes "comments_keyed cs" "c \<in> set (comment_values cs)" "rooted_at cs d c"
  shows "thread_below cs d c = insert (d, c) (\<Union>r \<in> set (replies_to cs c). thread_below cs (Suc d) r)"
proof -
  have "(k, e) \<in> thread_below cs d c \<longleftrightarrow> (k, e) = (d, c) \<or> (\<exists>r \<in> set (replies_to cs c). (k, e) \<in> thread_below cs (Suc d) r)" for k e
  proof (cases "d < k")
    case True
    then have k: "k - d = (k - Suc d) + Suc 0" by simp
    have step: "up cs (k - d) e = Option.bind (up cs (k - Suc d) e) (parent_comment cs)"
      unfolding k up_add by (cases "up cs (k - Suc d) e") (simp_all add: Option.bind_eq_None_conv split: Option.bind_split)
    have "up cs (k - d) e = Some c \<longleftrightarrow> (\<exists>r \<in> set (replies_to cs c). up cs (k - Suc d) e = Some r)" if "e \<in> set (comment_values cs)"
    proof
      assume "up cs (k - d) e = Some c"
      then obtain r where r: "up cs (k - Suc d) e = Some r" "parent_comment cs r = Some c" by (auto simp: step Option.bind_eq_Some_conv)
      then have "r \<in> set (replies_to cs c)"
        using up_value [OF r(1) that] assms(1) by (auto simp: set_replies parent_comment_def comments_keyed_def Option.bind_eq_Some_conv)
      with r(1) show "\<exists>r \<in> set (replies_to cs c). up cs (k - Suc d) e = Some r" by blast
    qed (use reply_parent [OF assms(1,2)] in \<open>auto simp: step\<close>)
    then show ?thesis using True by (auto simp: thread_below_def)
  qed (use assms in \<open>auto simp: thread_below_def\<close>)
  then show ?thesis by auto
qed

lemma thread_below_disjoint: "r \<noteq> r' \<Longrightarrow> snd ` thread_below cs d r \<inter> snd ` thread_below cs d r' = {}"
proof -
  assume "r \<noteq> r'"
  then have False if "(k, e) \<in> thread_below cs d r" "(k', e) \<in> thread_below cs d r'" for k k' e
    using that rooted_unique [of cs k e k'] by (simp add: thread_below_def)
  then show ?thesis by force
qed

lemma print_thread_below:
  assumes keyed: "comments_keyed cs"
  shows "c \<in> set (comment_values cs) \<Longrightarrow> rooted_at cs d c \<Longrightarrow> card (set (comment_values cs)) \<le> n + d \<Longrightarrow>
    \<exists>ls. print_thread n cs d c = Some ls \<and> distinct (map snd ls) \<and> set ls = thread_below cs d c"
proof (induction n arbitrary: d c)
  case 0
  then show ?case using rooted_bound [of cs d c] by simp
next
  case (Suc n)
  let ?rs = "replies_to cs c"
  have "\<forall>r \<in> set ?rs. \<exists>ls. print_thread n cs (Suc d) r = Some ls \<and> distinct (map snd ls) \<and> set ls = thread_below cs (Suc d) r"
    using Suc rooted_reply [OF keyed Suc.prems(1,2)] by (auto simp: set_replies)
  then obtain f where f: "\<forall>r \<in> set ?rs. print_thread n cs (Suc d) r = Some (f r) \<and> distinct (map snd (f r)) \<and> set (f r) = thread_below cs (Suc d) r"
    by metis
  have run: "print_thread (Suc n) cs d c = Some ((d, c) # concat (map f ?rs))"
    using f those_map [of ?rs "print_thread n cs (Suc d)" f] by simp
  have members: "set ((d, c) # concat (map f ?rs)) = thread_below cs d c"
    using f by (simp add: thread_below_step [OF keyed Suc.prems(1,2)])
  have "distinct ?rs" using distinct_values [OF keyed] by (simp add: replies_to_def)
  then have "distinct (concat (map (\<lambda>r. map snd (f r)) ?rs))"
    using f thread_below_disjoint [of _ _ cs "Suc d"] by (intro distinct_concat_map) auto
  moreover have "c \<notin> snd ` thread_below cs (Suc d) r" for r
    using rooted_unique [OF Suc.prems(2)] by (auto simp: thread_below_def)
  ultimately have "distinct (map snd ((d, c) # concat (map f ?rs)))"
    using f by (force simp: map_concat comp_def)
  with run members show ?case by blast
qed

lemma up_root: "rooted_at cs k e \<Longrightarrow> e \<in> set (comment_values cs) \<Longrightarrow> \<exists>r \<in> set (root_comments cs). up cs k e = Some r"
  using up_value [of cs k e] by (auto simp: rooted_at_def root_comments_def)

lemma print_threads_exact:
  assumes keyed: "comments_keyed cs" and fuel: "card (set (comment_values cs)) \<le> n"
  shows "\<exists>ls. print_threads n cs = Some ls \<and> distinct (map snd ls) \<and>
    set ls = {(k, e). e \<in> set (comment_values cs) \<and> rooted_at cs k e}"
proof -
  have root: "r \<in> set (comment_values cs)" "rooted_at cs 0 r" if "r \<in> set (root_comments cs)" for r
    using that by (auto simp: root_comments_def rooted_at_def)
  then have "\<forall>r \<in> set (root_comments cs). \<exists>ls. print_thread n cs 0 r = Some ls \<and> distinct (map snd ls) \<and> set ls = thread_below cs 0 r"
    using print_thread_below [OF keyed] fuel by simp
  then obtain f where f: "\<forall>r \<in> set (root_comments cs). print_thread n cs 0 r = Some (f r) \<and> distinct (map snd (f r)) \<and> set (f r) = thread_below cs 0 r"
    by metis
  have run: "print_threads n cs = Some (concat (map f (root_comments cs)))"
    using f those_map [of "root_comments cs" "print_thread n cs 0" f] by (simp add: print_threads_def)
  have "distinct (root_comments cs)" using distinct_values [OF keyed] by (simp add: root_comments_def)
  then have "distinct (concat (map (\<lambda>r. map snd (f r)) (root_comments cs)))"
    using f thread_below_disjoint [of _ _ cs 0] by (intro distinct_concat_map) auto
  moreover have "(\<Union>r \<in> set (root_comments cs). thread_below cs 0 r) = {(k, e). e \<in> set (comment_values cs) \<and> rooted_at cs k e}"
    using up_root [of cs] by (auto simp: thread_below_def)
  ultimately show ?thesis using run f by (intro exI conjI) (auto simp: map_concat comp_def)
qed

lemma collect_keyed: "comments_keyed acc \<Longrightarrow> comments_keyed (collect_comments D B auth h s ks acc)"
proof (induction ks arbitrary: acc)
  case (Cons k ks)
  have "comments_keyed (fmupd (pc_id c) c acc)" for c using Cons.prems by (simp add: comments_keyed_def)
  then show ?case using Cons by (cases "comment_json D B auth k s") simp_all
qed simp

text \<open>
  C27: The threaded view ends and is exact. With as many nested calls as there are comments it prints every comment whose
  chain of replies leads to a comment that is no reply, at the depth of that chain and once; a comment below a hidden,
  missing or circular one is not printed.
\<close>

theorem thread_view_exact:
  assumes "fetch_comments_threaded D B pid (Some auth) show_hidden vm = Inr cs" "card (set (comment_values cs)) \<le> n"
  shows "\<exists>ls. handle_thread_command D B n pid show_hidden auth vm = Some (Inr ls) \<and> distinct (map snd ls) \<and>
    set ls = {(k, e). e \<in> set (comment_values cs) \<and> rooted_at cs k e}"
proof -
  have "comments_keyed (fmempty :: comments)" by (simp add: comments_keyed_def)
  then have "comments_keyed cs"
    using assms(1) collect_keyed by (auto simp: fetch_comments_threaded_def bindR_Inr_iff)
  moreover have "comment_values (fmempty :: comments) = []" by (simp add: comment_values_def hkeys_def List.map_filter_def sorted_list_of_fset.rep_eq)
  ultimately show ?thesis using print_threads_exact [of cs n] assms by (auto simp: handle_thread_command_def)
qed

definition case_comment :: "string \<Rightarrow> string option \<Rightarrow> ProposalComment" where
  "case_comment i reply = comment_new i 7 ''did:coop:ann'' ''text'' reply []"

definition case_thread :: com_env where
  "case_thread = case_com\<lparr>ce_dec := \<lambda>b. Inr (case_comment b (if b = ''b'' then Some ''a'' else if b = ''x'' then Some ''z'' else None))\<rparr>"

definition case_thread_machine :: "InMemoryStorage VM" where
  "case_thread_machine = with_storage_backend (demo_store\<lparr>im_data :=
     ninsert ''governance'' (comment_path ''p'' ''x'') ''x'' (ninsert ''governance'' (comment_path ''p'' ''b'') ''b''
     (ninsert ''governance'' (comment_path ''p'' ''a'') ''a'' (ninsert ''governance'' (proposal_path ''p'') ''x'' (im_data demo_store))))\<rparr>)"

theorem thread_view_exact_witness:
  "\<exists>ls. handle_thread_command case_thread in_memory 3 ''p'' False demo_auth case_thread_machine = Some (Inr ls) \<and> distinct (map snd ls) \<and>
     (1, case_comment ''b'' (Some ''a'')) \<in> set ls \<and> case_comment ''x'' (Some ''z'') \<notin> snd ` set ls"
proof -
  let ?r = "fetch_comments_threaded case_thread in_memory ''p'' (Some demo_auth) False case_thread_machine"
  have "\<not> isl ?r" by code_simp
  then obtain cs where cs: "?r = Inr cs" by (cases ?r) auto
  have "map (case_sum (\<lambda>_. []) comment_values) [?r] =
      [[case_comment ''a'' None, case_comment ''b'' (Some ''a''), case_comment ''x'' (Some ''z'')]]" by code_simp
  then have v: "comment_values cs = [case_comment ''a'' None, case_comment ''b'' (Some ''a''), case_comment ''x'' (Some ''z'')]"
    by (simp add: cs)
  have "map (case_sum (\<lambda>_. []) (\<lambda>cs. [up cs 1 (case_comment ''b'' (Some ''a'')), up cs 1 (case_comment ''x'' (Some ''z''))])) [?r] =
      [[Some (case_comment ''a'' None), None]]" by code_simp
  then have u: "up cs 1 (case_comment ''b'' (Some ''a'')) = Some (case_comment ''a'' None)" "up cs 1 (case_comment ''x'' (Some ''z'')) = None"
    by (simp_all add: cs)
  have "rooted_at cs 1 (case_comment ''b'' (Some ''a''))"
    using u(1) by (simp add: rooted_at_def case_comment_def comment_new_def)
  moreover have "\<not> rooted_at cs k (case_comment ''x'' (Some ''z''))" for k
    using u(2) up_add [of cs 1 "k - 1" "case_comment ''x'' (Some ''z'')"]
    by (cases k) (simp_all add: rooted_at_def case_comment_def comment_new_def)
  moreover have "card (set (comment_values cs)) \<le> 3" by (rule order_trans [OF card_length]) (simp add: v)
  ultimately show ?thesis using thread_view_exact [OF cs, of 3] v by force
qed

section \<open>A thread that does not end\<close>

text \<open>
  Two stored comments of one author within a second have the same identifier in the threaded view. When the second is a
  reply to it, the view shows the second as its own reply, again and again.
\<close>

lemma display_loops:
  assumes "c1 = \<lparr>sc_author = a, sc_timestamp = t, sc_content = x, sc_parent = None\<rparr>"
    and "c2 = \<lparr>sc_author = a, sc_timestamp = t, sc_content = y, sc_parent = Some (display_id P utc c1)\<rparr>"
  shows "display_threaded_comments n P utc [c1, c2] = None"
proof -
  have i: "display_id P utc c2 = display_id P utc c1" by (simp add: assms display_id_def)
  have ch: "children_of [c1, c2] (Some (display_id P utc c1)) = [1]" "children_of [c1, c2] None = [0]"
    by (simp_all add: children_of_def assms)
  have "display_comment n P utc [c1, c2] 1 depth = None" for n depth
    by (induction n arbitrary: depth) (simp_all add: i ch)
  moreover have "display_comment n P utc [c1, c2] 0 0 = None" using calculation by (cases n) (simp_all add: ch)
  ultimately show ?thesis by (simp add: display_threaded_comments_def ch)
qed

end
