(* ===== verification/Proposal_Views.thy ===== *)
theory Proposal_Views
  imports Threads
begin

text \<open>
  The rest of \<^verbatim>\<open>cli/proposal.rs\<close> and \<^verbatim>\<open>cli/utils.rs\<close>: conversions of arguments, the create command with the settings it
  reads from a program file, the commands that show or export a proposal and those on the ledger. A command that only
  prints returns what it prints. Parameters (\<open>view_env\<close>) are reading files, new identities, the JSON text of an export, the
  texts of states, and the constructor of a lifecycle, which the source calls with seven of its eight arguments.
\<close>

section \<open>Numbers\<close>

definition parse_number_arg :: "string \<Rightarrow> string option \<Rightarrow> f64 \<Rightarrow> string + TypedValue" where
  "parse_number_arg name raw dflt =
     (case raw of
        None \<Rightarrow> Inr (Number dflt)
      | Some s \<Rightarrow> (case parse_f64 s of Some v \<Rightarrow> Inr (Number v) | None \<Rightarrow> Inl (''Invalid number for `'' @ name @ ''`: '' @ s)))"

definition parse_bool_arg :: "'s life_env \<Rightarrow> string \<Rightarrow> string option \<Rightarrow> bool \<Rightarrow> string + TypedValue" where
  "parse_bool_arg V name raw dflt =
     (case raw of
        None \<Rightarrow> Inr (Boolean dflt)
      | Some s \<Rightarrow>
          let v = to_lowercase V s in
          if v \<in> {''true'', ''yes'', ''1'', ''on''} then Inr (Boolean True)
          else if v \<in> {''false'', ''no'', ''0'', ''off''} then Inr (Boolean False)
          else Inl (''Invalid boolean for `'' @ name @ ''`: '' @ s))"

definition parse_string_arg :: "string \<Rightarrow> string option \<Rightarrow> string option \<Rightarrow> string + TypedValue" where
  "parse_string_arg name raw dflt =
     (case raw of
        Some s \<Rightarrow> Inr (Str s)
      | None \<Rightarrow> (case dflt of Some d \<Rightarrow> Inr (Str d) | None \<Rightarrow> Inl (''Missing required string parameter `'' @ name @ ''`'')))"

definition safe_f64_to_u64 :: "f64 \<Rightarrow> string + u64" where
  "safe_f64_to_u64 val =
     (if val = F64_NaN \<or> \<not> f64_is_finite val \<or> f64_lt val f64_zero \<or> f64_lt (f64_of_int (2 ^ 64 - 1)) val
      then Inl (''Cannot convert '' @ show_f64 val @ '' to u64: value out of bounds'')
      else Inr (f64_as_u64 (f64_round val)))"

definition safe_typed_to_u64 :: "(TypedValueError \<Rightarrow> string) \<Rightarrow> TypedValue \<Rightarrow> string + u64" where
  "safe_typed_to_u64 text val =
     (case as_number val of
        Inr num \<Rightarrow> safe_f64_to_u64 num
      | Inl e \<Rightarrow> Inl (''Cannot convert to u64: '' @ text e))"

definition f64_to_typed :: "f64 \<Rightarrow> TypedValue" where
  "f64_to_typed val = Number val"

definition safe_percentage :: "(TypedValueError \<Rightarrow> string) \<Rightarrow> TypedValue \<Rightarrow> TypedValue \<Rightarrow> string + f64" where
  "safe_percentage text numerator denominator =
     bindR (map_err (\<lambda>e. ''Invalid numerator: '' @ text e) (as_number numerator)) (\<lambda>num.
     bindR (map_err (\<lambda>e. ''Invalid denominator: '' @ text e) (as_number denominator)) (\<lambda>denom.
       if f64_eq denom f64_zero then Inl ''Cannot calculate percentage with zero denominator''
       else Inr (f64_mul (f64_div num denom) (f64_of_int 100))))"

section \<open>Settings in a program file\<close>

record 's view_env =
  vw_cmd :: "'s cmd_env"
  vw_read :: "string \<Rightarrow> string + string"                         \<comment> \<open>\<^verbatim>\<open>fs::read_to_string\<close>\<close>
  vw_digits :: "string \<Rightarrow> bool"                                  \<comment> \<open>decimal digits beyond ASCII\<close>
  vw_error_text :: "CommandError \<Rightarrow> string"
  vw_identity :: "string \<Rightarrow> string + Identity"
  vw_lifecycle :: "datetime \<Rightarrow> string \<Rightarrow> Identity \<Rightarrow> string \<Rightarrow> u64 \<Rightarrow> u64 \<Rightarrow> duration option \<Rightarrow> u64 option \<Rightarrow> ProposalLifecycle"
  vw_state_text :: "ProposalState \<Rightarrow> string"
  vw_execution_text :: "ExecutionStatus \<Rightarrow> string"
  vw_parent_exists :: "string \<Rightarrow> bool"

type_synonym 'a cmd_value = "CommandError fault + 'a"

definition panic_as :: "(CompilerError \<Rightarrow> CommandError) \<Rightarrow> 'a parsed \<Rightarrow> 'a cmd_value" where
  "panic_as f r = (case r of Inr a \<Rightarrow> Inr a | Inl Panic \<Rightarrow> Inl Panic | Inl (Err e) \<Rightarrow> Inl (Err (f e)))"

definition parse_duration_string :: "'s view_env \<Rightarrow> string \<Rightarrow> duration cmd_value" where
  "parse_duration_string V s =
     (let amount = butlast s;
          digits = (if list_all (\<lambda>c. \<not> digit7 c) amount then list_all is_digit amount else vw_digits V amount)
      in if amount \<noteq> [] \<and> last s \<in> set ''dhm'' \<and> digits then
           (case parse_i64 amount of
              None \<Rightarrow> Inl (Err (CX_Message (''Invalid duration amount: '' @ amount)))
            | Some v \<Rightarrow>
                panic_as CX_Compiler (duration_secs (v * (if last s = CHR ''d'' then 86400 else if last s = CHR ''h'' then 3600 else 60))))
         else Inl (Err (CX_Message (''Invalid duration format: '' @ s @
                ''. Expected format: <number><unit>, where unit is d (days), h (hours), or m (minutes)''))))"

text \<open>The first match of the pattern \<^verbatim>\<open>#\s*lifecycle\s*\{([^}]*)\}\<close>: what is between the braces.\<close>

definition lifecycle_at :: "string \<Rightarrow> string option" where
  "lifecycle_at s =
     (let s1 = trim_start s in
      if starts_with ''lifecycle'' s1
      then (case trim_start (drop 9 s1) of
              c # r \<Rightarrow> if c = CHR ''{'' \<and> CHR ''}'' \<in> set r then Some (takeWhile (\<lambda>x. x \<noteq> CHR ''}'') r) else None
            | [] \<Rightarrow> None)
      else None)"

fun lifecycle_block :: "string \<Rightarrow> string option" where
  "lifecycle_block [] = None"
| "lifecycle_block (c # s) =
     (case (if c = CHR ''#'' then lifecycle_at s else None) of Some b \<Rightarrow> Some b | None \<Rightarrow> lifecycle_block s)"

definition config_entry :: "string \<Rightarrow> string \<Rightarrow> LifecycleConfig \<Rightarrow> LifecycleConfig cmd_value" where
  "config_entry key val config =
     (if key = ''quorum'' then
        (case parse_f64 val of Some v \<Rightarrow> Inr (config\<lparr>lc_quorum := Some v\<rparr>) | None \<Rightarrow> Inl (Err (CX_Message (''Invalid quorum value: '' @ val))))
      else if key = ''threshold'' then
        (case parse_f64 val of Some v \<Rightarrow> Inr (config\<lparr>lc_threshold := Some v\<rparr>) | None \<Rightarrow> Inl (Err (CX_Message (''Invalid threshold value: '' @ val))))
      else if key = ''min_deliberation'' then
        (case parse_i64 val of
           Some v \<Rightarrow> bindR (panic_as CX_Compiler (duration_secs (v * 3600))) (\<lambda>d. Inr (config\<lparr>lc_min_deliberation := Some d\<rparr>))
         | None \<Rightarrow> Inl (Err (CX_Message (''Invalid min_deliberation value: '' @ val))))
      else if key = ''required_roles'' then Inr (config\<lparr>lc_required_roles := map trim (split_char CHR '','' val)\<rparr>)
      else Inr config)"

fun config_lines :: "string list \<Rightarrow> LifecycleConfig \<Rightarrow> LifecycleConfig cmd_value" where
  "config_lines [] config = Inr config"
| "config_lines (l # ls) config =
     (let line = trim l in
      if line = [] \<or> starts_with ''#'' line then config_lines ls config
      else
        (case splitn2 CHR ''='' line of
           [key, val] \<Rightarrow> bindR (config_entry (trim key) (trim val) config) (config_lines ls)
         | _ \<Rightarrow> config_lines ls config))"

definition extract_lifecycle_config :: "string \<Rightarrow> LifecycleConfig cmd_value" where
  "extract_lifecycle_config content =
     (case lifecycle_block content of
        Some block \<Rightarrow> config_lines (split_char newline (trim block)) default_config
      | None \<Rightarrow> Inr default_config)"

definition prefixed :: "'s view_env \<Rightarrow> string \<Rightarrow> 'a cmd_value \<Rightarrow> 'a cmd_value" where
  "prefixed V what r =
     (case r of Inr a \<Rightarrow> Inr a | Inl Panic \<Rightarrow> Inl Panic | Inl (Err e) \<Rightarrow> Inl (Err (CX_Message (what @ '': '' @ vw_error_text V e))))"

definition parse_dsl_from_file :: "'s view_env \<Rightarrow> string \<Rightarrow> (Op list \<times> LifecycleConfig) cmd_value" where
  "parse_dsl_from_file V path =
     (case vw_read V path of
        Inl e \<Rightarrow> Inl (Err (CX_Message (''Failed to read DSL file '' @ path @ '': '' @ e)))
      | Inr content \<Rightarrow>
          bindR (prefixed V ''Failed to extract lifecycle config'' (extract_lifecycle_config content)) (\<lambda>lifecycle_config.
          bindR (prefixed V ''Failed to parse DSL content'' (panic_as CX_Compiler (parse_dsl content))) (\<lambda>(logic_ops, dsl_config).
            Inr (logic_ops,
              if dsl_config \<noteq> default_config then merge_from dsl_config lifecycle_config else lifecycle_config))))"

section \<open>Creating a proposal\<close>

record CreateArgs =
  cr_id :: string
  cr_title :: string
  cr_description :: string
  cr_quorum :: f64
  cr_threshold :: f64
  cr_logic :: string
  cr_expires_in :: "string option"
  cr_min_deliberation :: "int option"
  cr_discussion_duration :: "string option"
  cr_required_participants :: "u64 option"
  cr_creator :: "string option"

definition did_to_identity :: "'s view_env \<Rightarrow> string \<Rightarrow> Identity cmd_value" where
  "did_to_identity V did = map_err (\<lambda>e. Err (CX_Message (''Failed to create identity from DID: '' @ e))) (vw_identity V did)"

definition percentage_arg :: "string \<Rightarrow> f64 \<Rightarrow> u64 cmd_value" where
  "percentage_arg what q =
     map_err (\<lambda>e. Err (CX_Message (''Failed to convert '' @ what @ '': '' @ e))) (safe_f64_to_u64 (f64_mul q (f64_of_int 100)))"

definition expiry :: "'s view_env \<Rightarrow> datetime \<Rightarrow> string option \<Rightarrow> datetime cmd_value" where
  "expiry V utc expires_in =
     bindR (case expires_in of Some s \<Rightarrow> parse_duration_string V s | None \<Rightarrow> Inr (30 * 86400 * 1000000000)) (\<lambda>d.
       add_duration (cm_life (vw_cmd V)) utc d)"

definition deliberation :: "'s view_env \<Rightarrow> CreateArgs \<Rightarrow> duration cmd_value" where
  "deliberation V a =
     (case cr_min_deliberation a of
        Some hours \<Rightarrow> panic_as CX_Compiler (duration_secs (hours * 3600))
      | None \<Rightarrow> (case cr_discussion_duration a of Some s \<Rightarrow> parse_duration_string V s | None \<Rightarrow> panic_as CX_Compiler (duration_secs (24 * 3600))))"

definition new_proposal :: "'s view_env \<Rightarrow> datetime \<Rightarrow> AuthContext \<Rightarrow> CreateArgs \<Rightarrow> (Proposal \<times> ProposalLifecycle \<times> string) cmd_value" where
  "new_proposal V utc auth a =
     (let creator = (case cr_creator a of Some c \<Rightarrow> c | None \<Rightarrow> ac_current_identity_did auth) in
      bindR (prefixed V ''Failed to parse DSL file'' (parse_dsl_from_file V (cr_logic a))) (\<lambda>_.
      bindR (expiry V utc (cr_expires_in a)) (\<lambda>expires_at.
      bindR (deliberation V a) (\<lambda>min_delib_duration.
      bindR (did_to_identity V creator) (\<lambda>creator_identity.
      bindR (percentage_arg ''quorum'' (cr_quorum a)) (\<lambda>quorum.
      bindR (percentage_arg ''threshold'' (cr_threshold a)) (\<lambda>threshold.
      bindR (map_err (\<lambda>e. Err (CX_Message (''Failed to read DSL file: '' @ e))) (vw_read V (cr_logic a))) (\<lambda>logic_content.
        Inr (proposal_new utc (cr_id a) creator (Some (cr_logic a)) (Some expires_at) None [],
             vw_lifecycle V utc (cr_id a) creator_identity (cr_title a) quorum threshold (Some min_delib_duration)
               (cr_required_participants a),
             logic_content)))))))))"

definition create_command ::
  "'s view_env \<Rightarrow> 's StorageBackend \<Rightarrow> clock \<Rightarrow> datetime \<Rightarrow> AuthContext \<Rightarrow> CreateArgs \<Rightarrow> 's desk \<Rightarrow> (unit, 's) cmd_result" where
  "create_command V B t utc auth a d =
     (case new_proposal V utc auth a of
        Inl e \<Rightarrow> (Inl e, d)
      | Inr (p, l, logic_content) \<Rightarrow> create_proposal (vw_cmd V) B t utc p l (cr_description a) logic_content d)"

section \<open>Showing a proposal\<close>

datatype Percentage = Unknown | Not_Applicable | Percent f64

record ProposalView =
  pv_title :: string
  pv_proposal :: Proposal
  pv_yes :: nat
  pv_no :: nat
  pv_abstain :: nat
  pv_total :: nat
  pv_quorum :: Percentage
  pv_threshold :: Percentage

definition share :: "'s cmd_env \<Rightarrow> nat \<Rightarrow> nat \<Rightarrow> f64" where
  "share M part whole =
     (case safe_percentage (cm_typed_text M) (f64_to_typed (f64_of_nat part)) (f64_to_typed (f64_of_nat whole)) of
        Inr v \<Rightarrow> v | Inl _ \<Rightarrow> f64_zero)"

definition handle_view_command :: "'s cmd_env \<Rightarrow> 's StorageBackend \<Rightarrow> string \<Rightarrow> 's VM \<Rightarrow> CommandError + ProposalView" where
  "handle_view_command M B pid vm =
     bindR (get_proposal M B pid vm) (\<lambda>p.
     bindR (cli_count_votes M B pid vm) (\<lambda>(yes_votes, no_votes, abstain_votes).
       let total_votes = yes_votes + no_votes + abstain_votes;
           lifecycle = get_proposal_lifecycle M B pid vm;
           quorum_percentage =
             (case lifecycle of
                Inl _ \<Rightarrow> Unknown
              | Inr l \<Rightarrow> if cm_quorum M l > 0 then Percent (share M total_votes (unat (cm_quorum M l))) else Not_Applicable);
           threshold_percentage =
             (case lifecycle of
                Inl _ \<Rightarrow> Unknown
              | Inr l \<Rightarrow> if cm_threshold M l > 0 \<and> total_votes > 0 then Percent (share M yes_votes total_votes) else Not_Applicable)
       in Inr \<lparr>pv_title = (case lifecycle of Inr l \<Rightarrow> pl_title l | Inl _ \<Rightarrow> ''N/A''), pv_proposal = p, pv_yes = yes_votes, pv_no = no_votes,
               pv_abstain = abstain_votes, pv_total = total_votes, pv_quorum = quorum_percentage, pv_threshold = threshold_percentage\<rparr>))"

definition load_proposal_lifecycle :: "'s cmd_env \<Rightarrow> 's StorageBackend \<Rightarrow> string \<Rightarrow> 's VM \<Rightarrow> CommandError + ProposalLifecycle" where
  "load_proposal_lifecycle M B pid vm =
     (case ex_storage_backend (vm_executor vm) of
        None \<Rightarrow> Inl (CX_VM VE_StorageUnavailable)
      | Some s \<Rightarrow>
          bindR (map_err CX_Storage (sb_get B None ''proposals'' (''proposals/'' @ pid) s)) (\<lambda>proposal_data.
            map_err CX_Message (cm_lifecycle_dec M proposal_data)))"

record ProposalSummary =
  ps_title :: "string option"
  ps_proposal :: Proposal
  ps_last_activity :: u64
  ps_votes :: "(nat \<times> f64) list"          \<comment> \<open>yes, no and abstain with their percentages\<close>
  ps_total :: nat
  ps_comment_count :: nat
  ps_commenters :: "(string \<times> nat) list"

definition count_authors :: "ProposalComment list \<Rightarrow> (string, nat) fmap" where
  "count_authors cs =
     fold (\<lambda>c m. fmupd (pc_author c) ((case fmlookup m (pc_author c) of Some n \<Rightarrow> n | None \<Rightarrow> 0) + 1) m) cs fmempty"

definition handle_summary_command ::
  "'s cmd_env \<Rightarrow> 's StorageBackend \<Rightarrow> (datetime \<Rightarrow> u64) \<Rightarrow> string \<Rightarrow> 's VM \<Rightarrow> CommandError + ProposalSummary" where
  "handle_summary_command M B moment pid vm =
     bindR (get_proposal M B pid vm) (\<lambda>p.
     bindR (cli_count_votes M B pid vm) (\<lambda>(yes_votes, no_votes, abstain_votes).
     bindR (map_err CX_Message (fetch_comments_threaded (cm_com M) B pid None False vm)) (\<lambda>comments.
       let total_votes = yes_votes + no_votes + abstain_votes;
           cs = comment_values comments;
           authors = count_authors cs;
           pct = (\<lambda>n. if total_votes > 0 then share M n total_votes else f64_zero)
       in Inr \<lparr>ps_title = (case load_proposal_lifecycle M B pid vm of Inr l \<Rightarrow> Some (pl_title l) | Inl _ \<Rightarrow> None), ps_proposal = p,
               ps_last_activity = (if cs = [] then moment (pp_created_at p) else Max (set (map pc_timestamp cs))),
               ps_votes = map (\<lambda>n. (n, pct n)) [yes_votes, no_votes, abstain_votes], ps_total = total_votes,
               ps_comment_count = length cs,
               ps_commenters = take 5 (map (\<lambda>a. (a, the (fmlookup authors a))) (hkeys authors))\<rparr>)))"

section \<open>Comments of a proposal\<close>

definition handle_comment_edit_command ::
  "'s cmd_env \<Rightarrow> 's StorageBackend \<Rightarrow> clock \<Rightarrow> u64 \<Rightarrow> string \<Rightarrow> string \<Rightarrow> string \<Rightarrow> AuthContext \<Rightarrow> 's VM \<Rightarrow> (CommandError, unit, 's VM) outcome" where
  "handle_comment_edit_command M B t time cid pid new_text auth vm =
     (case edit_comment (cm_com M) B t time pid cid new_text auth vm of (r, vm') \<Rightarrow> (map_err CX_Message r, vm'))"

definition handle_comment_hide_command ::
  "'s cmd_env \<Rightarrow> 's StorageBackend \<Rightarrow> clock \<Rightarrow> string \<Rightarrow> string \<Rightarrow> AuthContext \<Rightarrow> 's VM \<Rightarrow> (CommandError, unit, 's VM) outcome" where
  "handle_comment_hide_command M B t cid pid auth vm =
     (case hide_comment (cm_com M) B t pid cid auth vm of (r, vm') \<Rightarrow> (map_err CX_Message r, vm'))"

text \<open>The versions of a comment, each with the change of its length in bytes to the next one, if there is one.\<close>

fun version_changes :: "CommentVersion list \<Rightarrow> (CommentVersion \<times> int option) list" where
  "version_changes [] = []"
| "version_changes [v] = [(v, None)]"
| "version_changes (v # w # vs) =
     (v, let d = int (length (cv_content w)) - int (length (cv_content v)) in if d = 0 then None else Some d) # version_changes (w # vs)"

definition handle_comment_history_command ::
  "'s cmd_env \<Rightarrow> 's StorageBackend \<Rightarrow> string \<Rightarrow> string \<Rightarrow> AuthContext option \<Rightarrow> 's VM \<Rightarrow> CommandError + (CommentVersion \<times> int option) list" where
  "handle_comment_history_command M B cid pid auth vm =
     bindR (map_err CX_Message (get_comment_history (cm_com M) B pid cid auth vm)) (\<lambda>versions. Inr (version_changes versions))"

definition handle_comments_command ::
  "'s cmd_env \<Rightarrow> 's StorageBackend \<Rightarrow> nat \<Rightarrow> string \<Rightarrow> AuthContext \<Rightarrow> 's VM \<Rightarrow> (CommandError + ProposalComment printed) option" where
  "handle_comments_command M B n pid auth vm =
     (case get_proposal_lifecycle M B pid vm of
        Inl e \<Rightarrow> Some (Inl e)
      | Inr _ \<Rightarrow> map_option (map_err CX_Message) (handle_thread_command (cm_com M) B n pid False auth vm))"

section \<open>Exporting a proposal\<close>

record ProposalExport =
  px_id :: string
  px_title :: string
  px_creator :: string
  px_state :: string
  px_created_at :: string
  px_expires_at :: "string option"
  px_quorum :: f64
  px_threshold :: f64
  px_description :: "string option"
  px_logic :: "string option"
  px_execution_status :: "string option"
  px_votes :: "CastVote list"
  px_comments :: "StoredComment list"

definition optional_text :: "'s cmd_env \<Rightarrow> 's StorageBackend \<Rightarrow> AuthContext \<Rightarrow> string \<Rightarrow> 's \<Rightarrow> CommandError + string option" where
  "optional_text M B auth k s =
     (case sb_get B (Some auth) ''default'' k s of
        Inl _ \<Rightarrow> Inr None
      | Inr b \<Rightarrow> if valid_utf8 b then Inr (Some b) else Inl (CX_Message (dsp_utf8_error (cm_life M) b)))"

definition exported_votes :: "'s cmd_env \<Rightarrow> 's StorageBackend \<Rightarrow> AuthContext \<Rightarrow> 's \<Rightarrow> string list \<Rightarrow> CastVote list" where
  "exported_votes M B auth s ks =
     List.map_filter (\<lambda>k.
       case get_json B ''Value'' (cm_value_dec M) (Some auth) ''default'' k s of
         Inl _ \<Rightarrow> None
       | Inr vals \<Rightarrow>
           let text = (\<lambda>f. case vals f of Some v \<Rightarrow> v | None \<Rightarrow> ''unknown'') in
           Some \<lparr>ct_voter = text ''voter'', ct_vote = text ''vote'', ct_timestamp = text ''timestamp'', ct_delegated_by = vals ''delegated_by''\<rparr>) ks"

definition proposal_export :: "'s view_env \<Rightarrow> 's StorageBackend \<Rightarrow> string \<Rightarrow> AuthContext \<Rightarrow> 's \<Rightarrow> CommandError + ProposalExport" where
  "proposal_export V B pid auth s =
     (let M = vw_cmd V in
      bindR (map_err (cmd_failed M ''Failed to load proposal lifecycle'')
        (get_json B ''ProposalLifecycle'' (cm_lifecycle_dec M) (Some auth) ''default'' (proposal_lifecycle_key pid) s)) (\<lambda>l.
      bindR (optional_text M B auth (proposal_description_key pid) s) (\<lambda>description.
      bindR (optional_text M B auth (proposal_logic_key pid) s) (\<lambda>logic.
      bindR (map_err CX_Storage (sb_list_keys B (Some auth) ''default'' (Some (proposal_votes_prefix pid @ ''/'')) s)) (\<lambda>vote_keys.
      bindR (map_err CX_Storage (sb_list_keys B (Some auth) ''default'' (Some (proposal_comments_prefix pid @ ''/'')) s)) (\<lambda>comment_keys.
        Inr \<lparr>px_id = pl_id l, px_title = pl_title l, px_creator = id_did (pl_creator l), px_state = vw_state_text V (pl_state l),
             px_created_at = cm_rfc3339 M (pl_created_at l), px_expires_at = map_option (cm_rfc3339 M) (pl_expires_at l),
             px_quorum = f64_div (f64_of_nat (unat (cm_quorum M l))) (f64_of_int 100),
             px_threshold = f64_div (f64_of_nat (unat (cm_threshold M l))) (f64_of_int 100),
             px_description = description, px_logic = logic, px_execution_status = map_option (vw_execution_text V) (pl_execution_status l),
             px_votes = exported_votes M B auth s vote_keys, px_comments = stored_comments M B auth ''default'' s comment_keys\<rparr>))))))"

definition handle_export_command ::
  "'s view_env \<Rightarrow> (ProposalExport \<Rightarrow> string + bytes) \<Rightarrow> os_env \<Rightarrow> 's StorageBackend \<Rightarrow> string \<Rightarrow> string option \<Rightarrow> AuthContext \<Rightarrow> 's VM \<Rightarrow> files \<Rightarrow>
     (CommandError, string, files) outcome" where
  "handle_export_command V json os B pid output_path auth vm fs =
     (case bindR (machine_storage (not_configured ''export'') vm) (proposal_export V B pid auth) of
        Inl e \<Rightarrow> (Inl e, fs)
      | Inr x \<Rightarrow>
          let path = (case output_path of Some p \<Rightarrow> p | None \<Rightarrow> ''proposal_'' @ pid @ ''.json'') in
          (case os_create os path of
             Some e \<Rightarrow> (Inl (CX_Message e), fs)
           | None \<Rightarrow>
               (case json x of
                  Inl e \<Rightarrow> (Inl (CX_Message e), fmupd path [] fs)
                | Inr b \<Rightarrow> (case write_all os path b (fmupd path [] fs) of (r, fs') \<Rightarrow> (map_err CX_Message (bindR r (\<lambda>_. Inr path)), fs')))))"

section \<open>The ledger\<close>

definition vote_label :: "f64 \<Rightarrow> string" where
  "vote_label vote =
     (let r = f64_round vote in
      if f64_eq r f64_one then ''YES'' else if f64_eq r f64_zero \<or> r = F64_NaN then ''NO'' else ''ABSTAIN'')"

definition the_ledger :: "string \<Rightarrow> DagLedger option \<Rightarrow> CommandError + DagLedger" where
  "the_ledger what dag = (case dag of Some L \<Rightarrow> Inr L | None \<Rightarrow> Inl (CX_Message what))"

text \<open>The nodes a trace prints, newest first; nothing for an unknown proposal.\<close>

definition handle_dag_trace_command :: "ledger_env \<Rightarrow> string \<Rightarrow> DagLedger option \<Rightarrow> CommandError + DagNode list" where
  "handle_dag_trace_command E pid dag =
     bindR (the_ledger ''DAG ledger not available'' dag) (\<lambda>ledger.
       case Option.bind (find_proposal_node_id pid ledger) (\<lambda>i. find_by_id i ledger) of
         None \<Rightarrow> Inr []
       | Some start_node \<Rightarrow>
           bindR (map_err CX_Message (trace E start_node ledger)) (\<lambda>trace_result.
             if trace_result = [] then Inr []
             else Inr (rev (List.map_filter (\<lambda>n. find_by_id (dn_id n) ledger) (find_proposal_related_nodes pid ledger)))))"

definition parent_made :: "'s view_env \<Rightarrow> os_env \<Rightarrow> string \<Rightarrow> CommandError + unit" where
  "parent_made V os path =
     (if vw_parent_exists V path then Inr () else case os_mkdir os path of None \<Rightarrow> Inr () | Some e \<Rightarrow> Inl (CX_Message e))"

definition with_ledger ::
  "'s view_env \<Rightarrow> os_env \<Rightarrow> string \<Rightarrow> (DagLedger \<Rightarrow> files \<Rightarrow> (string, 'a, files) outcome) \<Rightarrow> DagLedger option \<Rightarrow> files \<Rightarrow> (CommandError, 'a, files) outcome" where
  "with_ledger V os path f dag fs =
     (case bindR (the_ledger ''DAG ledger not available'' dag) (\<lambda>ledger. bindR (parent_made V os path) (\<lambda>_. Inr ledger)) of
        Inl e \<Rightarrow> (Inl e, fs)
      | Inr ledger \<Rightarrow> (case f ledger fs of (r, fs') \<Rightarrow> (map_err CX_Message r, fs')))"

definition handle_dag_export_all_command ::
  "'s view_env \<Rightarrow> os_env \<Rightarrow> ledger_env \<Rightarrow> string \<Rightarrow> DagLedger option \<Rightarrow> files \<Rightarrow> (CommandError, nat, files) outcome" where
  "handle_dag_export_all_command V os E path dag fs =
     with_ledger V os path (\<lambda>ledger fs.
       bindE (export_to_file os E (set_path path ledger) fs) (\<lambda>_ fs'. (Inr (length (dl_nodes ledger)), fs'))) dag fs"

definition handle_dag_import_command ::
  "os_env \<Rightarrow> ledger_env \<Rightarrow> files \<Rightarrow> string \<Rightarrow> DagLedger option \<Rightarrow> (CommandError, nat, DagLedger option) outcome" where
  "handle_dag_import_command os E fs path dag =
     (case dag of
        None \<Rightarrow> (Inl (CX_Message ''DAG ledger is not initialized''), None)
      | Some ledger \<Rightarrow>
          if fmlookup fs path = None then (Inl (CX_Message (''File not found: '' @ path)), dag)
          else (case import_from_file os E path fs ledger of (r, ledger') \<Rightarrow> (map_err CX_Message r, Some ledger')))"

definition handle_dag_export_selected_command ::
  "'s view_env \<Rightarrow> os_env \<Rightarrow> ledger_env \<Rightarrow> string list \<Rightarrow> string \<Rightarrow> DagLedger option \<Rightarrow> files \<Rightarrow> (CommandError, nat, files) outcome" where
  "handle_dag_export_selected_command V os E node_ids path dag fs =
     with_ledger V os path (export_selected_to_file os E node_ids path) dag fs"

definition handle_dag_export_proposal_command ::
  "'s view_env \<Rightarrow> os_env \<Rightarrow> ledger_env \<Rightarrow> string \<Rightarrow> string \<Rightarrow> DagLedger option \<Rightarrow> files \<Rightarrow> (CommandError, nat, files) outcome" where
  "handle_dag_export_proposal_command V os E pid path dag fs =
     with_ledger V os path (\<lambda>ledger fs.
       let nodes = find_proposal_related_nodes pid ledger in
       if nodes = [] then (Inr 0, fs) else export_selected_to_file os E (map dn_id nodes) path ledger fs) dag fs"

record DiffSummary =
  df_base :: nat
  df_other :: nat
  df_common :: nat
  df_added :: nat
  df_removed :: nat

definition handle_dag_diff_command ::
  "os_env \<Rightarrow> ledger_env \<Rightarrow> string \<Rightarrow> string \<Rightarrow> string option \<Rightarrow> files \<Rightarrow> (CommandError, DiffSummary, files) outcome" where
  "handle_dag_diff_command os E base_path other_path output_path fs =
     (case map_err CX_Message (bindR (load_from_file os E base_path fs) (\<lambda>base.
             bindR (diff_with_file os E other_path fs base) (\<lambda>diff. Inr (base, diff)))) of
        Inl e \<Rightarrow> (Inl e, fs)
      | Inr (base, diff) \<Rightarrow>
          let n = length (all_node_ids base);
              summary = \<lparr>df_base = n, df_other = n - length (dd_added diff) + length (dd_removed diff), df_common = length (dd_common diff),
                         df_added = length (dd_added diff), df_removed = length (dd_removed diff)\<rparr>
          in (case output_path of
                None \<Rightarrow> (Inr summary, fs)
              | Some out_path \<Rightarrow>
                  (case export_diff_to_file os E diff out_path fs of (r, fs') \<Rightarrow> (map_err CX_Message (bindR r (\<lambda>_. Inr summary)), fs'))))"

record DagSummary =
  ds_total :: nat
  ds_types :: "(string, nat) fmap"
  ds_proposals :: nat
  ds_votes :: nat
  ds_average :: "f64 option"

definition summarize :: "DagLedger \<Rightarrow> DagSummary" where
  "summarize ledger =
     (let nodes = dl_nodes ledger;
          proposals = remdups (List.map_filter (\<lambda>n. case dn_data n of ProposalCreated i _ \<Rightarrow> Some i | _ \<Rightarrow> None) nodes);
          votes = filter (\<lambda>n. case dn_data n of VoteCast _ _ _ \<Rightarrow> True | _ \<Rightarrow> False) nodes
      in \<lparr>ds_total = length nodes, ds_types = get_node_type_summary ledger, ds_proposals = length proposals, ds_votes = length votes,
          ds_average = (if votes \<noteq> [] \<and> proposals \<noteq> [] then Some (f64_div (f64_of_nat (length votes)) (f64_of_nat (length proposals))) else None)\<rparr>)"

definition handle_dag_summary_command :: "os_env \<Rightarrow> ledger_env \<Rightarrow> files \<Rightarrow> string option \<Rightarrow> DagLedger option \<Rightarrow> CommandError + DagSummary" where
  "handle_dag_summary_command os E fs path dag =
     (case path of
        Some p \<Rightarrow> bindR (map_err CX_Message (load_from_file os E p fs)) (\<lambda>ledger. Inr (summarize ledger))
      | None \<Rightarrow> bindR (the_ledger ''DAG ledger is not initialized'' dag) (\<lambda>ledger. Inr (summarize ledger)))"

section \<open>Percentages\<close>

lemma f64_le_between: "f64_le a x \<Longrightarrow> f64_le x b \<Longrightarrow> f64_is_finite a \<Longrightarrow> f64_is_finite b \<Longrightarrow> f64_is_finite x"
  by (cases x; cases a; cases b) (auto simp: f64_le_def)

lemma round_near:
  assumes "0 \<le> q" "q \<le> 1024"
  shows "f64_is_finite (round_f64 False q)" "\<bar>f64_val (round_f64 False q) - q\<bar> \<le> pow2 (- 40)"
proof -
  define g :: rat where "g = pow2 (- 40)"
  define k where "k = \<lfloor>q / g\<rfloor>"
  have g: "0 < g" by (simp add: g_def)
  have k: "of_int k \<le> q / g" "q / g < of_int k + 1" unfolding k_def by linarith+
  have lo: "of_int k * g \<le> q" using k(1) g by (simp add: pos_le_divide_eq)
  have hi: "q < of_int (k + 1) * g" using k(2) g by (simp add: pos_divide_less_eq)
  have k0: "0 \<le> k" using assms(1) g by (simp add: k_def)
  have "of_int k * g \<le> 1024" using lo assms(2) by linarith
  then have "(of_int k :: rat) \<le> of_int (2 ^ 50)" by (simp add: g_def pow2_def field_simps)
  then have k1: "k \<le> 2 ^ 50" by (simp only: of_int_le_iff)
  have exact: "f64_is_finite (round_f64 False (of_int j * g)) \<and> f64_val (round_f64 False (of_int j * g)) = of_int j * g" if "0 \<le> j" "j \<le> 2 ^ 50 + 1" for j
    using round_grid [of j] that by (simp add: g_def)
  have e0: "f64_is_finite (round_f64 False (of_int k * g))" "f64_val (round_f64 False (of_int k * g)) = of_int k * g"
    and e1: "f64_is_finite (round_f64 False (of_int (k + 1) * g))" "f64_val (round_f64 False (of_int (k + 1) * g)) = of_int (k + 1) * g"
    using exact [of k] exact [of "k + 1"] k0 k1 by auto
  have l: "f64_le (round_f64 False (of_int k * g)) (round_f64 False q)" using lo k0 g by (intro round_f64_mono) simp_all
  have u: "f64_le (round_f64 False q) (round_f64 False (of_int (k + 1) * g))" using hi assms(1) by (intro round_f64_mono) simp_all
  show fin: "f64_is_finite (round_f64 False q)" by (rule f64_le_between [OF l u e0(1) e1(1)])
  have "of_int k * g \<le> f64_val (round_f64 False q)" "f64_val (round_f64 False q) \<le> of_int (k + 1) * g"
    using l u by (simp_all only: f64_le_finite e0 e1 fin)
  then have "\<bar>f64_val (round_f64 False q) - q\<bar> \<le> g" using lo hi by (simp add: distrib_right)
  then show "\<bar>f64_val (round_f64 False q) - q\<bar> \<le> pow2 (- 40)" by (simp add: g_def)
qed

lemma round_to_int:
  assumes "f64_is_finite x" "0 < f64_val x" "\<bar>f64_val x - of_nat k\<bar> < 1 / 2" "0 < k" "k \<le> 100"
  shows "safe_f64_to_u64 x = Inr (of_nat k)"
proof -
  obtain z where x: "x = F64_Num z" using assms(1,2) by (cases x) auto
  have fl: "\<lfloor>z + 1 / 2\<rfloor> = int k"
  proof (rule floor_unique)
    have "\<bar>z - of_nat k\<bar> < 1 / 2" using assms(3) by (simp only: x f64_val.simps)
    then show "of_int (int k) \<le> z + 1 / 2" "z + 1 / 2 < of_int (int k) + 1" unfolding of_int_of_nat_eq by linarith+
  qed
  have r: "f64_round x = F64_Num (of_nat k)"
    using round_f64_int [of "int k" False] assms(2,4,5) fl by (simp add: x)
  have "\<not> f64_lt (f64_of_int (2 ^ 64 - 1)) x"
  proof
    assume lt: "f64_lt (f64_of_int (2 ^ 64 - 1)) x"
    have "f64_le (round_f64 False (of_int 101)) (f64_of_int (2 ^ 64 - 1))" unfolding f64_of_int_def by (rule round_f64_mono) simp_all
    then have "f64_le (F64_Num 101) x"
      using lt f64_le_trans [of "F64_Num 101" "f64_of_int (2 ^ 64 - 1)" x] round_f64_int [of 101 False] by (simp add: f64_le_def)
    then have "101 \<le> z" by (simp add: x f64_le_def le_less)
    moreover have "z < of_nat k + 1 / 2" using assms(3) unfolding x f64_val.simps by linarith
    moreover have "(of_nat k :: rat) \<le> 100" using assms(5) by simp
    ultimately show False by linarith
  qed
  then show ?thesis
    using assms(2,4,5) by (simp add: safe_f64_to_u64_def r f64_as_u64_def f64_zero_def) (simp add: x)
qed



section \<open>What the commands on the ledger show\<close>

lemma diff_lengths:
  assumes "distinct (map dn_id (dl_nodes L))" "distinct (map dn_id (dl_nodes K))"
  shows "length (dd_common (diff_with L K)) + length (dd_added (diff_with L K)) = length (dl_nodes L)"
    and "length (dd_common (diff_with L K)) + length (dd_removed (diff_with L K)) = length (dl_nodes K)"
proof -
  let ?A = "set (map dn_id (dl_nodes L))" and ?B = "set (map dn_id (dl_nodes K))"
  have count: "length (filter (\<lambda>n. P (dn_id n)) ns) = card {i \<in> set (map dn_id ns). P i}" if "distinct (map dn_id ns)" for P ns
  proof -
    have "length (filter (\<lambda>n. P (dn_id n)) ns) = length (filter P (map dn_id ns))" by (simp add: filter_map comp_def)
    also have "\<dots> = card (set (filter P (map dn_id ns)))" by (rule distinct_card [symmetric]) (use that in simp)
    finally show ?thesis by (simp add: Collect_conj_eq inf_commute)
  qed
  let ?cs = "filter (\<lambda>i. i \<in> ?B) (sort (remdups (map dn_id (dl_nodes L))))"
  have "set ?cs = ?A \<inter> ?B" by auto
  then have "length ?cs = card (?A \<inter> ?B)" using distinct_card [of ?cs] by (simp del: set_map)
  then have common: "length (dd_common (diff_with L K)) = card (?A \<inter> ?B)" by (simp add: diff_with_def Let_def)
  have added: "length (dd_added (diff_with L K)) = card (?A - ?B)" and removed: "length (dd_removed (diff_with L K)) = card (?B - ?A)"
    using count [OF assms(1), of "\<lambda>i. i \<notin> ?B"] count [OF assms(2), of "\<lambda>i. i \<notin> ?A"] by (simp_all add: diff_with_def Let_def set_diff_eq)
  have sizes: "length (dl_nodes L) = card ?A" "length (dl_nodes K) = card ?B"
    using distinct_card [OF assms(1)] distinct_card [OF assms(2)] by simp_all
  have split: "card (X \<inter> Y) + card (X - Y) = card X" if "finite X" for X Y :: "string set"
    using card_Un_disjoint [of "X \<inter> Y" "X - Y"] that by (simp add: Int_Diff_Un Int_Diff_disjoint)
  have "card (?A \<inter> ?B) + card (?A - ?B) = card ?A" "card (?A \<inter> ?B) + card (?B - ?A) = card ?B"
    using split [of ?A ?B] split [of ?B ?A] by (simp_all only: Int_commute finite_set)
  then show "length (dd_common (diff_with L K)) + length (dd_added (diff_with L K)) = length (dl_nodes L)"
    "length (dd_common (diff_with L K)) + length (dd_removed (diff_with L K)) = length (dl_nodes K)"
    by (simp_all only: common added removed sizes)
qed

text \<open>
  The summary of a difference of two ledger files counts right when no file has an id twice: the size it computes for
  the other ledger is its number of nodes, and the common nodes with the added and with the removed ones make up the two
  ledgers. Its subtraction does not go below zero.
\<close>

theorem dag_diff_counts:
  assumes "load_from_file os E base_path fs = Inr L" "load_from_file os E other_path fs = Inr K"
    and "distinct (all_node_ids L)" "distinct (all_node_ids K)"
    and "handle_dag_diff_command os E base_path other_path output_path fs = (Inr d, fs')"
  shows "df_base d = length (dl_nodes L) \<and> df_other d = length (dl_nodes K) \<and> df_added d \<le> df_base d \<and>
    df_common d + df_added d = df_base d \<and> df_common d + df_removed d = df_other d"
proof -
  note n = diff_lengths [of L K]
  have "d = \<lparr>df_base = length (dl_nodes L), df_other = length (dl_nodes L) - length (dd_added (diff_with L K)) + length (dd_removed (diff_with L K)),
      df_common = length (dd_common (diff_with L K)), df_added = length (dd_added (diff_with L K)),
      df_removed = length (dd_removed (diff_with L K))\<rparr>"
    using assms(1,2,5) by (auto simp: handle_dag_diff_command_def diff_with_file_def all_node_ids_def Let_def bindR_Inr_iff split: option.splits sum.splits prod.splits)
  then show ?thesis using n assms(3,4) by (auto simp: all_node_ids_def)
qed


definition case_view :: "InMemoryStorage view_env" where
  "case_view = \<lparr>vw_cmd = case_cmd, vw_read = \<lambda>_. Inr [], vw_digits = \<lambda>_. False, vw_error_text = \<lambda>_. [], vw_identity = \<lambda>_. Inl [],
     vw_lifecycle = \<lambda>_ _ _ _ _ _ _ _. demo_voting, vw_state_text = \<lambda>_. [], vw_execution_text = \<lambda>_. [], vw_parent_exists = \<lambda>_. True\<rparr>"

definition case_files :: files where
  "case_files = fmupd ''x'' (''#a'' @ [newline] @ ''#b'' @ [newline]) (fmupd ''y'' (''#c'' @ [newline] @ ''#a'' @ [newline] @ ''#d'' @ [newline]) fmempty)"

theorem dag_diff_counts_witness:
  "\<exists>d. fst (handle_dag_diff_command demo_os demo_ledger_env ''x'' ''y'' None case_files) = Inr d \<and> df_other d = 3 \<and> df_common d + df_removed d = 3"
proof -
  let ?r = "handle_dag_diff_command demo_os demo_ledger_env ''x'' ''y'' None case_files"
  let ?L = "ledger_new\<lparr>dl_nodes := [demo_nodes ! 0, demo_nodes ! 1]\<rparr>"
    and ?K = "ledger_new\<lparr>dl_nodes := [demo_nodes ! 2, demo_nodes ! 0, demo_nodes ! 3]\<rparr>"
  have l: "load_from_file demo_os demo_ledger_env ''x'' case_files = Inr ?L" "load_from_file demo_os demo_ledger_env ''y'' case_files = Inr ?K"
    and n: "distinct (all_node_ids ?L)" "distinct (all_node_ids ?K)" by code_simp+
  have "\<not> isl (fst ?r)" by code_simp
  then obtain d fs' where d: "?r = (Inr d, fs')" by (cases ?r; cases "fst ?r") auto
  show ?thesis using dag_diff_counts [OF l n d] d by simp
qed


text \<open>The trace of a proposal shows an abstention, recorded as one half, as a vote in favour.\<close>

lemma abstention_shown_as_yes: "vote_label (vote_number V ''abstain'') = ''YES''"
proof -
  have "to_lowercase V ''abstain'' = ''abstain''" by (simp add: to_lowercase_def ascii_lower_def)
  then show ?thesis using round_f64_int [of 1 False] by (simp add: vote_label_def vote_number_def Let_def f64_one_def)
qed

text \<open>The summary reads without an authorisation, which the in-memory storage denies, so it always fails.\<close>

lemma summary_fails: "\<exists>e. handle_summary_command M in_memory moment pid vm = Inl e"
proof -
  have "\<exists>e. fetch_comments_threaded (cm_com M) in_memory pid None False vm = Inl e"
    by (auto simp: fetch_comments_threaded_def comment_backend_def proposal_there_def im_get_def check_permission_def split: option.splits)
  then show ?thesis by (auto simp: handle_summary_command_def bindR_def split: sum.splits)
qed

end
