(* ===== verification/Engine.thy ===== *)
theory Engine
  imports Compiler Simulation Dsl Ledger In_Memory
begin

text \<open>
  The entry points of the library (\<^verbatim>\<open>lib.rs\<close>): a machine made from options, the execution of a source text or of a program
  file, with the interpreter or by way of bytecode, and the results they return. Reading a file, the JSON form of a
  program and the texts of errors are parameters (\<open>engine_env\<close>); so is the storage a backend type stands for, since the
  source gives the in-memory and the file storage the same type variable. Where it takes the parameters of the options
  for an optional map, and the number of executed operations from the unit result of \<^verbatim>\<open>execute\<close>, the map and a given
  number are used.
\<close>

section \<open>Data\<close>

record DagDelta =
  de_added_nodes :: "DagNode list"
  de_namespace :: string
  de_operations_executed :: nat
  de_success :: bool
  de_error :: "string option"

datatype StorageBackendType = Memory | File_At string

record VMOptions =
  op_storage_backend :: StorageBackendType
  op_identity_context :: "AuthContext option"
  op_use_bytecode :: bool
  op_debug_mode :: bool
  op_simulation_mode :: bool
  op_trace_execution :: bool
  op_explain_operations :: bool
  op_verbose_storage_trace :: bool
  op_namespace :: string
  op_parameters :: "(string, string) fmap"
  op_use_stdlib :: bool

datatype VMEngineError =
  EE_VM string | EE_Compiler string | EE_IO string | EE_Json string | EE_Federation string | EE_Other string

record 's ExecutionResult =
  er_success :: bool
  er_error :: "string option"
  er_execution_time_ms :: u64
  er_stack :: "TypedValue list option"
  er_memory :: "(string, TypedValue) fmap option"
  er_operations_executed :: nat
  er_vm :: "'s VM option"

record 's engine_env =
  eg_venv :: venv
  eg_dbg :: "BytecodeOp \<Rightarrow> string"
  eg_open :: "StorageBackendType \<Rightarrow> VMEngineError + 's"
  eg_vm_text :: "VMError \<Rightarrow> string"
  eg_compiler_text :: "CompilerError \<Rightarrow> string"
  eg_read :: "string \<Rightarrow> string + string"
  eg_ops_of_json :: "string \<Rightarrow> string + Op list"

type_synonym 'a engine_result = "(VMEngineError fault + 'a) option"

definition delta_new :: "string \<Rightarrow> DagDelta" where
  "delta_new ns = \<lparr>de_added_nodes = [], de_namespace = ns, de_operations_executed = 0, de_success = True, de_error = None\<rparr>"

definition delta_error :: "string \<Rightarrow> string \<Rightarrow> DagDelta" where
  "delta_error ns e = \<lparr>de_added_nodes = [], de_namespace = ns, de_operations_executed = 0, de_success = False, de_error = Some e\<rparr>"

definition default_options :: VMOptions where
  "default_options = \<lparr>op_storage_backend = Memory, op_identity_context = None, op_use_bytecode = False, op_debug_mode = False,
     op_simulation_mode = False, op_trace_execution = False, op_explain_operations = False, op_verbose_storage_trace = False,
     op_namespace = [], op_parameters = fmempty, op_use_stdlib = False\<rparr>"

section \<open>Machines\<close>

definition set_tracing :: "bool \<Rightarrow> 's VM \<Rightarrow> 's VM" where
  "set_tracing enabled vm = vm\<lparr>vm_trace_enabled := enabled\<rparr>"

definition set_explanation :: "bool \<Rightarrow> 's VM \<Rightarrow> 's VM" where
  "set_explanation enabled vm = vm\<lparr>vm_explain_enabled := enabled\<rparr>"

definition set_verbose_storage_trace :: "bool \<Rightarrow> 's VM \<Rightarrow> 's VM" where
  "set_verbose_storage_trace enabled vm = vm\<lparr>vm_verbose_storage_trace := enabled\<rparr>"

definition enabled_by :: "bool \<Rightarrow> ('a \<Rightarrow> 'a) \<Rightarrow> 'a \<Rightarrow> 'a" where
  "enabled_by b f x = (if b then f x else x)"

definition create_with_options :: "'s engine_env \<Rightarrow> VMOptions \<Rightarrow> VMEngineError + 's VM" where
  "create_with_options G opts =
     bindR (eg_open G (op_storage_backend opts)) (\<lambda>storage.
       let vm = with_storage_backend storage;
           vm = (case op_identity_context opts of Some auth \<Rightarrow> vm_set_auth_context auth vm | None \<Rightarrow> vm);
           vm = vm_set_namespace (op_namespace opts) vm;
           vm = enabled_by (op_simulation_mode opts) (set_simulation_mode True) vm;
           vm = enabled_by (op_trace_execution opts) (set_tracing True) vm;
           vm = enabled_by (op_explain_operations opts) (set_explanation True) vm
       in Inr (enabled_by (op_verbose_storage_trace opts) (set_verbose_storage_trace True) vm))"

definition create_default_auth_context :: "string option \<Rightarrow> string option \<Rightarrow> AuthContext" where
  "create_default_auth_context id_name role =
     (let i = (case id_name of Some n \<Rightarrow> n | None \<Rightarrow> ''anonymous'');
          r = (case role of Some r \<Rightarrow> r | None \<Rightarrow> ''user'')
      in add_role_to_identity i ''global'' r (add_role ''global'' r (auth_new i)))"

section \<open>Running programs\<close>

definition parse_source :: "'s engine_env \<Rightarrow> bool \<Rightarrow> string \<Rightarrow> VMEngineError fault + Op list" where
  "parse_source G use_stdlib src =
     (case (if use_stdlib then parse_dsl_with_stdlib src else bindR (parse_dsl src) (\<lambda>(ops, _). Inr ops)) of
        Inl (Err e) \<Rightarrow> Inl (Err (EE_Compiler (eg_compiler_text G e)))
      | Inl Panic \<Rightarrow> Inl Panic
      | Inr ops \<Rightarrow> Inr ops)"

text \<open>Both engines on a list of operations: the result and the machine afterwards.\<close>

definition run_ops ::
  "'s engine_env \<Rightarrow> 's StorageBackend \<Rightarrow> nat \<Rightarrow> bool \<Rightarrow> Op list \<Rightarrow> 's VM \<Rightarrow> (unit, 's) vm_result option" where
  "run_ops G B n use_bytecode ops vm =
     (if use_bytecode
      then map_option (\<lambda>(r, b). (r, bi_vm b)) (bytecode_execute (eg_venv G) (eg_dbg G) B n (interpreter_new vm (compile ops)))
      else execute (eg_venv G) B n ops vm)"

definition execute_dsl ::
  "'s engine_env \<Rightarrow> 's StorageBackend \<Rightarrow> nat \<Rightarrow> nat \<Rightarrow> string \<Rightarrow> AuthContext \<Rightarrow> DagDelta engine_result" where
  "execute_dsl G B n count src ctx =
     (let options = default_options\<lparr>op_identity_context := Some ctx, op_namespace := ''default''\<rparr> in
      case parse_source G (op_use_stdlib options) src of
        Inl e \<Rightarrow> Some (Inl e)
      | Inr ops \<Rightarrow>
          (case create_with_options G options of
             Inl e \<Rightarrow> Some (Inl (Err e))
           | Inr vm \<Rightarrow>
               (case run_ops G B n (op_use_bytecode options) ops vm of
                  None \<Rightarrow> None
                | Some (Inl (Err e), _) \<Rightarrow> Some (Inl (Err (EE_VM (eg_vm_text G e))))
                | Some (Inl Panic, _) \<Rightarrow> Some (Inl Panic)
                | Some (Inr _, _) \<Rightarrow>
                    Some (Inr ((delta_new (op_namespace options))
                      \<lparr>de_operations_executed := if op_use_bytecode options then length ops else count,
                       de_added_nodes := dl_nodes ledger_new\<rparr>)))))"

definition execution_result ::
  "'s engine_env \<Rightarrow> u64 \<Rightarrow> Op list \<Rightarrow> VMError fault + unit \<Rightarrow> 's VM \<Rightarrow> VMEngineError fault + 's ExecutionResult" where
  "execution_result G ms ops r vm =
     (case r of
        Inr _ \<Rightarrow>
          (case get_memory_map (vm_memory vm) of
             Inl _ \<Rightarrow> Inl Panic
           | Inr memory \<Rightarrow>
               Inr \<lparr>er_success = True, er_error = None, er_execution_time_ms = ms, er_stack = Some (get_stack (vm_stack vm)),
                    er_memory = Some memory, er_operations_executed = length ops, er_vm = Some vm\<rparr>)
      | Inl (Err e) \<Rightarrow>
          Inr \<lparr>er_success = False, er_error = Some (eg_vm_text G e), er_execution_time_ms = ms, er_stack = None,
               er_memory = None, er_operations_executed = 0, er_vm = None\<rparr>
      | Inl Panic \<Rightarrow> Inl Panic)"

definition run_with_options ::
  "'s engine_env \<Rightarrow> 's StorageBackend \<Rightarrow> nat \<Rightarrow> u64 \<Rightarrow> VMOptions \<Rightarrow> bool \<Rightarrow> Op list \<Rightarrow> 's ExecutionResult engine_result" where
  "run_with_options G B n ms opts use_bytecode ops =
     (case create_with_options G opts of
        Inl e \<Rightarrow> Some (Inl (Err e))
      | Inr vm \<Rightarrow>
          map_option (\<lambda>(r, vm'). execution_result G ms ops r vm')
            (run_ops G B n use_bytecode ops (set_parameters (op_parameters opts) vm)))"

definition execute_program_from_path ::
  "'s engine_env \<Rightarrow> 's StorageBackend \<Rightarrow> nat \<Rightarrow> u64 \<Rightarrow> string \<Rightarrow> VMOptions \<Rightarrow> 's ExecutionResult engine_result" where
  "execute_program_from_path G B n ms path opts =
     (case eg_read G path of
        Inl e \<Rightarrow> Some (Inl (Err (EE_IO e)))
      | Inr program_source \<Rightarrow>
          if ends_with ''.json'' path then
            (case eg_ops_of_json G program_source of
               Inl e \<Rightarrow> Some (Inl (Err (EE_Json e)))
             | Inr ops \<Rightarrow> run_with_options G B n ms opts False ops)
          else
            (case parse_source G (op_use_stdlib opts) program_source of
               Inl e \<Rightarrow> Some (Inl e)
             | Inr ops \<Rightarrow> run_with_options G B n ms opts (op_use_bytecode opts) ops))"

section \<open>The two engines\<close>

lemma enabled_by_updates:
  "enabled_by b (set_simulation_mode True) vm = vm\<lparr>vm_simulation_mode := b \<or> vm_simulation_mode vm\<rparr>"
  "enabled_by b (set_tracing True) vm = vm\<lparr>vm_trace_enabled := b \<or> vm_trace_enabled vm\<rparr>"
  "enabled_by b (set_explanation True) vm = vm\<lparr>vm_explain_enabled := b \<or> vm_explain_enabled vm\<rparr>"
  "enabled_by b (set_verbose_storage_trace True) vm = vm\<lparr>vm_verbose_storage_trace := b \<or> vm_verbose_storage_trace vm\<rparr>"
  by (simp_all add: enabled_by_def set_simulation_mode_def set_tracing_def set_explanation_def set_verbose_storage_trace_def)

lemmas configured = create_with_options_def Let_def enabled_by_updates vm_set_namespace_def vm_set_auth_context_def
  with_storage_backend_def vm_set_storage_backend_def vm_new_def set_namespace_def set_auth_context_def set_storage_backend_def

lemma created_machine:
  assumes "create_with_options G opts = Inr vm"
  shows "vm_explain_enabled vm = op_explain_operations opts" "vm_simulation_mode vm = op_simulation_mode opts"
    "vm_verbose_storage_trace vm = op_verbose_storage_trace opts" "vm_memory vm = mem_new"
    "\<exists>s. eg_open G (op_storage_backend opts) = Inr s \<and> ex_storage_backend (vm_executor vm) = Some s"
proof -
  obtain s where s: "eg_open G (op_storage_backend opts) = Inr s" using assms by (auto simp: create_with_options_def bindR_Inr_iff)
  show "vm_explain_enabled vm = op_explain_operations opts" "vm_simulation_mode vm = op_simulation_mode opts"
    "vm_verbose_storage_trace vm = op_verbose_storage_trace opts" "vm_memory vm = mem_new"
    "\<exists>s. eg_open G (op_storage_backend opts) = Inr s \<and> ex_storage_backend (vm_executor vm) = Some s"
    using assms s by (cases "op_identity_context opts"; force simp: configured)+
qed

lemma create_ignores_engine: "create_with_options G (opts\<lparr>op_use_bytecode := b\<rparr>) = create_with_options G opts"
  by (simp add: create_with_options_def)

lemma set_parameters_unlogged [simp]: "unlogged (set_parameters ps vm) = unlogged vm"
  by (simp add: unlogged_def set_parameters_def)

lemma run_ops_agree:
  assumes "compilables ops" "unlogged vm" "run_ops G B n False ops vm = Some x"
  shows "\<exists>m. \<forall>k \<ge> m. run_ops G B k True ops vm = Some x"
proof -
  obtain r vm' where x: "x = (r, vm')" by (cases x)
  then have "execute (eg_venv G) B n ops vm = Some (r, vm')" using assms(3) by (simp add: run_ops_def)
  from compiler_correct [OF assms(1,2) this, of "eg_dbg G"] obtain m b where
    "\<forall>k \<ge> m. bytecode_execute (eg_venv G) (eg_dbg G) B k (interpreter_new vm (compile ops)) = Some (r, b)" "bi_vm b = vm'" by blast
  then have "\<forall>k \<ge> m. run_ops G B k True ops vm = Some x" by (simp add: run_ops_def x)
  then show ?thesis by blast
qed

lemma run_ops_mono: "run_ops G B n False ops vm = Some x \<Longrightarrow> n \<le> k \<Longrightarrow> run_ops G B k False ops vm = Some x"
  by (cases x) (auto simp: run_ops_def execute_def intro: execute_inner_mono)


lemma store_param_functions: "m_functions (store_param k v m) = m_functions m"
  by (simp add: store_param_def)

lemma set_parameters_functions: "m_functions (vm_memory (set_parameters ps vm)) = m_functions (vm_memory vm)"
proof -
  have "m_functions (fold (\<lambda>k. store_param k (f k)) ks m) = m_functions m" for ks f m
    by (induction ks arbitrary: m) (simp_all add: store_param_functions)
  then show ?thesis by (simp add: set_parameters_def)
qed

text \<open>
  A program file that is interpreted in simulation mode leaves the storage it was given as it was opened, when the
  program does not increment reputation.
\<close>

theorem engine_simulation_keeps_storage:
  assumes "execute_program_from_path G B n ms path opts = Some (Inr res)" "op_simulation_mode opts" "\<not> op_use_bytecode opts"
    and "eg_read G path = Inr src" "\<not> ends_with ''.json'' path" "parse_source G (op_use_stdlib opts) src = Inr ops"
    and "\<forall>op \<in> set ops. quiet_op op" "er_success res"
  shows "\<exists>s vm. eg_open G (op_storage_backend opts) = Inr s \<and> er_vm res = Some vm \<and> ex_storage_backend (vm_executor vm) = Some s"
proof -
  obtain vm r vm' where vm: "create_with_options G opts = Inr vm"
    and run: "execute (eg_venv G) B n ops (set_parameters (op_parameters opts) vm) = Some (r, vm')"
    and res: "execution_result G ms ops r vm' = Inr res"
    using assms(1-6) by (auto simp: execute_program_from_path_def run_with_options_def run_ops_def split: sum.splits)
  note made = created_machine [OF vm]
  obtain s where s: "eg_open G (op_storage_backend opts) = Inr s" "ex_storage_backend (vm_executor vm) = Some s" using made(5) by blast
  have "simulating (Some s) (set_parameters (op_parameters opts) vm)"
    using made(2) assms(2) s(2) set_parameters_functions [of "op_parameters opts" vm] made(4)
    by (simp add: simulating_def backend_of_def quiet_functions_def set_parameters_def mem_new_def)
  from sim.execute_keeps [OF this assms(7) run] have "ex_storage_backend (vm_executor vm') = Some s"
    by (simp add: simulating_def backend_of_def)
  moreover have "er_vm res = Some vm'"
    using res assms(8) by (auto simp: execution_result_def split: sum.splits fault.splits)
  ultimately show ?thesis using s(1) by blast
qed

section \<open>Runs\<close>

definition case_engine :: "string \<Rightarrow> InMemoryStorage engine_env" where
  "case_engine src = \<lparr>eg_venv = demo_env, eg_dbg = \<lambda>_. [], eg_open = \<lambda>_. Inr im_new, eg_vm_text = \<lambda>_. ''error'',
     eg_compiler_text = \<lambda>_. [], eg_read = \<lambda>_. Inr src, eg_ops_of_json = \<lambda>_. Inl ''no JSON''\<rparr>"

definition case_source :: string where
  "case_source = ''emit '' @ [CHR 0x22] @ ''hi'' @ [CHR 0x22] @ [CHR 0x0A] @ ''storep k''"

lemma case_parse: "parse_source (case_engine case_source) False case_source = Inr [OpEmit ''hi'', OpStoreP ''k'']"
  by code_simp


theorem engine_simulation_keeps_storage_witness:
  "\<exists>res vm. execute_program_from_path (case_engine ''createresource gold'') in_memory 3 0 ''p.dsl'' (default_options\<lparr>op_simulation_mode := True\<rparr>) =
     Some (Inr res) \<and> er_vm res = Some vm \<and> ex_storage_backend (vm_executor vm) = Some im_new"
proof -
  let ?G = "case_engine ''createresource gold''" and ?o = "default_options\<lparr>op_simulation_mode := True\<rparr>"
  let ?r = "execute_program_from_path ?G in_memory 3 0 ''p.dsl'' ?o"
  have "case ?r of Some (Inr res) \<Rightarrow> er_success res | _ \<Rightarrow> False" by code_simp
  then obtain res where r: "?r = Some (Inr res)" "er_success res" by (auto split: option.splits sum.splits)
  have p: "parse_source ?G False ''createresource gold'' = Inr [OpCreateResource ''gold'']" by code_simp
  have "\<exists>s vm. eg_open ?G (op_storage_backend ?o) = Inr s \<and> er_vm res = Some vm \<and> ex_storage_backend (vm_executor vm) = Some s"
    by (rule engine_simulation_keeps_storage [OF r(1), where src = "''createresource gold''" and ops = "[OpCreateResource ''gold'']"])
      (use p r(2) in \<open>simp_all add: case_engine_def default_options_def ends_with_def\<close>)
  then show ?thesis using r(1) by (auto simp: case_engine_def)
qed

end
