(* ===== verification/Dsl_Macro.thy ===== *)
theory Dsl_Macro
  imports Dsl Auth
begin

text \<open>
  The macros of the language (\<^verbatim>\<open>compiler/macros.rs\<close>): the block of a proposal, its expansion to operations, and the record that
  prints such a block. Files, the identity made for a creator and the JSON text of the lifecycle are parameters
  (\<open>macro_env\<close>); the lifecycle is one, since the source calls its constructor with seven arguments where it has eight.
  Entries of a map are taken in the order of their keys.
\<close>

section \<open>The block of a proposal\<close>

datatype BlockType = Root | Execution

record macro_block =
  mb_properties :: "(string, string) fmap"
  mb_attachments :: "(string, string) fmap"
  mb_execution_dsl :: string
  mb_current :: BlockType
  mb_lines :: "string list"

definition macro_start :: macro_block where
  "macro_start = \<lparr>mb_properties = fmempty, mb_attachments = fmempty, mb_execution_dsl = [], mb_current = Root, mb_lines = []\<rparr>"

definition attachment_line :: "string \<Rightarrow> string \<Rightarrow> macro_block \<Rightarrow> string + macro_block" where
  "attachment_line trimmed val b =
     (case splitn2 CHR '' '' val of
        [n, p] \<Rightarrow>
          let name = trim_char dquote n; path = trim_char dquote p in
          if eq_ignore_ascii_case name ''logic''
          then Inl (''Cannot use '' @ quoted ''logic'' @ '' as a name for file attachment; it'' @ [CHR 0x27] @ ''s reserved for the execution block.'')
          else Inr (b\<lparr>mb_attachments := fmupd name path (mb_attachments b)\<rparr>)
      | _ \<Rightarrow> Inl (''Invalid attachment format: '' @ trimmed))"

definition property_line :: "string \<Rightarrow> macro_block \<Rightarrow> string + macro_block" where
  "property_line trimmed b =
     (case splitn2 CHR '' '' trimmed of
        [key, rest] \<Rightarrow>
          let val = trim_char dquote (trim rest) in
          if key \<in> {''title'', ''quorum'', ''threshold'', ''discussion_duration'', ''expires_at''}
          then Inr (b\<lparr>mb_properties := fmupd key val (mb_properties b)\<rparr>)
          else if key = ''attachment'' then attachment_line trimmed val b
          else Inl (''Unknown property in proposal block: '' @ key)
      | _ \<Rightarrow> Inl (''Invalid line in proposal block: '' @ trimmed))"

definition macro_line :: "string \<Rightarrow> macro_block \<Rightarrow> string + macro_block" where
  "macro_line line b =
     (let trimmed = trim line in
      if trimmed = [] \<or> starts_with ''#'' trimmed then Inr b
      else if trimmed = ''execution {'' then
        if mb_current b \<noteq> Root then Inl ''Nested execution blocks are not allowed.'' else Inr (b\<lparr>mb_current := Execution\<rparr>)
      else if trimmed = ''}'' then
        if mb_current b = Execution
        then Inr (b\<lparr>mb_current := Root, mb_execution_dsl := join [newline] (mb_lines b), mb_lines := []\<rparr>)
        else Inl (''Unexpected closing brace '' @ quoted ''}'' @ ''.'')
      else
        (case mb_current b of
           Root \<Rightarrow> property_line trimmed b
         | Execution \<Rightarrow> Inr (b\<lparr>mb_lines := mb_lines b @ [trimmed]\<rparr>)))"

fun macro_lines :: "string list \<Rightarrow> macro_block \<Rightarrow> string + macro_block" where
  "macro_lines [] b = Inr b"
| "macro_lines (l # ls) b = bindR (macro_line l b) (macro_lines ls)"

definition parse_macro_block :: "string list \<Rightarrow> string + (string, string) fmap \<times> (string, string) fmap \<times> string" where
  "parse_macro_block lines =
     bindR (macro_lines lines macro_start) (\<lambda>b.
       if mb_current b \<noteq> Root then Inl ''Unclosed execution block.''
       else Inr (mb_properties b, mb_attachments b, mb_execution_dsl b))"

section \<open>Expansion\<close>

record macro_env =
  mc_identity :: "string \<Rightarrow> string + Identity"
  mc_lifecycle_json :: "string \<Rightarrow> Identity \<Rightarrow> string \<Rightarrow> u64 \<Rightarrow> u64 \<Rightarrow> duration option \<Rightarrow> string + string"
  mc_read :: "string \<Rightarrow> string + string"
  mc_sanitize :: "string \<Rightarrow> string"                     \<comment> \<open>for names beyond ASCII\<close>
  mc_compiler_text :: "CompilerError \<Rightarrow> string"

definition macro_duration :: "string \<Rightarrow> string fault + duration option" where
  "macro_duration str =
     (let s = trim str;
          unit_of = (\<lambda>c secs. case parse_i64 (trim_end_char c s) of
                       None \<Rightarrow> Inr None
                     | Some v \<Rightarrow> (case duration_secs (v * secs) of Inr d \<Rightarrow> Inr (Some d) | Inl _ \<Rightarrow> Inl Panic))
      in if ends_with ''d'' s then unit_of CHR ''d'' 86400
         else if ends_with ''h'' s then unit_of CHR ''h'' 3600
         else if ends_with ''m'' s then unit_of CHR ''m'' 60
         else Inr None)"

definition escape_text :: "string \<Rightarrow> string" where
  "escape_text s = replace_char dquote [CHR 0x5C, dquote] (replace_char (CHR 0x5C) [CHR 0x5C, CHR 0x5C] s)"

definition in_quotes :: "string \<Rightarrow> string" where
  "in_quotes s = [dquote] @ s @ [dquote]"

definition sanitized :: "macro_env \<Rightarrow> string \<Rightarrow> string" where
  "sanitized M name =
     (if list_all (\<lambda>c. \<not> digit7 c) name
      then map (\<lambda>c. if c \<in> set ''ABCDEFGHIJKLMNOPQRSTUVWXYZabcdefghijklmnopqrstuvwxyz0123456789-_'' then c else CHR ''_'') name
      else mc_sanitize M name)"

text \<open>The operations of a generated line.\<close>

definition generated :: "macro_env \<Rightarrow> string \<Rightarrow> string fault + Op list" where
  "generated M source =
     (case parse_dsl source of
        Inl (Err e) \<Rightarrow> Inl (Err (mc_compiler_text M e))
      | Inl Panic \<Rightarrow> Inl Panic
      | Inr (ops, _) \<Rightarrow> Inr ops)"

definition required :: "string \<Rightarrow> (string, string) fmap \<Rightarrow> string fault + string" where
  "required key properties =
     (case fmlookup properties key of Some v \<Rightarrow> Inr v | None \<Rightarrow> Inl (Err (''Missing '' @ quoted key @ '' property'')))"

definition parsed_number :: "string \<Rightarrow> string \<Rightarrow> string fault + u64" where
  "parsed_number what s =
     (case parse_u64 s of Some w \<Rightarrow> Inr w | None \<Rightarrow> Inl (Err (''Invalid '' @ what @ '' value: '' @ s)))"

definition store_lifecycle :: "macro_env \<Rightarrow> string \<Rightarrow> (string, string) fmap \<Rightarrow> string fault + Op list" where
  "store_lifecycle M proposal_id properties =
     bindR (required ''title'' properties) (\<lambda>title.
     bindR (required ''quorum'' properties) (\<lambda>quorum_str.
     bindR (required ''threshold'' properties) (\<lambda>threshold_str.
     bindR (parsed_number ''quorum'' quorum_str) (\<lambda>quorum.
     bindR (parsed_number ''threshold'' threshold_str) (\<lambda>threshold.
     bindR (case fmlookup properties ''discussion_duration'' of Some s \<Rightarrow> macro_duration s | None \<Rightarrow> Inr None) (\<lambda>discussion_duration.
     bindR (map_err (\<lambda>e. Err (''Failed to create identity: '' @ e))
       (mc_identity M (case fmlookup properties ''author'' of Some a \<Rightarrow> a | None \<Rightarrow> ''macro_creator''))) (\<lambda>creator.
     bindR (map_err (\<lambda>e. Err (''Failed to serialize proposal lifecycle: '' @ e))
       (mc_lifecycle_json M proposal_id creator title quorum threshold discussion_duration)) (\<lambda>proposal_json.
     bindR (generated M (''StoreP '' @ in_quotes (''governance/proposals/'' @ proposal_id @ ''/lifecycle'') @ '' '' @ in_quotes (escape_text proposal_json))) (\<lambda>ops.
       Inr (OpEmit (''Creating proposal '' @ proposal_id @ ''...'') # ops))))))))))"

definition store_text_line :: "string \<Rightarrow> string \<Rightarrow> string" where
  "store_text_line key content = ''StoreP '' @ in_quotes ''governance'' @ ''/'' @ in_quotes key @ '' '' @ in_quotes (escape_text content)"

fun store_attachments :: "macro_env \<Rightarrow> string \<Rightarrow> (string, string) fmap \<Rightarrow> string list \<Rightarrow> string fault + Op list" where
  "store_attachments M proposal_id attachments [] = Inr []"
| "store_attachments M proposal_id attachments (name # names) =
     (let path = the (fmlookup attachments name) in
      bindR (map_err (\<lambda>e. Err (''Failed to read attachment file '' @ quoted path @ '': '' @ e)) (mc_read M path)) (\<lambda>content.
      bindR (generated M (store_text_line (''proposals/'' @ proposal_id @ ''/attachments/'' @ sanitized M name) content)) (\<lambda>ops.
      bindR (store_attachments M proposal_id attachments names) (\<lambda>more.
        Inr (ops @ [OpEmit (''Stored attachment '' @ quoted name @ '' from '' @ path)] @ more)))))"

definition store_logic :: "macro_env \<Rightarrow> string \<Rightarrow> string \<Rightarrow> string fault + Op list" where
  "store_logic M proposal_id execution_dsl =
     (if execution_dsl = [] then Inr []
      else
        bindR (generated M (store_text_line (''proposals/'' @ proposal_id @ ''/attachments/logic'') execution_dsl)) (\<lambda>ops.
          Inr (ops @ [OpEmitEvent ''governance'' (''Stored execution logic for proposal '' @ proposal_id)])))"

definition expand_proposal_lifecycle :: "macro_env \<Rightarrow> string \<Rightarrow> string list \<Rightarrow> string fault + Op list" where
  "expand_proposal_lifecycle M proposal_id lines =
     bindR (map_err Err (parse_macro_block lines)) (\<lambda>(properties, attachments, execution_dsl).
     bindR (store_lifecycle M proposal_id properties) (\<lambda>ops1.
     bindR (store_attachments M proposal_id attachments (hkeys attachments)) (\<lambda>ops2.
     bindR (store_logic M proposal_id execution_dsl) (\<lambda>ops3.
       Inr (ops1 @ ops2 @ ops3 @
         [OpEmitEvent ''governance'' (''Proposal '' @ proposal_id @ '' ('' @ quoted (the (fmlookup properties ''title'')) @ '') created.'')])))))"

definition macro_expand :: "macro_env \<Rightarrow> string \<Rightarrow> string \<Rightarrow> string list \<Rightarrow> string fault + Op list" where
  "macro_expand M proposal_id macro_name lines =
     (if macro_name = ''proposal_lifecycle'' then expand_proposal_lifecycle M proposal_id lines
      else Inl (Err (''Unknown macro: '' @ macro_name)))"

section \<open>The macro as a record\<close>

record ProposalLifecycleMacro =
  pm_proposal_id :: string
  pm_quorum :: f64
  pm_threshold :: f64
  pm_execution_block :: "string list"
  pm_title :: string
  pm_created_by :: string
  pm_created_at :: f64
  pm_passed_block :: "string list"
  pm_failed_block :: "string list option"

definition macro_text :: "ProposalLifecycleMacro \<Rightarrow> string list" where
  "macro_text m =
     [''title '' @ pm_title m, ''quorum '' @ show_f64 (pm_quorum m), ''threshold '' @ show_f64 (pm_threshold m),
      ''author '' @ pm_created_by m] @ pm_execution_block m @
     (if pm_passed_block m = [] then [] else ''if passed:'' # map (\<lambda>l. ''    '' @ l) (pm_passed_block m)) @
     (case pm_failed_block m of
        None \<Rightarrow> []
      | Some failed_lines \<Rightarrow> if failed_lines = [] then [] else ''else:'' # map (\<lambda>l. ''    '' @ l) failed_lines)"

definition process_macro :: "macro_env \<Rightarrow> string \<Rightarrow> ProposalLifecycleMacro \<Rightarrow> string fault + Op list" where
  "process_macro M proposal_id m = expand_proposal_lifecycle M proposal_id (macro_text m)"

section \<open>What macros give\<close>

lemma trim_start_rev_last: "plain_char c \<Longrightarrow> \<exists>r'. trim_start_rev (r @ [c]) = r' @ [c]"
proof (induction "length r" arbitrary: r rule: less_induct)
  case less
  show ?case
  proof (cases "ws_width_rev (r @ [c]) = 0")
    case True
    then show ?thesis by (subst trim_start_rev.simps) simp
  next
    case False
    have wide: "c \<notin> set w" if "w \<in> set wide_ws" for w using that less.prems by (auto simp: wide_ws_def plain_char_def)
    have short: "ws_width_rev (r @ [c]) \<le> length r"
    proof (cases r)
      case Nil
      then show ?thesis using less.prems by simp
    next
      case (Cons x xs)
      have "length w \<le> length r" if w: "w \<in> set wide_ws" and pre: "prefix (rev w) (r @ [c])" for w
      proof -
        obtain zs where zs: "r @ [c] = rev w @ zs" using pre by (auto simp: prefix_def)
        then have "zs \<noteq> []" using wide [OF w] by (metis append_Nil2 in_set_conv_decomp set_rev)
        then have "0 < length zs" by simp
        moreover have "length r + 1 = length w + length zs" using arg_cong [OF zs, of length] by simp
        ultimately show ?thesis by linarith
      qed
      then show ?thesis using Cons by (auto simp: ws_width_rev_def find_Some_iff split: option.splits)
    qed
    have "length (drop (ws_width_rev (r @ [c])) r) < length r" using False short by (simp add: diff_less)
    then obtain r' where "trim_start_rev (drop (ws_width_rev (r @ [c])) r @ [c]) = r' @ [c]"
      using less.hyps [OF _ less.prems] by blast
    then show ?thesis using False short by (subst trim_start_rev.simps) simp
  qed
qed

lemma trim_keeps_first: "plain_char c \<Longrightarrow> \<exists>s'. trim (c # s) = c # s'"
proof -
  assume c: "plain_char c"
  obtain r' where "trim_start_rev (rev s @ [c]) = r' @ [c]" using trim_start_rev_last [OF c] by blast
  then have "trim (c # s) = c # rev r'" using c by (simp add: trim_def trim_end_def)
  then show ?thesis by blast
qed

lemma first_line: "newline \<notin> set p \<Longrightarrow> p \<noteq> [] \<Longrightarrow> last p \<noteq> CHR 0x0D \<Longrightarrow> \<exists>l ls. str_lines (p @ s) = (p @ l) # ls"
proof -
  assume p: "newline \<notin> set p" "p \<noteq> []" "last p \<noteq> CHR 0x0D"
  then have t: "takeWhile (\<lambda>c. c \<noteq> newline) (p @ s) = p @ takeWhile (\<lambda>c. c \<noteq> newline) s" by (auto simp: takeWhile_append)
  have "strip_cr (p @ l) = p @ strip_cr l" for l using p(3) by (cases l rule: rev_exhaust) (simp_all add: strip_cr_def butlast_append)
  then show ?thesis using p(2) t by (subst str_lines.simps) (auto split: list.splits)
qed

text \<open>The generated lines begin with a word that is no command of the language, whose commands are in small letters.\<close>

lemma unknown_command: "parse_command ''StoreP'' parts line pos = at_pos (CE_UnknownCommand ''StoreP'') pos"
  by (simp add: parse_command_def plain_commands_def)

lemma StoreP_fails: "\<exists>e. generated M (''StoreP '' @ [dquote] @ s) = Inl e"
proof -
  obtain l ls where lines: "str_lines (''StoreP '' @ [dquote] @ s) = (''StoreP '' @ [dquote] @ l) # ls"
    using first_line [of "''StoreP '' @ [dquote]" s] by auto
  let ?line = "''StoreP '' @ [dquote] @ l"
  obtain t' where t: "trim ?line = CHR ''S'' # t'"
    using trim_keeps_first [of "CHR ''S''" "''toreP '' @ [dquote] @ l"] by (auto simp: plain_char_def ascii_ws_def)
  have w: "\<exists>ws. split_whitespace ?line = ''StoreP'' # ws"
    using split_whitespace_Cons [of "''StoreP''" "dquote # l"] by (simp add: plain_word_def plain_char_def ascii_ws_def)
  have "\<exists>e. dsl_loop (?line # ls) 0 initial_state = Inl e"
  proof (cases "block_header ?line")
    case True
    then show ?thesis using t
      by (subst dsl_loop.simps) (auto simp: Let_def top_block_def at_pos_def resume_def initial_state_def starts_with_def)
  next
    case False
    then show ?thesis using t w
      by (subst dsl_loop.simps) (auto simp: Let_def parse_line_def unknown_command at_pos_def initial_state_def starts_with_def)
  qed
  then obtain e where "parse_dsl (''StoreP '' @ [dquote] @ s) = Inl e" unfolding parse_dsl_def lines by auto
  then show ?thesis by (cases e) (simp_all add: generated_def)
qed

text \<open>
  The macro never expands: whatever its lines are, expanding it ends in an error (or a panic), and so does processing the
  record that prints them, since the generated text stores with a command that the parser does not know.
\<close>

theorem macro_never_expands: "\<not> is_ok (macro_expand M i name lines) \<and> \<not> is_ok (process_macro M i m)"
proof -
  have "\<not> is_ok (store_lifecycle M i ps)" for ps
  proof
    assume "is_ok (store_lifecycle M i ps)"
    then obtain x ops where "generated M (''StoreP '' @ [dquote] @ x) = Inr ops"
      by (auto simp: is_ok_iff store_lifecycle_def bindR_Inr_iff in_quotes_def)
    then show False using StoreP_fails [of M x] by auto
  qed
  then have "\<not> is_ok (expand_proposal_lifecycle M i ls)" for ls
    by (auto simp: is_ok_iff expand_proposal_lifecycle_def bindR_Inr_iff)
  then show ?thesis by (auto simp: macro_expand_def process_macro_def)
qed

end
