(* ===== verification/Retry.thy ===== *)
theory Retry
  imports F64_Order
begin

text \<open>
  The retry manager of \<^verbatim>\<open>federation/node.rs\<close>: failures of an operation on a target are counted, each is answered with a delay
  that doubles, and after the fifth the manager gives up and forgets. The clock and the random number of a failure are
  arguments; the delay is computed in doubles, as in the code.
\<close>

section \<open>The manager\<close>

record RetryStatus =
  rt_last_attempt :: u64
  rt_attempts :: "32 word"
  rt_in_backoff :: bool
  rt_current_delay_ms :: u64
  rt_operation :: string
  rt_target :: string

record RetryManager =
  rm_retries :: "(string, RetryStatus) fmap"
  rm_max_attempts :: "32 word"
  rm_base_delay_ms :: u64
  rm_max_delay_ms :: u64

definition retry_manager_new :: RetryManager where
  "retry_manager_new = \<lparr>rm_retries = fmempty, rm_max_attempts = 5, rm_base_delay_ms = 500, rm_max_delay_ms = 30000\<rparr>"

definition retry_key :: "string \<Rightarrow> string \<Rightarrow> string" where
  "retry_key operation target = operation @ '':'' @ target"

text \<open>Ten percent of the delay times a number between minus and plus one half; the cast turns the negative half into zero.\<close>

definition jitter :: "f64 \<Rightarrow> u64 \<Rightarrow> u64" where
  "jitter random delay_ms =
     f64_as_u64 (f64_mul (f64_mul (f64_of_nat (unat delay_ms)) (round_f64 False (1 / 10))) (f64_sub random (F64_Num (1 / 2))))"

definition record_failure :: "u64 \<Rightarrow> f64 \<Rightarrow> string \<Rightarrow> string \<Rightarrow> RetryManager \<Rightarrow> u64 option \<times> RetryManager" where
  "record_failure time random operation target m =
     (let key = retry_key operation target;
          entry = (case fmlookup (rm_retries m) key of
                     Some s \<Rightarrow> s
                   | None \<Rightarrow> \<lparr>rt_last_attempt = time, rt_attempts = 0, rt_in_backoff = False, rt_current_delay_ms = rm_base_delay_ms m,
                             rt_operation = operation, rt_target = target\<rparr>);
          status = entry\<lparr>rt_attempts := rt_attempts entry + 1, rt_last_attempt := time\<rparr>
      in if rm_max_attempts m \<le> rt_attempts status then (None, m\<lparr>rm_retries := fmdrop key (rm_retries m)\<rparr>)
         else
           let delay_ms = rm_base_delay_ms m * 2 ^ unat (rt_attempts status - 1);
               delay_ms = min (delay_ms + jitter random delay_ms) (rm_max_delay_ms m)
           in (Some delay_ms, m\<lparr>rm_retries := fmupd key (status\<lparr>rt_current_delay_ms := delay_ms, rt_in_backoff := True\<rparr>) (rm_retries m)\<rparr>))"

definition record_success :: "string \<Rightarrow> string \<Rightarrow> RetryManager \<Rightarrow> RetryManager" where
  "record_success operation target m = m\<lparr>rm_retries := fmdrop (retry_key operation target) (rm_retries m)\<rparr>"

definition is_in_backoff :: "string \<Rightarrow> string \<Rightarrow> RetryManager \<Rightarrow> bool" where
  "is_in_backoff operation target m =
     (case fmlookup (rm_retries m) (retry_key operation target) of Some s \<Rightarrow> rt_in_backoff s | None \<Rightarrow> False)"

definition get_all_retries :: "RetryManager \<Rightarrow> RetryStatus list" where
  "get_all_retries m = List.map_filter (fmlookup (rm_retries m)) (hkeys (rm_retries m))"

text \<open>The handler of a retry marks the operation as no longer waiting.\<close>

definition clear_backoff :: "string \<Rightarrow> RetryManager \<Rightarrow> RetryManager" where
  "clear_backoff key m =
     (case fmlookup (rm_retries m) key of
        None \<Rightarrow> m
      | Some s \<Rightarrow> m\<lparr>rm_retries := fmupd key (s\<lparr>rt_in_backoff := False\<rparr>) (rm_retries m)\<rparr>)"

section \<open>The jitter\<close>

lemma tenth: "round_f64 False (1 / 10) = F64_Num (3602879701896397 / 36028797018963968)"
proof -
  have "round_f64 False (1 / 10) = F64_Num (of_int 7205759403792794 * pow2 (- 4 - 52))"
    by (rule round_f64_at) (simp_all add: pow2_def power_divide)
  then show ?thesis by (simp add: pow2_def)
qed

lemma tenth_of:
  assumes "D \<in> {500, 1000, 2000, 4000 :: nat}"
  shows "f64_mul (f64_of_nat D) (round_f64 False (1 / 10)) = F64_Num (of_nat D / 10)"
proof -
  have e: "f64_of_nat D = F64_Num (of_nat D)" using assms by (auto simp: f64_of_nat_def f64_of_int_small)
  have m: "f64_mul (f64_of_nat D) (round_f64 False (1 / 10)) = round_f64 False (of_nat D * (3602879701896397 / 36028797018963968))"
    by (simp add: e tenth)
  have a: "round_f64 False (500 * (3602879701896397 / 36028797018963968)) = F64_Num (of_int 7036874417766400 * pow2 (5 - 52))"
    by (rule round_f64_at) (simp_all add: pow2_def power_divide)
  have b: "round_f64 False (1000 * (3602879701896397 / 36028797018963968)) = F64_Num (of_int 7036874417766400 * pow2 (6 - 52))"
    by (rule round_f64_at) (simp_all add: pow2_def power_divide)
  have c: "round_f64 False (2000 * (3602879701896397 / 36028797018963968)) = F64_Num (of_int 7036874417766400 * pow2 (7 - 52))"
    by (rule round_f64_at) (simp_all add: pow2_def power_divide)
  have d: "round_f64 False (4000 * (3602879701896397 / 36028797018963968)) = F64_Num (of_int 7036874417766400 * pow2 (8 - 52))"
    by (rule round_f64_at) (simp_all add: pow2_def power_divide)
  show ?thesis unfolding m using assms a b c d by (auto simp: pow2_def)
qed

lemma round_negative: "q \<le> 0 \<Longrightarrow> \<not> f64_lt f64_zero (round_f64 s q)"
proof (cases "q = 0")
  case False
  assume "q \<le> 0"
  with False have n: "q < 0" "- q \<noteq> 0" by auto
  have "f64_nonneg (round_f64 True (- q))" by (rule round_f64_nonneg) (use n in simp)
  then show ?thesis using round_f64_minus [OF n(2), of s True] by (cases "round_f64 True (- q)") (auto simp: f64_zero_def)
qed (simp add: round_f64_def f64_zero_def)

lemma as_nat_nonpositive: "\<not> f64_lt f64_zero x \<Longrightarrow> f64_as_nat w x = 0"
  by (cases x) (auto simp: f64_zero_def)

lemma as_nat_le: "f64_le x (F64_Num (of_nat n)) \<Longrightarrow> f64_as_nat w x \<le> n"
proof (cases x)
  case (F64_Num q)
  assume "f64_le x (F64_Num (of_nat n))"
  then have "q \<le> of_nat n" by (auto simp: F64_Num f64_le_def)
  then have "nat \<lfloor>q\<rfloor> \<le> n" by linarith
  then show ?thesis by (auto simp: F64_Num intro: min.coboundedI1)
qed (auto simp: f64_le_def)

lemma half_exact: "round_f64 s (1 / 2) = F64_Num (1 / 2)"
proof -
  have "round_f64 s (1 / 2) = F64_Num (of_int 4503599627370496 * pow2 (- 1 - 52))"
    by (rule round_f64_at) (simp_all add: pow2_def power_divide)
  then show ?thesis by (simp add: pow2_def)
qed

lemma scaled_nonpositive: "0 < c \<Longrightarrow> \<not> f64_lt f64_zero x \<Longrightarrow> \<not> f64_lt f64_zero (f64_mul (F64_Num c) x)"
  by (cases x) (auto simp: f64_zero_def mult_nonneg_nonpos intro!: round_negative [unfolded f64_zero_def])

lemma scaled_half:
  assumes "f64_nonneg r" "f64_le r f64_one" "0 < c"
  shows "\<not> f64_lt f64_zero (f64_mul (F64_Num c) (f64_sub r (F64_Num (1 / 2)))) \<or>
    f64_le (f64_mul (F64_Num c) (f64_sub r (F64_Num (1 / 2)))) (round_f64 False (c / 2))"
proof (cases r)
  case (F64_Num q)
  then have q: "0 < q" "q \<le> 1" using assms(1,2) by (auto simp: f64_le_def f64_one_def)
  have sub: "f64_sub r (F64_Num (1 / 2)) = round_f64 False (q - 1 / 2)" by (simp add: F64_Num f64_sub_def)
  show ?thesis
  proof (cases "q \<le> 1 / 2")
    case True
    then show ?thesis unfolding sub using scaled_nonpositive [OF assms(3) round_negative] by simp
  next
    case False
    have "f64_le (round_f64 False (q - 1 / 2)) (F64_Num (1 / 2))" using round_f64_mono [of "q - 1 / 2" "1 / 2" False False] False q by (simp add: half_exact)
    moreover have "f64_nonneg (round_f64 False (q - 1 / 2))" by (rule round_f64_nonneg) (use False in simp)
    ultimately have "f64_le (f64_mul (round_f64 False (q - 1 / 2)) (F64_Num c)) (f64_mul (F64_Num (1 / 2)) (F64_Num c))"
      using f64_mul_mono [of "round_f64 False (q - 1 / 2)" "F64_Num (1 / 2)" c] assms(3) by simp
    moreover have "f64_mul x (F64_Num c) = f64_mul (F64_Num c) x" for x by (cases x) (auto simp: mult.commute)
    ultimately show ?thesis unfolding sub by simp
  qed
next
  case (F64_Zero b)
  have "\<not> f64_lt f64_zero (f64_sub r (F64_Num (1 / 2)))" by (simp add: F64_Zero f64_sub_def f64_zero_def)
  then show ?thesis using scaled_nonpositive [OF assms(3)] by blast
qed (use assms in \<open>auto simp: f64_le_def f64_one_def\<close>)

lemma jitter_bound:
  assumes "f64_nonneg r" "f64_le r f64_one" "unat d \<in> {500, 1000, 2000, 4000}"
  shows "unat (jitter r d) \<le> unat d div 20"
proof -
  define D where "D = unat d"
  have D: "D \<in> {500, 1000, 2000, 4000}" using assms(3) by (simp add: D_def)
  let ?x = "f64_mul (F64_Num (of_nat D / 10)) (f64_sub r (F64_Num (1 / 2)))"
  have "round_f64 False (of_nat D / 10 / 2) = F64_Num (of_nat (D div 20))"
    using D round_f64_int [of "int (D div 20)" False] by auto
  then consider "\<not> f64_lt f64_zero ?x" | "f64_le ?x (F64_Num (of_nat (D div 20)))"
    using scaled_half [OF assms(1,2), of "of_nat D / 10"] D by auto
  then have "f64_as_nat 64 ?x \<le> D div 20"
    by cases (simp add: as_nat_nonpositive, rule as_nat_le)
  then show ?thesis unfolding jitter_def D_def [symmetric] tenth_of [OF D] by (simp add: unat_f64_as_u64)
qed

section \<open>The schedule\<close>

text \<open>The state of a manager: the settings, and for every operation in retry the number of its failures and its delay.\<close>

definition delay_ok :: "nat \<Rightarrow> u64 \<Rightarrow> bool" where
  "delay_ok k d \<longleftrightarrow> 500 * 2 ^ (k - 1) \<le> unat d \<and> unat d \<le> 525 * 2 ^ (k - 1)"

definition status_ok :: "string \<Rightarrow> RetryStatus \<Rightarrow> bool" where
  "status_ok key s \<longleftrightarrow> key = retry_key (rt_operation s) (rt_target s) \<and> unat (rt_attempts s) \<in> {1..4} \<and> delay_ok (unat (rt_attempts s)) (rt_current_delay_ms s)"

definition retry_ok :: "RetryManager \<Rightarrow> bool" where
  "retry_ok m \<longleftrightarrow> rm_max_attempts m = 5 \<and> rm_base_delay_ms m = 500 \<and> rm_max_delay_ms m = 30000 \<and>
     (\<forall>key s. fmlookup (rm_retries m) key = Some s \<longrightarrow> status_ok key s)"

definition failures :: "string \<Rightarrow> RetryManager \<Rightarrow> nat" where
  "failures key m = (case fmlookup (rm_retries m) key of Some s \<Rightarrow> unat (rt_attempts s) | None \<Rightarrow> 0)"

lemma retry_manager_new_ok: "retry_ok retry_manager_new"
  by (simp add: retry_ok_def retry_manager_new_def)

lemma record_success_ok: "retry_ok m \<Longrightarrow> retry_ok (record_success op tg m)"
  by (auto simp: retry_ok_def record_success_def)

lemma clear_backoff_ok: "retry_ok m \<Longrightarrow> retry_ok (clear_backoff key m)"
  by (auto simp: retry_ok_def clear_backoff_def status_ok_def split: option.splits)

lemma backoff_delay:
  assumes "f64_nonneg r" "f64_le r f64_one" "k < 4"
  shows "delay_ok (Suc k) (min (500 * 2 ^ k + jitter r (500 * 2 ^ k)) 30000)"
proof -
  have k: "k = 0 \<or> k = 1 \<or> k = 2 \<or> k = 3" using assms(3) by linarith
  have d: "unat (500 * 2 ^ k :: u64) = 500 * 2 ^ k" "500 * 2 ^ k \<in> {500, 1000, 2000, 4000 :: nat}"
    using k by auto
  have j: "unat (jitter r (500 * 2 ^ k)) \<le> 25 * 2 ^ k" using jitter_bound [OF assms(1,2), of "500 * 2 ^ k"] d by simp
  have "(2::nat) ^ k \<le> 8" using k by auto
  with j d have "unat (500 * 2 ^ k + jitter r (500 * 2 ^ k)) = 500 * 2 ^ k + unat (jitter r (500 * 2 ^ k))"
    by (subst unat_add_lem [THEN iffD1]) auto
  then show ?thesis using j \<open>2 ^ k \<le> 8\<close> by (auto simp: delay_ok_def min_def word_le_nat_alt)
qed

lemma record_failure_step:
  assumes "retry_ok m" "f64_nonneg r" "f64_le r f64_one" "record_failure time r op tg m = (answer, m')"
  defines "k \<equiv> failures (retry_key op tg) m"
  shows "retry_ok m' \<and> (\<forall>key. key \<noteq> retry_key op tg \<longrightarrow> fmlookup (rm_retries m') key = fmlookup (rm_retries m) key) \<and>
    (if k < 4 then \<exists>d. answer = Some d \<and> 500 * 2 ^ k \<le> unat d \<and> unat d \<le> 525 * 2 ^ k \<and> failures (retry_key op tg) m' = k + 1 \<and> is_in_backoff op tg m'
     else answer = None \<and> failures (retry_key op tg) m' = 0)"
proof -
  define key where "key = retry_key op tg"
  define entry where "entry = (case fmlookup (rm_retries m) key of Some s \<Rightarrow> s
    | None \<Rightarrow> \<lparr>rt_last_attempt = time, rt_attempts = 0, rt_in_backoff = False, rt_current_delay_ms = 500, rt_operation = op, rt_target = tg\<rparr>)"
  have m: "rm_max_attempts m = 5" "rm_base_delay_ms m = 500" "rm_max_delay_ms m = 30000" using assms(1) by (auto simp: retry_ok_def)
  have e: "unat (rt_attempts entry) = k" "k \<le> 4" "key = retry_key (rt_operation entry) (rt_target entry)"
    using assms(1) unfolding entry_def k_def failures_def key_def [symmetric]
    by (auto simp: retry_ok_def status_ok_def key_def split: option.splits)
  have u: "unat (rt_attempts entry + 1) = k + 1" using e(1,2) by (subst unat_add_lem [THEN iffD1]) auto
  then have lim: "5 \<le> rt_attempts entry + 1 \<longleftrightarrow> \<not> k < 4" by (simp add: word_le_nat_alt not_less)
  let ?d = "min (500 * 2 ^ k + jitter r (500 * 2 ^ k)) 30000"
  have run: "record_failure time r op tg m =
      (if k < 4 then (Some ?d, m\<lparr>rm_retries := fmupd key (entry\<lparr>rt_attempts := rt_attempts entry + 1, rt_last_attempt := time,
          rt_current_delay_ms := ?d, rt_in_backoff := True\<rparr>) (rm_retries m)\<rparr>)
       else (None, m\<lparr>rm_retries := fmdrop key (rm_retries m)\<rparr>))"
    unfolding record_failure_def Let_def key_def [symmetric] m entry_def [symmetric] by (simp add: lim e(1))
  show ?thesis
  proof (cases "k < 4")
    case True
    have d: "delay_ok (Suc k) ?d" by (rule backoff_delay [OF assms(2,3) True])
    from True run assms(4) have a: "answer = Some ?d" and
      m': "m' = m\<lparr>rm_retries := fmupd key (entry\<lparr>rt_attempts := rt_attempts entry + 1, rt_last_attempt := time, rt_current_delay_ms := ?d, rt_in_backoff := True\<rparr>) (rm_retries m)\<rparr>"
      by auto
    have "retry_ok m'" using assms(1) d u e(3) True unfolding m' by (auto simp: retry_ok_def status_ok_def)
    then show ?thesis using True a d u unfolding m' by (auto simp: delay_ok_def failures_def is_in_backoff_def key_def)
  next
    case False
    with run assms(4) have "answer = None" "m' = m\<lparr>rm_retries := fmdrop key (rm_retries m)\<rparr>" by auto
    then show ?thesis using False assms(1) by (auto simp: retry_ok_def failures_def key_def)
  qed
qed

lemma retry_failure_keeps:
  "retry_ok m \<Longrightarrow> f64_nonneg r \<Longrightarrow> f64_le r f64_one \<Longrightarrow> retry_ok (snd (record_failure time r op tg m))"
  using record_failure_step [of m r time op tg] by (metis prod.collapse)

text \<open>
  C21: Retries of an operation on a target are spaced by doubling delays: with a random number between 0 and 1 the answer to the
  k-th failure in a row is between 500 and 525 times 2 to the k-1 milliseconds for the first four (the jitter only ever
  adds, and the limit of 30 seconds is never reached); the fifth gives up and forgets the operation, so that the count
  starts again. Other operations are unaffected, and the invariant of the manager is kept.
\<close>

theorem retry_schedule:
  assumes "retry_ok m" "f64_nonneg r" "f64_le r f64_one" "record_failure time r op tg m = (answer, m')"
  defines "k \<equiv> failures (retry_key op tg) m"
  shows "retry_ok m' \<and> (\<forall>key. key \<noteq> retry_key op tg \<longrightarrow> fmlookup (rm_retries m') key = fmlookup (rm_retries m) key) \<and>
    (if k < 4 then \<exists>d. answer = Some d \<and> 500 * 2 ^ k \<le> unat d \<and> unat d \<le> 525 * 2 ^ k \<and> failures (retry_key op tg) m' = k + 1 \<and> is_in_backoff op tg m'
     else answer = None \<and> failures (retry_key op tg) m' = 0)"
  using record_failure_step [OF assms(1-4)] unfolding k_def .

theorem retry_schedule_witness:
  "\<exists>d m'. record_failure 9 f64_one ''dial'' ''/ip4/10.0.0.1'' retry_manager_new = (Some d, m') \<and> 500 \<le> unat d \<and> unat d \<le> 525"
proof -
  obtain answer m' where run: "record_failure 9 f64_one ''dial'' ''/ip4/10.0.0.1'' retry_manager_new = (answer, m')" by fastforce
  have "failures (retry_key ''dial'' ''/ip4/10.0.0.1'') retry_manager_new = 0" by (simp add: failures_def retry_manager_new_def)
  then show ?thesis using retry_schedule [OF retry_manager_new_ok _ _ run] run by (auto simp: f64_one_def f64_le_def)
qed

end
