(* ===== verification/Node.thy ===== *)
theory Node
  imports Retry Federation
begin

text \<open>
  The network node of \<^verbatim>\<open>federation/node.rs\<close>, with the messages, events and errors of the federation. The library \<^verbatim>\<open>libp2p\<close>
  is a parameter (\<open>net_env\<close>): which addresses it parses, listens on and dials. Peers and addresses are their texts. The
  channel of events is a queue; \<open>nt_room\<close> tells for how many waiting events a further one is let in. The task that runs
  the event loop is the only reader, so that a handler which waits for room waits for ever: its result is \<open>None\<close>.
\<close>

section \<open>Messages, events and errors\<close>

record NodeAnnouncement =
  na_node_id :: string
  na_capabilities :: "string list"
  na_version :: string
  na_name :: "string option"

record PingMessage =
  pi_nonce :: u64
  pi_timestamp_ms :: u64

record PongMessage =
  po_nonce :: u64
  po_timestamp_ms :: u64
  po_ttl :: "nat option"

datatype NetworkMessage =
    NM_Announcement NodeAnnouncement
  | NM_Ping PingMessage
  | NM_Pong PongMessage
  | NM_ProposalBroadcast FederatedProposal
  | NM_VoteSubmission FederatedVote

datatype NetworkEvent =
    PeerDiscovered string
  | PeerConnected string
  | PeerDisconnected string
  | MessageReceived string NetworkMessage
  | DhtQueryCompleted "string list" bool
  | ProposalBroadcasted
  | ProposalReceived
  | VoteSubmitted
  | VoteReceived
  | NetworkError string
  | RetryOperation string string

datatype FederationError =
    FX_Network string | FX_Transport string | FX_Connection string | FX_Protocol string | FX_Serialization string
  | FX_Authentication string | FX_Storage StorageError | FX_NotFound string | FX_Configuration string | FX_Clock string
  | FX_PermissionDenied string | FX_ProposalValidation string | FX_VoteValidation string | FX_Timeout string | FX_Io string
  | FX_InvalidArgument string | FX_Other string

fun federation_error_text :: "(StorageError \<Rightarrow> string) \<Rightarrow> FederationError \<Rightarrow> string" where
  "federation_error_text st (FX_Network msg) = ''Network error: '' @ msg"
| "federation_error_text st (FX_Transport msg) = ''Transport error: '' @ msg"
| "federation_error_text st (FX_Connection msg) = ''Connection error: '' @ msg"
| "federation_error_text st (FX_Protocol msg) = ''Protocol error: '' @ msg"
| "federation_error_text st (FX_Serialization msg) = ''Serialization error: '' @ msg"
| "federation_error_text st (FX_Authentication msg) = ''Authentication error: '' @ msg"
| "federation_error_text st (FX_Storage e) = ''Storage error: '' @ st e"
| "federation_error_text st (FX_NotFound msg) = ''Not found: '' @ msg"
| "federation_error_text st (FX_Configuration msg) = ''Configuration error: '' @ msg"
| "federation_error_text st (FX_Clock msg) = ''Clock error: '' @ msg"
| "federation_error_text st (FX_PermissionDenied msg) = ''Permission denied: '' @ msg"
| "federation_error_text st (FX_ProposalValidation msg) = ''Proposal validation error: '' @ msg"
| "federation_error_text st (FX_VoteValidation msg) = ''Vote validation error: '' @ msg"
| "federation_error_text st (FX_Timeout msg) = ''Timeout: '' @ msg"
| "federation_error_text st (FX_Io e) = ''IO error: '' @ e"
| "federation_error_text st (FX_InvalidArgument msg) = ''Invalid argument: '' @ msg"
| "federation_error_text st (FX_Other msg) = ''Error: '' @ msg"

section \<open>Events of the network library\<close>

datatype KadEvent =
    ClosestPeers "string + string list"
  | Bootstrap "string + nat"
  | RoutingUpdated string bool "string list"
  | OtherKadEvent

datatype MdnsEvent = Discovered "(string \<times> string) list" | Expired "(string \<times> string) list"

datatype IdentifyEvent = Received string "string list" | Sent string | IdentifyError string string | Pushed

datatype IcnBehaviourEvent =
    BE_Ping string "string + nat"
  | BE_Kademlia KadEvent
  | BE_Mdns MdnsEvent
  | BE_Identify IdentifyEvent

datatype SwarmEvent =
    NewListenAddr string
  | ConnectionEstablished string string
  | ConnectionClosed string "string option"
  | OutgoingConnectionError "string option" string
  | IncomingConnectionError string string string
  | Dialing "string option"
  | ListenerClosed "string list" string
  | ListenerError string
  | Behaviour IcnBehaviourEvent
  | OtherSwarmEvent

section \<open>The node\<close>

record NodeConfig =
  nc_port :: "16 word option"
  nc_bootstrap_nodes :: "string list"
  nc_name :: "string option"
  nc_capabilities :: "string list"
  nc_protocol_version :: string

definition node_config_default :: NodeConfig where
  "node_config_default = \<lparr>nc_port = None, nc_bootstrap_nodes = [], nc_name = None, nc_capabilities = [], nc_protocol_version = ''1.0.0''\<rparr>"

text \<open>
  Of the swarm the node keeps what it told it: the addresses it listens on and dials and those it added to the routing
  table. A dial may fail; its answer may depend on how many came before. \<open>nd_timers\<close> are the retries that sleep.
\<close>

record net_env =
  nt_peer_id :: string
  nt_behaviour :: "string option"
  nt_noise :: "string option"
  nt_listen :: "string \<Rightarrow> string option"
  nt_dial :: "nat \<Rightarrow> string \<Rightarrow> string option"
  nt_address :: "string \<Rightarrow> string + string"
  nt_peer :: "string \<Rightarrow> string option"
  nt_room :: "nat \<Rightarrow> bool"
  nt_full :: string

record NetworkNode =
  nd_local_peer_id :: string
  nd_config :: NodeConfig
  nd_running :: bool
  nd_queue :: "NetworkEvent list"
  nd_known_peers :: "string fset"
  nd_federation_storage :: FederationStorage
  nd_retry_manager :: RetryManager
  nd_start_time :: "u64 option"
  nd_role :: "string option"
  nd_listening :: "string list"
  nd_dialed :: "string list"
  nd_routes :: "(string \<times> string) list"
  nd_timers :: "(u64 \<times> string) list"

definition network_node_new :: "net_env \<Rightarrow> u64 option \<Rightarrow> NodeConfig \<Rightarrow> FederationError + NetworkNode" where
  "network_node_new N time config =
     (case nt_behaviour N of
        Some e \<Rightarrow> Inl (FX_Network (''Failed to create network behavior: Failed to create mDNS behavior: '' @ e))
      | None \<Rightarrow>
          (case nt_noise N of
             Some e \<Rightarrow> Inl (FX_Network (''Noise config error: '' @ e))
           | None \<Rightarrow>
               Inr \<lparr>nd_local_peer_id = nt_peer_id N, nd_config = config, nd_running = False, nd_queue = [], nd_known_peers = {||},
                    nd_federation_storage = federation_new, nd_retry_manager = retry_manager_new, nd_start_time = time, nd_role = None,
                    nd_listening = [], nd_dialed = [], nd_routes = [], nd_timers = []\<rparr>))"

definition node_stop :: "NetworkNode \<Rightarrow> NetworkNode" where
  "node_stop n = n\<lparr>nd_running := False\<rparr>"

definition create_node_announcement :: "NetworkNode \<Rightarrow> NodeAnnouncement" where
  "create_node_announcement n =
     \<lparr>na_node_id = nd_local_peer_id n, na_capabilities = nc_capabilities (nd_config n), na_version = nc_protocol_version (nd_config n),
      na_name = nc_name (nd_config n)\<rparr>"

definition set_role :: "string \<Rightarrow> NetworkNode \<Rightarrow> NetworkNode" where
  "set_role role n = n\<lparr>nd_role := Some role\<rparr>"

section \<open>The channel and the swarm\<close>

definition send_event :: "net_env \<Rightarrow> NetworkEvent \<Rightarrow> NetworkNode \<Rightarrow> NetworkNode option" where
  "send_event N e n = (if nt_room N (length (nd_queue n)) then Some (n\<lparr>nd_queue := nd_queue n @ [e]\<rparr>) else None)"

definition try_send_event :: "net_env \<Rightarrow> NetworkEvent \<Rightarrow> NetworkNode \<Rightarrow> (FederationError, unit, NetworkNode) outcome" where
  "try_send_event N e n =
     (case send_event N e n of
        Some n' \<Rightarrow> (Inr (), n')
      | None \<Rightarrow> (Inl (FX_Network (''Failed to emit event: '' @ nt_full N)), n))"

definition add_address :: "string \<Rightarrow> string \<Rightarrow> NetworkNode \<Rightarrow> NetworkNode" where
  "add_address peer addr n = n\<lparr>nd_routes := nd_routes n @ [(peer, addr)]\<rparr>"

definition swarm_dial :: "net_env \<Rightarrow> string \<Rightarrow> NetworkNode \<Rightarrow> string option \<times> NetworkNode" where
  "swarm_dial N addr n = (nt_dial N (length (nd_dialed n)) addr, n\<lparr>nd_dialed := nd_dialed n @ [addr]\<rparr>)"

definition on_retries :: "(RetryManager \<Rightarrow> RetryManager) \<Rightarrow> NetworkNode \<Rightarrow> NetworkNode" where
  "on_retries f n = n\<lparr>nd_retry_manager := f (nd_retry_manager n)\<rparr>"

definition dial_with_retry :: "net_env \<Rightarrow> string \<Rightarrow> NetworkNode \<Rightarrow> (FederationError, unit, NetworkNode) outcome" where
  "dial_with_retry N addr n =
     (case swarm_dial N addr n of
        (None, n') \<Rightarrow> (Inr (), on_retries (record_success ''dial'' addr) n')
      | (Some e, n') \<Rightarrow> (Inl (FX_Network (''Failed to dial '' @ addr @ '': '' @ e)), n'))"

section \<open>Events from the swarm\<close>

definition handle_kademlia_event :: "net_env \<Rightarrow> KadEvent \<Rightarrow> NetworkNode \<Rightarrow> NetworkNode option" where
  "handle_kademlia_event N ev n =
     (case ev of
        ClosestPeers (Inr peers) \<Rightarrow> send_event N (DhtQueryCompleted peers True) n
      | ClosestPeers (Inl _) \<Rightarrow> send_event N (DhtQueryCompleted [] False) n
      | Bootstrap _ \<Rightarrow> Some n
      | RoutingUpdated peer is_new_peer _ \<Rightarrow> if is_new_peer then send_event N (PeerDiscovered peer) n else Some n
      | OtherKadEvent \<Rightarrow> Some n)"

fun mdns_discovered :: "net_env \<Rightarrow> (string \<times> string) list \<Rightarrow> NetworkNode \<Rightarrow> NetworkNode option" where
  "mdns_discovered N [] n = Some n"
| "mdns_discovered N ((peer, addr) # ps) n =
     Option.bind (send_event N (PeerDiscovered peer) (add_address peer addr n)) (\<lambda>n1.
       mdns_discovered N ps (if peer |\<in>| nd_known_peers n1 then n1 else snd (swarm_dial N addr n1)))"

definition handle_mdns_event :: "net_env \<Rightarrow> MdnsEvent \<Rightarrow> NetworkNode \<Rightarrow> NetworkNode option" where
  "handle_mdns_event N ev n = (case ev of Discovered ps \<Rightarrow> mdns_discovered N ps n | Expired _ \<Rightarrow> Some n)"

definition handle_identify_event :: "IdentifyEvent \<Rightarrow> NetworkNode \<Rightarrow> NetworkNode" where
  "handle_identify_event ev n = (case ev of Received peer addrs \<Rightarrow> fold (add_address peer) addrs n | _ \<Rightarrow> n)"

definition handle_behaviour_event :: "net_env \<Rightarrow> IcnBehaviourEvent \<Rightarrow> NetworkNode \<Rightarrow> NetworkNode option" where
  "handle_behaviour_event N ev n =
     (case ev of
        BE_Ping _ _ \<Rightarrow> Some n
      | BE_Kademlia e \<Rightarrow> handle_kademlia_event N e n
      | BE_Mdns e \<Rightarrow> handle_mdns_event N e n
      | BE_Identify e \<Rightarrow> Some (handle_identify_event e n))"

definition handle_swarm_event :: "net_env \<Rightarrow> SwarmEvent \<Rightarrow> NetworkNode \<Rightarrow> NetworkNode option" where
  "handle_swarm_event N ev n =
     (case ev of
        ConnectionEstablished peer addr \<Rightarrow>
          (let n1 = add_address peer addr n in
           send_event N (PeerConnected peer) (n1\<lparr>nd_known_peers := finsert peer (nd_known_peers n1)\<rparr>))
      | ConnectionClosed peer _ \<Rightarrow> send_event N (PeerDisconnected peer) n
      | Behaviour e \<Rightarrow> handle_behaviour_event N e n
      | _ \<Rightarrow> Some n)"

section \<open>Events from the queue\<close>

text \<open>A failing retry is counted again; sending a message again does nothing, as nothing is kept to be sent.\<close>

definition retry_send_message :: "string \<Rightarrow> string \<Rightarrow> NetworkNode \<Rightarrow> (FederationError, unit, NetworkNode) outcome" where
  "retry_send_message peer message_id n = (Inr (), n)"

definition failed_again :: "u64 \<Rightarrow> f64 \<Rightarrow> string \<Rightarrow> string \<Rightarrow> (FederationError, unit, NetworkNode) outcome \<Rightarrow> NetworkNode" where
  "failed_again time random operation target r =
     (case r of (Inr _, n) \<Rightarrow> n | (Inl _, n) \<Rightarrow> on_retries (\<lambda>m. snd (record_failure time random operation target m)) n)"

definition handle_network_event :: "net_env \<Rightarrow> u64 \<Rightarrow> f64 \<Rightarrow> NetworkEvent \<Rightarrow> NetworkNode \<Rightarrow> NetworkNode" where
  "handle_network_event N time random ev n =
     (case ev of
        RetryOperation operation target \<Rightarrow>
          (let n1 = on_retries (clear_backoff (retry_key operation target)) n in
           if operation = ''dial'' then
             (case nt_address N target of
                Inl _ \<Rightarrow> n1
              | Inr addr \<Rightarrow> failed_again time random operation target (dial_with_retry N addr n1))
           else if operation = ''send_message'' then
             (if CHR '':'' \<in> set target then
                (case nt_peer N (takeWhile (\<lambda>c. c \<noteq> CHR '':'') target) of
                   None \<Rightarrow> n1
                 | Some peer \<Rightarrow>
                     failed_again time random operation target
                       (retry_send_message peer (tl (dropWhile (\<lambda>c. c \<noteq> CHR '':'') target)) n1))
              else n1)
           else n1)
      | _ \<Rightarrow> n)"

section \<open>The loop\<close>

text \<open>The task that runs once a second: the operations whose delay has passed.\<close>

definition retries_to_resume :: "u64 \<Rightarrow> RetryManager \<Rightarrow> NetworkEvent list" where
  "retries_to_resume time m =
     map (\<lambda>s. RetryOperation (rt_operation s) (rt_target s))
       (filter (\<lambda>s. rt_in_backoff s \<and> rt_current_delay_ms s \<le> (time - rt_last_attempt s) * 1000) (get_all_retries m))"

text \<open>
  What happens next: an event of the swarm, the next event of the queue, nothing for ten milliseconds, the events of the
  retry task or of a sleeping retry get into the queue (they come from other tasks, whose waiting does not hold up the loop).
\<close>

datatype stimulus = From_Swarm SwarmEvent | From_Queue u64 f64 | Nothing_Yet | Retry_Task u64 | Timer nat

fun react :: "net_env \<Rightarrow> stimulus \<Rightarrow> NetworkNode \<Rightarrow> NetworkNode option" where
  "react N (From_Swarm ev) n = handle_swarm_event N ev n"
| "react N (From_Queue time random) n =
     (case nd_queue n of [] \<Rightarrow> Some n | ev # q \<Rightarrow> Some (handle_network_event N time random ev (n\<lparr>nd_queue := q\<rparr>)))"
| "react N Nothing_Yet n = Some n"
| "react N (Retry_Task time) n = Some (n\<lparr>nd_queue := nd_queue n @ retries_to_resume time (nd_retry_manager n)\<rparr>)"
| "react N (Timer i) n =
     Some (if i < length (nd_timers n)
           then n\<lparr>nd_queue := nd_queue n @ [RetryOperation ''dial'' (snd (nd_timers n ! i))],
                  nd_timers := take i (nd_timers n) @ drop (Suc i) (nd_timers n)\<rparr>
           else n)"

datatype loop_state = Returned NetworkNode | Looping NetworkNode | Waiting_Forever

fun process_events :: "net_env \<Rightarrow> stimulus list \<Rightarrow> NetworkNode \<Rightarrow> loop_state" where
  "process_events N [] n = (if nd_running n then Looping n else Returned n)"
| "process_events N (s # ss) n =
     (if nd_running n then case react N s n of None \<Rightarrow> Waiting_Forever | Some n' \<Rightarrow> process_events N ss n'
      else Returned n)"

fun connect_to_bootstrap_nodes :: "net_env \<Rightarrow> u64 \<Rightarrow> f64 \<Rightarrow> string list \<Rightarrow> NetworkNode \<Rightarrow> NetworkNode" where
  "connect_to_bootstrap_nodes N time random [] n = n"
| "connect_to_bootstrap_nodes N time random (addr # addrs) n =
     connect_to_bootstrap_nodes N time random addrs
       (case dial_with_retry N addr n of
          (Inr _, n1) \<Rightarrow> n1
        | (Inl _, n1) \<Rightarrow>
            (case record_failure time random ''dial'' addr (nd_retry_manager n1) of
               (None, m) \<Rightarrow> n1\<lparr>nd_retry_manager := m\<rparr>
             | (Some delay, m) \<Rightarrow> n1\<lparr>nd_retry_manager := m, nd_timers := nd_timers n1 @ [(delay, addr)]\<rparr>))"

definition node_start :: "net_env \<Rightarrow> u64 \<Rightarrow> f64 \<Rightarrow> stimulus list \<Rightarrow> NetworkNode \<Rightarrow> (FederationError, loop_state, NetworkNode) outcome" where
  "node_start N time random ss n =
     (if nd_running n then (Inr (Returned n), n)
      else
        let n1 = n\<lparr>nd_running := True\<rparr>;
            listen_addr = (case nc_port (nd_config n) of Some port \<Rightarrow> ''/ip4/0.0.0.0/tcp/'' @ show_nat (unat port) | None \<Rightarrow> ''/ip4/0.0.0.0/tcp/0'')
        in case nt_address N listen_addr of
             Inl e \<Rightarrow> (Inl (FX_Network (''Multiaddr error: '' @ e)), n1)
           | Inr addr \<Rightarrow>
               (case nt_listen N addr of
                  Some e \<Rightarrow> (Inl (FX_Network (''Failed to listen: '' @ e)), n1)
                | None \<Rightarrow>
                    let n2 = connect_to_bootstrap_nodes N time random (nc_bootstrap_nodes (nd_config n)) (n1\<lparr>nd_listening := nd_listening n1 @ [addr]\<rparr>)
                    in (Inr (process_events N ss n2), n2)))"

section \<open>Messages to the network\<close>

definition node_broadcast_proposal :: "net_env \<Rightarrow> FederatedProposal \<Rightarrow> NetworkNode \<Rightarrow> (FederationError, unit, NetworkNode) outcome" where
  "node_broadcast_proposal N p n = try_send_event N ProposalBroadcasted n"

definition node_submit_vote :: "net_env \<Rightarrow> FederatedVote \<Rightarrow> NetworkNode \<Rightarrow> (FederationError, unit, NetworkNode) outcome" where
  "node_submit_vote N v n = try_send_event N VoteSubmitted n"

definition handle_proposal_broadcast :: "net_env \<Rightarrow> FederatedProposal \<Rightarrow> NetworkNode \<Rightarrow> (FederationError, unit, NetworkNode) outcome" where
  "handle_proposal_broadcast N p n = try_send_event N ProposalReceived n"

definition handle_vote_submission :: "net_env \<Rightarrow> FederatedVote \<Rightarrow> NetworkNode \<Rightarrow> (FederationError, unit, NetworkNode) outcome" where
  "handle_vote_submission N v n = try_send_event N VoteReceived n"

definition send_custom_message :: "net_env \<Rightarrow> string \<Rightarrow> NetworkNode \<Rightarrow> FederationError + unit" where
  "send_custom_message N peer n =
     (if starts_with ''/ip4/'' peer \<or> starts_with ''/ip6/'' peer
      then Inl (FX_Network ''Sending by multiaddress not implemented yet'')
      else case nt_peer N peer of
             None \<Rightarrow> Inl (FX_Network (''Invalid peer ID: '' @ peer))
           | Some _ \<Rightarrow> Inr ())"

section \<open>The loop never ends\<close>

lemma send_event_keeps:
  assumes "send_event N e n = Some n'"
  shows "nd_running n' = nd_running n" "nd_retry_manager n' = nd_retry_manager n" "nd_queue n' = nd_queue n @ [e]"
    "nd_federation_storage n' = nd_federation_storage n"
  using assms by (auto simp: send_event_def split: if_splits)

lemma mdns_discovered_keeps:
  "mdns_discovered N ps n = Some n' \<Longrightarrow>
     nd_running n' = nd_running n \<and> nd_retry_manager n' = nd_retry_manager n \<and> nd_federation_storage n' = nd_federation_storage n"
proof (induction N ps n rule: mdns_discovered.induct)
  case (2 N peer addr ps n)
  then obtain n1 where n1: "send_event N (PeerDiscovered peer) (add_address peer addr n) = Some n1"
    "mdns_discovered N ps (if peer |\<in>| nd_known_peers n1 then n1 else snd (swarm_dial N addr n1)) = Some n'"
    by (auto simp: bind_eq_Some_conv)
  then show ?case using "2.IH" [OF n1] send_event_keeps [OF n1(1)] by (auto simp: add_address_def swarm_dial_def split: if_splits)
qed simp

lemma identify_keeps:
  "nd_running (fold (add_address peer) addrs n) = nd_running n \<and> nd_retry_manager (fold (add_address peer) addrs n) = nd_retry_manager n \<and>
   nd_federation_storage (fold (add_address peer) addrs n) = nd_federation_storage n"
  by (induction addrs arbitrary: n) (auto simp: add_address_def)

lemma swarm_event_keeps:
  assumes "handle_swarm_event N ev n = Some n'"
  shows "nd_running n' = nd_running n \<and> nd_retry_manager n' = nd_retry_manager n \<and> nd_federation_storage n' = nd_federation_storage n"
  using assms mdns_discovered_keeps identify_keeps
  by (auto simp: handle_swarm_event_def handle_behaviour_event_def handle_kademlia_event_def handle_mdns_event_def handle_identify_event_def
      Let_def add_address_def send_event_def split: SwarmEvent.splits IcnBehaviourEvent.splits KadEvent.splits MdnsEvent.splits
      IdentifyEvent.splits sum.splits if_splits)

text \<open>A random number of \<^verbatim>\<open>rand::random\<close>.\<close>

definition unit_random :: "f64 \<Rightarrow> bool" where
  "unit_random x \<longleftrightarrow> f64_nonneg x \<and> f64_le x f64_one"

definition random_ok :: "stimulus \<Rightarrow> bool" where
  "random_ok s = (case s of From_Queue _ x \<Rightarrow> unit_random x | _ \<Rightarrow> True)"

definition node_kept :: "bool \<Rightarrow> NetworkNode \<Rightarrow> NetworkNode \<Rightarrow> bool" where
  "node_kept ok n n' \<longleftrightarrow> nd_running n' = nd_running n \<and> nd_federation_storage n' = nd_federation_storage n \<and>
     (ok \<longrightarrow> retry_ok (nd_retry_manager n) \<longrightarrow> retry_ok (nd_retry_manager n'))"

lemma node_kept_refl: "node_kept ok n n"
  by (simp add: node_kept_def)

lemma node_kept_trans: "node_kept ok a b \<Longrightarrow> node_kept ok b c \<Longrightarrow> node_kept ok a c"
  by (auto simp: node_kept_def)

lemma record_failure_ok: "unit_random x \<Longrightarrow> retry_ok m \<Longrightarrow> retry_ok (snd (record_failure time x op tg m))"
  using retry_failure_keeps [of m x time op tg] by (auto simp: unit_random_def)

lemma dial_kept: "node_kept ok n (snd (dial_with_retry N addr n))"
  by (auto simp: dial_with_retry_def swarm_dial_def on_retries_def node_kept_def record_success_ok split: option.splits)

lemma failed_again_kept: "node_kept (unit_random x) n (snd r) \<Longrightarrow> node_kept (unit_random x) n (failed_again time x op tg r)"
  by (auto simp: failed_again_def node_kept_def on_retries_def record_failure_ok split: sum.splits prod.splits)

lemma network_event_kept: "node_kept (unit_random x) n (handle_network_event N time x ev n)"
proof -
  have c: "node_kept ok n (on_retries (clear_backoff key) n)" for key ok by (auto simp: node_kept_def on_retries_def clear_backoff_ok)
  have d: "node_kept (unit_random x) n (failed_again time x op tg (dial_with_retry N addr (on_retries (clear_backoff key) n)))" for op tg addr key
    using failed_again_kept [OF node_kept_trans [OF c dial_kept]] by blast
  have m: "node_kept (unit_random x) n (failed_again time x op tg (retry_send_message p i (on_retries (clear_backoff key) n)))" for op tg p i key
    using failed_again_kept [of x n "retry_send_message p i (on_retries (clear_backoff key) n)"] c by (simp add: retry_send_message_def)
  show ?thesis
    by (cases ev) (auto simp: handle_network_event_def Let_def node_kept_refl intro: c d m split: sum.splits option.splits)
qed

lemma react_kept:
  assumes "react N s n = Some n'"
  shows "node_kept (random_ok s) n n'"
proof (cases s)
  case (From_Swarm ev)
  then show ?thesis using swarm_event_keeps [of N ev n n'] assms by (simp add: node_kept_def)
next
  case (From_Queue time x)
  then show ?thesis using assms network_event_kept [of x "n\<lparr>nd_queue := tl (nd_queue n)\<rparr>" N time "hd (nd_queue n)"]
    by (auto simp: node_kept_def random_ok_def split: list.splits)
qed (use assms in \<open>auto simp: node_kept_def split: if_splits\<close>)

lemma process_events_kept:
  "nd_running n \<Longrightarrow> process_events N ss n = Waiting_Forever \<or>
     (\<exists>n'. process_events N ss n = Looping n' \<and> node_kept (\<forall>s \<in> set ss. random_ok s) n n')"
proof (induction N ss n rule: process_events.induct)
  case (2 N s ss n)
  show ?case
  proof (cases "react N s n")
    case (Some n1)
    then have k: "node_kept (random_ok s) n n1" by (rule react_kept)
    then have "nd_running n1" using "2.prems" by (simp add: node_kept_def)
    then show ?thesis using "2.IH" [OF _ Some] "2.prems" Some k by (auto simp: node_kept_def)
  qed (use "2.prems" in simp)
qed (simp add: node_kept_refl)

lemma bootstrap_kept: "node_kept (unit_random x) n (connect_to_bootstrap_nodes N time x addrs n)"
proof (induction addrs arbitrary: n)
  case (Cons addr addrs)
  let ?n1 = "case dial_with_retry N addr n of
      (Inr _, n1) \<Rightarrow> n1
    | (Inl _, n1) \<Rightarrow>
        (case record_failure time x ''dial'' addr (nd_retry_manager n1) of
           (None, m) \<Rightarrow> n1\<lparr>nd_retry_manager := m\<rparr>
         | (Some delay, m) \<Rightarrow> n1\<lparr>nd_retry_manager := m, nd_timers := nd_timers n1 @ [(delay, addr)]\<rparr>)"
  have "node_kept (unit_random x) n ?n1"
    using dial_kept [of "unit_random x" n N addr] record_failure_ok [of x "nd_retry_manager (snd (dial_with_retry N addr n))" time "''dial''" addr]
    by (auto simp: node_kept_def split: sum.splits prod.splits option.splits)
  then show ?case using Cons.IH [of ?n1] node_kept_trans by fastforce
qed (simp add: node_kept_refl)

lemma started_node:
  assumes "\<not> nd_running n" "node_start N time random ss n = (Inr l, n')"
  shows "l = Waiting_Forever \<or> (\<exists>n2. l = Looping n2 \<and> nd_running n2 \<and> nd_federation_storage n2 = nd_federation_storage n \<and>
    (unit_random random \<longrightarrow> (\<forall>s \<in> set ss. random_ok s) \<longrightarrow> retry_ok (nd_retry_manager n) \<longrightarrow> retry_ok (nd_retry_manager n2)))"
proof -
  obtain addr where addr: "n' = connect_to_bootstrap_nodes N time random (nc_bootstrap_nodes (nd_config n)) (n\<lparr>nd_running := True, nd_listening := nd_listening n @ [addr]\<rparr>)"
    "l = process_events N ss n'"
    using assms by (auto simp: node_start_def Let_def split: sum.splits option.splits)
  have k: "node_kept (unit_random random) (n\<lparr>nd_running := True, nd_listening := nd_listening n @ [addr]\<rparr>) n'" unfolding addr(1) by (rule bootstrap_kept)
  then have "nd_running n'" by (simp add: node_kept_def)
  then show ?thesis using process_events_kept [of n' N ss] addr(2) k by (auto simp: node_kept_def)
qed


definition case_net :: net_env where
  "case_net = \<lparr>nt_peer_id = ''me'', nt_behaviour = None, nt_noise = None, nt_listen = \<lambda>_. None, nt_dial = \<lambda>_ a. if a = ''/a'' then None else Some ''refused'',
     nt_address = Inr, nt_peer = Some, nt_room = \<lambda>k. k < 33, nt_full = ''send failed because channel is full''\<rparr>"

definition case_node :: NetworkNode where
  "case_node = (case network_node_new case_net (Some 9) (node_config_default\<lparr>nc_bootstrap_nodes := [''/a'']\<rparr>) of Inr n \<Rightarrow> n)"


section \<open>A full queue\<close>

text \<open>
  The channel is made for 32 events and takes one more from its only sender. One report of local discovery that names
  more peers than fit leaves the node waiting for ever; what had been queued is never handled.
\<close>

lemma discovery_blocks:
  "\<forall>k. nt_room N k \<longrightarrow> k < 33 \<Longrightarrow> 33 < length (nd_queue n) + length ps \<Longrightarrow> ps \<noteq> [] \<Longrightarrow> mdns_discovered N ps n = None"
proof (induction N ps n rule: mdns_discovered.induct)
  case (2 N peer addr ps n)
  show ?case
  proof (cases "send_event N (PeerDiscovered peer) (add_address peer addr n)")
    case (Some n1)
    let ?n2 = "if peer |\<in>| nd_known_peers n1 then n1 else snd (swarm_dial N addr n1)"
    have "length (nd_queue n) < 33" using Some "2.prems"(1) by (auto simp: send_event_def add_address_def split: if_splits)
    moreover have "length (nd_queue ?n2) = Suc (length (nd_queue n))"
      using send_event_keeps(3) [OF Some] by (simp add: swarm_dial_def add_address_def)
    moreover have "ps \<noteq> []" using "2.prems"(2) calculation(1) by auto
    ultimately have "mdns_discovered N ps ?n2 = None" using "2.IH" [OF Some] "2.prems" by auto
    then show ?thesis using Some by simp
  qed simp
qed simp

lemma discovery_stops_node:
  assumes "\<forall>k. nt_room N k \<longrightarrow> k < 33" "34 \<le> length ps" "nd_running n"
  shows "process_events N (From_Swarm (Behaviour (BE_Mdns (Discovered ps))) # ss) n = Waiting_Forever"
proof -
  have "ps \<noteq> []" using assms(2) by auto
  then show ?thesis using discovery_blocks [OF assms(1), of n ps] assms(2,3)
    by (simp add: handle_swarm_event_def handle_behaviour_event_def handle_mdns_event_def)
qed

text \<open>A bootstrap node that cannot be dialed gets a timer and is in backoff: the timer and the retry task both dial it again.\<close>

lemma bootstrap_retried_twice:
  fixes time :: u64
  assumes "nt_dial N (length (nd_dialed n)) addr = Some e" "retry_ok (nd_retry_manager n)" "unit_random x"
    "failures (retry_key ''dial'' addr) (nd_retry_manager n) < 4"
  defines "n' \<equiv> connect_to_bootstrap_nodes N time x [addr] n"
  shows "addr \<in> snd ` set (nd_timers n') \<and> is_in_backoff ''dial'' addr (nd_retry_manager n')"
proof -
  obtain a m where r: "record_failure time x ''dial'' addr (nd_retry_manager n) = (a, m)" by fastforce
  then obtain d where "a = Some d" "is_in_backoff ''dial'' addr m"
    using record_failure_step [OF assms(2) _ _ r] assms(3,4) by (auto simp: unit_random_def)
  then show ?thesis using r assms(1) by (auto simp: n'_def dial_with_retry_def swarm_dial_def)
qed

end
