(* ===== verification/Federation_Commands.thy ===== *)
theory Federation_Commands
  imports Proposal_Commands Node Engine
begin

text \<open>
  The commands of the federation: those of \<^verbatim>\<open>cli/federation.rs\<close> on a machine, and those of \<^verbatim>\<open>main.rs\<close>, which read a proposal or
  a vote from a file and count the votes of a proposal with the ranked vote of a fresh machine. Each makes a network node of
  its own (theory \<open>Node\<close>). As elsewhere, JSON, the texts of errors and new identities are parameters and the clock is an
  argument; sums of times wrap as in a release build.
\<close>

section \<open>Results of the node\<close>

definition net_ok :: "'s cmd_env \<Rightarrow> string \<Rightarrow> FederationError + 'a \<Rightarrow> CommandError + 'a" where
  "net_ok M what r = map_err (\<lambda>e. CX_Message (what @ '': '' @ federation_error_text (dsp_storage_error (cm_life M)) e)) r"

definition command_node :: "string \<Rightarrow> string \<Rightarrow> string \<Rightarrow> NodeConfig" where
  "command_node address name capability =
     \<lparr>nc_port = Some 0, nc_bootstrap_nodes = [address], nc_name = Some name, nc_capabilities = [capability], nc_protocol_version = ''1.0.0''\<rparr>"

definition parse_address :: "net_env \<Rightarrow> string \<Rightarrow> CommandError + string" where
  "parse_address N address = map_err (\<lambda>e. CX_Message (''Invalid multiaddress: '' @ e)) (nt_address N address)"

section \<open>Arguments and conversions\<close>

definition parse_scope :: "AuthContext \<Rightarrow> string \<Rightarrow> string option \<Rightarrow> CommandError + ProposalScope" where
  "parse_scope auth scope_str coops =
     (if scope_str = ''single-coop'' then
        (case ac_memberships auth of
           m # _ \<Rightarrow> Inr (SingleCoop (mb_namespace m))
         | [] \<Rightarrow> Inl (CX_Message ''No cooperative membership found for the user''))
      else if scope_str = ''multi-coop'' then
        (case coops of
           None \<Rightarrow> Inl (CX_Message ''For multi-coop scope, --coops must be provided with a comma-separated list of cooperative IDs'')
         | Some s \<Rightarrow> Inr (MultiCoop (map trim (split_char CHR '','' s))))
      else if scope_str = ''global'' then Inr GlobalFederation
      else Inl (CX_Message (''Invalid scope: '' @ scope_str)))"

definition parse_model :: "string \<Rightarrow> CommandError + VotingModel" where
  "parse_model model_str =
     (if model_str = ''one-member-one-vote'' then Inr OneMemberOneVote
      else if model_str = ''one-coop-one-vote'' then Inr OneCoopOneVote
      else Inl (CX_Message (''Invalid voting model: '' @ model_str)))"

definition federated_status :: "ProposalStatus \<Rightarrow> FederatedStatus" where
  "federated_status st =
     (case st of
        PT_Draft \<Rightarrow> FS_Open | PT_Deliberation \<Rightarrow> FS_Open | PT_Active \<Rightarrow> FS_Open | PT_Voting \<Rightarrow> FS_Open
      | PT_Approved \<Rightarrow> FS_Closed | PT_Executed \<Rightarrow> FS_Executed | PT_Rejected \<Rightarrow> FS_Rejected | PT_Expired \<Rightarrow> FS_Expired)"

definition local_to_federated_proposal ::
  "i64 \<Rightarrow> Proposal \<Rightarrow> ProposalScope \<Rightarrow> VotingModel \<Rightarrow> u64 option \<Rightarrow> FederatedProposal" where
  "local_to_federated_proposal time p scope model expires_in =
     \<lparr>fp_proposal_id = pp_id p, fp_namespace = ''governance'', fp_options = [''Yes'', ''No''], fp_creator = pp_creator p,
      fp_created_at = of_int (pp_created_at p div 1000000000), fp_scope = scope, fp_voting_model = model,
      fp_expires_at = map_option (\<lambda>seconds. time + seconds) expires_in, fp_status = federated_status (pp_status p)\<rparr>"

definition vote_choice_to_ranked_choices :: "VoteChoice \<Rightarrow> f64 list" where
  "vote_choice_to_ranked_choices choice =
     (case choice of VC_Yes \<Rightarrow> [f64_one, f64_zero] | VC_No \<Rightarrow> [f64_zero, f64_one] | VC_Abstain \<Rightarrow> [f64_zero, f64_zero])"

section \<open>Commands on a machine\<close>

definition load_local_proposal :: "'s cmd_env \<Rightarrow> 's StorageBackend \<Rightarrow> string \<Rightarrow> 's VM \<Rightarrow> CommandError + Proposal" where
  "load_local_proposal M B pid vm =
     bindR (machine_storage ''Storage backend not available'' vm) (\<lambda>s.
     bindR (map_err (cmd_failed M ''Failed to read proposal'') (sb_get B None ''proposals'' (''governance/proposals/'' @ pid) s)) (\<lambda>proposal_data.
       map_err (\<lambda>e. CX_Message (''Failed to parse proposal data: '' @ e)) (cm_proposal_dec M proposal_data)))"

text \<open>A change to the storage of a fork, and the commit on the machine itself.\<close>

definition changed_on_fork ::
  "'s cmd_env \<Rightarrow> 's StorageBackend \<Rightarrow> ('s \<Rightarrow> CommandError + unit) \<Rightarrow> 's VM \<Rightarrow> (CommandError fault, unit, 's VM) outcome" where
  "changed_on_fork M B f vm =
     (case vm_fork (cm_venv M) B vm of
        Inl e \<Rightarrow> (Inl (Err (CX_Message (''Failed to fork VM: '' @ dsp_vm_error (cm_life M) e))), vm)
      | Inr forked \<Rightarrow>
          (case bindR (machine_storage ''Storage backend not available in forked VM'' forked) f of
             Inl e \<Rightarrow> (Inl (Err e), vm)
           | Inr _ \<Rightarrow>
               (case vm_commit_fork_transaction (cm_venv M) B vm of
                  (Inl (Err e), vm') \<Rightarrow> (Inl (Err (CX_Message (''Failed to commit fork transaction: '' @ dsp_vm_error (cm_life M) e))), vm')
                | (Inl Panic, vm') \<Rightarrow> (Inl Panic, vm')
                | (Inr _, vm') \<Rightarrow> (Inr (), vm'))))"

definition store_federated ::
  "'s cmd_env \<Rightarrow> fed_env \<Rightarrow> 's StorageBackend \<Rightarrow> clock \<Rightarrow> AuthContext \<Rightarrow> FederatedProposal \<Rightarrow> 's \<Rightarrow> CommandError + unit" where
  "store_federated M D B t auth p s =
     map_err (cmd_failed M ''Failed to store federated proposal'')
       (fst (save_proposal_with_auth D B t (Some auth) p (federation_new, s)))"

text \<open>A node is made but not started, so the events go to a queue that nobody reads and the node knows no peers.\<close>

definition share_proposal ::
  "'s cmd_env \<Rightarrow> fed_env \<Rightarrow> net_env \<Rightarrow> 's StorageBackend \<Rightarrow> clock \<Rightarrow> i64 \<Rightarrow> string \<Rightarrow> string \<Rightarrow> string \<Rightarrow> ProposalScope \<Rightarrow> VotingModel \<Rightarrow> u64 option \<Rightarrow> AuthContext \<Rightarrow>
     's VM \<Rightarrow> (CommandError fault, unit, 's VM) outcome" where
  "share_proposal M D N B t time uuid pid address scope model expires_in auth vm =
     (case bindR (load_local_proposal M B pid vm) (\<lambda>local_proposal.
           let p = local_to_federated_proposal time local_proposal scope model expires_in in
           bindR (net_ok M ''Failed to create network node''
               (network_node_new N (Some time) (command_node address (''proposal-sharer-'' @ uuid) ''proposal-sharing''))) (\<lambda>node.
           bindR (net_ok M ''Failed to broadcast proposal'' (fst (node_broadcast_proposal N p node))) (\<lambda>_. Inr p))) of
        Inl e \<Rightarrow> (Inl (Err e), vm)
      | Inr p \<Rightarrow> changed_on_fork M B (store_federated M D B t auth p) vm)"

definition receive_proposal ::
  "'s cmd_env \<Rightarrow> fed_env \<Rightarrow> 's StorageBackend \<Rightarrow> clock \<Rightarrow> string + bytes \<Rightarrow> AuthContext \<Rightarrow> 's VM \<Rightarrow> (CommandError fault, unit, 's VM) outcome" where
  "receive_proposal M D B t file auth vm =
     (case bindR (map_err (\<lambda>e. CX_Message (''Failed to read proposal file: '' @ e)) file) (\<lambda>proposal_json.
           map_err (\<lambda>e. CX_Message (''Failed to parse proposal JSON: '' @ e)) (fd_proposal_dec D proposal_json)) of
        Inl e \<Rightarrow> (Inl (Err e), vm)
      | Inr p \<Rightarrow> changed_on_fork M B (store_federated M D B t auth p) vm)"

definition submit_remote_vote ::
  "'s cmd_env \<Rightarrow> fed_env \<Rightarrow> net_env \<Rightarrow> (f64 list \<Rightarrow> string) \<Rightarrow> (FederatedStatus \<Rightarrow> string) \<Rightarrow> (VoteChoice \<Rightarrow> string + bytes) \<Rightarrow> 's StorageBackend \<Rightarrow> clock \<Rightarrow>
     i64 \<Rightarrow> string \<Rightarrow> string \<Rightarrow> string \<Rightarrow> VoteChoice \<Rightarrow> AuthContext \<Rightarrow> 's VM \<Rightarrow> (CommandError fault, unit, 's VM) outcome" where
  "submit_remote_vote M D N choices_text status_text choice_enc B t time uuid pid address vote_choice auth vm =
     (let voter_id = ac_current_identity_did auth;
          ranked_choices = vote_choice_to_ranked_choices vote_choice;
          vote = \<lparr>fv_proposal_id = pid, fv_voter = voter_id, fv_ranked_choices = ranked_choices,
            fv_message = ''Vote for proposal '' @ pid @ '' by '' @ voter_id @ '' with choices '' @ choices_text ranked_choices,
            fv_signature = ''placeholder_signature_for_'' @ voter_id\<rparr>
      in
      case bindR (machine_storage ''Storage backend not available'' vm) (\<lambda>s.
           bindR (map_err (cmd_failed M ''Proposal not found locally'') (fed_get_proposal D B pid federation_new s)) (\<lambda>p.
             if fp_status p \<noteq> FS_Open
             then Inl (CX_Message (''Proposal is not open for voting. Current status: '' @ status_text (fp_status p)))
             else
               bindR (net_ok M ''Failed to create network node''
                   (network_node_new N (Some time) (command_node address (''vote-submitter-'' @ uuid) ''vote-submission''))) (\<lambda>node.
                 net_ok M ''Failed to submit vote'' (fst (node_submit_vote N vote node))))) of
        Inl e \<Rightarrow> (Inl (Err e), vm)
      | Inr _ \<Rightarrow>
          changed_on_fork M B (\<lambda>s.
            bindR (map_err (\<lambda>e. CX_Message (''Failed to serialize vote choice: '' @ e)) (choice_enc vote_choice)) (\<lambda>vote_data.
              map_err (cmd_failed M ''Failed to store vote'')
                (fst (sb_set B t (Some auth) ''votes'' (''votes/'' @ pid @ ''/'' @ voter_id) vote_data s)))) vm)"

text \<open>A sync only tells whether the proposal is there.\<close>

definition sync_proposal :: "'s cmd_env \<Rightarrow> fed_env \<Rightarrow> 's StorageBackend \<Rightarrow> string \<Rightarrow> 's VM \<Rightarrow> CommandError + bool" where
  "sync_proposal M D B pid vm =
     bindR (machine_storage ''Storage backend not available'' vm) (\<lambda>s. Inr (is_ok (fed_get_proposal D B pid federation_new s)))"

record SyncMetadata =
  sm_proposal_id :: string
  sm_last_synced :: u64
  sm_source_node :: string
  sm_comment_count :: "32 word"
  sm_vote_count :: "32 word"

definition fed_status_matches :: "'s life_env \<Rightarrow> string \<Rightarrow> FederatedStatus \<Rightarrow> bool" where
  "fed_status_matches V status st =
     (let v = to_lowercase V status in
      if v = ''open'' then st = FS_Open
      else if v = ''closed'' then st = FS_Closed
      else if v = ''executed'' then st = FS_Executed
      else if v = ''rejected'' then st = FS_Rejected
      else if v = ''expired'' then st = FS_Expired
      else True)"

definition listed_proposal ::
  "'s cmd_env \<Rightarrow> fed_env \<Rightarrow> (bytes \<Rightarrow> string + SyncMetadata) \<Rightarrow> 's StorageBackend \<Rightarrow> string option \<Rightarrow> AuthContext \<Rightarrow> 's \<Rightarrow> string \<Rightarrow>
     (string \<times> FederatedProposal \<times> nat \<times> SyncMetadata option) option" where
  "listed_proposal M D sync_dec B status_filter auth s key =
     (let pid = last (split_char CHR ''/'' key) in
      case bindR (map_err CX_Storage (sb_get B (Some auth) ''federation'' (make_proposal_key pid) s)) (\<lambda>data. map_err CX_Message (fd_proposal_dec D data)) of
        Inl _ \<Rightarrow> None
      | Inr p \<Rightarrow>
          if (case status_filter of Some st \<Rightarrow> \<not> fed_status_matches (cm_life M) st (fp_status p) | None \<Rightarrow> False) then None
          else Some (pid, p,
            case sb_list_keys B (Some auth) ''votes'' (Some (make_votes_key pid)) s of Inr ks \<Rightarrow> length ks | Inl _ \<Rightarrow> 0,
            case sb_get B (Some auth) ''federation'' (make_sync_key pid) s of
              Inl _ \<Rightarrow> None
            | Inr data \<Rightarrow> (case sync_dec data of Inr m \<Rightarrow> Some m | Inl _ \<Rightarrow> None)))"

definition list_federated_proposals ::
  "'s cmd_env \<Rightarrow> fed_env \<Rightarrow> (bytes \<Rightarrow> string + SyncMetadata) \<Rightarrow> 's StorageBackend \<Rightarrow> string option \<Rightarrow> AuthContext \<Rightarrow> 's VM \<Rightarrow>
     CommandError + (string \<times> FederatedProposal \<times> nat \<times> SyncMetadata option) list" where
  "list_federated_proposals M D sync_dec B status_filter auth vm =
     bindR (machine_storage ''Storage backend not available'' vm) (\<lambda>s.
       case sb_list_keys B (Some auth) ''federation'' (Some ''federation/proposals'') s of
         Inl _ \<Rightarrow> Inr []
       | Inr ks \<Rightarrow> Inr (List.map_filter (listed_proposal M D sync_dec B status_filter auth s) ks))"

definition share_command ::
  "'s cmd_env \<Rightarrow> fed_env \<Rightarrow> net_env \<Rightarrow> 's StorageBackend \<Rightarrow> clock \<Rightarrow> i64 \<Rightarrow> string \<Rightarrow> string \<Rightarrow> string \<Rightarrow> string \<Rightarrow> string option \<Rightarrow> string \<Rightarrow> u64 option \<Rightarrow>
     AuthContext \<Rightarrow> 's VM \<Rightarrow> (CommandError fault, unit, 's VM) outcome" where
  "share_command M D N B t time uuid pid address scope_str coops model_str expires_in auth vm =
     (case bindR (parse_address N address) (\<lambda>target.
           bindR (parse_scope auth scope_str coops) (\<lambda>scope.
           bindR (parse_model model_str) (\<lambda>model. Inr (target, scope, model)))) of
        Inl e \<Rightarrow> (Inl (Err e), vm)
      | Inr (target, scope, model) \<Rightarrow> share_proposal M D N B t time uuid pid target scope model expires_in auth vm)"

definition remote_vote_command ::
  "'s cmd_env \<Rightarrow> fed_env \<Rightarrow> net_env \<Rightarrow> (f64 list \<Rightarrow> string) \<Rightarrow> (FederatedStatus \<Rightarrow> string) \<Rightarrow> (VoteChoice \<Rightarrow> string + bytes) \<Rightarrow> 's StorageBackend \<Rightarrow> clock \<Rightarrow>
     i64 \<Rightarrow> string \<Rightarrow> string \<Rightarrow> string \<Rightarrow> string \<Rightarrow> AuthContext \<Rightarrow> 's VM \<Rightarrow> (CommandError fault, unit, 's VM) outcome" where
  "remote_vote_command M D N choices_text status_text choice_enc B t time uuid pid vote_str address auth vm =
     (case vote_choice_from_str (cm_life M) vote_str of
        None \<Rightarrow> (Inl (Err (CX_Message (''Invalid vote choice: '' @ vote_str @ ''. Must be '' @ quoted ''yes'' @ '', '' @ quoted ''no'' @ '', or '' @ quoted ''abstain''))), vm)
      | Some c \<Rightarrow>
          (case parse_address N address of
             Inl e \<Rightarrow> (Inl (Err e), vm)
           | Inr target \<Rightarrow> submit_remote_vote M D N choices_text status_text choice_enc B t time uuid pid target c auth vm))"

definition sync_command :: "'s cmd_env \<Rightarrow> fed_env \<Rightarrow> net_env \<Rightarrow> 's StorageBackend \<Rightarrow> string \<Rightarrow> string \<Rightarrow> 's VM \<Rightarrow> CommandError + bool" where
  "sync_command M D N B pid address vm = bindR (parse_address N address) (\<lambda>_. sync_proposal M D B pid vm)"

section \<open>Files with proposals and votes\<close>

datatype AppError = AX_VM VMError | AX_Compiler CompilerError | AX_IO string | AX_Json string | AX_Federation string | AX_VMEngine VMEngineError | AX_Other string

definition file_scope :: "string \<Rightarrow> string \<Rightarrow> string \<Rightarrow> ProposalScope" where
  "file_scope scope coops creator =
     (if scope = ''single'' then SingleCoop creator
      else if scope = ''multi'' then MultiCoop (map trim (split_char CHR '','' coops))
      else GlobalFederation)"

definition proposal_of_file :: "string \<Rightarrow> string \<Rightarrow> string \<Rightarrow> string \<Rightarrow> u64 option \<Rightarrow> i64 \<Rightarrow> AppError + FederatedProposal" where
  "proposal_of_file content scope model coops expires_in time =
     (let lines = str_lines content in
      if length lines < 4
      then Inl (AX_Other ''Invalid proposal file format. Expected at least 4 lines: ID, namespace, creator, options'')
      else
        let creator = trim (lines ! 2) in
        Inr \<lparr>fp_proposal_id = trim (lines ! 0), fp_namespace = trim (lines ! 1), fp_options = map trim (drop 3 lines), fp_creator = creator,
             fp_created_at = time, fp_scope = file_scope scope coops creator,
             fp_voting_model = (if model = ''coop'' then OneCoopOneVote else OneMemberOneVote),
             fp_expires_at = map_option (\<lambda>seconds. time + seconds) expires_in, fp_status = FS_Open\<rparr>)"

fun parse_choices :: "string list \<Rightarrow> AppError + f64 list" where
  "parse_choices [] = Inr []"
| "parse_choices (s # ss) =
     (case parse_f64 (trim s) of
        None \<Rightarrow> Inl (AX_Other (''Invalid ranked choice: '' @ s))
      | Some v \<Rightarrow> bindR (parse_choices ss) (\<lambda>vs. Inr (v # vs)))"

definition vote_of_file :: "string \<Rightarrow> AppError + FederatedVote" where
  "vote_of_file content =
     (let lines = str_lines content in
      if length lines < 3
      then Inl (AX_Other ''Invalid vote file format. Expected at least 3 lines: proposal ID, voter ID, ranked choices'')
      else
        let proposal_id = trim (lines ! 0); voter = trim (lines ! 1) in
        bindR (parse_choices (split_char CHR '','' (lines ! 2))) (\<lambda>ranked_choices.
          Inr \<lparr>fv_proposal_id = proposal_id, fv_voter = voter, fv_ranked_choices = ranked_choices,
               fv_message = (if length lines > 3 then trim (lines ! 3)
                 else ''Vote from '' @ voter @ '' on proposal '' @ proposal_id @ '' with choices '' @ trim (lines ! 2)),
               fv_signature = (if length lines > 4 then trim (lines ! 4) else ''valid'')\<rparr>))"

text \<open>
  A new node that has been started. The start does not come back while the node runs; then there is no result (\<open>None\<close>),
  whatever the events \<open>ss\<close> of the network are.
\<close>

definition node_ready ::
  "fed_env \<Rightarrow> net_env \<Rightarrow> i64 \<Rightarrow> f64 \<Rightarrow> stimulus list \<Rightarrow> NodeConfig \<Rightarrow> (AppError + NetworkNode) option" where
  "node_ready D N time random ss config =
     (case network_node_new N (Some time) config of
        Inl e \<Rightarrow> Some (Inl (AX_Federation (''Failed to create network node: '' @ federation_error_text (fd_error_text D) e)))
      | Inr node \<Rightarrow>
          (case node_start N time random ss node of
             (Inl e, _) \<Rightarrow> Some (Inl (AX_Federation (''Failed to start network node: '' @ federation_error_text (fd_error_text D) e)))
           | (Inr (Returned started), _) \<Rightarrow> Some (Inr started)
           | (Inr _, _) \<Rightarrow> None))"

definition voting_node :: "16 word \<Rightarrow> string list \<Rightarrow> string \<Rightarrow> NodeConfig" where
  "voting_node port bootstrap_nodes name =
     \<lparr>nc_port = Some port, nc_bootstrap_nodes = bootstrap_nodes, nc_name = Some name, nc_capabilities = [''voting''], nc_protocol_version = ''1.0.0''\<rparr>"

definition federation_failed :: "fed_env \<Rightarrow> string \<Rightarrow> StorageError \<Rightarrow> AppError" where
  "federation_failed D what e = AX_Federation (what @ '': '' @ fd_error_text D e)"

definition sent :: "fed_env \<Rightarrow> string \<Rightarrow> (FederationError, unit, NetworkNode) outcome \<Rightarrow> AppError + unit" where
  "sent D what r = map_err (\<lambda>e. AX_Federation (what @ '': '' @ federation_error_text (fd_error_text D) e)) (fst r)"

text \<open>Both commands make a new in-memory storage for their one proposal or vote.\<close>

definition broadcast_proposal ::
  "fed_env \<Rightarrow> net_env \<Rightarrow> clock \<Rightarrow> i64 \<Rightarrow> f64 \<Rightarrow> stimulus list \<Rightarrow> NodeConfig \<Rightarrow> string + string \<Rightarrow> string \<Rightarrow> string \<Rightarrow> string \<Rightarrow> u64 option \<Rightarrow>
     (AppError + unit) option" where
  "broadcast_proposal D N t time random ss config file scope model coops expires_in =
     (case bindR (map_err AX_IO file) (\<lambda>proposal_content. proposal_of_file proposal_content scope model coops expires_in time) of
        Inl e \<Rightarrow> Some (Inl e)
      | Inr p \<Rightarrow>
          map_option (\<lambda>ready. bindR ready (\<lambda>node.
            bindR (map_err (federation_failed D ''Failed to store proposal'') (fst (save_proposal D in_memory t p (nd_federation_storage node, im_new)))) (\<lambda>_.
              sent D ''Failed to broadcast proposal'' (node_broadcast_proposal N p node))))
            (node_ready D N time random ss config))"

definition submit_vote ::
  "fed_env \<Rightarrow> net_env \<Rightarrow> clock \<Rightarrow> i64 \<Rightarrow> f64 \<Rightarrow> stimulus list \<Rightarrow> NodeConfig \<Rightarrow> string + string \<Rightarrow> (AppError + unit) option" where
  "submit_vote D N t time random ss config file =
     (case bindR (map_err AX_IO file) vote_of_file of
        Inl e \<Rightarrow> Some (Inl e)
      | Inr v \<Rightarrow>
          map_option (\<lambda>ready. bindR ready (\<lambda>node.
            bindR (map_err (federation_failed D ''Failed to store vote'') (fst (save_vote D in_memory t v None (nd_federation_storage node, im_new)))) (\<lambda>_.
              sent D ''Failed to submit vote'' (node_submit_vote N v node))))
            (node_ready D N time random ss config))"

section \<open>Counting federated votes\<close>

definition not_expired :: "i64 \<Rightarrow> bool \<Rightarrow> FederatedProposal \<Rightarrow> AppError + unit" where
  "not_expired time force p =
     (case fp_expires_at p of
        None \<Rightarrow> Inr ()
      | Some expires_at \<Rightarrow>
          if sint time < sint expires_at \<and> \<not> force
          then
            let remaining_minutes = (sint expires_at - sint time) div 60 in
            Inl (AX_Federation (''Proposal has not expired yet. '' @ show_nat (nat (remaining_minutes div 60)) @ '' hours '' @
              show_nat (nat (remaining_minutes mod 60)) @ '' minutes remaining. Use --force to override.''))
          else Inr ())"

text \<open>An identity for a voter, if it can be made, with the text before an underscore as its cooperative.\<close>

definition voter_identity :: "fed_env \<Rightarrow> (string \<Rightarrow> string + Identity) \<Rightarrow> string \<Rightarrow> Identity option" where
  "voter_identity D mk voter =
     (case mk voter of
        Inl _ \<Rightarrow> None
      | Inr i \<Rightarrow> Some (if CHR ''_'' \<in> set voter then add_metadata D ''coop_id'' (takeWhile (\<lambda>c. c \<noteq> CHR ''_'') voter) i else i))"

definition voter_identities :: "fed_env \<Rightarrow> (string \<Rightarrow> string + Identity) \<Rightarrow> FederatedVote list \<Rightarrow> (string, Identity) fmap" where
  "voter_identities D mk votes =
     fold (\<lambda>v ids. case voter_identity D mk (fv_voter v) of Some i \<Rightarrow> fmupd (fv_voter v) i ids | None \<Rightarrow> ids) votes fmempty"

definition push_ballots :: "f64 list list \<Rightarrow> 's VM \<Rightarrow> 's VM" where
  "push_ballots ballots vm = fold (\<lambda>pref. vm_push (Number pref)) (concat ballots) vm"

definition winning_option ::
  "venv \<Rightarrow> nat \<Rightarrow> string list \<Rightarrow> f64 list list \<Rightarrow> (AppError fault + string) option" where
  "winning_option E n options ballots =
     (case execute E in_memory n [OpRankedVote (length options) (length ballots)] (push_ballots ballots vm_new) of
        None \<Rightarrow> None
      | Some (Inl (Err e), _) \<Rightarrow> Some (Inl (Err (AX_VM e)))
      | Some (Inl Panic, _) \<Rightarrow> Some (Inl Panic)
      | Some (Inr _, vm) \<Rightarrow>
          Some (case stack_top (vm_stack vm) of
                  None \<Rightarrow> Inl (Err (AX_Federation ''No result from ranked vote''))
                | Some v \<Rightarrow>
                    let winner_index = f64_as_nat 64 (num_of E v) in
                    if winner_index < length options then Inr (options ! winner_index)
                    else Inl (Err (AX_Federation (''Invalid winner index: '' @ show_nat winner_index)))))"

text \<open>The count of a proposal: the winning option, or nothing when there is no vote.\<close>

definition count_federated ::
  "venv \<Rightarrow> fed_env \<Rightarrow> (string \<Rightarrow> string + Identity) \<Rightarrow> nat \<Rightarrow> i64 \<Rightarrow> string \<Rightarrow> bool \<Rightarrow> FederationStorage \<Rightarrow> InMemoryStorage \<Rightarrow>
     (AppError fault + string option) option" where
  "count_federated E D mk n time pid force F s =
     (case bindR (map_err (federation_failed D ''Failed to load proposal'') (fed_get_proposal D in_memory pid F s)) (\<lambda>p.
           bindR (not_expired time force p) (\<lambda>_.
           bindR (map_err (federation_failed D ''Failed to load votes'') (get_votes D in_memory pid F s)) (\<lambda>votes. Inr (p, votes)))) of
        Inl e \<Rightarrow> Some (Inl (Err e))
      | Inr (p, votes) \<Rightarrow>
          if votes = [] then Some (Inr None)
          else map_option (\<lambda>r. bindR r (\<lambda>w. Inr (Some w)))
            (winning_option E n (fp_options p) (prepare_ranked_ballots D votes p (voter_identities D mk votes))))"

definition execute_proposal_command ::
  "venv \<Rightarrow> fed_env \<Rightarrow> net_env \<Rightarrow> (string \<Rightarrow> string + Identity) \<Rightarrow> nat \<Rightarrow> i64 \<Rightarrow> f64 \<Rightarrow> stimulus list \<Rightarrow> NodeConfig \<Rightarrow> string \<Rightarrow> bool \<Rightarrow>
     (AppError fault + string option) option" where
  "execute_proposal_command E D N mk n time random ss config pid force =
     (case node_ready D N time random ss config of
        None \<Rightarrow> None
      | Some (Inl e) \<Rightarrow> Some (Inl (Err e))
      | Some (Inr node) \<Rightarrow> count_federated E D mk n time pid force (nd_federation_storage node) im_new)"

section \<open>Ballots on the stack\<close>

lemma pop_ballot_pushed:
  assumes num: "\<And>x. num_of E (Number x) = x"
  shows "stack_vec (vm_stack vm) = xs @ map Number b \<Longrightarrow>
    pop_ballot E (length b) vm = (Inr (rev b), vm\<lparr>vm_stack := \<lparr>stack_vec = xs\<rparr>\<rparr>)"
proof (induction b arbitrary: vm rule: rev_induct)
  case Nil
  then have "vm_stack vm = \<lparr>stack_vec = xs\<rparr>" by (cases "vm_stack vm") simp
  then show ?case by (cases vm) simp
next
  case (snoc x b)
  have "pop_one ''RankedVote'' vm = (Inr (Number x), vm\<lparr>vm_stack := \<lparr>stack_vec = xs @ map Number b\<rparr>\<rparr>)"
    using snoc.prems by (simp add: pop_one_def on_stack_def stack_pop_def butlast_append)
  then show ?case using snoc.IH [of "vm\<lparr>vm_stack := \<lparr>stack_vec = xs @ map Number b\<rparr>\<rparr>"] by (simp add: bindE_def num)
qed

lemma pop_ballots_pushed:
  assumes num: "\<And>x. num_of E (Number x) = x"
  shows "\<forall>b \<in> set bs. length b = c \<Longrightarrow> stack_vec (vm_stack vm) = xs @ map Number (concat bs) \<Longrightarrow>
    pop_ballots E c (length bs) vm = (Inr (rev (map rev bs)), vm\<lparr>vm_stack := \<lparr>stack_vec = xs\<rparr>\<rparr>)"
proof (induction bs arbitrary: vm rule: rev_induct)
  case Nil
  then have "vm_stack vm = \<lparr>stack_vec = xs\<rparr>" by (cases "vm_stack vm") simp
  then show ?case by (cases vm) simp
next
  case (snoc b bs)
  have "pop_ballot E (length b) vm = (Inr (rev b), vm\<lparr>vm_stack := \<lparr>stack_vec = xs @ map Number (concat bs)\<rparr>\<rparr>)"
    by (rule pop_ballot_pushed [OF num]) (use snoc.prems in simp)
  then show ?case using snoc.prems(1) snoc.IH [of "vm\<lparr>vm_stack := \<lparr>stack_vec = xs @ map Number (concat bs)\<rparr>\<rparr>"] by (simp add: bindE_def)
qed

lemma push_ballots_stack: "stack_vec (vm_stack (push_ballots bs vm)) = stack_vec (vm_stack vm) @ map Number (concat bs)"
proof -
  have "stack_vec (vm_stack (fold (\<lambda>p. vm_push (Number p)) ps vm)) = stack_vec (vm_stack vm) @ map Number ps" for ps
    by (induction ps arbitrary: vm) (simp_all add: vm_push_def stack_push_def)
  then show ?thesis by (simp add: push_ballots_def)
qed

lemma push_ballots_modes: "vm_simulation_mode (push_ballots bs vm) = vm_simulation_mode vm" "vm_explain_enabled (push_ballots bs vm) = vm_explain_enabled vm"
proof -
  have "vm_simulation_mode (fold (\<lambda>p. vm_push (Number p)) ps vm) = vm_simulation_mode vm \<and>
      vm_explain_enabled (fold (\<lambda>p. vm_push (Number p)) ps vm) = vm_explain_enabled vm" for ps
    by (induction ps arbitrary: vm) (simp_all add: vm_push_def)
  then show "vm_simulation_mode (push_ballots bs vm) = vm_simulation_mode vm" "vm_explain_enabled (push_ballots bs vm) = vm_explain_enabled vm"
    by (simp_all add: push_ballots_def)
qed

lemma execute_ranked_vote:
  "\<not> vm_explain_enabled vm \<Longrightarrow> execute E B (Suc n) [OpRankedVote c b] vm = Some (handle_ranked_vote E c b vm)"
  by (simp add: execute_def exec_op_def log_explanation_def Let_def simulated_def dispatch_def exec_other_def try_handle_governance_op_def
      stopping_def obind_def bindE_def split: sum.splits prod.splits)

section \<open>The count of two options\<close>

lemma two_rounds:
  assumes "length votes = 2" "el = (if (0 < votes ! 0 \<and> (votes ! 0 \<le> votes ! 1 \<or> votes ! 1 = 0)) \<or> votes ! 1 = 0 then [True, False] else [False, True])"
    "votes ! 0 + votes ! 1 \<le> n"
  shows "[False, False][snd (fewest_votes n [False, False] votes) := True] = el"
proof -
  obtain a b where v: "votes = [a, b]" using assms(1) by (cases votes; cases "tl votes") auto
  show ?thesis using assms(2,3) by (auto simp: v fewest_votes_def)
qed

lemma first_choices:
  "first_choice 2 [False, False] (ballot_choices (rev (vote_choice_to_ranked_choices c))) = Some (if c = VC_No then 1 else 0)"
  by (cases c) (simp_all add: vote_choice_to_ranked_choices_def ballot_choices_def first_choice_def f64_one_def f64_zero_def)

lemma runoff_two_options:
  "fst (runoff E 2 bs 2 [False, False] vm) = [False, False][snd (fewest_votes (length bs) [False, False] (count_votes 2 [False, False] bs)) := True]"
  by (simp add: runoff.simps [of E 2 bs 2] runoff.simps [of E 2 bs "Suc 0"] Let_def case_prod_beta)

lemma ranked_vote_pushes:
  assumes "pop_ballots E c b vm = (Inr bs, vm1)" "2 \<le> c" "1 \<le> b"
    "\<And>vm :: 's VM. fst (runoff E c (map ballot_choices bs) c (replicate c False) vm) = el"
  shows "\<exists>vm2. handle_ranked_vote E c b (vm :: 's VM) = (Inr (), vm_push (Number (f64_of_nat (winner_of el))) vm2)"
  using assms(2,3) unfolding handle_ranked_vote_def assms(1) bindE_def Let_def case_prod_beta
  by (simp add: assms(4) del: One_nat_def) blast

lemma winner_number: "f64_as_nat 64 (f64_of_nat 0) = 0" "f64_as_nat 64 (f64_of_nat 1) = 1"
  using round_f64_int [of 0 False] round_f64_int [of 1 False] by (simp_all add: f64_of_nat_def f64_of_int_def)



section \<open>What the commands leave behind\<close>

lemma changed_on_fork_refused:
  assumes "idle vm"
  shows "\<exists>e. changed_on_fork M B f vm = (Inl (Err e), vm)"
proof -
  obtain e where "vm_commit_fork_transaction (cm_venv M) B vm = (Inl (Err e), vm)" using no_transaction_end(1) assms by blast
  then show ?thesis by (simp add: changed_on_fork_def split: sum.splits)
qed

text \<open>Sharing, receiving and remote votes all end with such a change, so on an idle machine none of them takes effect.\<close>

lemma federation_commands_refused:
  assumes "idle vm"
  shows "\<exists>e. share_command M D N B t time uuid pid address scope coops model expires auth vm = (Inl (Err e), vm)"
    "\<exists>e. receive_proposal M D B t file auth vm = (Inl (Err e), vm)"
    "\<exists>e. remote_vote_command M D N ct st ce B t time uuid pid vote address auth vm = (Inl (Err e), vm)"
  using changed_on_fork_refused [OF assms]
  by (auto simp: share_command_def share_proposal_def receive_proposal_def remote_vote_command_def submit_remote_vote_def Let_def
      split: sum.splits option.splits)

text \<open>The commands that read files never get past the start of their node: they fail before it or have no result.\<close>

lemma node_never_ready: "node_ready D N time random ss config \<noteq> Some (Inr node)"
proof
  assume r: "node_ready D N time random ss config = Some (Inr node)"
  obtain n where n: "network_node_new N (Some time) config = Inr n" using r by (auto simp: node_ready_def split: sum.splits)
  then have stopped: "\<not> nd_running n" by (auto simp: network_node_new_def split: option.splits)
  obtain n' where "node_start N time random ss n = (Inr (Returned node), n')"
    using r n by (auto simp: node_ready_def split: sum.splits prod.splits loop_state.splits)
  then show False using started_node [OF stopped] by blast
qed

lemma file_commands_fail:
  "broadcast_proposal D N t time random ss config file scope model coops expires \<noteq> Some (Inr ())"
  "submit_vote D N t time random ss config vfile \<noteq> Some (Inr ())"
  "execute_proposal_command E D N mk n time random ss config pid force \<noteq> Some (Inr w)"
  using node_never_ready [of D N time random ss config]
  by (auto simp: broadcast_proposal_def submit_vote_def execute_proposal_command_def bindR_def split: sum.splits option.splits)

text \<open>And past it they would store without an identity in a storage that demands one, and look for the proposal in an empty storage.\<close>

lemma unsigned_set_fails: "\<not> is_ok (fst (set_json in_memory ty enc t None ns k v s))"
  by (auto simp: set_json_def in_memory_def im_set_def is_ok_def Let_def split: sum.splits)

lemma empty_storage_fails: "\<exists>e. fed_get_proposal D in_memory pid federation_new im_new = Inl e"
  by (auto simp: fed_get_proposal_def federation_new_def lock_cache_def get_json_def in_memory_def im_get_def im_new_def check_permission_def
      nlookup_def bindR_def map_err_def split: sum.splits)

lemma after_the_node:
  "\<not> is_ok (fst (save_proposal D in_memory t p (F, s)))"
  "\<not> is_ok (fst (save_vote D in_memory t v i (federation_new, im_new)))"
  "\<exists>e. count_federated E D mk n time pid force federation_new im_new = Some (Inl (Err e))"
proof -
  show "\<not> is_ok (fst (save_proposal D in_memory t p (F, s)))"
    using unsigned_set_fails [of "''FederatedProposal''" "fd_proposal_enc D" t "fp_namespace p" "make_proposal_key (fp_proposal_id p)" p s]
    by (auto simp: save_proposal_def save_under_def split: sum.splits prod.splits)
  show "\<not> is_ok (fst (save_vote D in_memory t v i (federation_new, im_new)))"
    using empty_storage_fails [of D "fv_proposal_id v"] by (auto simp: save_vote_def vote_admitted_def bindR_def is_ok_def)
  show "\<exists>e. count_federated E D mk n time pid force federation_new im_new = Some (Inl (Err e))"
    using empty_storage_fails [of D pid] by (auto simp: count_federated_def bindR_def map_err_def split: sum.splits)
qed

end
