(* ===== verification/Shell.thy ===== *)
theory Shell
  imports Federation_Commands
begin

text \<open>
  The interactive shell of \<^verbatim>\<open>main.rs\<close> and its helpers: a machine over a new in-memory storage and a loop that takes lines,
  either commands of the shell or programs of one line. Reading lines and printing are left out; the answer to a line is
  the next state, the end of the shell, or an error that ends it. As in the rest of the development a run that needs more
  fuel has no result.
\<close>

section \<open>State\<close>

record Shell =
  sh_vm :: "InMemoryStorage VM"
  sh_use_bytecode :: bool
  sh_simulate :: bool
  sh_trace :: bool
  sh_explain :: bool
  sh_verbose_storage_trace :: bool

datatype answer = Next Shell | Done | Fails AppError | Crashes

definition create_storage_backend :: "string \<Rightarrow> string \<Rightarrow> InMemoryStorage" where
  "create_storage_backend backend_type path = im_new"

definition create_demo_auth_context :: AuthContext where
  "create_demo_auth_context = create_default_auth_context (Some ''demo-user'') (Some ''user'')"

definition fresh_machine :: "bool \<Rightarrow> bool \<Rightarrow> bool \<Rightarrow> InMemoryStorage VM" where
  "fresh_machine sim tr ex =
     vm_set_namespace ''demo'' (vm_set_auth_context create_demo_auth_context
       (set_explanation ex (set_tracing tr (set_simulation_mode sim vm_new))))"

definition shell_start :: "bool \<Rightarrow> (string, string) fmap \<Rightarrow> string \<Rightarrow> string \<Rightarrow> bool \<Rightarrow> bool \<Rightarrow> bool \<Rightarrow> bool \<Rightarrow> Shell" where
  "shell_start use_bytecode parameters backend path sim tr ex verbose =
     \<lparr>sh_vm = set_parameters parameters
        (vm_set_storage_backend (create_storage_backend backend path)
          (vm_set_namespace ''demo'' (vm_set_auth_context create_demo_auth_context
            (set_verbose_storage_trace verbose (set_explanation ex (set_tracing tr (set_simulation_mode sim vm_new))))))),
      sh_use_bytecode = use_bytecode, sh_simulate = sim, sh_trace = tr, sh_explain = ex,
      sh_verbose_storage_trace = verbose\<rparr>"

section \<open>Lines\<close>

definition on_machine :: "(InMemoryStorage VM \<Rightarrow> InMemoryStorage VM) \<Rightarrow> Shell \<Rightarrow> Shell" where
  "on_machine f sh = sh\<lparr>sh_vm := f (sh_vm sh)\<rparr>"

text \<open>A new machine with the settings the shell was started with, but no storage.\<close>

definition shell_reset :: "Shell \<Rightarrow> Shell" where
  "shell_reset sh = sh\<lparr>sh_vm := fresh_machine (sh_simulate sh) (sh_trace sh) (sh_explain sh)\<rparr>"

text \<open>The shell starts again with a new storage; the variables come back as parameters made from their texts.\<close>

definition switch_mode :: "bool \<Rightarrow> string \<Rightarrow> string \<Rightarrow> Shell \<Rightarrow> answer" where
  "switch_mode use_bytecode backend path sh =
     (case get_memory_map (vm_memory (sh_vm sh)) of
        Inl _ \<Rightarrow> Crashes
      | Inr m \<Rightarrow>
          Next (shell_start use_bytecode (fmmap tv_display m) backend path (vm_simulation_mode (sh_vm sh)) (vm_trace_enabled (sh_vm sh))
            (vm_explain_enabled (sh_vm sh)) (sh_verbose_storage_trace sh)))"

text \<open>A program: a parse error is printed, and so is an error of the interpreter; one of the bytecode ends the shell.\<close>

definition shell_program ::
  "venv \<Rightarrow> (BytecodeOp \<Rightarrow> string) \<Rightarrow> nat \<Rightarrow> string \<Rightarrow> Shell \<Rightarrow> answer option" where
  "shell_program E dbg n program sh =
     (case parse_dsl program of
        Inl (Err _) \<Rightarrow> Some (Next sh)
      | Inl Panic \<Rightarrow> Some Crashes
      | Inr (ops, _) \<Rightarrow>
          if sh_use_bytecode sh then
            (case bytecode_execute E dbg in_memory n (interpreter_new
                (fresh_machine (vm_simulation_mode (sh_vm sh)) (vm_trace_enabled (sh_vm sh)) (vm_explain_enabled (sh_vm sh))) (compile ops)) of
               None \<Rightarrow> None
             | Some (Inl (Err e), _) \<Rightarrow> Some (Fails (AX_VM e))
             | Some (Inl Panic, _) \<Rightarrow> Some Crashes
             | Some (Inr _, b) \<Rightarrow>
                 Some (Next (on_machine (\<lambda>vm. vm\<lparr>vm_stack := vm_stack (bi_vm b), vm_memory := vm_memory (bi_vm b)\<rparr>) sh)))
          else
            (case execute E in_memory n ops (sh_vm sh) of
               None \<Rightarrow> None
             | Some (Inl Panic, _) \<Rightarrow> Some Crashes
             | Some (_, vm') \<Rightarrow> Some (Next (sh\<lparr>sh_vm := vm'\<rparr>))))"

definition shell_line ::
  "venv \<Rightarrow> (BytecodeOp \<Rightarrow> string) \<Rightarrow> nat \<Rightarrow> string \<Rightarrow> string \<Rightarrow> string \<Rightarrow> Shell \<Rightarrow> answer option" where
  "shell_line E dbg n backend path line sh =
     (let trimmed = trim line in
      if trimmed = [] then Some (Next sh)
      else if trimmed = ''exit'' \<or> trimmed = ''quit'' then Some Done
      else if trimmed = ''help'' \<or> trimmed = ''stack'' then Some (Next sh)
      else if trimmed = ''memory'' then Some (if is_ok (get_memory_map (vm_memory (sh_vm sh))) then Next sh else Crashes)
      else if trimmed = ''reset'' then Some (Next (shell_reset sh))
      else if trimmed = ''trace on'' then Some (Next (on_machine (set_tracing True) sh))
      else if trimmed = ''trace off'' then Some (Next (on_machine (set_tracing False) sh))
      else if trimmed = ''explain on'' then Some (Next (on_machine (set_explanation True) sh))
      else if trimmed = ''explain off'' then Some (Next (on_machine (set_explanation False) sh))
      else if trimmed = ''simulate on'' then Some (Next (on_machine (set_simulation_mode True) sh))
      else if trimmed = ''simulate off'' then Some (Next (on_machine (set_simulation_mode False) sh))
      else if trimmed = ''storage-trace on'' then Some (Next (on_machine (set_verbose_storage_trace True) sh))
      else if trimmed = ''storage-trace off'' then Some (Next (on_machine (set_verbose_storage_trace False) sh))
      else if trimmed = ''mode ast'' then Some (switch_mode False backend path sh)
      else if trimmed = ''mode bytecode'' then Some (switch_mode True backend path sh)
      else if starts_with ''save '' trimmed \<or> starts_with ''load '' trimmed then Some (Next sh)
      else shell_program E dbg n trimmed sh)"

text \<open>The loop over the lines typed; at the end of the input the shell ends.\<close>

fun run_interactive ::
  "venv \<Rightarrow> (BytecodeOp \<Rightarrow> string) \<Rightarrow> nat \<Rightarrow> string \<Rightarrow> string \<Rightarrow> string list \<Rightarrow> Shell \<Rightarrow> (Shell \<times> answer) option" where
  "run_interactive E dbg n backend path [] sh = Some (sh, Done)"
| "run_interactive E dbg n backend path (line # lines) sh =
     (case shell_line E dbg n backend path line sh of
        None \<Rightarrow> None
      | Some (Next sh') \<Rightarrow> run_interactive E dbg n backend path lines sh'
      | Some a \<Rightarrow> Some (sh, a))"

section \<open>A session and a program\<close>

text \<open>Operations after which the sequence goes on: all but the leaving ones and those of governance and identity, which end it.\<close>

definition flows :: "Op \<Rightarrow> bool" where
  "flows op = (case dispatch op of D_Return \<Rightarrow> False | D_Break \<Rightarrow> False | D_Continue \<Rightarrow> False | D_Other \<Rightarrow> False | _ \<Rightarrow> True)"

lemma exec_loop_none: "exec_loop inner body k LC_None vm = Some (Inr lc, vm') \<Longrightarrow> lc = LC_None"
  by (induction k arbitrary: vm) (auto simp: obind_Some_iff)

lemma exec_while_none: "exec_while inner c body k LC_None vm = Some (Inr lc, vm') \<Longrightarrow> lc = LC_None"
  by (induction k arbitrary: vm) (auto simp: obind_Some_iff split: if_splits)

lemma exec_op_flows:
  assumes "flows op" "exec_op E B inner n op LC_None vm = Some (Inr fl, vm')"
  shows "fl = Go LC_None"
  using assms
  by (auto simp: exec_op_def Let_def flows_def going_def obind_Some_iff dest: exec_loop_none exec_while_none split: if_splits dispatch.splits)

lemma exec_ops_append:
  "\<forall>op \<in> set a. flows op \<Longrightarrow>
     exec_ops E B inner n (a @ b) LC_None vm = obind (exec_ops E B inner n a LC_None vm) (\<lambda>_ vm1. exec_ops E B inner n b LC_None vm1)"
proof (induction a arbitrary: vm)
  case (Cons op a)
  show ?case
  proof (cases "exec_op E B inner n op LC_None vm")
    case (Some x)
    obtain r vm1 where x: "x = (r, vm1)" by (cases x)
    show ?thesis
    proof (cases r)
      case (Inr fl)
      then have "fl = Go LC_None" using exec_op_flows [of op E B inner n vm fl vm1] Some x Cons.prems by simp
      then show ?thesis using Some x Inr Cons by simp
    qed (simp add: Some x)
  qed simp
qed simp

definition shell_word :: "string \<Rightarrow> bool" where
  "shell_word w \<longleftrightarrow> w \<in> set [[], ''exit'', ''quit'', ''help'', ''stack'', ''memory'', ''reset'', ''trace on'', ''trace off'', ''explain on'', ''explain off'',
     ''simulate on'', ''simulate off'', ''storage-trace on'', ''storage-trace off'', ''mode ast'', ''mode bytecode''] \<or> starts_with ''save '' w \<or> starts_with ''load '' w"

lemma shell_line_program: "\<not> shell_word (trim line) \<Longrightarrow> shell_line E dbg n backend path line sh = shell_program E dbg n (trim line) sh"
  by (simp add: shell_line_def shell_word_def Let_def)


definition case_line :: string where
  "case_line = '' emit '' @ [CHR 0x22] @ ''hi'' @ [CHR 0x22]"

definition case_shell :: Shell where
  "case_shell = shell_start False fmempty ''memory'' [] False False False False"


section \<open>What the shell forgets\<close>

lemma reset_drops_storage: "ex_storage_backend (vm_executor (sh_vm (shell_reset sh))) = None"
  by (simp add: shell_reset_def fresh_machine_def vm_set_namespace_def vm_set_auth_context_def set_explanation_def set_tracing_def set_simulation_mode_def
      set_namespace_def set_auth_context_def vm_new_def execution_new_def)

lemma switch_loses_stored: "switch_mode b backend path sh = Next sh' \<Longrightarrow>
    ex_storage_backend (vm_executor (sh_vm sh')) = Some im_new \<and> stack_vec (vm_stack (sh_vm sh')) = []"
  by (auto simp: switch_mode_def shell_start_def set_parameters_def create_storage_backend_def vm_set_storage_backend_def set_storage_backend_def
      vm_set_namespace_def vm_set_auth_context_def set_explanation_def set_tracing_def set_simulation_mode_def set_verbose_storage_trace_def
      set_namespace_def set_auth_context_def vm_new_def stack_new_def split: sum.splits)

text \<open>In bytecode mode a line does not see the stack and the variables of the lines before it.\<close>

lemma bytecode_line_forgets:
  assumes "sh_use_bytecode sh" "shell_program E dbg n program sh = Some (Next sh')" "is_ok (parse_dsl program)"
  shows "shell_program E dbg n program (on_machine (\<lambda>vm. vm\<lparr>vm_stack := s, vm_memory := m\<rparr>) sh) = Some (Next sh')"
  using assms by (auto simp: shell_program_def on_machine_def split: sum.splits option.splits prod.splits fault.splits)

end
