(* ===== verification/Spec2Isabelle.thy ===== *)
theory Spec2Isabelle
  imports In_Memory Compiler Simulation Ledger Stdlib Lifecycle File_Cases Federation Comments Proposal_Views Engine Dsl_Macro Shell
begin

text \<open>
  Verification library of the cooperative virtual machine \<^verbatim>\<open>icn-covm\<close> (\<^verbatim>\<open>src/crates/icn-covm\<close>) and of
  its ledger \<^verbatim>\<open>icn-ledger\<close>.

  \<^bold>\<open>The program.\<close> Programs are written in an indented text language (\<^verbatim>\<open>compiler/\<close>), parsed to operations (\<^verbatim>\<open>Op\<close>) and
  run by a stack machine (\<^verbatim>\<open>vm/\<close>) or compiled to bytecode (\<^verbatim>\<open>bytecode.rs\<close>). The machine holds a stack, a memory with
  call frames, and an executor that talks to a storage backend (\<^verbatim>\<open>storage/\<close>) under an authorisation context. Over the
  storage there are economic operations (resources, balances), versions, namespaces, quotas and transactions. The
  governance part (\<^verbatim>\<open>governance/\<close>) has the voting operations of the machine and the life of a proposal, whose attached
  logic is a program run on a fork of the machine. The ledger records the events of proposals as a graph in a file. Around this
  core there are commands on proposals, comments and the ledger (\<^verbatim>\<open>cli/\<close>), an interactive shell (\<^verbatim>\<open>main.rs\<close>), the entry points
  of the library (\<^verbatim>\<open>lib.rs\<close>) and a network node that exchanges proposals and votes with others (\<^verbatim>\<open>federation/\<close>).

  \<^bold>\<open>Theories and what they model.\<close>
  \<^item> \<open>Prelude\<close>: results and outcomes (an error keeps the state it happened in), decimal texts, saturating words, keys of
    hash maps in sorted order.
  \<^item> \<open>F64\<close>, \<open>F64_Text\<close>, \<open>F64_Order\<close>: IEEE doubles as exact rationals with explicit rounding, their Rust text and parser,
    square roots, and monotonicity of rounding.
  \<^item> \<open>Typed\<close> (\<^verbatim>\<open>typed.rs\<close>), \<open>VM_Types\<close> (\<^verbatim>\<open>vm/types.rs\<close>, \<^verbatim>\<open>vm/errors.rs\<close>, \<^verbatim>\<open>storage/errors.rs\<close>), \<open>VM_Stack\<close>, \<open>VM_Memory\<close>.
  \<^item> \<open>Auth\<close>, \<open>Versioning\<close>, \<open>Accounts\<close>, \<open>Namespaces\<close>, \<open>Storage_API\<close> (\<^verbatim>\<open>storage/traits.rs\<close>: the trait as a record of
    operations, the default methods over it and the locale \<open>storage_backend\<close> with its contract), \<open>In_Memory\<close>.
  \<^item> \<open>Execution\<close> (\<^verbatim>\<open>vm/execution.rs\<close>), \<open>VM_State\<close>, \<open>Governance\<close> (the four voting handlers), \<open>Machine\<close> (\<^verbatim>\<open>vm/vm.rs\<close>, the
    interpreter loop), \<open>Simulation\<close> (what simulation mode keeps).
  \<^item> \<open>Bytecode\<close>, \<open>Compiler\<close>: instructions, interpreter and compiler of \<^verbatim>\<open>bytecode.rs\<close> and the simulation proof.
  \<^item> \<open>Text\<close>, \<open>Dsl_Line\<close>, \<open>Dsl_Block\<close>, \<open>Dsl\<close>, \<open>Dsl_Print\<close>, \<open>Stdlib\<close>: Rust string functions, the parsers of \<^verbatim>\<open>compiler/\<close>, a
    printer and the round trip, the standard library text run on the machine.
  \<^item> \<open>Ledger\<close>: the whole of \<^verbatim>\<open>icn-ledger/src/lib.rs\<close>, files included.
  \<^item> \<open>Lifecycle\<close>: \<^verbatim>\<open>governance/proposal_lifecycle.rs\<close> and \<^verbatim>\<open>governance/proposal.rs\<close> with a step relation.
  \<^item> \<open>Files\<close> (directories and files as \<^verbatim>\<open>std::fs\<close> has them, every call able to fail), \<open>File_Storage\<close> (the whole of
    \<^verbatim>\<open>storage/implementations/file_storage.rs\<close>), \<open>File_Views\<close> (the history of a key that its files represent, and what a
    set does to it), \<open>File_Rollback\<close> (transactions of sets on a tidy disk), \<open>File_Cases\<close> (runs, and departures from intent).
  \<^item> \<open>Federation\<close>: \<^verbatim>\<open>federation/storage.rs\<close> with the proposals and votes of \<^verbatim>\<open>federation/messages.rs\<close>: a cache over any
    backend, the checks a vote passes, the ballots of a count. \<open>Retry\<close>, \<open>Node\<close>: the retry manager and the network node of
    \<^verbatim>\<open>federation/node.rs\<close>, its handlers and its loop over any sequence of events.
  \<^item> \<open>Comments\<close>: \<^verbatim>\<open>governance/comments.rs\<close>, comments with their versions and the handlers on the machine's storage.
  \<^item> \<open>Engine\<close>: the entry points of \<^verbatim>\<open>lib.rs\<close>, from source text and options to a result. \<open>Dsl_Macro\<close>: \<^verbatim>\<open>compiler/macros.rs\<close>.
  \<^item> \<open>Proposal_Commands\<close>, \<open>Threads\<close>, \<open>Proposal_Views\<close>: the commands of \<^verbatim>\<open>cli/proposal.rs\<close> and \<^verbatim>\<open>cli/utils.rs\<close> (proposals in
    the storage, votes, execution; threads of comments; creation, views, export and the commands on the ledger).
  \<^item> \<open>Federation_Commands\<close>, \<open>Shell\<close>: the commands of \<^verbatim>\<open>cli/federation.rs\<close>, and of \<^verbatim>\<open>main.rs\<close> those on federated proposals
    and the interactive shell.

  \<^bold>\<open>Conventions.\<close> A struct is a record whose fields carry a short prefix, an enum a datatype with the source's
  constructors. Strings and byte vectors are character lists, \<^verbatim>\<open>u64\<close> is a 64-bit word, \<^verbatim>\<open>usize\<close> a natural number, maps are
  finite maps. Every \<^verbatim>\<open>Err\<close>, \<^verbatim>\<open>?\<close> and early return is a branch of a sum; a panic is the value \<open>Panic\<close>. Operations that
  mutate return the new state in every outcome. The clock, the \<^verbatim>\<open>Debug\<close> and JSON texts, hashes and the operating system
  are parameters (\<open>venv\<close>, \<open>ledger_env\<close>, \<open>os_env\<close>, \<open>life_env\<close>, \<open>io_env\<close>, \<open>fenv\<close>, \<open>fed_env\<close>, \<open>com_env\<close>, \<open>cmd_env\<close>,
  \<open>view_env\<close>, \<open>engine_env\<close>, \<open>macro_env\<close>, \<open>net_env\<close>).

  \<^bold>\<open>Fuel.\<close> \<open>execute\<close> and the bytecode interpreter take fuel because \<^verbatim>\<open>While\<close> and recursion need not end; \<open>None\<close> is
  ``not yet''. More fuel never changes a result (\<open>fuel_irrelevant\<close>), and programs without \<^verbatim>\<open>While\<close> and \<^verbatim>\<open>Call\<close> return with
  their size as fuel (\<open>bounded_programs_return\<close>). Parsers and ledger walks are total functions.

  \<^bold>\<open>What is shown.\<close> Machine: frame isolation of calls, termination of bounded programs, simulation mode leaves the storage
  alone, the bytecode agrees with the interpreter on the common fragment. Storage: writes, versions, permissions,
  quotas, transactions and rollback, and that transfers conserve balances over any backend that meets the contract. File
  storage: the files of a key refine a list of versions, rollback of sets restores it on a disk without faults.
  Language: parsing inverts printing, parsers stop where they should, the standard library's behaviour. Ledger: walks
  are exact, persistence round trips, synchronisation converges. Governance: runoff elections, acyclic delegation, the
  life of a proposal, its liveness and its tally. Commands: decisions and percentages are exact although they go through
  doubles, the threaded view ends and is complete, ledgers travel by export and import, a shell session does what the
  program does, and which commands take no effect. Federation: the outcome of a count, the schedule of retries, and that
  a started node stays in its loop. Several properties state where the code departs from its intent; the
  manifest lists them as findings.

  \<^bold>\<open>Not modelled.\<close>
  \<^item> The handler traits of \<^verbatim>\<open>vm/ops\<close>, a second form of the operations that nothing calls and that does not type-check; the
    prototype \<^verbatim>\<open>TypedVM\<close> in \<^verbatim>\<open>typed.rs\<close>; governance templates and the directory \<^verbatim>\<open>identity/\<close>, which are not built.
  \<^item> Definitions of arguments, printing, HTTP routes and log events around the modelled commands; the commands of
    \<^verbatim>\<open>cli/dag_sync.rs\<close>, which print invented values, and those that print the status of a node.
  \<^item> Key generation and signatures, which call cryptographic libraries, the network library \<^verbatim>\<open>libp2p\<close>; the tracer and the
    display texts of most errors, which nothing reads.
\<close>

section \<open>A machine for the witnesses\<close>

definition demo_vm :: "InMemoryStorage VM" where
  "demo_vm = vm_set_namespace ''default'' (vm_set_auth_context demo_auth (with_storage_backend demo_store))"

lemma demo_vm_unlogged: "unlogged demo_vm"
  by (simp add: unlogged_def demo_vm_def vm_set_namespace_def vm_set_auth_context_def with_storage_backend_def
      vm_set_storage_backend_def vm_new_def)

section \<open>The interpreter\<close>

lemma bounded_run:
  assumes "\<forall>op \<in> set ops. bounded_op op"
  shows "\<exists>r vm'. execute E B (Suc (size_list size ops)) ops vm = Some (r, vm')"
  using execute_inner_total [OF sized_size_list [OF assms], of E B vm]
  by (auto simp: returns_def execute_def simp del: execute_inner.simps)

text \<open>
  fuel. The fuel only bounds how long the interpreter runs: once a run has a result, any larger fuel gives
  the same result.
\<close>

theorem fuel_irrelevant:
  assumes "execute E B n ops vm = Some r" "n \<le> m"
  shows "execute E B m ops vm = Some r"
  using assms unfolding execute_def by (blast intro: execute_inner_mono)

theorem fuel_irrelevant_witness:
  "execute demo_env in_memory 99 [OpPush (Str ''a''), OpStore ''x''] demo_vm =
     execute demo_env in_memory (Suc (size_list size [OpPush (Str ''a''), OpStore ''x''])) [OpPush (Str ''a''), OpStore ''x''] demo_vm"
proof -
  let ?ops = "[OpPush (Str ''a''), OpStore ''x'']"
  obtain r vm' where "execute demo_env in_memory (Suc (size_list size ?ops)) ?ops demo_vm = Some (r, vm')"
    using bounded_run [of ?ops demo_env in_memory demo_vm] by auto
  then show ?thesis using fuel_irrelevant [of demo_env in_memory "Suc (size_list size ?ops)" ?ops demo_vm _ 99] by simp
qed
text \<open>
  C31: programs without \<^verbatim>\<open>While\<close> and \<^verbatim>\<open>Call\<close> return. The interpreter gives a result, a value or an error, on
  every machine and every storage backend, with the size of the program as fuel.
\<close>

theorem bounded_programs_return:
  assumes "\<forall>op \<in> set ops. bounded_op op"
  shows "\<exists>r vm'. execute E B (Suc (size_list size ops)) ops vm = Some (r, vm')"
  using assms by (rule bounded_run)

theorem bounded_programs_return_witness:
  "\<exists>r vm'. execute demo_env in_memory (Suc (size_list size [OpLoop 3 [OpEmit ''x'']])) [OpLoop 3 [OpEmit ''x'']] demo_vm
     = Some (r, vm')"
  by (rule bounded_programs_return) simp

text \<open>
  C30: variables of the caller. A function call that succeeds leaves the global variables and the frames of all
  callers as they were, whatever its body does, and a run at any depth keeps the frame structure: one that
  succeeds ends with as many frames as it began with and has changed only the top one.
\<close>

theorem call_isolation:
  assumes "mem_inv (vm_memory vm)"
  shows "(\<forall>f vm'. exec_call (execute_inner E B n) f vm = Some (Inr (), vm') \<longrightarrow>
            m_memory (vm_memory vm') = m_memory (vm_memory vm) \<and>
            m_call_frames (vm_memory vm') = m_call_frames (vm_memory vm)) \<and>
         (\<forall>ops vm'. execute E B n ops vm = Some (Inr (), vm') \<longrightarrow>
            mem_inv (vm_memory vm') \<and>
            length (m_call_frames (vm_memory vm')) = length (m_call_frames (vm_memory vm)) \<and>
            butlast (m_call_frames (vm_memory vm')) = butlast (m_call_frames (vm_memory vm)))"
proof -
  have "m_memory (vm_memory vm') = m_memory (vm_memory vm) \<and> m_call_frames (vm_memory vm') = m_call_frames (vm_memory vm)"
    if "exec_call (execute_inner E B n) f vm = Some (Inr (), vm')" for f vm'
    using exec_call_frames(3) [OF assms execute_inner_ok that] by simp
  moreover have "local_change (vm_memory vm) (vm_memory vm')" if "execute E B n ops vm = Some (Inr (), vm')" for ops vm'
    using runner_okD [OF execute_inner_ok _ assms] that by (force simp: execute_def)
  ultimately show ?thesis unfolding local_change_def by blast
qed

theorem call_isolation_witness:
  "\<exists>vm'. execute demo_env in_memory 3 [OpPush (Str ''v''), OpStore ''x'', OpDef ''f'' [''x''] [OpPush (Str ''w''), OpStore ''x'', OpReturn],
       OpPush (Str ''a''), OpCall ''f''] demo_vm = Some (Inr (), vm') \<and>
     mem_inv (vm_memory vm') \<and> m_call_frames (vm_memory vm') = []"
proof -
  let ?ops = "[OpPush (Str ''v''), OpStore ''x'', OpDef ''f'' [''x''] [OpPush (Str ''w''), OpStore ''x'', OpReturn],
       OpPush (Str ''a''), OpCall ''f'']"
  have "map_option fst (execute demo_env in_memory 3 ?ops demo_vm) = Some (Inr ())" by code_simp
  then obtain vm' where vm': "execute demo_env in_memory 3 ?ops demo_vm = Some (Inr (), vm')" by auto
  have "mem_inv (vm_memory demo_vm)" "m_call_frames (vm_memory demo_vm) = []"
    by (simp_all add: demo_vm_def vm_set_namespace_def vm_set_auth_context_def with_storage_backend_def
        vm_set_storage_backend_def vm_new_def) (simp add: mem_new_def)
  with call_isolation [of demo_vm demo_env in_memory 3] vm' show ?thesis by fastforce
qed

text \<open>Running a block a number of times, stopping at the first error.\<close>

primrec repeat_times :: "nat \<Rightarrow> ('s VM \<Rightarrow> (unit, 's) vm_result option) \<Rightarrow> 's VM \<Rightarrow> (unit, 's) vm_result option" where
  "repeat_times 0 f vm = Some (Inr (), vm)"
| "repeat_times (Suc k) f vm = obind (f vm) (\<lambda>_. repeat_times k f)"

lemma exec_loop_repeat:
  "obind (exec_loop inner body k LC_None vm) (\<lambda>_ vm'. Some (Inr (), vm')) = repeat_times k (inner body) vm"
proof (induction k arbitrary: vm)
  case (Suc k)
  show ?case
  proof (cases "inner body vm")
    case (Some x)
    obtain q vm1 where "x = (q, vm1)" by fastforce
    then show ?thesis using Some Suc.IH [of vm1] by (cases q) simp_all
  qed simp
qed simp

text \<open>
  what \<^verbatim>\<open>Loop\<close>, \<^verbatim>\<open>Break\<close> and \<^verbatim>\<open>Continue\<close> do. A loop runs its body the full number of times unless the body
  fails; \<^verbatim>\<open>Break\<close> and \<^verbatim>\<open>Continue\<close> end the block they are in and do not reach the loop, since the loop runs its
  body in a nested call that has its own \<^verbatim>\<open>loop_control\<close>.
\<close>

theorem loop_runs_every_round:
  assumes "unlogged vm"
  shows "execute E B (Suc n) [OpLoop k body] vm = repeat_times k (execute E B n body) vm \<and>
    execute E B (Suc n) (OpBreak # rest) vm = Some (Inr (), vm) \<and>
    execute E B (Suc n) (OpContinue # rest) vm = Some (Inr (), vm)"
proof -
  have "obind (obind m (\<lambda>lc vm'. Some (Inr (Go lc), vm')))
        (\<lambda>fl vm1. case fl of Go lc' \<Rightarrow> exec_ops E B (execute_inner E B n) n [] lc' vm1 | Stop \<Rightarrow> Some (Inr (), vm1))
      = obind m (\<lambda>_ vm'. Some (Inr (), vm'))" for m
    by (auto simp: obind_def split: option.splits sum.splits)
  moreover have "\<not> vm_simulation_mode vm" using assms by (simp add: unlogged_def)
  ultimately show ?thesis
    using exec_loop_repeat [of "execute_inner E B n" body k vm] assms
    by (simp add: execute_def [abs_def] exec_op_def dispatch_def stopping_def)
qed

theorem loop_runs_every_round_witness:
  "execute demo_env in_memory 2 [OpLoop 2 [OpEmit ''x'', OpBreak]] demo_vm =
     repeat_times 2 (execute demo_env in_memory 1 [OpEmit ''x'', OpBreak]) demo_vm"
proof -
  have "unlogged demo_vm" by (rule demo_vm_unlogged)
  from loop_runs_every_round [OF this, of demo_env in_memory 1 2 "[OpEmit ''x'', OpBreak]"]
  show ?thesis by (simp add: numeral_2_eq_2)
qed

text \<open>
  a governance operation ends the block it is in. The dispatcher returns as soon as the governance
  module has handled the operation, so the operations after it never run.
\<close>

theorem governance_op_ends_block:
  "execute E B n (OpRankedVote c b # rest) vm = execute E B n [OpRankedVote c b] vm \<and>
   execute E B n (OpLiquidDelegate x y # rest) vm = execute E B n [OpLiquidDelegate x y] vm \<and>
   execute E B n (OpVoteThreshold t # rest) vm = execute E B n [OpVoteThreshold t] vm \<and>
   execute E B n (OpQuorumThreshold t # rest) vm = execute E B n [OpQuorumThreshold t] vm"
proof -
  have "execute E B n (op # rest) vm = execute E B n [op] vm" if "dispatch op = D_Other" "\<not> simulated op" for op
    using that
    by (cases n) (auto simp: execute_def exec_op_def Let_def stopping_def obind_def split: option.splits sum.splits prod.splits)
  then show ?thesis by (simp add: dispatch_def simulated_def)
qed

section \<open>Simulation mode\<close>

text \<open>
  C5: simulation mode does not touch the storage. A run in simulation mode of a program that, with the
  functions it can call, does not use \<^verbatim>\<open>IncrementReputation\<close> ends, in success or error, with the storage
  backend it began with.
\<close>

theorem simulation_keeps_storage:
  assumes "vm_simulation_mode vm" "quiet_functions (vm_memory vm)" "\<forall>op \<in> set ops. quiet_op op"
    "execute E B n ops vm = Some (r, vm')"
  shows "ex_storage_backend (vm_executor vm') = ex_storage_backend (vm_executor vm)"
proof -
  have "simulating (backend_of vm) vm" using assms(1,2) by (simp add: simulating_def)
  from sim.execute_keeps [OF this assms(3,4)] show ?thesis by (simp add: simulating_def backend_of_def)
qed

theorem simulation_keeps_storage_witness:
  "\<exists>r vm'. execute demo_env in_memory (Suc (size_list size [OpCreateResource ''gold''])) [OpCreateResource ''gold''] (set_simulation_mode True demo_vm) = Some (r, vm') \<and>
     ex_storage_backend (vm_executor vm') = Some demo_store"
proof -
  obtain r vm' where run: "execute demo_env in_memory (Suc (size_list size [OpCreateResource ''gold''])) [OpCreateResource ''gold''] (set_simulation_mode True demo_vm) = Some (r, vm')"
    using bounded_run [of "[OpCreateResource ''gold'']" demo_env in_memory "set_simulation_mode True demo_vm"] by auto
  have "vm_simulation_mode (set_simulation_mode True demo_vm)" "quiet_functions (vm_memory (set_simulation_mode True demo_vm))"
    "ex_storage_backend (vm_executor (set_simulation_mode True demo_vm)) = Some demo_store"
    by (simp_all add: quiet_functions_def set_simulation_mode_def demo_vm_def vm_set_namespace_def vm_set_auth_context_def
        with_storage_backend_def vm_set_storage_backend_def vm_new_def mem_new_def set_storage_backend_def
        set_auth_context_def set_namespace_def)
  with simulation_keeps_storage [OF this(1,2) _ run] run show ?thesis by auto
qed

text \<open>
  \<^verbatim>\<open>IncrementReputation\<close> is not simulated. It is missing from the operations simulation mode intercepts, so
  a simulated run writes the new reputation to the storage.
\<close>

theorem simulation_writes_reputation:
  "im_look demo_store ''default'' (reputation_key ''bob'') = None \<and>
   (\<exists>vm' s. execute demo_env in_memory 1 [OpIncrementReputation ''bob'' None None] (set_simulation_mode True demo_vm) = Some (Inr (), vm') \<and>
      vm_simulation_mode vm' \<and> ex_storage_backend (vm_executor vm') = Some s \<and>
      im_look s ''default'' (reputation_key ''bob'') = Some ''1'')"
proof -
  let ?r = "execute demo_env in_memory 1 [OpIncrementReputation ''bob'' None None] (set_simulation_mode True demo_vm)"
  have "map_option (\<lambda>(q, vm). (q, vm_simulation_mode vm,
          map_option (\<lambda>s. im_look s ''default'' (reputation_key ''bob'')) (ex_storage_backend (vm_executor vm)))) ?r
      = Some (Inr (), True, Some (Some ''1''))" by code_simp
  then have "\<exists>vm' s. ?r = Some (Inr (), vm') \<and> vm_simulation_mode vm' \<and> ex_storage_backend (vm_executor vm') = Some s \<and>
      im_look s ''default'' (reputation_key ''bob'') = Some ''1''"
    by (auto simp del: One_nat_def)
  moreover have "im_look demo_store ''default'' (reputation_key ''bob'') = None" by code_simp
  ultimately show ?thesis by blast
qed


section \<open>Bytecode\<close>

text \<open>
  C1: the bytecode engine agrees with the interpreter. For a program of the fragment both engines implement
  (arithmetic, comparison and logic, stack and variables, output, persistent values and resources, with
  conditionals, while loops and loops of at most five rounds), with the modes that write extra output off:
  when the interpreter returns a result, running the compiled program with enough fuel returns the same
  result, error or not, and leaves the same machine, storage included.
\<close>

theorem bytecode_agrees:
  assumes "compilables ops" "unlogged vm" "execute E B n ops vm = Some (r, vm')"
  shows "\<exists>m b. (\<forall>k \<ge> m. bytecode_execute E dbg B k (interpreter_new vm (compile ops)) = Some (r, b)) \<and> bi_vm b = vm'"
  using assms by (rule compiler_correct)

theorem bytecode_agrees_witness:
  "\<exists>r vm' m b. execute demo_env in_memory (Suc (size_list size [OpPush (Str ''v''), OpStoreP ''k'', OpIf [OpLoadP ''k''] [OpEmit ''yes''] (Some [OpEmit ''no''])]))
       [OpPush (Str ''v''), OpStoreP ''k'', OpIf [OpLoadP ''k''] [OpEmit ''yes''] (Some [OpEmit ''no''])] demo_vm = Some (r, vm') \<and>
     (\<forall>k \<ge> m. bytecode_execute demo_env (\<lambda>_. '''') in_memory k (interpreter_new demo_vm (compile
       [OpPush (Str ''v''), OpStoreP ''k'', OpIf [OpLoadP ''k''] [OpEmit ''yes''] (Some [OpEmit ''no'']) ])) = Some (r, b)) \<and>
     bi_vm b = vm'"
proof -
  let ?ops = "[OpPush (Str ''v''), OpStoreP ''k'', OpIf [OpLoadP ''k''] [OpEmit ''yes''] (Some [OpEmit ''no''])]"
  obtain r vm' where run: "execute demo_env in_memory (Suc (size_list size ?ops)) ?ops demo_vm = Some (r, vm')"
    using bounded_run [of ?ops demo_env in_memory demo_vm] by auto
  have "compilables ?ops" by (simp add: plain_op_def)
  moreover have "unlogged demo_vm" by (rule demo_vm_unlogged)
  ultimately show ?thesis using bytecode_agrees [OF _ _ run, of "\<lambda>_. ''''"] run by blast
qed



text \<open>
  \<^verbatim>\<open>IncrementReputation\<close> in bytecode never ends. The interpreter's branch for the instruction appends the
  instruction to the running program instead of updating a reputation, so the program counter never reaches
  the end: no fuel gives a result.
\<close>

theorem bytecode_reputation_diverges:
  "bytecode_execute E dbg B n (interpreter_new vm (compile [OpIncrementReputation i a reason])) = None"
proof -
  let ?i = "BIncrementReputation i (map_option Number a) reason"
  have "run E dbg B n \<lparr>bi_pc = k, bi_program = replicate (Suc k) ?i, bi_vm = vm\<rparr> = None" for k
  proof (induction n arbitrary: k)
    case (Suc n)
    have "(replicate (Suc k) ?i) ! k = ?i" by (simp del: replicate_Suc)
    moreover have "replicate (Suc k) ?i @ [?i] = replicate (Suc (Suc k)) ?i"
      by (simp add: replicate_append_same)
    ultimately show ?case using Suc.IH [of "Suc k"]
      by (simp add: execute_instruction_def del: replicate_Suc)
  qed simp
  from this [of 0] show ?thesis
    by (simp add: bytecode_execute_def interpreter_new_def compile_def compile_ops_def simple_code_def Let_def)
qed

text \<open>
  \<^verbatim>\<open>Negate\<close> in bytecode is the logical not. On a number the interpreter pushes its negative; the bytecode
  engine pushes the boolean that is true just for zero.
\<close>

theorem bytecode_negate_differs:
  assumes "unlogged vm"
  shows "execute E B 1 [OpPush (Number x), OpNegate] vm = Some (Inr (), vm_push (Number (f64_neg x)) vm) \<and>
    map_option (\<lambda>(r, b). (r, bi_vm b)) (bytecode_execute E dbg B 3 (interpreter_new vm (compile [OpPush (Number x), OpNegate]))) =
      Some (Inr (), vm_push (Boolean (is_falsey (Number x))) vm)"
proof -
  have pop: "pop_one s (vm_push v vm) = (Inr v, vm)" for s v
    by (simp add: pop_one_def on_stack_def vm_push_def)
  have nots: "execute_logical (Number x) ''not'' = Inr (Boolean (is_falsey (Number x)))"
    by (simp add: execute_logical_def tv_logical_simps)
  have "\<not> vm_simulation_mode vm" "\<not> vm_simulation_mode (vm_push (Number x) vm)"
    using assms by (simp_all add: unlogged_def vm_push_def)
  moreover have "unlogged (vm_push (Number x) vm)" using assms by simp
  ultimately have "execute E B 1 [OpPush (Number x), OpNegate] vm = Some (Inr (), vm_push (Number (f64_neg x)) vm)"
    using assms pop by (simp add: execute_def exec_op_def dispatch_def going_def exec_basic_def bindE_def)
  moreover have "map_option (\<lambda>(r, b). (r, bi_vm b)) (bytecode_execute E dbg B 3 (interpreter_new vm (compile [OpPush (Number x), OpNegate]))) =
      Some (Inr (), vm_push (Boolean (is_falsey (Number x))) vm)"
    using pop nots
    by (simp add: bytecode_execute_def interpreter_new_def compile_def compile_ops_def simple_code_def Let_def
        eval_nat_numeral execute_instruction_def on_vm_def unary_not_def bindE_def)
  ultimately show ?thesis by blast
qed

theorem bytecode_negate_differs_witness:
  "execute demo_env in_memory 1 [OpPush (Number (f64_of_int 2)), OpNegate] demo_vm =
     Some (Inr (), vm_push (Number (f64_neg (f64_of_int 2))) demo_vm)"
proof -
  have "unlogged demo_vm" by (rule demo_vm_unlogged)
  from bytecode_negate_differs [OF this] show ?thesis by blast
qed

section \<open>Persistent values\<close>

text \<open>
  \<^verbatim>\<open>StoreP\<close> and \<^verbatim>\<open>LoadP\<close>. A value stored by the machine over the in-memory storage is what it loads again,
  except that a string comes back inside quotes: the text of a value quotes strings and reading the text back
  does not take the quotes off.
\<close>

theorem persistent_value_roundtrip:
  assumes "execute_store_p E in_memory key v x = (Inr u, x')" "tv_wf v" "valid_utf8 (tv_display v)"
    "ex_storage_backend x \<noteq> None"
  shows "fst (execute_load_p E in_memory key missing x') = Inr (case v of Str t \<Rightarrow> Str (dquoted t) | _ \<Rightarrow> v)"
  using assms by (rule storage_backend.store_p_load_p [OF im.storage_backend_axioms])

end
